(* ===== verification/Prelude.thy ===== *)
theory Prelude
  imports Complex_Main "HOL-Library.AList" "HOL-Library.Multiset" "HOL-Library.Sublist"
    "HOL-Library.List_Lexorder" "HOL-Library.Char_ord"
begin

text \<open>
  Shared ground of the development: the collections of rewrite rules, lemmas on lists that the
  components share (retained windows, stable sorting by a comparator, loops as folds), and the
  interface of a keyed container. The dashboard keeps its state in two such containers: the
  \<^verbatim>\<open>Map\<close> object (insertion order) and the plain object used as a \<^verbatim>\<open>Record\<close>
  (integer-like keys first, then insertion order). Both are association lists with distinct
  keys; the locales below state what the clients rely on.
\<close>

named_theorems dict_simps "lookups after writes, for both kinds of keyed container"
named_theorems readout_simps "field selections that a property proof unfolds"

subsection \<open>Null coalescing and retained tails\<close>

text \<open>\<^verbatim>\<open>a ?? b\<close> on values whose absence is \<^term>\<open>None\<close>.\<close>

definition coalesce :: "'a option \<Rightarrow> 'a option \<Rightarrow> 'a option" where
  "coalesce a b = (case a of None \<Rightarrow> b | Some x \<Rightarrow> Some x)"

text \<open>\<^verbatim>\<open>xs.slice(-n)\<close> for a positive \<open>n\<close>: the last \<open>n\<close> elements.\<close>

definition take_last :: "nat \<Rightarrow> 'a list \<Rightarrow> 'a list" where
  "take_last n xs = drop (length xs - n) xs"

text \<open>\<^verbatim>\<open>xs[xs.length - 1]\<close> and \<^verbatim>\<open>xs.at(-1)\<close>: undefined on an empty array.\<close>

definition last_opt :: "'a list \<Rightarrow> 'a option" where
  "last_opt xs = (if xs = [] then None else Some (last xs))"

text \<open>Reading an array by index: \<^verbatim>\<open>undefined\<close> out of range.\<close>

definition nth_opt :: "'a list \<Rightarrow> nat \<Rightarrow> 'a option" where
  "nth_opt xs i = (if i < length xs then Some (xs ! i) else None)"

lemma coalesce_simps [simp]:
  "coalesce None b = b" "coalesce (Some x) b = Some x" "coalesce a None = a"
  by (simp_all add: coalesce_def split: option.split)

lemma coalesce_eq_None [simp]: "coalesce a b = None \<longleftrightarrow> a = None \<and> b = None"
  by (cases a) auto

lemma length_take_last [simp]: "length (take_last n xs) = min n (length xs)"
  by (simp add: take_last_def)

lemma take_last_short [simp]: "length xs \<le> n \<Longrightarrow> take_last n xs = xs"
  by (simp add: take_last_def)

lemma set_take_last: "set (take_last n xs) \<subseteq> set xs"
  by (simp add: take_last_def set_drop_subset)

lemma take_last_snoc:
  "0 < n \<Longrightarrow> take_last n (xs @ [x]) = take_last (n - 1) xs @ [x]"
  by (cases n) (auto simp: take_last_def)

lemma take_last_take_last_snoc:
  "take_last n (take_last n xs @ [x]) = take_last n (xs @ [x])"
  by (cases "length xs \<le> n") (auto simp: take_last_def Suc_diff_le)

lemma take_last_absorb: "take_last n (take_last n xs @ ys) = take_last n (xs @ ys)"
proof (induction ys rule: rev_induct)
  case Nil
  then show ?case by (simp add: take_last_def)
next
  case (snoc y ys)
  then show ?case
    using take_last_take_last_snoc [of n "take_last n xs @ ys" y]
      take_last_take_last_snoc [of n "xs @ ys" y] by simp
qed

lemma last_opt_snoc [simp]: "last_opt (xs @ [x]) = Some x"
  by (simp add: last_opt_def)

lemma last_opt_Nil [simp]: "last_opt [] = None"
  by (simp add: last_opt_def)

lemma last_opt_None [simp]: "last_opt xs = None \<longleftrightarrow> xs = []"
  by (simp add: last_opt_def)

lemma set_map_filter_iff: "y \<in> set (List.map_filter f xs) \<longleftrightarrow> (\<exists>x \<in> set xs. f x = Some y)"
  by (force simp: List.map_filter_def)

lemma map_filter_Cons:
  "List.map_filter f (x # xs) =
    (case f x of None \<Rightarrow> List.map_filter f xs | Some y \<Rightarrow> y # List.map_filter f xs)"
  by (simp add: List.map_filter_def split: option.split)

subsection \<open>Loops as folds\<close>

lemma foldl_invariant:
  assumes "P a" and "\<And>a x. P a \<Longrightarrow> x \<in> set xs \<Longrightarrow> P (f a x)"
  shows "P (foldl f a xs)"
  using assms by (induction xs arbitrary: a) auto

lemma foldl_frame:
  assumes "\<And>a x. g (f a x) = g a"
  shows "g (foldl f a xs) = g a"
  using assms by (induction xs arbitrary: a) auto

subsection \<open>Stable sorting by a comparator\<close>

text \<open>
  \<^verbatim>\<open>Array.prototype.sort\<close> with a comparator is stable, so for a comparator that is a
  total preorder the result is unique: the one insertion sort computes. \<open>le a b\<close> stands
  for \<^verbatim>\<open>compare(a, b) <= 0\<close>.
\<close>

fun insert_by :: "('a \<Rightarrow> 'a \<Rightarrow> bool) \<Rightarrow> 'a \<Rightarrow> 'a list \<Rightarrow> 'a list" where
  "insert_by le x [] = [x]"
| "insert_by le x (y # ys) = (if le x y then x # y # ys else y # insert_by le x ys)"

definition sort_by :: "('a \<Rightarrow> 'a \<Rightarrow> bool) \<Rightarrow> 'a list \<Rightarrow> 'a list" where
  "sort_by le xs = foldr (insert_by le) xs []"

lemma mset_insert_by [simp]: "mset (insert_by le x xs) = add_mset x (mset xs)"
  by (induction xs) auto

lemma mset_sort_by [simp]: "mset (sort_by le xs) = mset xs"
  unfolding sort_by_def by (induction xs) auto

lemma set_sort_by [simp]: "set (sort_by le xs) = set xs"
  by (metis mset_sort_by set_mset_mset)

lemma length_sort_by [simp]: "length (sort_by le xs) = length xs"
  by (metis mset_sort_by size_mset)

lemma distinct_sort_by [simp]: "distinct (sort_by le xs) = distinct xs"
  by (metis mset_sort_by mset_eq_imp_distinct_iff)

locale comparator =
  fixes le :: "'a \<Rightarrow> 'a \<Rightarrow> bool"
  assumes le_total: "le x y \<or> le y x"
    and le_trans: "le x y \<Longrightarrow> le y z \<Longrightarrow> le x z"
begin

lemma sorted_insert_by: "sorted_wrt le xs \<Longrightarrow> sorted_wrt le (insert_by le x xs)"
proof (induction xs)
  case (Cons y ys)
  have elems: "set (insert_by le x ys) = insert x (set ys)"
    by (metis mset_insert_by set_mset_add_mset_insert set_mset_mset)
  show ?case
  proof (cases "le x y")
    case True
    with Cons.prems show ?thesis by (auto intro: le_trans)
  next
    case False
    then have "le y x" using le_total by blast
    with False Cons elems show ?thesis by auto
  qed
qed simp

lemma sorted_sort_by: "sorted_wrt le (sort_by le xs)"
  unfolding sort_by_def by (induction xs) (auto intro: sorted_insert_by)

lemma insert_by_least: "(\<And>y. y \<in> set xs \<Longrightarrow> le x y) \<Longrightarrow> insert_by le x xs = x # xs"
  by (cases xs) auto

lemma sort_by_sorted: "sorted_wrt le xs \<Longrightarrow> sort_by le xs = xs"
proof (induction xs)
  case (Cons x xs)
  then have "sort_by le xs = xs" by simp
  with Cons.prems show ?case
    by (simp add: sort_by_def insert_by_least)
qed (simp add: sort_by_def)

lemma sort_by_idem: "sort_by le (sort_by le xs) = sort_by le xs"
  by (rule sort_by_sorted [OF sorted_sort_by])

end

text \<open>
  The default \<^verbatim>\<open>sort()\<close> of an array of strings orders them by code units, which is the
  lexicographic order of the library.
\<close>

interpretation code_units: comparator "(\<le>) :: string \<Rightarrow> string \<Rightarrow> bool"
  by unfold_locales auto

definition sort_strings :: "string list \<Rightarrow> string list" where
  "sort_strings = sort_by (\<le>)"

lemma set_sort_strings [simp]: "set (sort_strings xs) = set xs"
  by (simp add: sort_strings_def)

lemma sorted_sort_strings: "sorted (sort_strings xs)"
  using code_units.sorted_sort_by by (simp add: sort_strings_def)

lemma distinct_sort_strings [simp]: "distinct (sort_strings xs) = distinct xs"
  by (simp add: sort_strings_def)

lemma sort_strings_idem: "sort_strings (sort_strings xs) = sort_strings xs"
  by (simp add: sort_strings_def code_units.sort_by_idem)

subsection \<open>Keyed containers\<close>

text \<open>What a client of a keyed container relies on.\<close>

locale keyed =
  fixes get :: "'d \<Rightarrow> 'k \<Rightarrow> 'v option"
    and put :: "'k \<Rightarrow> 'v \<Rightarrow> 'd \<Rightarrow> 'd"
    and keys :: "'d \<Rightarrow> 'k list"
  assumes get_put: "get (put k v d) = (get d)(k \<mapsto> v)"
    and keys_get: "set (keys d) = dom (get d)"
    and distinct_put: "distinct (keys d) \<Longrightarrow> distinct (keys (put k v d))"
    and put_known: "k \<in> set (keys d) \<Longrightarrow> keys (put k v d) = keys d"
begin

lemma get_put_same: "get (put k v d) k = Some v"
  by (simp add: get_put)

lemma get_put_other: "k' \<noteq> k \<Longrightarrow> get (put k v d) k' = get d k'"
  by (simp add: get_put)

lemma set_keys_put: "set (keys (put k v d)) = insert k (set (keys d))"
  by (simp add: keys_get get_put)

lemma get_put_all: "get (foldl (\<lambda>d (k, v). put k v d) d es) = get d ++ map_of (rev es)"
proof (induction es arbitrary: d)
  case (Cons e es)
  then show ?case
    by (cases e) (auto simp: get_put fun_eq_iff map_add_def split: option.splits)
qed simp

lemma distinct_put_all:
  "distinct (keys d) \<Longrightarrow> distinct (keys (foldl (\<lambda>d (k, v). put k v d) d es))"
  by (rule foldl_invariant) (auto intro: distinct_put split: prod.split)

lemma set_keys_put_all:
  "set (keys (foldl (\<lambda>d (k, v). put k v d) d es)) = set (keys d) \<union> fst ` set es"
  by (auto simp: keys_get get_put_all dom_map_of_conv_image_fst)

end

locale keyed_del = keyed get put keys
  for get :: "'d \<Rightarrow> 'k \<Rightarrow> 'v option"
    and put :: "'k \<Rightarrow> 'v \<Rightarrow> 'd \<Rightarrow> 'd"
    and keys :: "'d \<Rightarrow> 'k list" +
  fixes del :: "'k \<Rightarrow> 'd \<Rightarrow> 'd"
  assumes get_del: "get (del k d) = (get d)(k := None)"
    and keys_del: "keys (del k d) = filter (\<lambda>k'. k' \<noteq> k) (keys d)"
begin

lemma distinct_del: "distinct (keys d) \<Longrightarrow> distinct (keys (del k d))"
  by (simp add: keys_del)

lemma put_after_del:
  "get (put k v (del k d)) = get (put k v d)"
  by (simp add: get_put get_del)

end

subsubsection \<open>The Map object\<close>

text \<open>
  \<^verbatim>\<open>Map.prototype.set\<close> keeps the position of a known key and appends a new one:
  \<^const>\<open>AList.update\<close>. \<^verbatim>\<open>Map.prototype.delete\<close> drops the entry.
\<close>

definition map_del :: "'k \<Rightarrow> ('k \<times> 'v) list \<Rightarrow> ('k \<times> 'v) list" where
  "map_del k m = filter (\<lambda>(k', _). k' \<noteq> k) m"

definition map_keys :: "('k \<times> 'v) list \<Rightarrow> 'k list" where
  "map_keys m = map fst m"

definition map_values :: "('k \<times> 'v) list \<Rightarrow> 'v list" where
  "map_values m = map snd m"

lemma map_del_conv: "map_of (map_del k m) = (map_of m)(k := None)"
  by (induction m) (auto simp: map_del_def fun_eq_iff)

lemma map_keys_del: "map_keys (map_del k m) = filter (\<lambda>k'. k' \<noteq> k) (map_keys m)"
  by (induction m) (auto simp: map_del_def map_keys_def)

lemma update_known_keys: "k \<in> set (map fst m) \<Longrightarrow> map fst (AList.update k v m) = map fst m"
  by (induction m) auto

interpretation js_map: keyed_del map_of AList.update map_keys map_del
proof unfold_locales
  show "map_of (AList.update k v d) = (map_of d)(k \<mapsto> v)" for k and v :: 'b and d
    by (rule update_conv')
  show "set (map_keys d) = dom (map_of d)" for d :: "('a \<times> 'b) list"
    by (simp add: map_keys_def dom_map_of_conv_image_fst)
  show "distinct (map_keys d) \<Longrightarrow> distinct (map_keys (AList.update k v d))"
    for d k and v :: 'b
    unfolding map_keys_def by (rule distinct_update)
  show "k \<in> set (map_keys d) \<Longrightarrow> map_keys (AList.update k v d) = map_keys d"
    for d k and v :: 'b
    unfolding map_keys_def by (rule update_known_keys)
  show "map_of (map_del k d) = (map_of d)(k := None)" for d :: "('a \<times> 'b) list" and k
    by (rule map_del_conv)
  show "map_keys (map_del k d) = filter (\<lambda>k'. k' \<noteq> k) (map_keys d)"
    for d :: "('a \<times> 'b) list" and k
    by (rule map_keys_del)
qed

lemma map_set_fresh: "k \<notin> set (map fst m) \<Longrightarrow> AList.update k v m = m @ [(k, v)]"
  by (induction m) auto

text \<open>Deleting a key and setting it again moves it to the end.\<close>

lemma map_move_last: "AList.update k v (map_del k m) = map_del k m @ [(k, v)]"
  by (rule map_set_fresh) (auto simp: map_del_def)

subsubsection \<open>The plain object as a Record\<close>

text \<open>
  An own property whose name is the canonical decimal form of an integer below \<open>2^32 - 1\<close> is
  an array index; those are enumerated first, in ascending order, and the others follow in
  insertion order.
\<close>

definition digit_val :: "char \<Rightarrow> int" where
  "digit_val c = of_char c - 48"

definition is_digit :: "char \<Rightarrow> bool" where
  "is_digit c \<longleftrightarrow> 48 \<le> (of_char c :: nat) \<and> (of_char c :: nat) \<le> 57"

definition int_of_digits :: "string \<Rightarrow> int" where
  "int_of_digits s = foldl (\<lambda>n c. 10 * n + digit_val c) 0 s"

definition array_index :: "string \<Rightarrow> int option" where
  "array_index k =
     (if k = [] \<or> \<not> list_all is_digit k \<or> (length k > 1 \<and> hd k = CHR ''0'') then None
      else if int_of_digits k < 4294967295 then Some (int_of_digits k) else None)"

definition index_before :: "int \<Rightarrow> string \<times> 'v \<Rightarrow> bool" where
  "index_before i e = (case array_index (fst e) of None \<Rightarrow> False | Some j \<Rightarrow> j < i)"

definition obj_set :: "string \<Rightarrow> 'v \<Rightarrow> (string \<times> 'v) list \<Rightarrow> (string \<times> 'v) list" where
  "obj_set k v ob =
     (if k \<in> set (map fst ob) then AList.update k v ob
      else case array_index k of
        None \<Rightarrow> ob @ [(k, v)]
      | Some i \<Rightarrow> takeWhile (index_before i) ob @ (k, v) # dropWhile (index_before i) ob)"

text \<open>\<^verbatim>\<open>{ ...a, ...b }\<close> writes the entries of \<open>b\<close> over a copy of \<open>a\<close>.\<close>

definition obj_merge :: "(string \<times> 'v) list \<Rightarrow> (string \<times> 'v) list \<Rightarrow> (string \<times> 'v) list" where
  "obj_merge a b = foldl (\<lambda>d (k, v). obj_set k v d) a b"

lemma map_of_insert_mid:
  "k \<notin> set (map fst (xs @ ys)) \<Longrightarrow> map_of (xs @ (k, v) # ys) = (map_of (xs @ ys))(k \<mapsto> v)"
  by (induction xs) (auto simp: fun_eq_iff)

lemma obj_set_split:
  assumes "k \<notin> set (map fst ob)"
  obtains xs ys where "ob = xs @ ys" and "obj_set k v ob = xs @ (k, v) # ys"
proof (cases "array_index k")
  case None
  with assms show ?thesis by (intro that [of ob "[]"]) (auto simp: obj_set_def)
next
  case (Some i)
  with assms show ?thesis
    by (intro that [of "takeWhile (index_before i) ob" "dropWhile (index_before i) ob"])
      (auto simp: obj_set_def)
qed

lemma map_of_obj_set: "map_of (obj_set k v ob) = (map_of ob)(k \<mapsto> v)"
proof (cases "k \<in> set (map fst ob)")
  case True
  then show ?thesis by (simp add: obj_set_def update_conv')
next
  case False
  then obtain xs ys where "ob = xs @ ys" and "obj_set k v ob = xs @ (k, v) # ys"
    by (rule obj_set_split)
  with False show ?thesis using map_of_insert_mid [of k xs ys v] by simp
qed

lemma distinct_obj_set:
  assumes "distinct (map fst ob)"
  shows "distinct (map fst (obj_set k v ob))"
proof (cases "k \<in> set (map fst ob)")
  case True
  with assms show ?thesis by (simp add: obj_set_def distinct_update)
next
  case False
  then obtain xs ys where "ob = xs @ ys" and "obj_set k v ob = xs @ (k, v) # ys"
    by (rule obj_set_split)
  with False assms show ?thesis by auto
qed

interpretation js_obj: keyed map_of obj_set map_keys
proof unfold_locales
  show "map_of (obj_set k v d) = (map_of d)(k \<mapsto> v)" for k and v :: 'b and d
    by (rule map_of_obj_set)
  show "set (map_keys d) = dom (map_of d)" for d :: "(char list \<times> 'b) list"
    by (simp add: map_keys_def dom_map_of_conv_image_fst)
  show "distinct (map_keys d) \<Longrightarrow> distinct (map_keys (obj_set k v d))" for d k and v :: 'b
    unfolding map_keys_def by (rule distinct_obj_set)
  show "k \<in> set (map_keys d) \<Longrightarrow> map_keys (obj_set k v d) = map_keys d" for d k and v :: 'b
    by (simp add: map_keys_def obj_set_def update_known_keys)
qed

lemma map_of_obj_merge: "map_of (obj_merge a b) = map_of a ++ map_of (rev b)"
  unfolding obj_merge_def by (rule js_obj.get_put_all)

lemma map_of_rev_distinct: "distinct (map fst b) \<Longrightarrow> map_of (rev b) = map_of b"
  by (rule map_of_inject_set [THEN iffD2]) (auto simp: rev_map [symmetric])

lemma get_obj_merge:
  "distinct (map fst b) \<Longrightarrow> map_of (obj_merge a b) k = coalesce (map_of b k) (map_of a k)"
  by (simp add: map_of_obj_merge map_of_rev_distinct map_add_def coalesce_def)

lemma distinct_obj_merge: "distinct (map fst a) \<Longrightarrow> distinct (map fst (obj_merge a b))"
  using js_obj.distinct_put_all [of a b] by (simp add: map_keys_def obj_merge_def)

lemmas container_simps [dict_simps] =
  js_map.get_put js_map.get_del js_obj.get_put map_of_obj_merge

end
