(* ===== verification/JsNumber.thy ===== *)
theory JsNumber
  imports Prelude "HOL-Library.Log_Nat"
begin

text \<open>
  The language's \<^verbatim>\<open>number\<close>: IEEE binary64 with rounding to nearest, ties to even. A finite
  number is kept as the rational it denotes; every arithmetic operation computes the exact
  rational and rounds it with \<open>fl\<close>, and overflow gives an infinity. The sign of zero is not
  kept: no code modelled here divides by a zero whose sign it could observe. The locale
  \<open>rounding\<close> states the laws of \<open>fl\<close> that the components use (it is monotone, odd
  and exact on integers up to \<open>2^53\<close>); it is interpreted on \<open>fl\<close> itself.
\<close>

datatype jsnum = NaN | PInf | NInf | Fin rat

subsection \<open>Rounding to binary64\<close>

text \<open>The exponent of a positive rational: \<open>2^k \<le> q < 2^(k+1)\<close>.\<close>

definition ilog2 :: "rat \<Rightarrow> int" where
  "ilog2 q = (let (a, b) = quotient_of q; k = bitlen a - bitlen b
              in if 2 powi k \<le> q then k else k - 1)"

definition round_half_even :: "rat \<Rightarrow> int" where
  "round_half_even q = (let f = \<lfloor>q\<rfloor>; d = q - of_int f
     in if d < 1 / 2 then f else if d > 1 / 2 then f + 1 else if even f then f else f + 1)"

definition ulp_exp :: "rat \<Rightarrow> int" where
  "ulp_exp q = max (ilog2 q - 52) (- 1074)"

definition fl_pos :: "rat \<Rightarrow> rat" where
  "fl_pos q = of_int (round_half_even (q / 2 powi ulp_exp q)) * 2 powi ulp_exp q"

definition fl :: "rat \<Rightarrow> jsnum" where
  "fl q = (if q = 0 then Fin 0
           else let v = fl_pos \<bar>q\<bar>
                in if 2 ^ 1024 \<le> v then (if 0 < q then PInf else NInf)
                   else Fin (if 0 < q then v else - v))"

lemma round_half_even_of_int [simp]: "round_half_even (of_int n) = n"
  by (simp add: round_half_even_def Let_def)

lemma round_half_even_bounds: "\<lfloor>q\<rfloor> \<le> round_half_even q" "round_half_even q \<le> \<lfloor>q\<rfloor> + 1"
  by (simp_all add: round_half_even_def Let_def)

lemma round_half_even_mono:
  assumes "x \<le> y"
  shows "round_half_even x \<le> round_half_even y"
proof (cases "\<lfloor>x\<rfloor> = \<lfloor>y\<rfloor>")
  case True
  with assms show ?thesis by (auto simp: round_half_even_def Let_def)
next
  case False
  moreover have "\<lfloor>x\<rfloor> \<le> \<lfloor>y\<rfloor>" using assms by (rule floor_mono)
  ultimately have "\<lfloor>x\<rfloor> + 1 \<le> \<lfloor>y\<rfloor>" by linarith
  then show ?thesis using round_half_even_bounds [of x] round_half_even_bounds [of y] by linarith
qed

lemma powi_two_of_nat: "(2 :: rat) powi int n = of_int (2 ^ n)"
  by simp

lemma bitlen_powi_bounds:
  assumes "0 < a"
  shows "(2 :: rat) powi (bitlen a - 1) \<le> of_int a" "(of_int a :: rat) < 2 powi bitlen a"
proof -
  have pos: "1 \<le> bitlen a" using assms bitlen_eq_zero_iff [of a] bitlen_nonneg [of a] by linarith
  from bitlen_bounds [OF assms]
  have b: "2 ^ nat (bitlen a - 1) \<le> a" "a < 2 ^ nat (bitlen a)" by auto
  have "(2 :: rat) powi (bitlen a - 1) = of_int (2 ^ nat (bitlen a - 1))"
    using pos by (simp add: power_int_nonneg_exp)
  also have "\<dots> \<le> of_int a" using b(1) by (simp only: of_int_le_iff)
  finally show "(2 :: rat) powi (bitlen a - 1) \<le> of_int a" .
  have "(of_int a :: rat) < of_int (2 ^ nat (bitlen a))" using b(2) by (simp only: of_int_less_iff)
  also have "\<dots> = 2 powi bitlen a" using pos by (simp add: power_int_nonneg_exp)
  finally show "(of_int a :: rat) < 2 powi bitlen a" .
qed

lemma ilog2_bounds:
  assumes "0 < q"
  shows "2 powi ilog2 q \<le> q" "q < 2 powi (ilog2 q + 1)"
proof -
  obtain a b where ab: "quotient_of q = (a, b)" by fastforce
  then have b: "0 < b" by (rule quotient_of_denom_pos)
  have q: "q = of_int a / of_int b" using ab by (rule quotient_of_div)
  have a: "0 < a" using assms b unfolding q by (simp add: zero_less_divide_iff)
  define k where "k = bitlen a - bitlen b"
  note bounds = bitlen_powi_bounds [OF a] bitlen_powi_bounds [OF b]
  have "q < 2 powi bitlen a / 2 powi (bitlen b - 1)"
    unfolding q using bounds a b by (intro frac_less) auto
  also have "\<dots> = 2 powi (k + 1)"
    by (simp add: k_def power_int_diff [symmetric]) (simp add: algebra_simps)
  finally have hi: "q < 2 powi (k + 1)" .
  have "2 powi (bitlen a - 1) / 2 powi bitlen b < q"
    unfolding q using bounds a b by (intro frac_less2) auto
  then have lo: "2 powi (k - 1) < q" by (simp add: k_def power_int_diff [symmetric] algebra_simps)
  have "ilog2 q = (if 2 powi k \<le> q then k else k - 1)"
    by (simp add: ilog2_def ab k_def Let_def)
  then show "2 powi ilog2 q \<le> q" "q < 2 powi (ilog2 q + 1)"
    using hi lo by (auto split: if_splits)
qed

lemma ilog2_mono:
  assumes "0 < x" "x \<le> y"
  shows "ilog2 x \<le> ilog2 y"
proof -
  have "2 powi ilog2 x < (2 :: rat) powi (ilog2 y + 1)"
    using ilog2_bounds [of x] ilog2_bounds [of y] assms by linarith
  then have "ilog2 x < ilog2 y + 1"
    by (metis linorder_not_le one_le_numeral power_int_increasing order_less_le_trans less_irrefl)
  then show ?thesis by simp
qed

lemma powi_grid:
  assumes "e \<le> k"
  shows "of_int (round_half_even ((2 :: rat) powi k / 2 powi e)) * 2 powi e = (2 :: rat) powi k"
proof -
  obtain n where n: "k = e + int n" using assms by (metis zle_iff_zadd)
  have "(2 :: rat) powi k / 2 powi e = of_int (2 ^ n)"
    by (simp add: n power_int_add)
  then show ?thesis by (simp only: round_half_even_of_int) (simp add: n power_int_add)
qed

lemma ulp_exp_mono: "0 < x \<Longrightarrow> x \<le> y \<Longrightarrow> ulp_exp x \<le> ulp_exp y"
  using ilog2_mono [of x y] by (simp add: ulp_exp_def)

lemma fl_pos_same_grid:
  assumes "x \<le> y" "ulp_exp x = ulp_exp y"
  shows "fl_pos x \<le> fl_pos y"
proof -
  have "x / 2 powi ulp_exp x \<le> y / 2 powi ulp_exp x"
    using assms by (simp add: divide_right_mono)
  from round_half_even_mono [OF this] show ?thesis
    by (simp add: fl_pos_def assms(2))
qed

lemma fl_pos_below_power:
  assumes "0 < x" "x \<le> 2 powi k" "ulp_exp x \<le> k"
  shows "fl_pos x \<le> 2 powi k"
proof -
  have "x / 2 powi ulp_exp x \<le> 2 powi k / 2 powi ulp_exp x"
    using assms by (simp add: divide_right_mono)
  from round_half_even_mono [OF this]
  have "fl_pos x \<le> of_int (round_half_even (2 powi k / 2 powi ulp_exp x)) * 2 powi ulp_exp x"
    by (simp add: fl_pos_def)
  then show ?thesis using powi_grid [OF assms(3)] by simp
qed

lemma fl_pos_above_power:
  assumes "2 powi k \<le> y" "ulp_exp y \<le> k"
  shows "2 powi k \<le> fl_pos y"
proof -
  have "2 powi k / 2 powi ulp_exp y \<le> y / 2 powi ulp_exp y"
    using assms by (simp add: divide_right_mono)
  from round_half_even_mono [OF this]
  have "of_int (round_half_even (2 powi k / 2 powi ulp_exp y)) * 2 powi ulp_exp y \<le> fl_pos y"
    by (simp add: fl_pos_def)
  then show ?thesis using powi_grid [OF assms(2)] by simp
qed

lemma fl_pos_mono:
  assumes "0 < x" "x \<le> y"
  shows "fl_pos x \<le> fl_pos y"
proof (cases "ulp_exp x = ulp_exp y")
  case True
  with assms show ?thesis by (intro fl_pos_same_grid)
next
  case False
  with ulp_exp_mono [OF assms] have less: "ulp_exp x < ulp_exp y" by simp
  then have ey: "ulp_exp y = ilog2 y - 52" and lt: "ilog2 x < ilog2 y"
    by (auto simp: ulp_exp_def max_def split: if_splits)
  have "x < 2 powi (ilog2 x + 1)" using ilog2_bounds assms by simp
  also have "\<dots> \<le> (2 :: rat) powi ilog2 y" using lt by (intro power_int_increasing) auto
  finally have "fl_pos x \<le> 2 powi ilog2 y"
    using assms less ey by (intro fl_pos_below_power) auto
  also have "\<dots> \<le> fl_pos y"
    using assms ey ilog2_bounds [of y] by (intro fl_pos_above_power) auto
  finally show ?thesis .
qed

lemma fl_pos_nonneg:
  assumes "0 < q"
  shows "0 \<le> fl_pos q"
proof -
  have "round_half_even (of_int 0) \<le> round_half_even (q / 2 powi ulp_exp q)"
    using assms by (intro round_half_even_mono) simp
  then show ?thesis by (simp only: round_half_even_of_int) (simp add: fl_pos_def)
qed

text \<open>A rational on its own grid is not moved.\<close>

lemma fl_pos_exact:
  assumes "q = of_int m * 2 powi e" "ulp_exp q \<le> e"
  shows "fl_pos q = q"
proof -
  obtain n where n: "e = ulp_exp q + int n" using assms(2) by (metis zle_iff_zadd)
  have "q / 2 powi ulp_exp q = of_int (m * 2 ^ n)"
    by (subst assms(1)) (simp add: n power_int_add)
  then have "fl_pos q = of_int (m * 2 ^ n) * 2 powi ulp_exp q"
    by (simp only: fl_pos_def round_half_even_of_int)
  also have "\<dots> = q" by (subst (2) assms(1)) (simp add: n power_int_add)
  finally show ?thesis .
qed

lemma fl_pos_nat:
  assumes "0 < n" "n \<le> 2 ^ 53"
  shows "fl_pos (of_int n) = of_int n"
proof (cases "n = 2 ^ 53")
  case True
  have "(2 :: rat) powi ilog2 (of_int n) \<le> 2 powi 53"
    using ilog2_bounds(1) [of "of_int n"] assms True by simp
  then have "ilog2 (of_int n) \<le> 53"
    by (metis linorder_not_le one_less_numeral_iff power_int_strict_increasing semiring_norm(76))
  then have "ulp_exp (of_int n) \<le> 53" by (simp add: ulp_exp_def)
  then show ?thesis using True by (intro fl_pos_exact [where m = 1 and e = 53]) auto
next
  case False
  with assms have "n < 2 ^ 53" by simp
  then have "(of_int n :: rat) < of_int (2 ^ 53)" by (simp only: of_int_less_iff)
  then have "(2 :: rat) powi ilog2 (of_int n) < 2 powi 53"
    using ilog2_bounds(1) [of "of_int n"] assms by simp
  then have "ilog2 (of_int n) < 53"
    by (metis linorder_not_le one_le_numeral power_int_increasing order_less_le_trans less_irrefl)
  then show ?thesis by (intro fl_pos_exact [where m = n and e = 0]) (auto simp: ulp_exp_def)
qed

subsection \<open>Comparison\<close>

fun num_le :: "jsnum \<Rightarrow> jsnum \<Rightarrow> bool" where
  "num_le NaN _ = False"
| "num_le _ NaN = False"
| "num_le NInf _ = True"
| "num_le _ PInf = True"
| "num_le (Fin a) (Fin b) = (a \<le> b)"
| "num_le _ _ = False"

fun num_lt :: "jsnum \<Rightarrow> jsnum \<Rightarrow> bool" where
  "num_lt NaN _ = False"
| "num_lt _ NaN = False"
| "num_lt NInf NInf = False"
| "num_lt NInf _ = True"
| "num_lt PInf _ = False"
| "num_lt _ PInf = True"
| "num_lt (Fin a) (Fin b) = (a < b)"
| "num_lt _ _ = False"

text \<open>\<^verbatim>\<open>===\<close> on numbers: \<^verbatim>\<open>NaN\<close> is equal to nothing.\<close>

definition num_eq :: "jsnum \<Rightarrow> jsnum \<Rightarrow> bool" where
  "num_eq a b \<longleftrightarrow> a \<noteq> NaN \<and> a = b"

fun is_finite :: "jsnum \<Rightarrow> bool" where
  "is_finite (Fin _) = True"
| "is_finite _ = False"

lemma is_finite_iff: "is_finite x \<longleftrightarrow> (\<exists>q. x = Fin q)"
  by (cases x) auto

lemma num_le_refl [simp]: "num_le x x \<longleftrightarrow> x \<noteq> NaN"
  by (cases x) auto

lemma num_le_trans: "num_le x y \<Longrightarrow> num_le y z \<Longrightarrow> num_le x z"
  by (cases x; cases y; cases z) auto

lemma num_le_antisym: "num_le x y \<Longrightarrow> num_le y x \<Longrightarrow> x = y"
  by (cases x; cases y) auto

lemma num_lt_iff: "num_lt x y \<longleftrightarrow> num_le x y \<and> x \<noteq> y"
  by (cases x; cases y) auto

lemma not_num_le: "x \<noteq> NaN \<Longrightarrow> y \<noteq> NaN \<Longrightarrow> \<not> num_le x y \<longleftrightarrow> num_lt y x"
  by (cases x; cases y) auto

lemma num_le_not_NaN: "num_le x y \<Longrightarrow> x \<noteq> NaN \<and> y \<noteq> NaN"
  by (cases x; cases y) auto

text \<open>A number between two finite ones is finite.\<close>

lemma num_between_finite:
  "num_le (Fin a) x \<Longrightarrow> num_le x (Fin b) \<Longrightarrow> \<exists>q. x = Fin q \<and> a \<le> q \<and> q \<le> b"
  by (cases x) auto

subsection \<open>The laws of rounding\<close>

fun num_neg :: "jsnum \<Rightarrow> jsnum" where
  "num_neg NaN = NaN"
| "num_neg PInf = NInf"
| "num_neg NInf = PInf"
| "num_neg (Fin q) = Fin (- q)"

locale rounding =
  fixes rnd :: "rat \<Rightarrow> jsnum"
  assumes rnd_mono: "a \<le> b \<Longrightarrow> num_le (rnd a) (rnd b)"
    and rnd_neg: "rnd (- a) = num_neg (rnd a)"
    and rnd_int: "\<bar>n\<bar> \<le> 2 ^ 53 \<Longrightarrow> rnd (of_int n) = Fin (of_int n)"
begin

lemma rnd_not_NaN: "rnd a \<noteq> NaN"
  using rnd_mono [of a a] by auto

lemma rnd_zero: "rnd 0 = Fin 0"
  using rnd_int [of 0] by simp

lemma rnd_one: "rnd 1 = Fin 1"
  using rnd_int [of 1] by simp

lemma rnd_between:
  assumes "of_int m \<le> a" "a \<le> of_int n" "\<bar>m\<bar> \<le> 2 ^ 53" "\<bar>n\<bar> \<le> 2 ^ 53"
  shows "\<exists>q. rnd a = Fin q \<and> of_int m \<le> q \<and> q \<le> of_int n"
  using rnd_mono [OF assms(1)] rnd_mono [OF assms(2)] assms(3,4)
  by (intro num_between_finite) (simp_all add: rnd_int)

lemma rnd_nonneg: "0 \<le> a \<Longrightarrow> num_le (Fin 0) (rnd a)"
  using rnd_mono [of 0 a] by (simp add: rnd_zero)

text \<open>A proportion of two counts lies in the unit interval.\<close>

lemma rnd_ratio:
  assumes "k \<le> n" "0 < n"
  shows "\<exists>q. rnd (of_nat k / of_nat n) = Fin q \<and> 0 \<le> q \<and> q \<le> 1"
  using rnd_between [of 0 "of_nat k / of_nat n" 1] assms by simp

end

lemma fl_mono: "a \<le> b \<Longrightarrow> num_le (fl a) (fl b)"
proof (cases "0 < a")
  case True
  moreover assume "a \<le> b"
  ultimately show ?thesis
    using fl_pos_mono [of a b] by (auto simp: fl_def Let_def)
next
  case False
  assume le: "a \<le> b"
  show ?thesis
  proof (cases "0 < b")
    case True
    with False show ?thesis
      using fl_pos_nonneg [of b] fl_pos_nonneg [of "- a"]
      by (auto simp: fl_def Let_def order.strict_iff_order)
  next
    case nb: False
    show ?thesis
    proof (cases "b = 0")
      case True
      with False le show ?thesis
        using fl_pos_nonneg [of "- a"] by (auto simp: fl_def Let_def)
    next
      case False
      with nb le show ?thesis
        using fl_pos_mono [of "- b" "- a"] by (auto simp: fl_def Let_def)
    qed
  qed
qed

lemma fl_neg: "fl (- a) = num_neg (fl a)"
  by (simp add: fl_def Let_def)

lemma fl_int:
  assumes "\<bar>n\<bar> \<le> 2 ^ 53"
  shows "fl (of_int n) = Fin (of_int n)"
proof (cases "n = 0")
  case False
  then have pos: "0 < \<bar>n\<bar>" by simp
  have eq: "fl_pos (of_int \<bar>n\<bar>) = of_int \<bar>n\<bar>" by (rule fl_pos_nat [OF pos assms])
  have "(of_int \<bar>n\<bar> :: rat) \<le> of_int (2 ^ 53)" using assms by (simp only: of_int_le_iff)
  then have "\<not> 2 ^ 1024 \<le> (of_int \<bar>n\<bar> :: rat)" by simp
  with eq False show ?thesis by (auto simp: fl_def Let_def)
qed (simp add: fl_def)

interpretation b64: rounding fl
  by unfold_locales (rule fl_mono, assumption, rule fl_neg, rule fl_int)

lemma fl_of_nat: "n \<le> 2 ^ 53 \<Longrightarrow> fl (of_nat n) = Fin (of_nat n)"
  using fl_int [of "int n"] by simp

lemma fl_numeral_small [simp]: "fl 0 = Fin 0" "fl 1 = Fin 1"
  using b64.rnd_zero b64.rnd_one by simp_all

lemma fl_numeral: "(numeral w :: int) \<le> 2 ^ 53 \<Longrightarrow> fl (numeral w) = Fin (numeral w)"
  using fl_int [of "numeral w"] by simp

lemma floor_frac: "\<lfloor>(numeral a :: rat) / numeral b\<rfloor> = numeral a div numeral b"
  using floor_divide_of_int_eq [of "numeral a" "numeral b", where 'a = rat] by simp

subsection \<open>Arithmetic\<close>

fun num_add :: "jsnum \<Rightarrow> jsnum \<Rightarrow> jsnum" where
  "num_add NaN _ = NaN"
| "num_add _ NaN = NaN"
| "num_add PInf NInf = NaN"
| "num_add NInf PInf = NaN"
| "num_add PInf _ = PInf"
| "num_add _ PInf = PInf"
| "num_add NInf _ = NInf"
| "num_add _ NInf = NInf"
| "num_add (Fin a) (Fin b) = fl (a + b)"

definition num_sub :: "jsnum \<Rightarrow> jsnum \<Rightarrow> jsnum" where
  "num_sub a b = num_add a (num_neg b)"

text \<open>The infinity with the sign of a product or quotient.\<close>

definition inf_signed :: "bool \<Rightarrow> jsnum" where
  "inf_signed neg = (if neg then NInf else PInf)"

fun num_mul :: "jsnum \<Rightarrow> jsnum \<Rightarrow> jsnum" where
  "num_mul NaN _ = NaN"
| "num_mul _ NaN = NaN"
| "num_mul (Fin a) (Fin b) = fl (a * b)"
| "num_mul (Fin a) y = (if a = 0 then NaN else inf_signed ((a < 0) \<noteq> (y = NInf)))"
| "num_mul x (Fin b) = (if b = 0 then NaN else inf_signed ((b < 0) \<noteq> (x = NInf)))"
| "num_mul x y = inf_signed ((x = NInf) \<noteq> (y = NInf))"

fun num_div :: "jsnum \<Rightarrow> jsnum \<Rightarrow> jsnum" where
  "num_div NaN _ = NaN"
| "num_div _ NaN = NaN"
| "num_div (Fin a) (Fin b) =
     (if b = 0 then (if a = 0 then NaN else inf_signed (a < 0)) else fl (a / b))"
| "num_div (Fin a) _ = Fin 0"
| "num_div x (Fin b) = inf_signed ((b < 0) \<noteq> (x = NInf))"
| "num_div _ _ = NaN"

text \<open>\<^verbatim>\<open>Math.max\<close>, \<^verbatim>\<open>Math.min\<close> and \<^verbatim>\<open>Math.abs\<close>: \<^verbatim>\<open>NaN\<close> is contagious.\<close>

definition num_max :: "jsnum \<Rightarrow> jsnum \<Rightarrow> jsnum" where
  "num_max a b = (if a = NaN \<or> b = NaN then NaN else if num_le a b then b else a)"

definition num_min :: "jsnum \<Rightarrow> jsnum \<Rightarrow> jsnum" where
  "num_min a b = (if a = NaN \<or> b = NaN then NaN else if num_le a b then a else b)"

fun num_abs :: "jsnum \<Rightarrow> jsnum" where
  "num_abs (Fin q) = Fin \<bar>q\<bar>"
| "num_abs NInf = PInf"
| "num_abs x = x"

text \<open>\<^verbatim>\<open>Math.round\<close>: the nearest integer, halves towards positive infinity.\<close>

fun num_round :: "jsnum \<Rightarrow> jsnum" where
  "num_round (Fin q) = Fin (of_int \<lfloor>q + 1 / 2\<rfloor>)"
| "num_round x = x"

fun num_trunc :: "jsnum \<Rightarrow> jsnum" where
  "num_trunc (Fin q) = Fin (of_int (if 0 \<le> q then \<lfloor>q\<rfloor> else \<lceil>q\<rceil>))"
| "num_trunc x = x"

fun num_sign :: "jsnum \<Rightarrow> jsnum" where
  "num_sign NaN = NaN"
| "num_sign PInf = Fin 1"
| "num_sign NInf = Fin (- 1)"
| "num_sign (Fin q) = Fin (sgn q)"

text \<open>A count held in a \<^verbatim>\<open>number\<close>: exact below \<open>2^53\<close>.\<close>

definition num_of_nat :: "nat \<Rightarrow> jsnum" where
  "num_of_nat n = fl (of_nat n)"

definition num_of_int :: "int \<Rightarrow> jsnum" where
  "num_of_int n = fl (of_int n)"

lemma num_max_ge: "a \<noteq> NaN \<Longrightarrow> b \<noteq> NaN \<Longrightarrow> num_le a (num_max a b) \<and> num_le b (num_max a b)"
  by (cases a; cases b) (auto simp: num_max_def)

lemma num_min_le: "a \<noteq> NaN \<Longrightarrow> b \<noteq> NaN \<Longrightarrow> num_le (num_min a b) a \<and> num_le (num_min a b) b"
  by (cases a; cases b) (auto simp: num_min_def)

text \<open>The clamp \<^verbatim>\<open>Math.max(lo, Math.min(hi, x))\<close>.\<close>

lemma num_clamp:
  assumes "lo \<le> hi" "x \<noteq> NaN"
  shows "\<exists>q. num_max (Fin lo) (num_min (Fin hi) x) = Fin q \<and> lo \<le> q \<and> q \<le> hi"
  using assms by (cases x) (auto simp: num_max_def num_min_def)

text \<open>A finite number within bounds.\<close>

fun num_in :: "rat \<Rightarrow> rat \<Rightarrow> jsnum \<Rightarrow> bool" where
  "num_in lo hi (Fin q) = (lo \<le> q \<and> q \<le> hi)"
| "num_in lo hi _ = False"

lemma num_in_iff: "num_in lo hi x \<longleftrightarrow> (\<exists>q. x = Fin q \<and> lo \<le> q \<and> q \<le> hi)"
  by (cases x) auto

lemma num_in_clamp:
  "lo \<le> hi \<Longrightarrow> x \<noteq> NaN \<Longrightarrow> num_in lo hi (num_max (Fin lo) (num_min (Fin hi) x))"
  using num_clamp by (fastforce simp: num_in_iff)

lemma num_clamp_NaN: "num_max (Fin lo) (num_min (Fin hi) NaN) = NaN"
  by (simp add: num_max_def num_min_def)

lemma num_clamp_id:
  "lo \<le> q \<Longrightarrow> q \<le> hi \<Longrightarrow> num_max (Fin lo) (num_min (Fin hi) (Fin q)) = Fin q"
  by (simp add: num_max_def num_min_def)

lemma num_div_not_NaN: "num_div (Fin a) (Fin b) = NaN \<longleftrightarrow> a = 0 \<and> b = 0"
  by (auto simp: inf_signed_def b64.rnd_not_NaN)

lemma num_add_finite_not_NaN [simp]: "num_add (Fin a) (Fin b) \<noteq> NaN"
  by (simp add: b64.rnd_not_NaN)

lemma num_mul_finite_not_NaN [simp]: "num_mul (Fin a) (Fin b) \<noteq> NaN"
  by (simp add: b64.rnd_not_NaN)

lemma num_sub_finite_not_NaN [simp]: "num_sub (Fin a) (Fin b) \<noteq> NaN"
  by (simp add: num_sub_def b64.rnd_not_NaN)

subsection \<open>Rounding a given fraction\<close>

text \<open>The literal nearest to a rational whose binade is known: \<open>m\<close> units in its last place.\<close>

lemma ilog2_unique:
  assumes "2 powi k \<le> q" "q < 2 powi (k + 1)" "0 < q"
  shows "ilog2 q = k"
proof (rule ccontr)
  have b: "2 powi ilog2 q \<le> q" "q < 2 powi (ilog2 q + 1)" using ilog2_bounds [OF assms(3)] by simp_all
  assume "ilog2 q \<noteq> k"
  then consider "ilog2 q + 1 \<le> k" | "k + 1 \<le> ilog2 q" by linarith
  then show False
  proof cases
    case 1
    then have "(2 :: rat) powi (ilog2 q + 1) \<le> 2 powi k" by (rule power_int_increasing) simp
    with b assms(1) show False by simp
  next
    case 2
    then have "(2 :: rat) powi (k + 1) \<le> 2 powi ilog2 q" by (rule power_int_increasing) simp
    with b assms(2) show False by simp
  qed
qed

definition rounds_to :: "rat \<Rightarrow> int \<Rightarrow> bool" where
  "rounds_to x m \<longleftrightarrow> \<bar>x - of_int m\<bar> < 1 / 2 \<or> \<bar>x - of_int m\<bar> = 1 / 2 \<and> even m"

lemma round_near:
  assumes "rounds_to x m"
  shows "round_half_even x = m"
proof (cases "of_int m \<le> x")
  case True
  then have "\<lfloor>x\<rfloor> = m" using assms by (intro floor_unique) (auto simp: rounds_to_def)
  with True assms show ?thesis by (auto simp: round_half_even_def rounds_to_def Let_def)
next
  case False
  then have "\<lfloor>x\<rfloor> = m - 1" using assms by (intro floor_unique) (auto simp: rounds_to_def)
  with False assms show ?thesis by (auto simp: round_half_even_def rounds_to_def Let_def)
qed

lemma fl_binade:
  assumes "2 powi k \<le> q" "q < 2 powi (k + 1)" "rounds_to (q / 2 powi (k - 52)) m" "\<bar>k\<bar> \<le> 1000"
  shows "fl q = Fin (of_int m * 2 powi (k - 52))"
proof -
  have pos: "0 < q" using assms(1) by (rule less_le_trans [rotated]) simp
  have log: "ilog2 q = k" by (rule ilog2_unique [OF assms(1,2) pos])
  then have ulp: "ulp_exp q = k - 52" using assms(4) by (simp add: ulp_exp_def)
  have val: "fl_pos q = of_int m * 2 powi (k - 52)"
    using round_near [OF assms(3)] by (simp add: fl_pos_def ulp)
  have "of_int m \<le> q / 2 powi (k - 52) + 1"
    using assms(3) unfolding rounds_to_def by linarith
  then have "of_int m * 2 powi (k - 52) \<le> (q / 2 powi (k - 52) + 1) * 2 powi (k - 52)"
    by (rule mult_right_mono) simp
  also have "\<dots> = q + 2 powi (k - 52)" by (simp add: distrib_right)
  also have "\<dots> < 2 powi (k + 1) + 2 powi (k + 1)"
    using assms(2) by (intro add_less_le_mono power_int_increasing) simp_all
  also have "\<dots> = 2 powi (k + 2)" by (simp add: power_int_add)
  also have "\<dots> \<le> (2 :: rat) powi 1024" using assms(4) by (intro power_int_increasing) simp_all
  finally have "of_int m * 2 powi (k - 52) < (2 :: rat) ^ 1024" by (simp only: power_int_numeral)
  with val pos show ?thesis by (simp add: fl_def Let_def not_le)
qed

subsection \<open>Rounded results within whole bounds\<close>

lemma fl_in:
  "of_int m \<le> a \<Longrightarrow> a \<le> of_int n \<Longrightarrow> \<bar>m\<bar> \<le> 2 ^ 53 \<Longrightarrow> \<bar>n\<bar> \<le> 2 ^ 53 \<Longrightarrow> num_in (of_int m) (of_int n) (fl a)"
  using b64.rnd_between [of m a n] by (auto simp: num_in_iff)

lemma fl_unit: "0 \<le> a \<Longrightarrow> a \<le> 1 \<Longrightarrow> num_in 0 1 (fl a)"
  using fl_in [of 0 a 1] by simp

end
