(* ===== verification/JsText.thy ===== *)
theory JsText
  imports JsNumber
begin

text \<open>
  Strings and their conversions to and from numbers. A string is a list of characters; the wire
  carries ASCII (symbols, ids, RFC 3339 times, trigger labels, object keys), and the few
  punctuation marks outside it that occur in display literals are written as their UTF-8 bytes.
  The operations are the ones the dashboard calls: prefix and substring tests, splitting,
  trimming, lower-casing, replacing, \<^verbatim>\<open>Number(text)\<close>, \<^verbatim>\<open>toFixed\<close>,
  \<^verbatim>\<open>String(number)\<close> and \<^verbatim>\<open>Date.prototype.toISOString\<close>.
\<close>

subsection \<open>Tests and cuts\<close>

definition starts_with :: "string \<Rightarrow> string \<Rightarrow> bool" where
  "starts_with s p = prefix p s"

definition ends_with :: "string \<Rightarrow> string \<Rightarrow> bool" where
  "ends_with s p = suffix p s"

definition includes_str :: "string \<Rightarrow> string \<Rightarrow> bool" where
  "includes_str s p = sublist p s"

text \<open>\<^verbatim>\<open>s.slice(n)\<close> for \<open>n\<close> at least 0.\<close>

definition slice_from :: "nat \<Rightarrow> string \<Rightarrow> string" where
  "slice_from n s = drop n s"

fun index_of :: "string \<Rightarrow> string \<Rightarrow> nat option" where
  "index_of p [] = (if p = [] then Some 0 else None)"
| "index_of p (c # s) =
     (if prefix p (c # s) then Some 0 else map_option Suc (index_of p s))"

fun last_index_of :: "string \<Rightarrow> string \<Rightarrow> nat option" where
  "last_index_of p [] = (if p = [] then Some 0 else None)"
| "last_index_of p (c # s) =
     (case last_index_of p s of
        Some i \<Rightarrow> Some (Suc i)
      | None \<Rightarrow> if prefix p (c # s) then Some 0 else None)"

text \<open>\<^verbatim>\<open>s.split(c)\<close> for a one-character separator, and \<^verbatim>\<open>join\<close>.\<close>

fun split_on :: "char \<Rightarrow> string \<Rightarrow> string list" where
  "split_on c [] = [[]]"
| "split_on c (x # s) =
     (if x = c then [] # split_on c s
      else case split_on c s of [] \<Rightarrow> [[x]] | p # ps \<Rightarrow> (x # p) # ps)"

fun join_with :: "string \<Rightarrow> string list \<Rightarrow> string" where
  "join_with sep [] = []"
| "join_with sep [s] = s"
| "join_with sep (s # t # ts) = s @ sep @ join_with sep (t # ts)"

text \<open>\<^verbatim>\<open>s.split("/").filter(Boolean)\<close>: the non-empty path segments.\<close>

definition segments :: "string \<Rightarrow> string list" where
  "segments s = filter (\<lambda>p. p \<noteq> []) (split_on CHR ''/'' s)"

definition replace_char :: "char \<Rightarrow> char \<Rightarrow> string \<Rightarrow> string" where
  "replace_char a b s = map (\<lambda>c. if c = a then b else c) s"

definition is_space :: "char \<Rightarrow> bool" where
  "is_space c \<longleftrightarrow> (of_char c :: nat) \<in> {9, 10, 11, 12, 13, 32}"

definition trim :: "string \<Rightarrow> string" where
  "trim s = rev (dropWhile is_space (rev (dropWhile is_space s)))"

definition lower_char :: "char \<Rightarrow> char" where
  "lower_char c = (if 65 \<le> (of_char c :: nat) \<and> (of_char c :: nat) \<le> 90
                   then char_of ((of_char c :: nat) + 32) else c)"

definition lower :: "string \<Rightarrow> string" where
  "lower s = map lower_char s"

definition upper_char :: "char \<Rightarrow> char" where
  "upper_char c = (if 97 \<le> (of_char c :: nat) \<and> (of_char c :: nat) \<le> 122
                   then char_of ((of_char c :: nat) - 32) else c)"

definition upper_case :: "string \<Rightarrow> string" where
  "upper_case s = map upper_char s"

lemma split_on_not_Nil [simp]: "split_on c s \<noteq> []"
  by (induction s) (auto split: list.splits)

lemma join_with_Cons: "join_with sep ((x # p) # ps) = x # join_with sep (p # ps)"
  by (cases ps) auto

lemma join_split: "join_with [c] (split_on c s) = s"
proof (induction s)
  case (Cons x s)
  then show ?case
    by (cases "split_on c s") (auto simp: join_with_Cons)
qed simp

lemma split_on_no_sep: "c \<notin> set s \<Longrightarrow> split_on c s = [s]"
  by (induction s) auto

lemma split_on_parts: "p \<in> set (split_on c s) \<Longrightarrow> c \<notin> set p"
  by (induction s arbitrary: p) (auto split: list.splits if_splits)

lemma split_on_append:
  "c \<notin> set p \<Longrightarrow> split_on c (p @ c # s) = p # split_on c s"
  by (induction p) auto

lemma split_on_join:
  "ps \<noteq> [] \<Longrightarrow> list_all (\<lambda>p. c \<notin> set p) ps \<Longrightarrow> split_on c (join_with [c] ps) = ps"
proof (induction "[c]" ps rule: join_with.induct)
  case (3 s t ts)
  then show ?case by (simp add: split_on_append)
qed (simp_all add: split_on_no_sep)

lemma segments_no_slash: "p \<in> set (segments s) \<Longrightarrow> CHR ''/'' \<notin> set p \<and> p \<noteq> []"
  by (auto simp: segments_def split_on_parts)

lemma segments_join:
  "list_all (\<lambda>p. p \<noteq> [] \<and> CHR ''/'' \<notin> set p) ps \<Longrightarrow> segments (join_with ''/'' ps) = ps"
proof (cases "ps = []")
  case False
  assume all: "list_all (\<lambda>p. p \<noteq> [] \<and> CHR ''/'' \<notin> set p) ps"
  then have "list_all (\<lambda>p. CHR ''/'' \<notin> set p) ps" by (auto simp: list_all_iff)
  with False have "split_on CHR ''/'' (join_with ''/'' ps) = ps" by (rule split_on_join)
  with all show ?thesis by (simp add: segments_def list_all_iff)
qed (simp add: segments_def)

lemma starts_with_append [simp]: "starts_with (p @ s) p"
  by (simp add: starts_with_def)

lemma starts_with_split: "starts_with s p \<Longrightarrow> s = p @ slice_from (length p) s"
  by (auto simp: starts_with_def slice_from_def elim: prefixE)

lemma slice_from_append [simp]: "slice_from (length p) (p @ s) = s"
  by (simp add: slice_from_def)

lemma index_of_Some: "index_of p s = Some i \<Longrightarrow> prefix p (drop i s) \<and> i \<le> length s"
proof (induction s arbitrary: i)
  case (Cons c s)
  then show ?case by (cases i) (auto split: if_splits)
qed (auto split: if_splits)

lemma index_of_prefix [simp]: "index_of p (p @ s) = Some 0"
  by (cases "p @ s") (auto, metis prefixI)

lemma lower_idem [simp]: "lower (lower s) = lower s"
proof -
  have "lower_char (lower_char c) = lower_char c" for c
  proof (cases "65 \<le> (of_char c :: nat) \<and> (of_char c :: nat) \<le> 90")
    case True
    then have "(of_char (char_of ((of_char c :: nat) + 32) :: char) :: nat) = of_char c + 32"
      by simp
    with True show ?thesis by (simp add: lower_char_def)
  next
    case False
    then show ?thesis by (auto simp: lower_char_def)
  qed
  then show ?thesis by (simp add: lower_def)
qed

subsection \<open>Numbers as text\<close>

function digits_of :: "int \<Rightarrow> string" where
  "digits_of n = (if n < 10 then [char_of (48 + n)]
                  else digits_of (n div 10) @ [char_of (48 + n mod 10)])"
  by pat_completeness auto
termination
  by (relation "measure nat") auto

declare digits_of.simps [simp del]

lemma digit_char:
  assumes "0 \<le> n" "n < 10"
  shows "is_digit (char_of (48 + n))" and "digit_val (char_of (48 + n)) = n"
proof -
  have "(of_char (char_of (48 + n) :: char) :: int) = 48 + n" using assms by simp
  moreover have "(of_char (char_of (48 + n) :: char) :: nat) = nat (48 + n)"
    using assms by (metis calculation nat_int of_nat_of_char)
  ultimately show "is_digit (char_of (48 + n))" "digit_val (char_of (48 + n)) = n"
    using assms by (auto simp: is_digit_def digit_val_def)
qed

lemma int_of_digits_snoc: "int_of_digits (s @ [c]) = 10 * int_of_digits s + digit_val c"
  by (simp add: int_of_digits_def)

lemma digits_roundtrip:
  "0 \<le> n \<Longrightarrow> digits_of n \<noteq> [] \<and> list_all is_digit (digits_of n) \<and> int_of_digits (digits_of n) = n"
proof (induction n rule: digits_of.induct)
  case (1 n)
  show ?case
  proof (cases "n < 10")
    case True
    then show ?thesis using 1 digit_char [of n]
      by (subst (1 2 3) digits_of.simps) (simp add: int_of_digits_def)
  next
    case False
    then have ih: "digits_of (n div 10) \<noteq> [] \<and> list_all is_digit (digits_of (n div 10)) \<and>
        int_of_digits (digits_of (n div 10)) = n div 10"
      using 1 by simp
    have "digits_of n = digits_of (n div 10) @ [char_of (48 + n mod 10)]"
      using False by (subst digits_of.simps) simp
    then show ?thesis using ih digit_char [of "n mod 10"] by (simp add: int_of_digits_snoc)
  qed
qed

lemma digits_of_inj: "0 \<le> m \<Longrightarrow> 0 \<le> n \<Longrightarrow> digits_of m = digits_of n \<Longrightarrow> m = n"
  using digits_roundtrip by metis

definition pad_left :: "nat \<Rightarrow> string \<Rightarrow> string" where
  "pad_left n s = replicate (n - length s) CHR ''0'' @ s"

definition int_text :: "int \<Rightarrow> string" where
  "int_text i = (if i < 0 then ''-'' @ digits_of (- i) else digits_of i)"

text \<open>
  \<^verbatim>\<open>Number.prototype.toString\<close>: the shortest digit string that reads back as the same
  number. \<open>dec_point a\<close> is the \<open>n\<close> with \<open>10^(n-1) \<le> a < 10^n\<close>; the digits are searched
  by length, 17 always being enough.
\<close>

definition dec_point :: "rat \<Rightarrow> int" where
  "dec_point a = (if 1 \<le> a then int (length (digits_of \<lfloor>a\<rfloor>))
                  else 1 - int (length (digits_of (\<lceil>1 / a\<rceil> - 1))))"

fun shortest :: "rat \<Rightarrow> int \<Rightarrow> nat list \<Rightarrow> int \<times> nat \<times> int" where
  "shortest a n [] = (\<lfloor>a / 10 powi (n - 17) + 1 / 2\<rfloor>, 17, n)"
| "shortest a n (k # ks) =
     (let s = \<lfloor>a / 10 powi (n - int k) + 1 / 2\<rfloor>
      in if fl (of_int s * 10 powi (n - int k)) = Fin a
         then (if s = 10 ^ k then (10 ^ (k - 1), k, n + 1) else (s, k, n))
         else shortest a n ks)"

definition pos_text :: "rat \<Rightarrow> string" where
  "pos_text a =
     (let (s, k, n) = shortest a (dec_point a) [1..<17]; ds = digits_of s
      in if int k \<le> n \<and> n \<le> 21 then ds @ replicate (nat n - k) CHR ''0''
         else if 0 < n \<and> n \<le> 21 then take (nat n) ds @ ''.'' @ drop (nat n) ds
         else if - 6 < n \<and> n \<le> 0 then ''0.'' @ replicate (nat (- n)) CHR ''0'' @ ds
         else let e = n - 1;
                  ex = (if e < 0 then ''e-'' else ''e+'') @ digits_of \<bar>e\<bar>
              in if k = 1 then ds @ ex else take 1 ds @ ''.'' @ drop 1 ds @ ex)"

fun num_text :: "jsnum \<Rightarrow> string" where
  "num_text NaN = ''NaN''"
| "num_text PInf = ''Infinity''"
| "num_text NInf = ''-Infinity''"
| "num_text (Fin q) =
     (if q = 0 then ''0'' else if q < 0 then ''-'' @ pos_text (- q) else pos_text q)"

text \<open>The facts that evaluate the text of a small whole number.\<close>

lemma shortest_upt:
  "i < j \<Longrightarrow> shortest a n [i..<j] =
     (let s = \<lfloor>a / 10 powi (n - int i) + 1 / 2\<rfloor>
      in if fl (of_int s * 10 powi (n - int i)) = Fin a
         then (if s = 10 ^ i then (10 ^ (i - 1), i, n + 1) else (s, i, n))
         else shortest a n [Suc i..<j])"
  by (simp add: upt_conv_Cons)

lemmas whole_text_simps =
  pos_text_def dec_point_def digits_of.simps shortest_upt fl_numeral floor_frac char_of_def Let_def

text \<open>\<^verbatim>\<open>toFixed(d)\<close>: the nearest multiple of \<open>10^-d\<close>, the larger one on a tie.\<close>

fun to_fixed :: "nat \<Rightarrow> jsnum \<Rightarrow> string" where
  "to_fixed d (Fin q) =
     (if 10 ^ 21 \<le> \<bar>q\<bar> then num_text (Fin q)
      else let n = \<lfloor>\<bar>q\<bar> * 10 ^ d + 1 / 2\<rfloor>; ds = pad_left (d + 1) (digits_of n);
               i = length ds - d; sg = (if q < 0 then ''-'' else [])
           in sg @ take i ds @ (if d = 0 then [] else ''.'' @ drop i ds))"
| "to_fixed d x = num_text x"

subsection \<open>Text as numbers\<close>

text \<open>
  An unsigned decimal literal: digits, an optional fraction, an optional exponent, at least one
  digit before the exponent. This is both \<^verbatim>\<open>StrUnsignedDecimalLiteral\<close> without
  \<^verbatim>\<open>Infinity\<close> and what \<^verbatim>\<open>decimalPattern\<close> accepts after the sign.
\<close>

definition exponent_of :: "string \<Rightarrow> int option" where
  "exponent_of s =
     (case s of
        [] \<Rightarrow> Some 0
      | c # t \<Rightarrow>
          if c \<noteq> CHR ''e'' \<and> c \<noteq> CHR ''E'' then None
          else let neg = (t \<noteq> [] \<and> hd t = CHR ''-'');
                   ds = (if t \<noteq> [] \<and> (hd t = CHR ''-'' \<or> hd t = CHR ''+'') then tl t else t)
               in if ds = [] \<or> \<not> list_all is_digit ds then None
                  else Some (if neg then - int_of_digits ds else int_of_digits ds))"

definition unsigned_decimal :: "string \<Rightarrow> rat option" where
  "unsigned_decimal s =
     (let ip = takeWhile is_digit s; r = dropWhile is_digit s;
          fp = (if r \<noteq> [] \<and> hd r = CHR ''.'' then takeWhile is_digit (tl r) else []);
          t = (if r \<noteq> [] \<and> hd r = CHR ''.'' then dropWhile is_digit (tl r) else r)
      in if ip = [] \<and> fp = [] then None
         else map_option (\<lambda>e. of_int (int_of_digits (ip @ fp)) * 10 powi (e - int (length fp)))
                (exponent_of t))"

definition split_sign :: "string \<Rightarrow> bool \<times> string" where
  "split_sign s =
     (if s \<noteq> [] \<and> hd s = CHR ''-'' then (True, tl s)
      else if s \<noteq> [] \<and> hd s = CHR ''+'' then (False, tl s) else (False, s))"

definition decimal_value :: "string \<Rightarrow> rat option" where
  "decimal_value s =
     (case split_sign s of (neg, t) \<Rightarrow>
        map_option (\<lambda>q. if neg then - q else q) (unsigned_decimal t))"

definition radix_digit :: "char \<Rightarrow> int" where
  "radix_digit c =
     (if is_digit c then digit_val c
      else let l = (of_char (lower_char c) :: int)
           in if 97 \<le> l \<and> l \<le> 122 then l - 87 else 99)"

text \<open>\<^verbatim>\<open>0x\<close>, \<^verbatim>\<open>0o\<close> and \<^verbatim>\<open>0b\<close> literals, which take no sign.\<close>

definition radix_literal :: "string \<Rightarrow> int option" where
  "radix_literal s =
     (case s of
        z # m # ds \<Rightarrow>
          (let b = (case of_char (lower_char m) :: nat of x \<Rightarrow>
                      if x = 120 then 16 else if x = 111 then 8 else if x = 98 then 2 else 0)
           in if z = CHR ''0'' \<and> b \<noteq> 0 \<and> ds \<noteq> [] \<and> list_all (\<lambda>c. radix_digit c < b) ds
              then Some (foldl (\<lambda>n c. b * n + radix_digit c) 0 ds) else None)
      | _ \<Rightarrow> None)"

text \<open>\<^verbatim>\<open>Number(text)\<close>.\<close>

definition number_of_text :: "string \<Rightarrow> jsnum" where
  "number_of_text text =
     (let s = trim text
      in if s = [] then Fin 0
         else case radix_literal s of
           Some n \<Rightarrow> fl (of_int n)
         | None \<Rightarrow>
             if s = ''Infinity'' \<or> s = ''+Infinity'' then PInf
             else if s = ''-Infinity'' then NInf
             else case decimal_value s of Some q \<Rightarrow> fl q | None \<Rightarrow> NaN)"

text \<open>\<^verbatim>\<open>BigInt(text)\<close>: \<^term>\<open>None\<close> is the \<^verbatim>\<open>SyntaxError\<close>.\<close>

definition bigint_of_text :: "string \<Rightarrow> int option" where
  "bigint_of_text text =
     (let s = trim text
      in if s = [] then Some 0
         else case radix_literal s of
           Some n \<Rightarrow> Some n
         | None \<Rightarrow>
             (case split_sign s of (neg, ds) \<Rightarrow>
                if ds = [] \<or> \<not> list_all is_digit ds then None
                else Some (if neg then - int_of_digits ds else int_of_digits ds)))"

subsection \<open>Instants\<close>

text \<open>
  \<^verbatim>\<open>Date.prototype.toISOString\<close> on a time value in milliseconds, by the proleptic
  Gregorian calendar. Parsing a date is left to a parameter of the definitions that need it,
  since the language leaves most formats to the implementation.
\<close>

definition civil_of_days :: "int \<Rightarrow> int \<times> int \<times> int" where
  "civil_of_days days =
     (let z = days + 719468; era = z div 146097; doe = z mod 146097;
          yoe = (doe - doe div 1460 + doe div 36524 - doe div 146096) div 365;
          doy = doe - (365 * yoe + yoe div 4 - yoe div 100);
          mp = (5 * doy + 2) div 153;
          d = doy - (153 * mp + 2) div 5 + 1;
          m = (if mp < 10 then mp + 3 else mp - 9);
          y = yoe + era * 400 + (if m \<le> 2 then 1 else 0)
      in (y, m, d))"

definition int_pad :: "nat \<Rightarrow> int \<Rightarrow> string" where
  "int_pad w i = pad_left w (digits_of i)"

definition year_text :: "int \<Rightarrow> string" where
  "year_text y = (if 0 \<le> y \<and> y \<le> 9999 then int_pad 4 y
                  else (if y < 0 then ''-'' else ''+'') @ int_pad 6 \<bar>y\<bar>)"

definition iso_text :: "int \<Rightarrow> string" where
  "iso_text t =
     (let ms = t mod 86400000
      in case civil_of_days (t div 86400000) of (y, m, d) \<Rightarrow>
        year_text y @ ''-'' @ int_pad 2 m @ ''-'' @ int_pad 2 d @ ''T'' @
        int_pad 2 (ms div 3600000) @ '':'' @ int_pad 2 (ms div 60000 mod 60) @ '':'' @
        int_pad 2 (ms div 1000 mod 60) @ ''.'' @ int_pad 3 (ms mod 1000) @ ''Z'')"

end
