(* ===== verification/JsValue.thy ===== *)
theory JsValue
  imports JsText
begin

text \<open>
  The values a frame can carry. The dashboard receives decoded JSON typed
  \<^verbatim>\<open>unknown\<close> and narrows it with \<^verbatim>\<open>typeof\<close>, \<^verbatim>\<open>Array.isArray\<close> and truthiness
  tests; the datatype below has one constructor per runtime type those tests tell apart. An
  object is its list of own enumerable properties in enumeration order; reading an absent
  property gives \<open>JUndef\<close>. Names inherited from \<^verbatim>\<open>Object.prototype\<close> are outside the
  model.
\<close>

datatype jsval =
    JUndef
  | JNull
  | JBool bool
  | JNum jsnum
  | JBig int
  | JStr string
  | JArr "jsval list"
  | JObj "(string \<times> jsval) list"

type_synonym jsobj = "(string \<times> jsval) list"

text \<open>\<^verbatim>\<open>row.key\<close> on an object.\<close>

definition field :: "jsobj \<Rightarrow> string \<Rightarrow> jsval" where
  "field ob k = (case map_of ob k of None \<Rightarrow> JUndef | Some v \<Rightarrow> v)"

fun truthy :: "jsval \<Rightarrow> bool" where
  "truthy JUndef = False"
| "truthy JNull = False"
| "truthy (JBool b) = b"
| "truthy (JNum n) = (n \<noteq> NaN \<and> n \<noteq> Fin 0)"
| "truthy (JBig i) = (i \<noteq> 0)"
| "truthy (JStr s) = (s \<noteq> [])"
| "truthy (JArr _) = True"
| "truthy (JObj _) = True"

definition nullish :: "jsval \<Rightarrow> bool" where
  "nullish v \<longleftrightarrow> v = JUndef \<or> v = JNull"

text \<open>\<^verbatim>\<open>a ?? b\<close> on runtime values.\<close>

definition orelse :: "jsval \<Rightarrow> jsval \<Rightarrow> jsval" where
  "orelse a b = (if nullish a then b else a)"

text \<open>The narrowings: \<^term>\<open>None\<close> where the \<^verbatim>\<open>typeof\<close> test fails.\<close>

fun as_str :: "jsval \<Rightarrow> string option" where
  "as_str (JStr s) = Some s"
| "as_str _ = None"

fun as_num :: "jsval \<Rightarrow> jsnum option" where
  "as_num (JNum n) = Some n"
| "as_num _ = None"

fun as_arr :: "jsval \<Rightarrow> jsval list option" where
  "as_arr (JArr vs) = Some vs"
| "as_arr _ = None"

text \<open>
  \<^verbatim>\<open>typeof v === "object"\<close> and truthy, read by property name: arrays pass too, and have
  none of the named properties the code reads.
\<close>

fun as_record :: "jsval \<Rightarrow> jsobj option" where
  "as_record (JObj ob) = Some ob"
| "as_record (JArr _) = Some []"
| "as_record _ = None"

text \<open>The same with \<^verbatim>\<open>!Array.isArray(v)\<close>.\<close>

fun as_plain :: "jsval \<Rightarrow> jsobj option" where
  "as_plain (JObj ob) = Some ob"
| "as_plain _ = None"

text \<open>\<^verbatim>\<open>typeof v === "string" && v !== ""\<close>.\<close>

definition nonempty_str :: "jsval \<Rightarrow> string option" where
  "nonempty_str v = (case v of JStr s \<Rightarrow> if s = [] then None else Some s | _ \<Rightarrow> None)"

text \<open>\<^verbatim>\<open>typeof v === "number" && Number.isFinite(v)\<close>: the helper the source repeats as
  \<^verbatim>\<open>finiteOrNull\<close>, \<^verbatim>\<open>asFiniteNumber\<close>, \<^verbatim>\<open>asRate\<close> and \<^verbatim>\<open>finite\<close>.\<close>

definition finite_num :: "jsval \<Rightarrow> jsnum option" where
  "finite_num v = (case v of JNum n \<Rightarrow> if is_finite n then Some n else None | _ \<Rightarrow> None)"

fun js_text :: "jsval \<Rightarrow> string" and js_item :: "jsval \<Rightarrow> string" where
  "js_text JUndef = ''undefined''"
| "js_text JNull = ''null''"
| "js_text (JBool b) = (if b then ''true'' else ''false'')"
| "js_text (JNum n) = num_text n"
| "js_text (JBig i) = int_text i"
| "js_text (JStr s) = s"
| "js_text (JArr vs) = join_with '','' (map js_item vs)"
| "js_text (JObj _) = ''[object Object]''"
| "js_item v = (if nullish v then [] else js_text v)"

lemma field_Nil [simp]: "field [] k = JUndef"
  by (simp add: field_def)

lemma field_Cons [simp]: "field ((k', v) # ob) k = (if k = k' then v else field ob k)"
  by (simp add: field_def)

lemma field_obj_set [simp]: "field (obj_set k v ob) k' = (if k' = k then v else field ob k')"
  by (simp add: field_def map_of_obj_set)

lemma finite_num_Some: "finite_num v = Some n \<longleftrightarrow> (\<exists>q. n = Fin q \<and> v = JNum (Fin q))"
  by (cases v) (auto simp: finite_num_def is_finite_iff split: if_splits)

lemma nonempty_str_Some: "nonempty_str v = Some s \<longleftrightarrow> v = JStr s \<and> s \<noteq> []"
  by (cases v) (auto simp: nonempty_str_def)

lemma orelse_simps [simp]:
  "orelse JUndef b = b" "orelse JNull b = b" "\<not> nullish a \<Longrightarrow> orelse a b = a"
  by (simp_all add: orelse_def nullish_def)

end
