(* ===== verification/CircularBuffer.thy ===== *)
theory CircularBuffer
  imports JsValue
begin

text \<open>
  The ring buffer of \<^verbatim>\<open>collections/circular.ts\<close>. The closure's variables are a record: the
  backing array with its holes, the index of the oldest value and the number of values held.
  The interface its clients use (the keyed stores, the longtail chart window) is the locale
  \<open>retained_window\<close>: a push keeps the newest values up to the capacity.
\<close>

record 'a circular =
  positions :: nat
  buffer :: "'a option list"
  start :: nat
  count :: nat

definition Circular :: "nat \<Rightarrow> 'a circular" where
  "Circular n = \<lparr>positions = n, buffer = replicate n None, start = 0, count = 0\<rparr>"

definition circ_push :: "'a \<Rightarrow> 'a circular \<Rightarrow> 'a circular" where
  "circ_push v c =
     (if positions c = 0 then c
      else let index = (start c + count c) mod positions c
           in if count c < positions c
              then c\<lparr>buffer := (buffer c)[index := Some v], count := count c + 1\<rparr>
              else c\<lparr>buffer := (buffer c)[start c := Some v],
                     start := (start c + 1) mod positions c\<rparr>)"

text \<open>Reading slot \<open>index\<close> of the window; a hole reads as \<^term>\<open>None\<close>.\<close>

definition circ_slot :: "'a circular \<Rightarrow> nat \<Rightarrow> 'a option" where
  "circ_slot c i =
     (case nth_opt (buffer c) ((start c + i) mod positions c) of Some x \<Rightarrow> x | None \<Rightarrow> None)"

definition circ_values :: "'a circular \<Rightarrow> 'a option list" where
  "circ_values c = map (circ_slot c) [0..<count c]"

definition circ_latest :: "'a circular \<Rightarrow> 'a option" where
  "circ_latest c = (if count c = 0 then None else circ_slot c (count c - 1))"

definition circ_replaceTail :: "'a \<Rightarrow> 'a circular \<Rightarrow> 'a circular" where
  "circ_replaceTail v c =
     (if positions c = 0 then c
      else if count c = 0 then circ_push v c
      else c\<lparr>buffer := (buffer c)[(start c + count c - 1) mod positions c := Some v]\<rparr>)"

text \<open>\<^verbatim>\<open>forEach\<close>: the visits in order, each with its index; folded over the visitor's state.\<close>

definition circ_forEach :: "('a option \<Rightarrow> nat \<Rightarrow> 's \<Rightarrow> 's) \<Rightarrow> 'a circular \<Rightarrow> 's \<Rightarrow> 's" where
  "circ_forEach visit c s = foldl (\<lambda>s i. visit (circ_slot c i) i s) s [0..<count c]"

definition circ_physical :: "'a circular \<Rightarrow> 'a option list \<times> nat \<times> nat" where
  "circ_physical c = (buffer c, start c, count c)"

definition circ_length :: "'a circular \<Rightarrow> nat" where
  "circ_length c = count c"

definition circ_capacity :: "'a circular \<Rightarrow> nat" where
  "circ_capacity c = positions c"

definition latestOf :: "'a circular option \<Rightarrow> 'a option" where
  "latestOf b = (case b of None \<Rightarrow> None | Some c \<Rightarrow> circ_latest c)"

subsection \<open>Invariant and abstraction\<close>

definition circ_ok :: "'a circular \<Rightarrow> bool" where
  "circ_ok c \<longleftrightarrow>
     length (buffer c) = positions c \<and> count c \<le> positions c \<and>
     (if positions c = 0 then start c = 0 else start c < positions c) \<and>
     (count c < positions c \<longrightarrow> start c = 0) \<and>
     (\<forall>i < count c. circ_slot c i \<noteq> None)"

text \<open>What the window holds, oldest first.\<close>

definition contents :: "'a circular \<Rightarrow> 'a list" where
  "contents c = map (the \<circ> circ_slot c) [0..<count c]"

lemma circ_ok_Circular: "circ_ok (Circular n)"
  by (simp add: circ_ok_def Circular_def)

lemma contents_Circular [simp]: "contents (Circular n) = []"
  by (simp add: contents_def Circular_def)

lemma length_contents [simp]: "length (contents c) = count c"
  by (simp add: contents_def)

lemma positions_push [simp]: "positions (circ_push v c) = positions c"
  by (simp add: circ_push_def Let_def)

lemma positions_Circular [simp]: "positions (Circular n) = n"
  by (simp add: Circular_def)

text \<open>
  While the buffer fills, the oldest value stays at slot 0 and the new one is written at
  \<open>count\<close>.
\<close>

lemma slot_push_filling:
  assumes "circ_ok c" "count c < positions c"
  shows "circ_slot (circ_push v c) i =
    (if i mod positions c = count c then Some v else circ_slot c i)"
  using assms by (auto simp: circ_ok_def circ_push_def circ_slot_def nth_opt_def Let_def)

text \<open>Once it is full, the window turns by one: slot \<open>i\<close> is the old slot \<open>i + 1\<close>.\<close>

lemma slot_push_full:
  assumes ok: "circ_ok c" and full: "count c = positions c" "0 < positions c"
    and i: "i < positions c"
  shows "circ_slot (circ_push v c) i =
    (if i = positions c - 1 then Some v else circ_slot c (i + 1))"
proof -
  let ?n = "positions c"
  have st: "start c < ?n" and len: "length (buffer c) = ?n"
    using ok full by (auto simp: circ_ok_def)
  have at: "((start c + 1) mod ?n + i) mod ?n = (start c + (i + 1)) mod ?n"
    by (simp add: mod_add_left_eq add.assoc)
  have hit: "(start c + (i + 1)) mod ?n = start c \<longleftrightarrow> i = ?n - 1"
    using st i by (auto simp: mod_if)
  have "circ_slot (circ_push v c) i =
      (buffer c)[start c := Some v] ! ((start c + (i + 1)) mod ?n)"
    using full len at by (simp add: circ_push_def circ_slot_def nth_opt_def)
  also have "\<dots> = (if i = ?n - 1 then Some v else buffer c ! ((start c + (i + 1)) mod ?n))"
    using hit st len by (auto simp: nth_list_update)
  finally show ?thesis using full len by (simp add: circ_slot_def nth_opt_def)
qed

lemma circ_ok_push:
  assumes "circ_ok c"
  shows "circ_ok (circ_push v c)"
proof -
  consider "positions c = 0" | "count c < positions c" | "count c = positions c" "0 < positions c"
    using assms by (fastforce simp: circ_ok_def)
  then show ?thesis
  proof cases
    case 1
    then show ?thesis using assms by (simp add: circ_push_def)
  next
    case 2
    then have "circ_slot (circ_push v c) i \<noteq> None" if "i < count (circ_push v c)" for i
      using that assms slot_push_filling [OF assms 2, of v i]
      by (auto simp: circ_push_def circ_ok_def)
    with assms 2 show ?thesis by (auto simp: circ_ok_def circ_push_def)
  next
    case 3
    then have "circ_slot (circ_push v c) i \<noteq> None" if "i < count (circ_push v c)" for i
      using that assms slot_push_full [OF assms 3, of i v]
      by (auto simp: circ_push_def circ_ok_def)
    with assms 3 show ?thesis by (auto simp: circ_ok_def circ_push_def)
  qed
qed

lemma contents_push:
  assumes "circ_ok c"
  shows "contents (circ_push v c) = take_last (positions c) (contents c @ [v])"
proof -
  consider "positions c = 0" | "count c < positions c" | "count c = positions c" "0 < positions c"
    using assms by (fastforce simp: circ_ok_def)
  then show ?thesis
  proof cases
    case 1
    with assms show ?thesis
      by (simp add: circ_push_def contents_def take_last_def circ_ok_def)
  next
    case 2
    then have n: "count (circ_push v c) = count c + 1" by (simp add: circ_push_def)
    have "take_last (positions c) (contents c @ [v]) = contents c @ [v]"
      using 2 by simp
    moreover have "contents (circ_push v c) = contents c @ [v]"
      using 2 by (simp add: contents_def n slot_push_filling [OF assms 2])
    ultimately show ?thesis by simp
  next
    case 3
    then have n: "count (circ_push v c) = positions c" by (simp add: circ_push_def)
    have "contents (circ_push v c) = drop 1 (contents c @ [v])"
    proof (rule nth_equalityI)
      show "length (contents (circ_push v c)) = length (drop 1 (contents c @ [v]))"
        using 3 n by simp
      fix i
      assume "i < length (contents (circ_push v c))"
      with n have i: "i < positions c" by simp
      with 3 n show "contents (circ_push v c) ! i = drop 1 (contents c @ [v]) ! i"
        by (auto simp: contents_def nth_append slot_push_full [OF assms 3 i])
    qed
    with 3 show ?thesis by (simp add: take_last_def)
  qed
qed

subsection \<open>The window interface\<close>

locale retained_window =
  fixes wpush :: "'a \<Rightarrow> 'w \<Rightarrow> 'w"
    and held :: "'w \<Rightarrow> 'a list"
    and cap :: "'w \<Rightarrow> nat"
    and wok :: "'w \<Rightarrow> bool"
  assumes held_push: "wok w \<Longrightarrow> held (wpush x w) = take_last (cap w) (held w @ [x])"
    and cap_push: "cap (wpush x w) = cap w"
    and ok_push: "wok w \<Longrightarrow> wok (wpush x w)"
    and held_bound: "wok w \<Longrightarrow> length (held w) \<le> cap w"
begin

lemma push_all:
  assumes "wok w"
  shows "wok (foldl (\<lambda>w x. wpush x w) w xs)"
    and "cap (foldl (\<lambda>w x. wpush x w) w xs) = cap w"
    and "held (foldl (\<lambda>w x. wpush x w) w xs) = take_last (cap w) (held w @ xs)"
proof -
  have all: "wok (foldl (\<lambda>w x. wpush x w) w xs) \<and>
      cap (foldl (\<lambda>w x. wpush x w) w xs) = cap w \<and>
      held (foldl (\<lambda>w x. wpush x w) w xs) = take_last (cap w) (held w @ xs)"
  proof (induction xs rule: rev_induct)
    case Nil
    then show ?case using assms held_bound by simp
  next
    case (snoc x xs)
    then show ?case
      using held_push ok_push cap_push take_last_take_last_snoc [of "cap w" "held w @ xs" x] by simp
  qed
  then show "wok (foldl (\<lambda>w x. wpush x w) w xs)"
    and "cap (foldl (\<lambda>w x. wpush x w) w xs) = cap w"
    and "held (foldl (\<lambda>w x. wpush x w) w xs) = take_last (cap w) (held w @ xs)" by simp_all
qed

text \<open>A refill from empty that fits is the list itself.\<close>

lemma refill:
  assumes "wok w" "held w = []" "length xs \<le> cap w"
  shows "held (foldl (\<lambda>w x. wpush x w) w xs) = xs"
  using assms by (simp add: push_all)

end

interpretation ring: retained_window circ_push contents positions circ_ok
  by unfold_locales (simp_all add: contents_push circ_ok_push, simp add: circ_ok_def)

subsection \<open>What the reading operations return\<close>

lemma values_contents: "circ_ok c \<Longrightarrow> circ_values c = map Some (contents c)"
  by (auto simp: circ_values_def contents_def circ_ok_def)

lemma latest_contents: "circ_ok c \<Longrightarrow> circ_latest c = last_opt (contents c)"
  by (auto simp: circ_latest_def contents_def circ_ok_def last_opt_def last_map)

lemma slot_list_update:
  assumes "circ_ok c" "0 < count c" "i < count c"
  shows "circ_slot (c\<lparr>buffer := (buffer c)[(start c + count c - 1) mod positions c := Some v]\<rparr>) i =
    (if i = count c - 1 then Some v else circ_slot c i)"
proof -
  have "(start c + i) mod positions c = (start c + count c - 1) mod positions c
      \<longleftrightarrow> i = count c - 1"
  proof
    assume eq: "(start c + i) mod positions c = (start c + count c - 1) mod positions c"
    have "i < positions c" "count c - 1 < positions c"
      using assms by (auto simp: circ_ok_def)
    moreover have "(start c + i) mod positions c = (start c + (count c - 1)) mod positions c"
      using eq assms(2) by simp
    ultimately show "i = count c - 1"
      using assms by (cases "start c = 0") (auto simp: circ_ok_def mod_if split: if_splits)
  qed (use assms in auto)
  then show ?thesis
    using assms by (auto simp: circ_slot_def nth_opt_def circ_ok_def nth_list_update)
qed

lemma contents_replaceTail:
  assumes "circ_ok c" "0 < positions c"
  shows "contents (circ_replaceTail v c) = butlast (contents c) @ [v]"
proof (cases "count c = 0")
  case True
  then have "contents c = []" by (simp flip: length_0_conv)
  with True assms show ?thesis
    by (simp add: circ_replaceTail_def contents_push)
next
  case False
  let ?c = "circ_replaceTail v c"
  have n: "count ?c = count c" using False assms by (simp add: circ_replaceTail_def)
  have slot: "circ_slot ?c i = (if i = count c - 1 then Some v else circ_slot c i)"
    if "i < count c" for i
    using slot_list_update [OF assms(1) _ that, of v] False assms
    by (simp add: circ_replaceTail_def)
  have "map (the \<circ> circ_slot ?c) [0..<count c - 1] = map (the \<circ> circ_slot c) [0..<count c - 1]"
    by (rule map_cong) (auto simp: slot)
  moreover have "[0..<count c] = [0..<count c - 1] @ [count c - 1]"
    using False upt_Suc_append [of 0 "count c - 1"] by simp
  ultimately show ?thesis
    using False by (simp add: contents_def n slot butlast_append)
qed

lemma forEach_contents:
  assumes "circ_ok c"
  shows "circ_forEach visit c s =
    foldl (\<lambda>s (i, x). visit (Some x) i s) s (enumerate 0 (contents c))"
proof -
  have "enumerate 0 (contents c) = map (\<lambda>i. (i, the (circ_slot c i))) [0..<count c]"
    by (simp add: contents_def enumerate_eq_zip) (simp add: zip_map2 zip_same_conv_map)
  moreover have "circ_slot c i = Some (the (circ_slot c i))" if "i \<in> set [0..<count c]" for i
    using assms that by (auto simp: circ_ok_def)
  ultimately show ?thesis
    unfolding circ_forEach_def
    by (simp add: foldl_map) (rule foldl_cong, auto)
qed

end
