(* ===== verification/KeyedStore.thy ===== *)
theory KeyedStore
  imports CircularBuffer
begin

text \<open>
  The generic frame store of \<^verbatim>\<open>collections/store.ts\<close>. With no key extractors the rows sit in
  one ring buffer; otherwise every extractor but the last nests a record and the last selects
  the leaf buffer. Rows are pushed into buffers that the state object shares, so a batch that
  raises keeps the rows pushed before it; the model returns the tree as mutated together with
  a flag for the exception. The specification is a map from key paths to the newest rows.
\<close>

datatype 'a node = Leaf "'a circular" | Nest "(string \<times> 'a node) list"

text \<open>\<^verbatim>\<open>Nested()\<close>: an empty record with the non-enumerable helper \<^verbatim>\<open>array\<close>.\<close>

definition Nested :: "'a node" where
  "Nested = Nest []"

text \<open>
  The helper flattens every leaf below a node, in enumeration order. A leaf answers
  \<^verbatim>\<open>values()\<close>, a nested record its own \<^verbatim>\<open>array()\<close>.
\<close>

fun node_array :: "'a node \<Rightarrow> 'a option list" where
  "node_array (Leaf c) = circ_values c"
| "node_array (Nest kids) = concat (map (\<lambda>(k, n). node_array n) kids)"

text \<open>
  \<^verbatim>\<open>push\<close>. An empty key drops the row. The key \<^verbatim>\<open>array\<close> names the helper function, which is
  not a buffer: as a leaf key the call \<^verbatim>\<open>buffer.push\<close> raises a \<^verbatim>\<open>TypeError\<close>, as an inner key
  the row lands on the function object, outside the tree.
\<close>

fun push_row :: "('a \<Rightarrow> string) list \<Rightarrow> nat \<Rightarrow> 'a \<Rightarrow> 'a node \<Rightarrow> 'a node \<times> bool" where
  "push_row [] limit row n = (n, False)"
| "push_row (f # fs) limit row (Leaf c) = (Leaf c, False)"
| "push_row [f] limit row (Nest kids) =
     (let leaf = f row
      in if leaf = [] then (Nest kids, False)
         else if leaf = ''array'' then (Nest kids, True)
         else let buf = (case map_of kids leaf of Some (Leaf c) \<Rightarrow> c | _ \<Rightarrow> Circular limit)
              in (Nest (obj_set leaf (Leaf (circ_push row buf)) kids), False))"
| "push_row (f # g # fs) limit row (Nest kids) =
     (let key = f row
      in if key = [] \<or> key = ''array'' then (Nest kids, False)
         else let child = (case map_of kids key of Some n \<Rightarrow> n | None \<Rightarrow> Nested);
                  r = push_row (g # fs) limit row child
              in (Nest (obj_set key (fst r) kids), snd r))"

fun push_rows :: "('a \<Rightarrow> string) list \<Rightarrow> nat \<Rightarrow> 'a list \<Rightarrow> 'a node \<Rightarrow> 'a node \<times> bool" where
  "push_rows keys limit [] n = (n, False)"
| "push_rows keys limit (row # rows) n =
     (let r = push_row keys limit row n
      in if snd r then r else push_rows keys limit rows (fst r))"

record 'a keyed_state =
  version :: nat
  data :: "'a node"

definition empty_state :: "('a \<Rightarrow> string) list \<Rightarrow> nat \<Rightarrow> 'a keyed_state" where
  "empty_state keys limit =
     \<lparr>version = 0, data = (if keys = [] then Leaf (Circular limit) else Nested)\<rparr>"

definition flat_push :: "'a list \<Rightarrow> 'a node \<Rightarrow> 'a node" where
  "flat_push rows n = (case n of Leaf c \<Rightarrow> Leaf (foldl (\<lambda>c x. circ_push x c) c rows) | Nest k \<Rightarrow> n)"

text \<open>\<^verbatim>\<open>updateFrame\<close>: the state afterwards and whether it raised.\<close>

definition updateFrame ::
    "('a \<Rightarrow> string) list \<Rightarrow> nat \<Rightarrow> 'a list \<Rightarrow> 'a keyed_state \<Rightarrow> 'a keyed_state \<times> bool" where
  "updateFrame keys limit rows prev =
     (if rows = [] then (prev, False)
      else if keys = [] then
        (prev\<lparr>data := flat_push rows (data prev), version := version prev + 1\<rparr>, False)
      else let r = push_rows keys limit rows (data prev)
           in if snd r then (prev\<lparr>data := fst r\<rparr>, True)
              else (prev\<lparr>data := fst r, version := version prev + 1\<rparr>, False))"

definition reset_store :: "('a \<Rightarrow> string) list \<Rightarrow> nat \<Rightarrow> 'a keyed_state \<Rightarrow> 'a keyed_state" where
  "reset_store keys limit prev = empty_state keys limit"

text \<open>A run of updates, as the subscribers see it.\<close>

definition run_frames ::
    "('a \<Rightarrow> string) list \<Rightarrow> nat \<Rightarrow> 'a list list \<Rightarrow> 'a keyed_state \<Rightarrow> 'a keyed_state" where
  "run_frames keys limit frames s = foldl (\<lambda>s rows. fst (updateFrame keys limit rows s)) s frames"

subsection \<open>Shape of the tree and the abstract view\<close>

text \<open>All leaves at one depth, all within the limit.\<close>

fun shaped :: "nat \<Rightarrow> nat \<Rightarrow> 'a node \<Rightarrow> bool" where
  "shaped d limit (Leaf c) = (d = 0 \<and> circ_ok c \<and> positions c = limit)"
| "shaped d limit (Nest kids) =
     (d \<noteq> 0 \<and> distinct (map fst kids) \<and> list_all (\<lambda>(k, n). shaped (d - 1) limit n) kids)"

fun rows_at :: "'a node \<Rightarrow> string list \<Rightarrow> 'a list" where
  "rows_at (Leaf c) [] = contents c"
| "rows_at (Nest kids) (k # ks) = (case map_of kids k of None \<Rightarrow> [] | Some n \<Rightarrow> rows_at n ks)"
| "rows_at _ _ = []"

text \<open>The path a row is stored under, and whether it is stored at all.\<close>

definition key_path :: "('a \<Rightarrow> string) list \<Rightarrow> 'a \<Rightarrow> string list" where
  "key_path keys row = map (\<lambda>f. f row) keys"

definition storable :: "('a \<Rightarrow> string) list \<Rightarrow> 'a \<Rightarrow> bool" where
  "storable keys row = list_all (\<lambda>k. k \<noteq> [] \<and> k \<noteq> ''array'') (key_path keys row)"

lemma shaped_kid: "shaped (Suc d) limit (Nest kids) \<Longrightarrow> map_of kids k = Some n \<Longrightarrow> shaped d limit n"
  by (auto simp: list_all_iff dest!: map_of_SomeD)

lemma shaped_obj_set:
  assumes "shaped (Suc d) limit (Nest kids)" "shaped d limit n"
  shows "shaped (Suc d) limit (Nest (obj_set k n kids))"
proof -
  have dist: "distinct (map fst (obj_set k n kids))"
    using assms by (intro distinct_obj_set) simp
  have "shaped d limit m" if "(k', m) \<in> set (obj_set k n kids)" for k' m
  proof -
    have "map_of (obj_set k n kids) k' = Some m"
      using that dist by simp
    then show ?thesis
      using assms shaped_kid [OF assms(1)] by (auto simp: map_of_obj_set split: if_splits)
  qed
  with dist show ?thesis by (auto simp: list_all_iff)
qed

lemma shaped_Nested [simp]: "shaped (Suc d) limit Nested"
  by (simp add: Nested_def)

lemma shaped_leaf_choice:
  assumes "shaped (Suc 0) limit (Nest kids)"
  shows "\<exists>c. (case map_of kids k of Some (Leaf c) \<Rightarrow> c | _ \<Rightarrow> Circular limit) = c \<and>
    circ_ok c \<and> positions c = limit \<and>
    contents c = rows_at (Nest kids) [k]"
proof (cases "map_of kids k")
  case None
  then show ?thesis by (simp add: circ_ok_Circular)
next
  case (Some n)
  then have "shaped 0 limit n" using shaped_kid assms by blast
  with Some show ?thesis by (cases n) auto
qed

lemma shaped_child_choice:
  assumes "shaped (Suc (Suc d)) limit (Nest kids)"
  shows "shaped (Suc d) limit (case map_of kids k of Some n \<Rightarrow> n | None \<Rightarrow> Nested)"
    and "rows_at (case map_of kids k of Some n \<Rightarrow> n | None \<Rightarrow> Nested) (p # ps) =
      rows_at (Nest kids) (k # p # ps)"
  using shaped_kid [OF assms, of k] by (auto simp: Nested_def split: option.splits)

lemma shaped_push_row:
  "shaped (length keys) limit n \<Longrightarrow> shaped (length keys) limit (fst (push_row keys limit row n))"
proof (induction keys limit row n rule: push_row.induct)
  case (3 f limit row kids)
  from shaped_leaf_choice [of limit kids "f row"] 3 obtain c where
    "(case map_of kids (f row) of Some (Leaf c) \<Rightarrow> c | _ \<Rightarrow> Circular limit) = c"
    and "circ_ok c" "positions c = limit" by auto
  then show ?case
    using 3 by (auto simp: Let_def circ_ok_push simp del: shaped.simps(2) intro!: shaped_obj_set)
next
  case (4 f g fs limit row kids)
  show ?case
  proof (cases "f row = [] \<or> f row = ''array''")
    case False
    have "shaped (length (g # fs)) limit
        (fst (push_row (g # fs) limit row
          (case map_of kids (f row) of Some n \<Rightarrow> n | None \<Rightarrow> Nested)))"
      using 4 False shaped_child_choice(1) [of "length fs" limit kids] by simp
    with False 4(2) show ?thesis
      by (simp add: Let_def shaped_obj_set del: shaped.simps(2))
  qed (use 4 in \<open>auto simp: Let_def simp del: shaped.simps(2)\<close>)
qed auto

text \<open>One pushed row is one appended row at its path, and nothing else moves.\<close>

lemma rows_at_push_row:
  assumes "shaped (length keys) limit n" "length p = length keys" "keys \<noteq> []"
  shows "rows_at (fst (push_row keys limit row n)) p =
    (if storable keys row \<and> p = key_path keys row
     then take_last limit (rows_at n p @ [row]) else rows_at n p)"
  using assms
proof (induction keys limit row n arbitrary: p rule: push_row.induct)
  case (3 f limit row kids)
  from 3 obtain k where p: "p = [k]" by (auto simp: length_Suc_conv)
  from shaped_leaf_choice [of limit kids "f row"] 3(1) obtain c where
    "(case map_of kids (f row) of Some (Leaf c) \<Rightarrow> c | _ \<Rightarrow> Circular limit) = c"
    and "circ_ok c" "positions c = limit" "contents c = rows_at (Nest kids) [f row]" by auto
  then show ?case
    by (auto simp: p Let_def storable_def key_path_def map_of_obj_set contents_push)
next
  case (4 f g fs limit row kids)
  from 4(3) obtain k q qs where p: "p = k # q # qs" by (auto simp: length_Suc_conv)
  let ?child = "case map_of kids (f row) of Some n \<Rightarrow> n | None \<Rightarrow> Nested"
  have shape: "shaped (length (g # fs)) limit ?child"
    using 4(2) shaped_child_choice(1) [of "length fs" limit kids] by simp
  have child: "rows_at ?child (q # qs) = rows_at (Nest kids) (f row # q # qs)"
    using 4(2) shaped_child_choice(2) [of "length fs" limit kids] by simp
  show ?case
  proof (cases "f row = [] \<or> f row = ''array''")
    case True
    then show ?thesis by (auto simp: Let_def storable_def key_path_def)
  next
    case False
    with 4(1) [of "f row" ?child "q # qs"] shape 4(3) p child show ?thesis
      by (auto simp: Let_def storable_def key_path_def map_of_obj_set)
  qed
qed auto

subsection \<open>Batches\<close>

text \<open>The rows that raise: all inner keys usable, the leaf key names the helper.\<close>

definition raises :: "('a \<Rightarrow> string) list \<Rightarrow> 'a \<Rightarrow> bool" where
  "raises keys row \<longleftrightarrow> keys \<noteq> [] \<and>
     list_all (\<lambda>k. k \<noteq> [] \<and> k \<noteq> ''array'') (butlast (key_path keys row)) \<and>
     last (key_path keys row) = ''array''"

lemma snd_push_row: "shaped (length keys) limit n \<Longrightarrow> snd (push_row keys limit row n) = raises keys row"
proof (induction keys limit row n rule: push_row.induct)
  case (4 f g fs limit row kids)
  then have "shaped (length (g # fs)) limit (case map_of kids (f row) of Some n \<Rightarrow> n | None \<Rightarrow> Nested)"
    using shaped_child_choice(1) [of "length fs" limit kids] by simp
  with 4 show ?case by (auto simp: Let_def raises_def key_path_def)
qed (auto simp: Let_def raises_def key_path_def)

lemma shaped_push_rows:
  "shaped (length keys) limit n \<Longrightarrow> shaped (length keys) limit (fst (push_rows keys limit rows n))"
  by (induction rows arbitrary: n) (auto simp: Let_def shaped_push_row)

lemma snd_push_rows:
  "shaped (length keys) limit n \<Longrightarrow> snd (push_rows keys limit rows n) = list_ex (raises keys) rows"
  by (induction rows arbitrary: n) (auto simp: Let_def shaped_push_row snd_push_row)

lemma raising_not_storable: "raises keys row \<Longrightarrow> \<not> storable keys row"
  by (cases "key_path keys row" rule: rev_cases)
    (auto simp: raises_def storable_def key_path_def)

lemma rows_at_push_rows:
  assumes "shaped (length keys) limit n" "length p = length keys" "keys \<noteq> []"
    "length (rows_at n p) \<le> limit"
  shows "rows_at (fst (push_rows keys limit rows n)) p =
    take_last limit (rows_at n p @
      filter (\<lambda>r. storable keys r \<and> key_path keys r = p) (takeWhile (\<lambda>r. \<not> raises keys r) rows))"
  using assms
proof (induction rows arbitrary: n)
  case (Cons row rows)
  let ?n = "fst (push_row keys limit row n)"
  have shape: "shaped (length keys) limit ?n" using Cons.prems by (simp add: shaped_push_row)
  have at: "rows_at ?n p = (if storable keys row \<and> key_path keys row = p
      then take_last limit (rows_at n p @ [row]) else rows_at n p)"
    using rows_at_push_row [OF Cons.prems(1-3)] by auto
  show ?case
  proof (cases "raises keys row")
    case True
    with Cons.prems at show ?thesis
      by (auto simp: Let_def snd_push_row raising_not_storable)
  next
    case False
    have "length (rows_at ?n p) \<le> limit" using at Cons.prems(4) by auto
    with Cons.IH [OF shape Cons.prems(2,3)] False Cons.prems at show ?thesis
      by (auto simp: Let_def snd_push_row take_last_absorb)
  qed
qed simp

text \<open>The shape of a store, flat or nested.\<close>

definition store_ok :: "('a \<Rightarrow> string) list \<Rightarrow> nat \<Rightarrow> 'a keyed_state \<Rightarrow> bool" where
  "store_ok keys limit s = shaped (length keys) limit (data s)"

lemma store_ok_empty: "store_ok keys limit (empty_state keys limit)"
  by (cases keys) (simp_all add: store_ok_def empty_state_def circ_ok_Circular)

lemma store_ok_flat_push:
  "shaped 0 limit n \<Longrightarrow> shaped 0 limit (flat_push rows n)"
  by (cases n) (auto simp: flat_push_def ring.push_all)

lemma store_ok_update:
  "store_ok keys limit s \<Longrightarrow> store_ok keys limit (fst (updateFrame keys limit rows s))"
  using shaped_push_rows [of keys limit "data s" rows]
  by (auto simp: store_ok_def updateFrame_def Let_def store_ok_flat_push)

lemma store_ok_run:
  "store_ok keys limit s \<Longrightarrow> store_ok keys limit (run_frames keys limit frames s)"
  unfolding run_frames_def by (rule foldl_invariant) (auto intro: store_ok_update)

definition accepted :: "('a \<Rightarrow> string) list \<Rightarrow> 'a list \<Rightarrow> 'a list" where
  "accepted keys rows = takeWhile (\<lambda>r. \<not> raises keys r) rows"

lemma shaped_rows_bound: "shaped d limit n \<Longrightarrow> length (rows_at n p) \<le> limit"
proof (induction n p arbitrary: d rule: rows_at.induct)
  case (2 kids k ks)
  then show ?case
    by (cases d) (simp, auto split: option.split dest: shaped_kid simp del: shaped.simps(2))
qed (auto simp: circ_ok_def)

lemma rows_at_update:
  assumes "store_ok keys limit s" "keys \<noteq> []" "length p = length keys"
  shows "rows_at (data (fst (updateFrame keys limit rows s))) p =
    take_last limit (rows_at (data s) p @
      filter (\<lambda>r. storable keys r \<and> key_path keys r = p) (accepted keys rows))"
  using assms rows_at_push_rows [of keys limit "data s" p rows]
    shaped_rows_bound [of "length keys" limit "data s" p]
  by (auto simp: updateFrame_def Let_def store_ok_def accepted_def)

lemma rows_at_run:
  assumes "store_ok keys limit s" "keys \<noteq> []" "length p = length keys"
  shows "rows_at (data (run_frames keys limit frames s)) p =
    take_last limit (rows_at (data s) p @
      filter (\<lambda>r. storable keys r \<and> key_path keys r = p) (concat (map (accepted keys) frames)))"
proof (induction frames rule: rev_induct)
  case Nil
  then show ?case
    using assms shaped_rows_bound [of "length keys" limit "data s" p]
    by (simp add: run_frames_def store_ok_def)
next
  case (snoc rows frames)
  have "store_ok keys limit (run_frames keys limit frames s)"
    by (rule store_ok_run [OF assms(1)])
  from rows_at_update [OF this assms(2,3), of rows] snoc show ?case
    by (simp add: run_frames_def take_last_absorb)
qed

lemma rows_at_empty: "keys \<noteq> [] \<Longrightarrow> rows_at (data (empty_state keys limit)) p = []"
  by (cases p) (simp_all add: empty_state_def Nested_def)

text \<open>
  C5. A nested store holds, under every key path, exactly the newest \<open>limit\<close> rows that were
  ever handed to it with that path, in arrival order: the rows of a batch up to the first one
  whose leaf key raises, and none with an empty key. This is the functional specification that
  the mutable tree of ring buffers refines.
\<close>

theorem keyed_store_refines_path_map:
  assumes "keys \<noteq> []" and "length p = length keys"
  shows "rows_at (data (run_frames keys limit frames (empty_state keys limit))) p =
    take_last limit
      (filter (\<lambda>r. storable keys r \<and> key_path keys r = p) (concat (map (accepted keys) frames)))"
  using rows_at_run [OF store_ok_empty assms] rows_at_empty [OF assms(1)] by simp

theorem keyed_store_refines_path_map_witness:
  "rows_at (data (run_frames [fst] 2 [[(''a'', 1), (''b'', 2)], [(''a'', 3), (''a'', 4 :: int)]]
      (empty_state [fst] 2))) [''a''] = [(''a'', 3), (''a'', 4)]"
proof -
  have "rows_at (data (run_frames [fst] 2 [[(''a'', 1), (''b'', 2)], [(''a'', 3), (''a'', 4 :: int)]]
      (empty_state [fst] 2))) [''a''] =
    take_last 2 (filter (\<lambda>r. storable [fst] r \<and> key_path [fst] r = [''a''])
      (concat (map (accepted [fst]) [[(''a'', 1), (''b'', 2)], [(''a'', 3), (''a'', 4 :: int)]])))"
    by (rule keyed_store_refines_path_map) simp_all
  also have "\<dots> = [(''a'', 3), (''a'', 4)]"
    by (simp add: accepted_def raises_def storable_def key_path_def take_last_def)
  finally show ?thesis .
qed

lemma version_update:
  "store_ok keys limit s \<Longrightarrow> version (fst (updateFrame keys limit rows s)) =
     (if rows = [] \<or> list_ex (raises keys) rows then version s else version s + 1)"
  by (auto simp: updateFrame_def Let_def store_ok_def snd_push_rows raises_def list_ex_iff)

text \<open>
  The version counter, which is what wakes the subscribers, moves by one for every batch
  that is not empty and does not raise, and by nothing otherwise.
\<close>

theorem version_counts_batches:
  "version (run_frames keys limit frames (empty_state keys limit)) =
     length (filter (\<lambda>rows. rows \<noteq> [] \<and> \<not> list_ex (raises keys) rows) frames)"
proof (induction frames rule: rev_induct)
  case Nil
  then show ?case by (simp add: run_frames_def empty_state_def)
next
  case (snoc rows frames)
  have "store_ok keys limit (run_frames keys limit frames (empty_state keys limit))"
    by (rule store_ok_run [OF store_ok_empty])
  from version_update [OF this, of rows] snoc show ?case
    by (simp add: run_frames_def)
qed

lemma flat_run:
  assumes "data s = Leaf c" "circ_ok c"
  shows "\<exists>c'. data (run_frames [] limit frames s) = Leaf c' \<and> circ_ok c' \<and>
    positions c' = positions c \<and> contents c' = take_last (positions c) (contents c @ concat frames)"
proof (induction frames rule: rev_induct)
  case Nil
  then show ?case using assms by (simp add: run_frames_def circ_ok_def)
next
  case (snoc rows frames)
  then obtain c' where c': "data (run_frames [] limit frames s) = Leaf c'" "circ_ok c'"
    "positions c' = positions c" "contents c' = take_last (positions c) (contents c @ concat frames)"
    by blast
  have "data (run_frames [] limit (frames @ [rows]) s) = Leaf (foldl (\<lambda>c x. circ_push x c) c' rows)"
    using c' by (simp add: run_frames_def updateFrame_def flat_push_def)
  with c' ring.push_all [OF c'(2), of rows] show ?case by (simp add: take_last_absorb)
qed

text \<open>
  A store without key extractors is one window: it returns the newest \<open>limit\<close> rows of all
  batches, with no hole among them.
\<close>

theorem flat_store_is_window:
  "node_array (data (run_frames [] limit frames (empty_state [] limit))) =
     map Some (take_last limit (concat frames))"
  using flat_run [of "empty_state [] limit" "Circular limit" limit frames]
  by (auto simp: empty_state_def circ_ok_Circular values_contents)

end
