(* ===== verification/Books.thy ===== *)
theory Books
  imports JsValue
begin

text \<open>
  The three desk ledgers and the confidence frame (\<^verbatim>\<open>collections/book.ts\<close>,
  \<^verbatim>\<open>collections/confidence.ts\<close>). A decision and a confidence row arrive as untyped objects;
  the functions here map them onto a ledger and onto the typed frame that arms live trading.
\<close>

subsection \<open>Ledgers\<close>

datatype Book = Paper | Virtual | Real

definition book_name :: "Book \<Rightarrow> string" where
  "book_name b = (case b of Paper \<Rightarrow> ''paper'' | Virtual \<Rightarrow> ''virtual'' | Real \<Rightarrow> ''real'')"

definition all_books :: "Book list" where
  "all_books = [Paper, Virtual, Real]"

definition triePrefix :: "Book \<Rightarrow> string" where
  "triePrefix b = ''model/paths''"

definition bookLabel :: "Book \<Rightarrow> string" where
  "bookLabel b = (case b of Virtual \<Rightarrow> ''Virtual'' | Real \<Rightarrow> ''Real'' | _ \<Rightarrow> ''Paper'')"

text \<open>\<^verbatim>\<open>isBook\<close> as a narrowing: the ledger, or \<^term>\<open>None\<close> for any other value.\<close>

definition isBook :: "jsval \<Rightarrow> Book option" where
  "isBook v =
     (if v = JStr ''virtual'' then Some Virtual
      else if v = JStr ''paper'' then Some Paper
      else if v = JStr ''real'' then Some Real else None)"

definition decisionBook :: "jsobj \<Rightarrow> Book" where
  "decisionBook decision =
     (case isBook (field decision ''tier'') of
        Some b \<Rightarrow> b
      | None \<Rightarrow> if truthy (field decision ''virtual'') then Virtual else Virtual)"

definition decisionStoreKey :: "jsobj \<Rightarrow> string" where
  "decisionStoreKey decision =
     book_name (decisionBook decision) @ '':'' @ js_text (field decision ''symbol'')"

lemma book_name_inj [simp]: "book_name a = book_name b \<longleftrightarrow> a = b"
  by (cases a; cases b) (auto simp: book_name_def)

lemma isBook_name [simp]: "isBook (JStr (book_name b)) = Some b"
  by (cases b) (auto simp: isBook_def book_name_def)

lemma isBook_Some: "isBook v = Some b \<longleftrightarrow> v = JStr (book_name b)"
  by (cases b) (auto simp: isBook_def book_name_def)

lemma book_name_no_colon: "CHR '':'' \<notin> set (book_name b)"
  by (cases b) (auto simp: book_name_def)

lemma colon_split: "a @ '':'' @ s = b @ '':'' @ t \<Longrightarrow> CHR '':'' \<notin> set a \<Longrightarrow> CHR '':'' \<notin> set b
  \<Longrightarrow> a = b \<and> s = t"
proof (induction a arbitrary: b)
  case Nil
  then show ?case by (cases b) auto
next
  case (Cons c a)
  then show ?case by (cases b) auto
qed

subsection \<open>Confidence\<close>

record BookConfidence =
  active :: bool
  armed :: bool
  halted :: bool
  conf_closed :: jsnum
  conf_wins :: jsnum
  win_rate :: "jsnum option"
  edge :: "jsnum option"

record ConfidenceFrame =
  conf_virtual :: BookConfidence
  conf_paper :: BookConfidence
  conf_real :: BookConfidence
  eligible_resistance :: jsnum
  real_ceiling :: bool

definition emptyBook :: BookConfidence where
  "emptyBook = \<lparr>active = False, armed = False, halted = False, conf_closed = Fin 0,
     conf_wins = Fin 0, win_rate = None, edge = None\<rparr>"

text \<open>The literal \<^verbatim>\<open>0.2\<close>.\<close>

definition default_eligible :: jsnum where
  "default_eligible = fl (2 / 10)"

text \<open>The initial value of \<^verbatim>\<open>confidenceAtom\<close>.\<close>

definition initial_confidence :: ConfidenceFrame where
  "initial_confidence = \<lparr>conf_virtual = emptyBook\<lparr>active := True\<rparr>,
     conf_paper = emptyBook\<lparr>active := True\<rparr>, conf_real = emptyBook,
     eligible_resistance = default_eligible, real_ceiling = False\<rparr>"

definition confidenceFor :: "ConfidenceFrame \<Rightarrow> Book \<Rightarrow> BookConfidence" where
  "confidenceFor frame b =
     (case b of Virtual \<Rightarrow> conf_virtual frame | Real \<Rightarrow> conf_real frame | Paper \<Rightarrow> conf_paper frame)"

definition asRate :: "jsval \<Rightarrow> jsnum option" where
  "asRate v = finite_num v"

definition asCount :: "jsval \<Rightarrow> jsnum" where
  "asCount v = (case finite_num v of Some n \<Rightarrow> n | None \<Rightarrow> Fin 0)"

definition asBook :: "jsval \<Rightarrow> bool \<Rightarrow> BookConfidence" where
  "asBook v fallbackActive =
     (case as_record v of
        None \<Rightarrow> emptyBook\<lparr>active := fallbackActive\<rparr>
      | Some row \<Rightarrow>
          \<lparr>active = (field row ''active'' = JBool True \<or> fallbackActive),
           armed = (field row ''armed'' = JBool True),
           halted = (field row ''halted'' = JBool True),
           conf_closed = asCount (field row ''closed''),
           conf_wins = asCount (field row ''wins''),
           win_rate = asRate (field row ''win_rate''),
           edge = asRate (field row ''edge'')\<rparr>)"

definition ingestConfidence :: "jsval \<Rightarrow> ConfidenceFrame \<Rightarrow> ConfidenceFrame" where
  "ingestConfidence raw frame =
     (case as_record raw of
        None \<Rightarrow> frame
      | Some row \<Rightarrow>
          \<lparr>conf_virtual = asBook (field row ''virtual'') True,
           conf_paper = asBook (field row ''paper'') True,
           conf_real = asBook (field row ''real'') False,
           eligible_resistance =
             (case as_num (field row ''eligible_resistance'') of
                Some n \<Rightarrow> n | None \<Rightarrow> default_eligible),
           real_ceiling = (field row ''real_ceiling'' = JBool True)\<rparr>)"

text \<open>The typed frame only holds finite statistics, whatever the wire carried.\<close>

definition book_conf_ok :: "BookConfidence \<Rightarrow> bool" where
  "book_conf_ok c \<longleftrightarrow> is_finite (conf_closed c) \<and> is_finite (conf_wins c) \<and>
     (case win_rate c of None \<Rightarrow> True | Some n \<Rightarrow> is_finite n) \<and>
     (case edge c of None \<Rightarrow> True | Some n \<Rightarrow> is_finite n)"

definition confidence_ok :: "ConfidenceFrame \<Rightarrow> bool" where
  "confidence_ok f \<longleftrightarrow> book_conf_ok (conf_virtual f) \<and> book_conf_ok (conf_paper f) \<and>
     book_conf_ok (conf_real f) \<and> active (conf_virtual f) \<and> active (conf_paper f)"

lemma asRate_finite: "asRate v = Some n \<Longrightarrow> is_finite n"
  by (auto simp: asRate_def finite_num_Some)

lemma asCount_finite: "is_finite (asCount v)"
  by (auto simp: asCount_def finite_num_Some split: option.split)

lemma asBook_ok: "book_conf_ok (asBook v b)"
  by (auto simp: asBook_def book_conf_ok_def emptyBook_def asCount_finite
      split: option.split dest: asRate_finite)

lemma asBook_active: "active (asBook v True)"
  by (auto simp: asBook_def split: option.split)

lemma armed_asBook: "armed (asBook v b) \<longleftrightarrow> (\<exists>row. v = JObj row \<and> field row ''armed'' = JBool True)"
  by (cases v) (auto simp: asBook_def emptyBook_def)

lemma confidence_ok_ingest: "confidence_ok f \<Longrightarrow> confidence_ok (ingestConfidence raw f)"
  by (auto simp: ingestConfidence_def confidence_ok_def asBook_ok asBook_active split: option.split)



text \<open>
  The confidence frame stays well-formed under every input: virtual and paper are always
  active and all counts and rates are finite.
\<close>

theorem confidence_always_ok:
  "confidence_ok (foldl (\<lambda>f raw. ingestConfidence raw f) initial_confidence raws)"
proof (rule foldl_invariant)
  show "confidence_ok initial_confidence"
    by (simp add: confidence_ok_def initial_confidence_def emptyBook_def book_conf_ok_def)
qed (rule confidence_ok_ingest)

text \<open>
  Two decisions share a slot of the decision store only if they belong to the same ledger
  and the same symbol, so the ledgers' decisions never overwrite each other.
\<close>

theorem decision_slots_separate:
  "decisionStoreKey d = decisionStoreKey e \<longleftrightarrow>
     decisionBook d = decisionBook e \<and> js_text (field d ''symbol'') = js_text (field e ''symbol'')"
  using colon_split [OF _ book_name_no_colon book_name_no_colon]
  by (auto simp: decisionStoreKey_def)

end
