(* ===== verification/BookReadout.thy ===== *)
theory BookReadout
  imports Books
begin

text \<open>
  Reading a desk lot off its wire row (\<^verbatim>\<open>components/book-readout.ts\<close>). \<open>dp\<close> is
  \<^verbatim>\<open>Date.parse\<close> (the time value in milliseconds, \<^term>\<open>None\<close> for an invalid date), a parameter
  because the accepted formats are the implementation's. \<^verbatim>\<open>fills\<close> is read at its declared type:
  absent, null or a list of objects.
\<close>

subsection \<open>Scalars\<close>

definition decimal :: "jsval \<Rightarrow> jsnum option" where
  "decimal v =
     (case v of
        JNum n \<Rightarrow> Some n
      | JStr s \<Rightarrow> (let text = trim s
                   in if decimal_value text = None then None else Some (number_of_text text))
      | _ \<Rightarrow> None)"

definition dateText :: "(string \<Rightarrow> int option) \<Rightarrow> jsval \<Rightarrow> string option" where
  "dateText dp v = (case nonempty_str v of None \<Rightarrow> None | Some s \<Rightarrow> map_option iso_text (dp s))"

text \<open>\<^verbatim>\<open>Date.parse\<close> as a number.\<close>

definition date_num :: "(string \<Rightarrow> int option) \<Rightarrow> string \<Rightarrow> jsnum" where
  "date_num dp s = (case dp s of None \<Rightarrow> NaN | Some t \<Rightarrow> num_of_int t)"

definition returnFraction :: "jsobj \<Rightarrow> jsnum option" where
  "returnFraction row =
     (case decimal (field row ''pnl_pct'') of
        Some p \<Rightarrow> Some (num_div p (Fin 100)) | None \<Rightarrow> None)"

definition outcomeTriggers :: "jsval \<Rightarrow> string list option" where
  "outcomeTriggers v =
     (case as_arr v of
        None \<Rightarrow> None
      | Some items \<Rightarrow> (let l = List.map_filter as_str items in if l = [] then None else Some l))"

definition hold_ns_between :: "(string \<Rightarrow> int option) \<Rightarrow> string \<Rightarrow> string \<Rightarrow> jsnum" where
  "hold_ns_between dp closedAt openedAt =
     num_mul (num_sub (date_num dp closedAt) (date_num dp openedAt)) (Fin 1000000)"

record SettledOutcome =
  so_pnl :: "jsnum option"
  so_pnl_pct :: "jsnum option"
  so_hold_ns :: "jsnum option"
  so_triggers :: "string list option"

definition settledOutcome :: "(string \<Rightarrow> int option) \<Rightarrow> jsobj \<Rightarrow> SettledOutcome option" where
  "settledOutcome dp row =
     (let pnlPct = decimal (field row ''pnl_pct''); frac = returnFraction row
      in if frac = None \<and> pnlPct = None then None
         else let openedAt = dateText dp (field row ''opened_at'');
                  closedAt = dateText dp (field row ''closed_at'')
              in Some \<lparr>so_pnl = frac,
                       so_pnl_pct = coalesce pnlPct (map_option (\<lambda>f. num_mul f (Fin 100)) frac),
                       so_hold_ns = (case (closedAt, openedAt) of
                           (Some c, Some p) \<Rightarrow> Some (hold_ns_between dp c p) | _ \<Rightarrow> None),
                       so_triggers = outcomeTriggers (field row ''outcome_triggers'')\<rparr>)"

subsection \<open>Fills\<close>

record ExecutionTotals =
  tot_qty :: "jsnum option"
  tot_cost :: "jsnum option"
  tot_fee :: "jsnum option"
  tot_vwap :: "jsnum option"
  tot_firstAt :: "string option"
  tot_lastAt :: "string option"

text \<open>The local variables of \<^verbatim>\<open>executionTotals\<close>.\<close>

record fill_acc =
  acc_qty :: jsnum
  acc_cost :: jsnum
  acc_fee :: jsnum
  acc_priceQty :: jsnum
  acc_priceNotional :: jsnum
  acc_sawFill :: bool
  acc_costKnown :: bool
  acc_feeKnown :: bool
  acc_firstAt :: "string option"
  acc_lastAt :: "string option"
  acc_seen :: "string list"

definition fill_start :: fill_acc where
  "fill_start = \<lparr>acc_qty = Fin 0, acc_cost = Fin 0, acc_fee = Fin 0, acc_priceQty = Fin 0,
     acc_priceNotional = Fin 0, acc_sawFill = False, acc_costKnown = True, acc_feeKnown = True,
     acc_firstAt = None, acc_lastAt = None, acc_seen = []\<rparr>"

definition fills_of :: "jsobj \<Rightarrow> jsobj list" where
  "fills_of row =
     (case field row ''fills'' of JArr vs \<Rightarrow> List.map_filter as_plain vs | _ \<Rightarrow> [])"

definition fill_side :: "jsobj \<Rightarrow> string option" where
  "fill_side fill = map_option lower (as_str (field fill ''side''))"

text \<open>\<^verbatim>\<open>String(fill.exec_id ?? fill.trade_id)\<close>, when there is one.\<close>

definition fill_key :: "jsobj \<Rightarrow> string option" where
  "fill_key fill =
     (let ident = orelse (field fill ''exec_id'') (field fill ''trade_id'')
      in if nullish ident then None else Some (js_text ident))"

definition fill_qty :: "jsobj \<Rightarrow> jsnum option" where
  "fill_qty fill = coalesce (decimal (field fill ''last_qty'')) (decimal (field fill ''cum_qty''))"

text \<open>The rest of the loop body once a fill counts.\<close>

definition count_fill :: "(string \<Rightarrow> int option) \<Rightarrow> jsobj \<Rightarrow> jsnum \<Rightarrow> fill_acc \<Rightarrow> fill_acc" where
  "count_fill dp fill fillQty a =
     (let fillCost = coalesce (decimal (field fill ''cost'')) (decimal (field fill ''cum_cost''));
          fillFee = decimal (field fill ''fee_usd_equiv'');
          fillPrice = coalesce (decimal (field fill ''avg_price'')) (decimal (field fill ''last_price''));
          fillAt = dateText dp (field fill ''timestamp'')
      in a\<lparr>acc_qty := num_add (acc_qty a) fillQty,
            acc_sawFill := True,
            acc_costKnown := (acc_costKnown a \<and> fillCost \<noteq> None),
            acc_cost := (case fillCost of None \<Rightarrow> acc_cost a | Some c \<Rightarrow> num_add (acc_cost a) c),
            acc_feeKnown := (acc_feeKnown a \<and> fillFee \<noteq> None),
            acc_fee := (case fillFee of None \<Rightarrow> acc_fee a | Some c \<Rightarrow> num_add (acc_fee a) c),
            acc_priceQty := (case fillPrice of None \<Rightarrow> acc_priceQty a
               | Some p \<Rightarrow> num_add (acc_priceQty a) fillQty),
            acc_priceNotional := (case fillPrice of None \<Rightarrow> acc_priceNotional a
               | Some p \<Rightarrow> num_add (acc_priceNotional a) (num_mul p fillQty)),
            acc_firstAt := coalesce (acc_firstAt a) fillAt,
            acc_lastAt := coalesce fillAt (acc_lastAt a)\<rparr>)"

definition fill_step ::
    "(string \<Rightarrow> int option) \<Rightarrow> string \<Rightarrow> fill_acc \<Rightarrow> jsobj \<Rightarrow> fill_acc" where
  "fill_step dp side a fill =
     (if fill_side fill \<noteq> Some side then a
      else case fill_key fill of
        Some key \<Rightarrow>
          if key \<in> set (acc_seen a) then a
          else (let a' = a\<lparr>acc_seen := key # acc_seen a\<rparr>
                in case fill_qty fill of
                     None \<Rightarrow> a'
                   | Some q \<Rightarrow> if num_le q (Fin 0) then a' else count_fill dp fill q a')
      | None \<Rightarrow>
          (case fill_qty fill of
             None \<Rightarrow> a
           | Some q \<Rightarrow> if num_le q (Fin 0) then a else count_fill dp fill q a))"

definition totals_of :: "fill_acc \<Rightarrow> ExecutionTotals" where
  "totals_of a =
     \<lparr>tot_qty = (if acc_sawFill a then Some (acc_qty a) else None),
      tot_cost = (if acc_sawFill a \<and> acc_costKnown a then Some (acc_cost a) else None),
      tot_fee = (if acc_sawFill a \<and> acc_feeKnown a then Some (acc_fee a) else None),
      tot_vwap = (if acc_costKnown a \<and> num_lt (Fin 0) (acc_qty a)
                  then Some (num_div (acc_cost a) (acc_qty a))
                  else if num_lt (Fin 0) (acc_priceQty a)
                  then Some (num_div (acc_priceNotional a) (acc_priceQty a)) else None),
      tot_firstAt = acc_firstAt a,
      tot_lastAt = acc_lastAt a\<rparr>"

definition executionTotals ::
    "(string \<Rightarrow> int option) \<Rightarrow> jsobj \<Rightarrow> string \<Rightarrow> ExecutionTotals" where
  "executionTotals dp row side =
     totals_of (foldl (fill_step dp side) fill_start (fills_of row))"

definition orderVolume :: "jsval \<Rightarrow> jsnum option" where
  "orderVolume order =
     (case as_record order of None \<Rightarrow> None | Some ob \<Rightarrow> decimal (field ob ''volume''))"

subsection \<open>The readout\<close>

record PositionReadout =
  ro_qty :: "jsnum option"
  ro_entryQty :: "jsnum option"
  ro_entryCost :: "jsnum option"
  ro_exitQty :: "jsnum option"
  ro_entryPrice :: "jsnum option"
  ro_mark :: "jsnum option"
  ro_entryFee :: "jsnum option"
  ro_exitFee :: "jsnum option"
  ro_fees :: "jsnum option"
  ro_exitVwap :: "jsnum option"
  ro_exitRoom :: "jsnum option"
  ro_returnPct :: "jsnum option"
  ro_returnPctDisplay :: "jsnum option"
  ro_openedAt :: "string option"
  ro_closedAt :: "string option"
  ro_holdNs :: "jsnum option"
  ro_closed :: bool
  ro_exitPending :: bool

definition num_or_zero :: "jsnum option \<Rightarrow> jsnum" where
  "num_or_zero x = (case x of None \<Rightarrow> Fin 0 | Some n \<Rightarrow> n)"

definition positionReadout :: "(string \<Rightarrow> int option) \<Rightarrow> jsobj \<Rightarrow> PositionReadout" where
  "positionReadout dp row =
     (let buys = executionTotals dp row ''buy'';
          sells = executionTotals dp row ''sell'';
          orderedQty = orderVolume (field row ''entry_order'');
          entryFee = tot_fee buys;
          exitFee = tot_fee sells;
          openedAt = coalesce (dateText dp (field row ''opened_at'')) (tot_firstAt buys);
          closedAt = dateText dp (field row ''closed_at'');
          fullySold = (case (tot_qty buys, tot_qty sells) of
             (Some b, Some s) \<Rightarrow> num_le b s | _ \<Rightarrow> False);
          closed = (closedAt \<noteq> None \<or> fullySold)
      in \<lparr>ro_qty = coalesce (tot_qty buys) orderedQty,
          ro_entryQty = coalesce (tot_qty buys) orderedQty,
          ro_entryCost = tot_cost buys,
          ro_exitQty = tot_qty sells,
          ro_entryPrice = tot_vwap buys,
          ro_mark = decimal (field row ''mark''),
          ro_entryFee = entryFee,
          ro_exitFee = exitFee,
          ro_fees = (if entryFee \<noteq> None \<or> exitFee \<noteq> None
             then Some (num_add (num_or_zero entryFee) (num_or_zero exitFee)) else None),
          ro_exitVwap = coalesce (decimal (field row ''exit_vwap'')) (tot_vwap sells),
          ro_exitRoom = decimal (field row ''exit_room''),
          ro_returnPct = returnFraction row,
          ro_returnPctDisplay = decimal (field row ''pnl_pct''),
          ro_openedAt = openedAt,
          ro_closedAt = coalesce closedAt (if fullySold then tot_lastAt sells else None),
          ro_holdNs = (case (closedAt, openedAt) of
             (Some c, Some p) \<Rightarrow> Some (hold_ns_between dp c p) | _ \<Rightarrow> None),
          ro_closed = closed,
          ro_exitPending = (\<not> nullish (field row ''exit_order'') \<and> \<not> closed)\<rparr>)"

definition closeNowReturnPct :: "(string \<Rightarrow> int option) \<Rightarrow> jsobj \<Rightarrow> jsnum option" where
  "closeNowReturnPct dp row =
     (let readout = positionReadout dp row
      in coalesce (ro_returnPctDisplay readout)
           (map_option (\<lambda>r. num_mul r (Fin 100)) (ro_returnPct readout)))"

subsection \<open>Lots by ledger\<close>

definition onBook :: "jsobj \<Rightarrow> Book \<Rightarrow> bool" where
  "onBook row book =
     (case nonempty_str (field row ''book'') of
        Some b \<Rightarrow> b = book_name book | None \<Rightarrow> book = Paper)"

definition openOnBook :: "(string \<Rightarrow> int option) \<Rightarrow> jsobj list \<Rightarrow> Book \<Rightarrow> jsobj list" where
  "openOnBook dp rows book =
     filter (\<lambda>row. onBook row book \<and> \<not> ro_closed (positionReadout dp row)) rows"

definition closedOnBook :: "(string \<Rightarrow> int option) \<Rightarrow> jsobj list \<Rightarrow> Book \<Rightarrow> jsobj list" where
  "closedOnBook dp rows book =
     filter (\<lambda>row. onBook row book \<and> ro_closed (positionReadout dp row)) rows"

definition countsTowardBookPerformance :: "jsobj \<Rightarrow> Book \<Rightarrow> bool" where
  "countsTowardBookPerformance row book = onBook row book"

subsection \<open>A decimal text is read exactly\<close>

lemma trim_idem [simp]: "trim (trim s) = trim s"
proof -
  have fix_drop: "dropWhile is_space xs = xs" if "xs = [] \<or> \<not> is_space (hd xs)" for xs
    using that by (cases xs) auto
  let ?a = "dropWhile is_space s"
  let ?t = "rev (dropWhile is_space (rev ?a))"
  have "?t = [] \<or> \<not> is_space (hd ?t)"
  proof (cases "?t = []")
    case False
    have "prefix ?t ?a"
      by (metis suffix_dropWhile suffix_to_prefix rev_rev_ident)
    then obtain zs where "?a = ?t @ zs" by (rule prefixE)
    with False have "?a \<noteq> []" and "hd ?a = hd ?t" by (metis append_is_Nil_conv, metis hd_append2)
    then show ?thesis using hd_dropWhile [of is_space s] by auto
  qed simp
  then have "dropWhile is_space ?t = ?t" by (rule fix_drop)
  then show ?thesis
    by (simp add: trim_def)
qed

lemma decimal_value_Nil [simp]: "decimal_value [] = None"
  by (simp add: decimal_value_def split_sign_def unsigned_decimal_def)

lemma decimal_value_Infinity [simp]:
  "decimal_value ''Infinity'' = None" "decimal_value ''+Infinity'' = None"
  "decimal_value ''-Infinity'' = None"
  by (simp_all add: decimal_value_def split_sign_def unsigned_decimal_def is_digit_def)

lemma decimal_value_radix:
  assumes "radix_literal s \<noteq> None"
  shows "decimal_value s = None"
proof -
  obtain m ds where s: "s = CHR ''0'' # m # ds"
    and m: "(of_char (lower_char m) :: nat) \<in> {120, 111, 98}"
    using assms by (auto simp: radix_literal_def Let_def split: list.splits if_splits)
  have "\<not> is_digit m" "m \<noteq> CHR ''.''" "m \<noteq> CHR ''e''" "m \<noteq> CHR ''E''"
    using m by (auto simp: is_digit_def lower_char_def split: if_splits)
  moreover have "is_digit (CHR ''0'')" by (simp add: is_digit_def)
  ultimately show ?thesis
    by (simp add: s decimal_value_def split_sign_def unsigned_decimal_def
        exponent_of_def Let_def)
qed

text \<open>
  A string is read as a decimal exactly when it matches the decimal pattern after trimming,
  and then its value is the correctly rounded number it denotes: the guard and
  \<^verbatim>\<open>Number(text)\<close> agree, and no text reads as \<^verbatim>\<open>NaN\<close>, as a hexadecimal literal or as an
  infinity literal.
\<close>

theorem decimal_text_exact: "decimal (JStr s) = map_option fl (decimal_value (trim s))"
proof (cases "decimal_value (trim s)")
  case None
  then show ?thesis by (simp add: decimal_def)
next
  case (Some q)
  then have "radix_literal (trim s) = None" using decimal_value_radix by fastforce
  moreover have "trim s \<noteq> []" "trim s \<noteq> ''Infinity''" "trim s \<noteq> ''+Infinity''"
    "trim s \<noteq> ''-Infinity''" using Some by auto
  ultimately show ?thesis using Some by (simp add: decimal_def number_of_text_def Let_def)
qed

subsection \<open>Replayed fills\<close>

lemma seen_grows: "set (acc_seen a) \<subseteq> set (acc_seen (fill_step dp side a f))"
  by (auto simp: fill_step_def count_fill_def Let_def split: option.splits)

lemma seen_after:
  assumes "f \<in> set fs" "fill_side f = Some side" "fill_key f = Some k"
  shows "k \<in> set (acc_seen (foldl (fill_step dp side) a fs))"
  using assms(1)
proof (induction fs rule: rev_induct)
  case (snoc g fs)
  show ?case
  proof (cases "f = g")
    case True
    then show ?thesis
      using assms(2,3)
      by (auto simp: fill_step_def count_fill_def Let_def split: option.splits)
  next
    case False
    with snoc show ?thesis using seen_grows by fastforce
  qed
qed simp

lemma replay_step:
  assumes "f \<in> set fs" "fill_key f \<noteq> None"
    and "acc = foldl (fill_step dp side) a fs"
  shows "fill_step dp side acc f = acc"
  using assms seen_after [of f fs side _ dp a] by (auto simp: fill_step_def)

lemma replay_fold:
  assumes "\<forall>f \<in> set replay. f \<in> set fs \<and> fill_key f \<noteq> None"
  shows "foldl (fill_step dp side) a (fs @ replay) = foldl (fill_step dp side) a fs"
  using assms by (induction replay rule: rev_induct) (auto simp: replay_step)

text \<open>
  C7. A fill that is delivered again does not count twice: extending a lot by copies of fills it
  already holds, each with an execution or trade id, changes neither side's quantity, cost, fee,
  average price nor times.
\<close>

theorem replayed_fills_ignored:
  assumes "fills_of row' = fills_of row @ replay"
    and "\<forall>f \<in> set replay. f \<in> set (fills_of row) \<and> fill_key f \<noteq> None"
  shows "executionTotals dp row' side = executionTotals dp row side"
  using replay_fold [OF assms(2)] by (simp add: executionTotals_def assms(1))

theorem replayed_fills_ignored_witness:
  "let f = [(''side'', JStr ''BUY''), (''exec_id'', JStr ''e1''), (''last_qty'', JNum (Fin 2))]
   in executionTotals (\<lambda>_. None) [(''fills'', JArr [JObj f, JObj f])] ''buy'' =
      executionTotals (\<lambda>_. None) [(''fills'', JArr [JObj f])] ''buy''"
proof -
  let ?f = "[(''side'', JStr ''BUY''), (''exec_id'', JStr ''e1''), (''last_qty'', JNum (Fin 2))]"
  show ?thesis
    unfolding Let_def
    by (rule replayed_fills_ignored [where replay = "[?f]"])
      (simp_all add: fills_of_def map_filter_Cons List.map_filter_def fill_key_def nullish_def)
qed

subsection \<open>Ledger views\<close>

lemma onBook_unique: "onBook row a \<Longrightarrow> onBook row b \<Longrightarrow> a = b"
  by (auto simp: onBook_def split: option.splits)

lemma books_disjoint:
  "a \<noteq> b \<Longrightarrow> filter (\<lambda>r. onBook r a \<and> onBook r b) rows = []"
  using onBook_unique by (auto simp: filter_empty_conv)

lemma open_closed_split:
  "length (openOnBook dp rows b) + length (closedOnBook dp rows b) =
     length (filter (\<lambda>r. onBook r b) rows)"
  by (induction rows) (auto simp: openOnBook_def closedOnBook_def)

lemma book_counts_le:
  "(\<Sum>b \<leftarrow> all_books. length (filter (\<lambda>r. onBook r b) rows)) \<le> length rows"
proof (induction rows)
  case (Cons r rows)
  have "(\<Sum>b \<leftarrow> all_books. if onBook r b then 1 else 0 :: nat) \<le> 1"
    by (auto simp: all_books_def onBook_def book_name_def split: option.split)
  with Cons show ?case by (auto simp: all_books_def split: if_splits)
qed (simp add: all_books_def)

text \<open>
  The ledger tabs partition the desk: for every ledger the open and closed lots are the
  lots on it, each once, and the three ledgers together never show a lot twice.
\<close>

theorem ledgers_partition_lots:
  "mset (openOnBook dp rows b) + mset (closedOnBook dp rows b) = mset (filter (\<lambda>r. onBook r b) rows) \<and>
   (\<Sum>b \<leftarrow> all_books. length (openOnBook dp rows b) + length (closedOnBook dp rows b)) \<le> length rows"
proof
  show "mset (openOnBook dp rows b) + mset (closedOnBook dp rows b) =
      mset (filter (\<lambda>r. onBook r b) rows)"
    by (induction rows) (auto simp: openOnBook_def closedOnBook_def)
  show "(\<Sum>b \<leftarrow> all_books. length (openOnBook dp rows b) + length (closedOnBook dp rows b))
      \<le> length rows"
    using book_counts_le by (simp add: open_closed_split)
qed

end
