(* ===== verification/Stoploss.thy ===== *)
theory Stoploss
  imports JsValue
begin

text \<open>
  The dynamic stop of a lot: \<^verbatim>\<open>lib/stoploss.ts\<close> turns the broker's wire object into the
  display shape, \<^verbatim>\<open>lib/stop-telemetry.ts\<close> turns that into words and tones. A state code
  that is in range and not whole indexes the code table outside its keys, which is the value
  \<^verbatim>\<open>undefined\<close>: the state of a normalised stop is therefore optional.
\<close>

subsection \<open>Wire to display\<close>

datatype DynamicStoplossState = Healthy | Protected | Critical | Dangerous | Triggered

record DynamicStoploss =
  st_state :: "DynamicStoplossState option"
  st_exit_reason :: "string option"
  st_friction :: jsnum
  st_current_pnl :: jsnum
  st_peak_pnl :: jsnum
  st_floor_pnl :: jsnum
  st_has_floor :: bool
  st_room_pct :: jsnum
  st_proximity :: jsnum
  st_downside_pressure :: jsnum
  st_downside_magnitude_ratio :: jsnum
  st_consecutive_down :: jsnum
  st_opened_at :: "string option"
  st_last_peak_time :: "string option"

definition STATE_FROM_CODE :: "jsnum \<Rightarrow> DynamicStoplossState option" where
  "STATE_FROM_CODE code =
     (if code = Fin 0 \<or> code = Fin 1 then Some Healthy
      else if code = Fin 2 then Some Dangerous
      else if code = Fin 3 then Some Critical
      else if code = Fin 4 then Some Protected
      else if code = Fin 5 then Some Triggered else None)"

text \<open>\<^verbatim>\<open>STATE_LABELS\<close> together with the cast that follows the membership test.\<close>

definition STATE_LABELS :: "(string \<times> DynamicStoplossState) list" where
  "STATE_LABELS =
     [(''Healthy'', Healthy), (''Protected'', Protected), (''Critical'', Critical),
      (''Dangerous'', Dangerous), (''Triggered'', Triggered), (''Stalled'', Dangerous)]"

definition num :: "jsval \<Rightarrow> jsnum option" where
  "num v =
     (case v of
        JNum n \<Rightarrow> if is_finite n then Some n else None
      | JStr s \<Rightarrow>
          if trim s \<noteq> []
          then let parsed = number_of_text s in if is_finite parsed then Some parsed else None
          else None
      | _ \<Rightarrow> None)"

fun pick :: "jsobj \<Rightarrow> string list \<Rightarrow> jsval" where
  "pick raw [] = JUndef"
| "pick raw (key # keys) = (if nullish (field raw key) then pick raw keys else field raw key)"

text \<open>The outer \<^term>\<open>None\<close> is the early \<^verbatim>\<open>null\<close>.\<close>

definition stateFromWire :: "jsobj \<Rightarrow> DynamicStoplossState option option" where
  "stateFromWire raw =
     (let labeled = pick raw [''state'', ''State'']
      in case (case labeled of JStr s \<Rightarrow> map_of STATE_LABELS s | _ \<Rightarrow> None) of
           Some st \<Rightarrow> Some (Some st)
         | None \<Rightarrow>
             (case num labeled of
                None \<Rightarrow> None
              | Some code \<Rightarrow>
                  if num_lt code (Fin 0) \<or> num_lt (Fin 5) code then None
                  else Some (STATE_FROM_CODE code)))"

definition stop_span :: "jsnum option \<Rightarrow> jsnum option \<Rightarrow> jsnum \<Rightarrow> jsnum \<Rightarrow> jsnum" where
  "stop_span profitTarget maxLoss peak floor_pnl =
     (case (profitTarget, maxLoss) of
        (Some p, Some m) \<Rightarrow> num_max (fl (1 / 10 ^ 9)) (num_sub p m)
      | _ \<Rightarrow> num_max (fl (1 / 10 ^ 9)) (num_sub peak floor_pnl))"

definition num_default :: "jsnum option \<Rightarrow> jsnum \<Rightarrow> jsnum" where
  "num_default x d = (case x of Some n \<Rightarrow> n | None \<Rightarrow> d)"

definition normalizeStoploss :: "jsval \<Rightarrow> DynamicStoploss option" where
  "normalizeStoploss raw =
     (case as_record raw of
        None \<Rightarrow> None
      | Some row \<Rightarrow>
          (case stateFromWire row of
             None \<Rightarrow> None
           | Some state \<Rightarrow>
               (let initial = num (pick row [''friction'', ''InitialPnLPct'', ''initial_pnl_pct'']);
                    maxLoss = num (pick row [''MaxLossPct'', ''max_loss_pct'']);
                    profitTarget = num (pick row [''ProfitTargetPct'', ''profit_target_pct''])
                in case (num (pick row [''current_pnl'', ''CurrentPnLPct'', ''current_pnl_pct'']),
                         num (pick row [''peak_pnl'', ''PeakPnLPct'', ''peak_pnl_pct'']),
                         num (pick row [''floor_pnl'', ''FloorPnLPct'', ''floor_pnl_pct''])) of
                     (Some current, Some peak, Some floor_pnl) \<Rightarrow>
                       (let span = stop_span profitTarget maxLoss peak floor_pnl;
                            room = num_default (num (pick row [''room_pct''])) (num_sub current floor_pnl);
                            proximity = num_default (num (pick row [''proximity'']))
                              (num_max (Fin 0) (num_min (Fin 1) (num_sub (Fin 1) (num_div room span))));
                            friction = (case initial of Some i \<Rightarrow> num_abs i | None \<Rightarrow> Fin 0);
                            hasFloor = (field row ''has_floor'' = JBool True \<or>
                                        field row ''has_floor'' = JUndef \<or> is_finite floor_pnl)
                        in Some \<lparr>st_state = state,
                             st_exit_reason = nonempty_str (pick row [''exit_reason'']),
                             st_friction = friction, st_current_pnl = current,
                             st_peak_pnl = peak, st_floor_pnl = floor_pnl,
                             st_has_floor = hasFloor, st_room_pct = room,
                             st_proximity = proximity,
                             st_downside_pressure =
                               num_default (num (pick row [''downside_pressure''])) (Fin 0),
                             st_downside_magnitude_ratio =
                               num_default (num (pick row [''downside_magnitude_ratio''])) (Fin 0),
                             st_consecutive_down =
                               num_default (num (pick row [''consecutive_down''])) (Fin 0),
                             st_opened_at = nonempty_str (pick row [''opened_at'', ''PreviousTime'']),
                             st_last_peak_time =
                               nonempty_str (pick row [''last_peak_time'', ''CurrentTime''])\<rparr>)
                   | _ \<Rightarrow> None)))"

subsection \<open>Words and tones\<close>

datatype Tone = Good | Warn | Bad | Info | Neutral

datatype MeterTone = Success | Warning | Error | MInfo | Disabled

primrec toneColor :: "Tone \<Rightarrow> string" where
  "toneColor Good = ''var(--up)''"
| "toneColor Warn = ''var(--warn)''"
| "toneColor Bad = ''var(--down)''"
| "toneColor Info = ''var(--info)''"
| "toneColor Neutral = ''var(--f3)''"

primrec meterTone :: "Tone \<Rightarrow> MeterTone" where
  "meterTone Good = Success"
| "meterTone Warn = Warning"
| "meterTone Bad = Error"
| "meterTone Info = MInfo"
| "meterTone Neutral = Disabled"

text \<open>A number argument that may be \<^verbatim>\<open>null\<close>, \<^verbatim>\<open>undefined\<close> or not finite.\<close>

definition shown :: "jsnum option \<Rightarrow> jsnum option" where
  "shown x = (case x of Some n \<Rightarrow> if is_finite n then Some n else None | None \<Rightarrow> None)"

definition proximityPct :: "jsnum option \<Rightarrow> jsnum option" where
  "proximityPct ratio =
     map_option (\<lambda>r. num_max (Fin 0) (num_min (Fin 100) (num_mul r (Fin 100)))) (shown ratio)"

fun stateTone :: "DynamicStoplossState option \<Rightarrow> Tone" where
  "stateTone (Some Healthy) = Good"
| "stateTone (Some Protected) = Info"
| "stateTone (Some Dangerous) = Bad"
| "stateTone (Some Critical) = Bad"
| "stateTone (Some Triggered) = Bad"
| "stateTone None = Neutral"

definition em_dash :: string where "em_dash = [CHR 0xE2, CHR 0x80, CHR 0x94]"

definition right_arrow :: string where "right_arrow = [CHR 0xE2, CHR 0x86, CHR 0x92]"

definition down_arrow :: string where "down_arrow = [CHR 0xE2, CHR 0x86, CHR 0x93]"

definition fmtPct :: "jsnum option \<Rightarrow> string" where
  "fmtPct v = (case shown v of None \<Rightarrow> em_dash | Some n \<Rightarrow> to_fixed 1 n @ ''%'')"

record held_args =
  ha_state :: "DynamicStoplossState option"
  ha_current :: "jsnum option"
  ha_peak :: "jsnum option"
  ha_floor :: "jsnum option"
  ha_friction :: "jsnum option"
  ha_has_floor :: bool
  ha_proximity :: "jsnum option"
  ha_downside_pressure :: "jsnum option"
  ha_exit_reason :: "string option"
  ha_room_pct :: "jsnum option"

text \<open>The branches after the mark is known, in source order.\<close>

definition floor_verdict :: "held_args \<Rightarrow> (string \<times> Tone) option" where
  "floor_verdict a =
     (case (if ha_has_floor a then ha_proximity a else None) of
        None \<Rightarrow> None
      | Some prox \<Rightarrow>
          if num_le (Fin 1) prox
          then Some (''At the profit floor '' @ em_dash @ '' stop should arm'', Bad)
          else (case shown (ha_room_pct a) of
            None \<Rightarrow> None
          | Some room \<Rightarrow>
              Some (''Protected '' @ em_dash @ '' '' @ to_fixed 1 (num_abs room) @
                    ''pp room before floor at '' @ fmtPct (ha_floor a),
                    if num_le (fl (7 / 10)) prox then Warn else stateTone (ha_state a))))"

definition peak_verdict :: "held_args \<Rightarrow> (string \<times> Tone) option" where
  "peak_verdict a =
     (case shown (ha_peak a) of
        None \<Rightarrow> None
      | Some peak \<Rightarrow>
          if num_lt (num_default (ha_friction a) (Fin 0)) peak
          then Some (''In profit (peak '' @ to_fixed 1 peak @ ''%) '' @ em_dash @
                     '' dynamic floor armed'', Good)
          else None)"

definition pressure_verdict :: "held_args \<Rightarrow> (string \<times> Tone) option" where
  "pressure_verdict a =
     (case ha_downside_pressure a of
        None \<Rightarrow> None
      | Some p \<Rightarrow>
          if num_lt (Fin 0) p
          then Some (''Underwater '' @ em_dash @ '' downside pressure '' @
                     num_text (num_round (num_mul p (Fin 100))) @ ''%'',
                     if num_le (fl (7 / 10)) p then Bad else Warn)
          else None)"

definition heldVerdict :: "held_args \<Rightarrow> string \<times> Tone" where
  "heldVerdict a =
     (if ha_state a = Some Triggered then
        ((case ha_exit_reason a of
            Some r \<Rightarrow> if r \<noteq> [] then r
                      else ''Stop triggered '' @ em_dash @ '' desk should exit on this mark''
          | None \<Rightarrow> ''Stop triggered '' @ em_dash @ '' desk should exit on this mark''), Bad)
      else if ha_state a = Some Dangerous then
        (''Dangerous '' @ em_dash @ '' floor proximity or cascade pressure is elevated'', Bad)
      else if ha_state a = Some Critical then
        (''Critical '' @ em_dash @ '' room to floor is thinner than entry drag'', Bad)
      else case shown (ha_current a) of
        None \<Rightarrow> (''Waiting for the desk book to price the lot'', Neutral)
      | Some current \<Rightarrow>
          (case coalesce (floor_verdict a) (coalesce (peak_verdict a) (pressure_verdict a)) of
             Some verdict \<Rightarrow> verdict
           | None \<Rightarrow>
               (''Holding near entry ('' @ to_fixed 2 current @ ''%) '' @ em_dash @ '' stop healthy'',
                if stateTone (ha_state a) = Neutral then Good else stateTone (ha_state a))))"

record StopWord =
  w_label :: string
  w_short :: string
  w_title :: string

record StopCheck =
  ck_id :: string
  ck_name :: string
  ck_role :: string
  ck_word :: StopWord
  ck_percent :: "jsnum option"
  ck_tone :: Tone

definition pressureTone :: "jsnum option \<Rightarrow> Tone" where
  "pressureTone ratio =
     (case shown ratio of
        None \<Rightarrow> Neutral
      | Some r \<Rightarrow>
          if num_le (fl (85 / 100)) r then Bad
          else if num_le (fl (55 / 100)) r then Warn
          else if num_le (fl (25 / 100)) r then Info else Good)"

definition floorTone :: "jsnum option \<Rightarrow> Tone" where
  "floorTone proximity =
     (case shown proximity of
        None \<Rightarrow> Neutral
      | Some p \<Rightarrow>
          if num_le (Fin 1) p then Bad
          else if num_le (fl (7 / 10)) p then Warn
          else if num_le (fl (35 / 100)) p then Info else Good)"

record stop_args =
  sa_state :: "DynamicStoplossState option"
  sa_proximity :: "jsnum option"
  sa_downside_pressure :: "jsnum option"
  sa_downside_magnitude_ratio :: "jsnum option"
  sa_consecutive_down :: "jsnum option"
  sa_has_floor :: bool
  sa_room_pct :: "jsnum option"
  sa_current :: "jsnum option"

definition rounded :: "jsnum \<Rightarrow> string" where
  "rounded n = num_text (num_round n)"

definition floor_check :: "stop_args \<Rightarrow> StopCheck" where
  "floor_check a =
     (let prox = proximityPct (sa_proximity a);
          floorShort =
            (if sa_has_floor a then
               (case sa_room_pct a of
                  Some room \<Rightarrow> to_fixed 1 (num_max (Fin 0) room) @ ''pp room''
                | None \<Rightarrow> (case prox of Some p \<Rightarrow> rounded p @ ''% to floor'' | None \<Rightarrow> ''armed''))
             else ''no floor'')
      in \<lparr>ck_id = ''floor'', ck_name = ''Floor'', ck_role = ''harvest'',
          ck_word = \<lparr>w_label = ''Floor proximity'', w_short = floorShort,
            w_title =
              (if sa_has_floor a then
                 ''Distance from peak toward the profit floor. '' @
                 (case prox of
                    Some p \<Rightarrow> rounded p @ ''% of the peak'' @ right_arrow @ ''floor span consumed''
                  | None \<Rightarrow> ''Floor is set'') @
                 (case sa_current a of Some c \<Rightarrow> '', mark '' @ fmtPct (Some c) | None \<Rightarrow> []) @ ''.''
               else ''Floor has not armed yet '' @ em_dash @
                 '' trail engages once peak clears friction.'')\<rparr>,
          ck_percent = (if sa_has_floor a then prox else None),
          ck_tone = (if sa_has_floor a then floorTone (sa_proximity a) else Neutral)\<rparr>)"

definition pressure_check :: "stop_args \<Rightarrow> StopCheck" where
  "pressure_check a =
     (let pressure = proximityPct (sa_downside_pressure a)
      in \<lparr>ck_id = ''pressure'', ck_name = ''Pressure'', ck_role = ''defence'',
          ck_word = \<lparr>w_label = ''Downside pressure'',
            w_short = (case pressure of Some p \<Rightarrow> rounded p @ ''%'' | None \<Rightarrow> ''calm''),
            w_title =
              (case pressure of
                 Some p \<Rightarrow> ''Cascade pressure from consecutive adverse marks '' @ em_dash @ '' '' @
                           rounded p @ ''% of the exit budget.''
               | None \<Rightarrow> ''No elevated downside pressure on this mark.'')\<rparr>,
          ck_percent = pressure,
          ck_tone = pressureTone (sa_downside_pressure a)\<rparr>)"

definition stall_check :: "stop_args \<Rightarrow> StopCheck" where
  "stall_check a =
     (let critical = (sa_state a = Some Critical);
          down = (case sa_consecutive_down a of
                    Some d \<Rightarrow> if num_lt (Fin 0) d then Some d else None | None \<Rightarrow> None)
      in \<lparr>ck_id = ''stall'', ck_name = ''Stall'', ck_role = ''context'',
          ck_word = \<lparr>w_label = ''Stall'',
            w_short = (if critical then ''critical''
                       else case down of Some d \<Rightarrow> num_text d @ down_arrow | None \<Rightarrow> ''clear''),
            w_title = (if critical then ''Room to floor is thinner than entry drag.''
                       else case down of
                         Some d \<Rightarrow> num_text d @ '' consecutive down marks without a new peak.''
                       | None \<Rightarrow> ''No stall pattern on the current path.'')\<rparr>,
          ck_percent = (if critical then Some (Fin 90)
                        else map_option (\<lambda>d. num_min (Fin 100) (num_mul d (Fin 20))) down),
          ck_tone = (if critical then Bad
                     else case sa_consecutive_down a of
                       Some d \<Rightarrow> if num_le (Fin 3) d then Info else Neutral
                     | None \<Rightarrow> Neutral)\<rparr>)"

definition buildStopChecks :: "stop_args \<Rightarrow> StopCheck list" where
  "buildStopChecks a = [floor_check a, pressure_check a, stall_check a]"

definition stopRule :: "string \<Rightarrow> string \<Rightarrow> string \<Rightarrow> StopWord" where
  "stopRule label short title = \<lparr>w_label = label, w_short = short, w_title = title\<rparr>"

subsection \<open>What a normalised stop satisfies\<close>

lemma num_Some_finite: "num v = Some n \<Longrightarrow> is_finite n"
  by (cases v) (auto simp: num_def Let_def split: if_splits)

lemma num_JNum [simp]: "is_finite n \<Longrightarrow> num (JNum n) = Some n"
  by (simp add: num_def)

lemma num_default_finite:
  "is_finite d \<Longrightarrow> is_finite (num_default (num v) d)"
  by (auto simp: num_default_def num_Some_finite split: option.splits)

lemma span_floor: "fl (1 / 10 ^ 9) = Fin (4835703278458517 / 2 ^ 82)"
  by code_simp

lemma span_clamp:
  assumes "x \<noteq> NaN"
  shows "num_max (fl (1 / 10 ^ 9)) x = PInf \<or> (\<exists>q > 0. num_max (fl (1 / 10 ^ 9)) x = Fin q)"
proof -
  obtain e :: rat where "0 < e" "fl (1 / 10 ^ 9) = Fin e"
    by (rule that [OF _ span_floor]) simp
  then show ?thesis using assms by (cases x) (auto simp: num_max_def)
qed

lemma stop_span_pos:
  assumes "is_finite peak" "is_finite floor_pnl" "\<forall>p. pt = Some p \<longrightarrow> is_finite p"
    "\<forall>m. ml = Some m \<longrightarrow> is_finite m"
  shows "stop_span pt ml peak floor_pnl = PInf \<or>
    (\<exists>q > 0. stop_span pt ml peak floor_pnl = Fin q)"
proof -
  have "num_sub x y \<noteq> NaN" if "is_finite x" "is_finite y" for x y
    using that by (auto simp: is_finite_iff)
  then have "num_max (fl (1 / 10 ^ 9)) (num_sub x y) = PInf \<or>
      (\<exists>q > 0. num_max (fl (1 / 10 ^ 9)) (num_sub x y) = Fin q)"
    if "is_finite x" "is_finite y" for x y
    using that span_clamp by blast
  then show ?thesis
    using assms unfolding stop_span_def by (cases pt; cases ml) simp_all
qed

lemma proximity_unit:
  assumes "is_finite room" "sp = PInf \<or> (\<exists>q > 0. sp = Fin q)"
  shows "num_in 0 1 (num_max (Fin 0) (num_min (Fin 1) (num_sub (Fin 1) (num_div room sp))))"
proof (rule num_in_clamp)
  obtain r where r: "room = Fin r" using assms(1) by (auto simp: is_finite_iff)
  have "num_div room sp \<noteq> NaN" using assms(2) by (auto simp: r num_div_not_NaN b64.rnd_not_NaN)
  then show "num_sub (Fin 1) (num_div room sp) \<noteq> NaN"
    by (cases "num_div room sp") (auto simp: num_sub_def b64.rnd_not_NaN)
qed simp

lemma normalize_cases:
  assumes "normalizeStoploss raw = Some st"
  obtains row state current peak floor_pnl where
    "as_record raw = Some row" "stateFromWire row = Some state" "st_state st = state"
    "num (pick row [''current_pnl'', ''CurrentPnLPct'', ''current_pnl_pct'']) = Some current"
    "num (pick row [''peak_pnl'', ''PeakPnLPct'', ''peak_pnl_pct'']) = Some peak"
    "num (pick row [''floor_pnl'', ''FloorPnLPct'', ''floor_pnl_pct'']) = Some floor_pnl"
    "st_current_pnl st = current" "st_peak_pnl st = peak" "st_floor_pnl st = floor_pnl"
    "st_has_floor st"
    "st_room_pct st = num_default (num (pick row [''room_pct''])) (num_sub current floor_pnl)"
    "st_proximity st = num_default (num (pick row [''proximity'']))
       (num_max (Fin 0) (num_min (Fin 1) (num_sub (Fin 1) (num_div (st_room_pct st)
          (stop_span (num (pick row [''ProfitTargetPct'', ''profit_target_pct'']))
             (num (pick row [''MaxLossPct'', ''max_loss_pct''])) peak floor_pnl)))))"
    "st_friction st =
       (case num (pick row [''friction'', ''InitialPnLPct'', ''initial_pnl_pct'']) of
          Some i \<Rightarrow> num_abs i | None \<Rightarrow> Fin 0)"
    "st_downside_pressure st = num_default (num (pick row [''downside_pressure''])) (Fin 0)"
    "st_downside_magnitude_ratio st =
       num_default (num (pick row [''downside_magnitude_ratio''])) (Fin 0)"
    "st_consecutive_down st = num_default (num (pick row [''consecutive_down''])) (Fin 0)"
    "st_exit_reason st = nonempty_str (pick row [''exit_reason''])"
    "st_opened_at st = nonempty_str (pick row [''opened_at'', ''PreviousTime''])"
    "st_last_peak_time st = nonempty_str (pick row [''last_peak_time'', ''CurrentTime''])"
  using assms
  by (auto simp: normalizeStoploss_def Let_def num_Some_finite split: option.splits)

text \<open>
  C12. A stop whose room is a finite number has its floor proximity inside the unit interval
  whenever the broker did not send one: the clamp is reached with a number, because the span it
  divides by is at least \<^verbatim>\<open>1e-9\<close>.
\<close>

theorem computed_proximity_unit:
  assumes "normalizeStoploss (JObj row) = Some st" and "num (pick row [''proximity'']) = None"
    and "is_finite (st_room_pct st)"
  shows "num_in 0 1 (st_proximity st)"
  using assms(1)
proof (rule normalize_cases)
  fix row' state current peak floor_pnl
  assume row: "as_record (JObj row) = Some row'"
    and fin: "num (pick row' [''peak_pnl'', ''PeakPnLPct'', ''peak_pnl_pct'']) = Some peak"
      "num (pick row' [''floor_pnl'', ''FloorPnLPct'', ''floor_pnl_pct'']) = Some floor_pnl"
    and prox: "st_proximity st = num_default (num (pick row' [''proximity'']))
       (num_max (Fin 0) (num_min (Fin 1) (num_sub (Fin 1) (num_div (st_room_pct st)
          (stop_span (num (pick row' [''ProfitTargetPct'', ''profit_target_pct'']))
             (num (pick row' [''MaxLossPct'', ''max_loss_pct''])) peak floor_pnl)))))"
  have "row' = row" using row by simp
  then show ?thesis
    unfolding prox using assms(2,3) fin
    by (simp only: num_default_def option.case)
      (intro proximity_unit stop_span_pos; auto dest: num_Some_finite)
qed

theorem computed_proximity_unit_witness:
  "let row = [(''state'', JNum (Fin 2)), (''current_pnl'', JNum (Fin 1)),
              (''peak_pnl'', JNum (Fin 3)), (''floor_pnl'', JNum (Fin (- 1)))]
   in \<exists>st. normalizeStoploss (JObj row) = Some st \<and> num_in 0 1 (st_proximity st)"
proof -
  let ?row = "[(''state'', JNum (Fin 2)), (''current_pnl'', JNum (Fin 1)),
              (''peak_pnl'', JNum (Fin 3)), (''floor_pnl'', JNum (Fin (- 1)))]"
  obtain st where st: "normalizeStoploss (JObj ?row) = Some st"
    by (simp add: normalizeStoploss_def stateFromWire_def nullish_def Let_def)
  have "st_room_pct st = num_sub (Fin 1) (Fin (- 1))"
    using st by (auto simp: normalizeStoploss_def stateFromWire_def nullish_def Let_def num_def num_default_def)
  moreover have "num_sub (Fin 1) (Fin (- 1)) = Fin 2" by code_simp
  ultimately have "is_finite (st_room_pct st)" by simp
  moreover have "num (pick ?row [''proximity'']) = None" by (simp add: nullish_def num_def)
  ultimately show ?thesis using computed_proximity_unit [of ?row st] st by (simp add: Let_def)
qed

text \<open>
  The object a normalised stop is, property by property: what the dashboard hands back to
  \<^verbatim>\<open>normalizeStoploss\<close> when a store row already carries the display shape.
\<close>

primrec state_label :: "DynamicStoplossState \<Rightarrow> string" where
  "state_label Healthy = ''Healthy''"
| "state_label Protected = ''Protected''"
| "state_label Critical = ''Critical''"
| "state_label Dangerous = ''Dangerous''"
| "state_label Triggered = ''Triggered''"

definition opt_prop :: "string \<Rightarrow> string option \<Rightarrow> jsobj" where
  "opt_prop k v = (case v of None \<Rightarrow> [] | Some s \<Rightarrow> [(k, JStr s)])"

definition stop_obj :: "DynamicStoploss \<Rightarrow> jsobj" where
  "stop_obj st =
     (case st_state st of None \<Rightarrow> [] | Some x \<Rightarrow> [(''state'', JStr (state_label x))]) @
     [(''friction'', JNum (st_friction st)), (''current_pnl'', JNum (st_current_pnl st)),
      (''peak_pnl'', JNum (st_peak_pnl st)), (''floor_pnl'', JNum (st_floor_pnl st)),
      (''has_floor'', JBool (st_has_floor st)), (''room_pct'', JNum (st_room_pct st)),
      (''proximity'', JNum (st_proximity st)),
      (''downside_pressure'', JNum (st_downside_pressure st)),
      (''downside_magnitude_ratio'', JNum (st_downside_magnitude_ratio st)),
      (''consecutive_down'', JNum (st_consecutive_down st))] @
     opt_prop ''exit_reason'' (st_exit_reason st) @ opt_prop ''opened_at'' (st_opened_at st) @
     opt_prop ''last_peak_time'' (st_last_peak_time st)"

lemma field_append [simp]:
  "field (a @ b) k = (if map_of a k = None then field b k else field a k)"
  by (auto simp: field_def map_add_def split: option.splits)

lemma map_of_opt_prop [simp]:
  "map_of (opt_prop k v) k' = (if k' = k then map_option JStr v else None)"
  by (simp add: opt_prop_def split: option.splits)

lemma field_opt_prop [simp]:
  "field (opt_prop k v) k' = (if k' = k then (case v of None \<Rightarrow> JUndef | Some s \<Rightarrow> JStr s) else JUndef)"
  by (simp add: opt_prop_def split: option.splits)

lemma nullish_simps [simp]:
  "nullish JUndef" "nullish JNull" "\<not> nullish (JNum n)" "\<not> nullish (JStr s)" "\<not> nullish (JBool b)"
  "\<not> nullish (JArr vs)" "\<not> nullish (JObj ob)"
  by (simp_all add: nullish_def)

lemma nonempty_str_not_Nil [simp]: "nonempty_str v \<noteq> Some []"
  by (simp add: nonempty_str_Some)

lemma abs_case_finite:
  "is_finite (case num v of Some i \<Rightarrow> num_abs i | None \<Rightarrow> Fin 0)"
  "num_abs (case num v of Some i \<Rightarrow> num_abs i | None \<Rightarrow> Fin 0) =
     (case num v of Some i \<Rightarrow> num_abs i | None \<Rightarrow> Fin 0)"
  by (auto dest!: num_Some_finite simp: is_finite_iff split: option.splits)

lemma normalize_scalars:
  assumes "normalizeStoploss raw = Some st"
  shows "is_finite (st_current_pnl st)" "is_finite (st_peak_pnl st)" "is_finite (st_floor_pnl st)"
    "is_finite (st_downside_pressure st)" "is_finite (st_downside_magnitude_ratio st)"
    "is_finite (st_consecutive_down st)" "is_finite (st_friction st)"
    "num_abs (st_friction st) = st_friction st" "st_has_floor st"
    "st_exit_reason st \<noteq> Some []" "st_opened_at st \<noteq> Some []" "st_last_peak_time st \<noteq> Some []"
  by (rule normalize_cases [OF assms];
      simp add: num_Some_finite num_default_finite abs_case_finite)+

lemma normalize_state:
  "normalizeStoploss (JObj row) = Some st \<Longrightarrow> stateFromWire row = Some (st_state st)"
  by (erule normalize_cases) simp

lemma reread_finite:
  "num_default (num (JNum (num_default (num v) d))) d = num_default (num v) d"
proof (cases "num v")
  case (Some a)
  then show ?thesis using num_Some_finite by (simp add: num_default_def)
qed (simp add: num_default_def num_def)

lemma normalize_room:
  assumes "normalizeStoploss raw = Some st"
  shows "num_default (num (JNum (st_room_pct st))) (num_sub (st_current_pnl st) (st_floor_pnl st)) =
    st_room_pct st"
  by (rule normalize_cases [OF assms]) (simp only: reread_finite)

text \<open>
  Normalising is idempotent, as its comment promises: an already normalised stop with a
  known state and a finite proximity is read back unchanged.
\<close>

theorem normalize_roundtrip:
  assumes "normalizeStoploss raw = Some st" and "st_state st \<noteq> None" and "is_finite (st_proximity st)"
  shows "normalizeStoploss (JObj (stop_obj st)) = Some st"
proof -
  obtain x where x: "st_state st = Some x" using assms(2) by auto
  have state: "stateFromWire (stop_obj st) = Some (Some x)"
    by (cases x) (simp_all add: stateFromWire_def stop_obj_def x STATE_LABELS_def)
  note fin = normalize_scalars [OF assms(1)]
  have str: "nonempty_str (pick (stop_obj st) [''exit_reason'']) = st_exit_reason st"
    "nonempty_str (pick (stop_obj st) [''opened_at'', ''PreviousTime'']) = st_opened_at st"
    "nonempty_str (pick (stop_obj st) [''last_peak_time'', ''CurrentTime'']) = st_last_peak_time st"
    using fin(10-12) by (auto simp: stop_obj_def x nonempty_str_def split: option.splits)
  have picks: "pick (stop_obj st) [''current_pnl'', ''CurrentPnLPct'', ''current_pnl_pct''] = JNum (st_current_pnl st)"
    "pick (stop_obj st) [''peak_pnl'', ''PeakPnLPct'', ''peak_pnl_pct''] = JNum (st_peak_pnl st)"
    "pick (stop_obj st) [''floor_pnl'', ''FloorPnLPct'', ''floor_pnl_pct''] = JNum (st_floor_pnl st)"
    "pick (stop_obj st) [''friction'', ''InitialPnLPct'', ''initial_pnl_pct''] = JNum (st_friction st)"
    "pick (stop_obj st) [''room_pct''] = JNum (st_room_pct st)"
    "pick (stop_obj st) [''proximity''] = JNum (st_proximity st)"
    "pick (stop_obj st) [''downside_pressure''] = JNum (st_downside_pressure st)"
    "pick (stop_obj st) [''downside_magnitude_ratio''] = JNum (st_downside_magnitude_ratio st)"
    "pick (stop_obj st) [''consecutive_down''] = JNum (st_consecutive_down st)"
    by (simp_all add: stop_obj_def x)
  show ?thesis
    unfolding normalizeStoploss_def Let_def as_record.simps option.case state picks str
      normalize_room [OF assms(1)] num_JNum [OF fin(1)] num_JNum [OF fin(2)] num_JNum [OF fin(3)]
      prod.case
    using fin(4-9) assms(3) x by (simp add: num_default_def fin(3))
qed

theorem normalize_roundtrip_witness:
  "let raw = JObj [(''State'', JNum (Fin 4)), (''CurrentPnLPct'', JNum (Fin 1)),
                   (''PeakPnLPct'', JStr ''3''), (''FloorPnLPct'', JNum (Fin (- 1))),
                   (''proximity'', JNum (Fin 0))]
   in \<exists>st. normalizeStoploss raw = Some st \<and> normalizeStoploss (JObj (stop_obj st)) = Some st"
proof -
  let ?raw = "JObj [(''State'', JNum (Fin 4)), (''CurrentPnLPct'', JNum (Fin 1)),
                   (''PeakPnLPct'', JStr ''3''), (''FloorPnLPct'', JNum (Fin (- 1))),
                   (''proximity'', JNum (Fin 0))]"
  have three: "num (JStr ''3'') = Some (Fin 3)" by code_simp
  obtain st where st: "normalizeStoploss ?raw = Some st"
    by (simp add: normalizeStoploss_def stateFromWire_def Let_def three)
  moreover have "st_state st \<noteq> None"
    using normalize_state [OF st]
    by (auto simp: stateFromWire_def STATE_FROM_CODE_def Let_def dest!: sym [of "Some _"])
  moreover have "is_finite (st_proximity st)"
    by (rule normalize_cases [OF st]) (auto simp: num_default_def)
  ultimately show ?thesis using normalize_roundtrip [of ?raw st] by (simp add: Let_def)
qed

text \<open>
  The wire's \<^verbatim>\<open>has_floor\<close> is never honoured when it is false: the floor was already
  required to be a finite number, so the last disjunct of the flag always holds.
\<close>

theorem has_floor_always_true: "map_option st_has_floor (normalizeStoploss raw) \<noteq> Some False"
  using normalize_scalars(9) by (cases "normalizeStoploss raw") auto

subsection \<open>What the words and tones satisfy\<close>

lemma shown_Some: "shown x = Some n \<longleftrightarrow> (\<exists>q. n = Fin q \<and> x = Some (Fin q))"
  by (auto simp: shown_def is_finite_iff split: option.splits if_splits)

lemma proximityPct_bounds: "pred_option (num_in 0 100) (proximityPct r)"
  using num_mul_finite_not_NaN
  by (auto simp: proximityPct_def shown_Some pred_option_def simp del: num_mul.simps
      intro!: num_in_clamp)

lemma stall_percent_bounds: "num_lt (Fin 0) d \<Longrightarrow> num_in 0 100 (num_min (Fin 100) (num_mul d (Fin 20)))"
proof (cases d)
  case (Fin q)
  assume "num_lt (Fin 0) d"
  with Fin have "num_le (Fin 0) (fl (q * 20))" by (intro b64.rnd_nonneg) simp
  then show ?thesis using Fin by (cases "fl (q * 20)") (auto simp: num_min_def)
qed (auto simp: num_min_def inf_signed_def)

text \<open>
  The stop panel is always drawable: it has its three checks in order, every meter it fills
  lies between 0 and 100, and a lot without a floor shows no floor meter.
\<close>

theorem stop_checks_bounded:
  "map ck_id (buildStopChecks a) = [''floor'', ''pressure'', ''stall''] \<and>
   list_all (\<lambda>c. pred_option (num_in 0 100) (ck_percent c)) (buildStopChecks a) \<and>
   (sa_has_floor a \<or> ck_percent (hd (buildStopChecks a)) = None)"
  using proximityPct_bounds
  by (auto simp: buildStopChecks_def floor_check_def pressure_check_def stall_check_def Let_def
      pred_option_def stall_percent_bounds split: option.splits if_splits)

text \<open>
  The verdict of a held lot never softens the stop: a state whose tone is bad gives a bad
  verdict, whatever the marks, and a lot with no mark is never reported as healthy.
\<close>

theorem verdict_keeps_danger:
  assumes "stateTone (ha_state a) = Bad \<or> shown (ha_current a) = None"
  shows "snd (heldVerdict a) = (if stateTone (ha_state a) = Bad then Bad else Neutral)"
proof (cases "ha_state a")
  case (Some x)
  then show ?thesis using assms by (cases x) (auto simp: heldVerdict_def)
qed (use assms in \<open>auto simp: heldVerdict_def\<close>)

theorem verdict_keeps_danger_witness:
  "snd (heldVerdict \<lparr>ha_state = Some Critical, ha_current = Some (Fin 1), ha_peak = Some (Fin 9),
     ha_floor = None, ha_friction = None, ha_has_floor = False, ha_proximity = None,
     ha_downside_pressure = None, ha_exit_reason = None, ha_room_pct = None\<rparr>) = Bad"
  by (subst verdict_keeps_danger) simp_all

end
