(* ===== verification/ExplorePath.thy ===== *)
theory ExplorePath
  imports Books
begin

text \<open>
  The path book: which keys of the resistance trie stay visible
  (\<^verbatim>\<open>components/learning/explore-path.ts\<close>) and how a hub listing is folded into it or into
  closed-lot history (\<^verbatim>\<open>hub/s3-prefix-compact.ts\<close>).
\<close>

subsection \<open>Keys and thresholds\<close>

definition EXPLORE_BASE_THRESHOLD :: jsnum where
  "EXPLORE_BASE_THRESHOLD = fl (5 / 10)"

definition EXPLORE_PRUNE_THRESHOLD :: jsnum where
  "EXPLORE_PRUNE_THRESHOLD = fl (8 / 10)"

definition PATH_ACTIONS :: "string list" where
  "PATH_ACTIONS = [''enter'', ''hold'', ''exit'']"

definition PATH_BOOKS :: "string list" where
  "PATH_BOOKS = [''model/paths'']"

definition pathBookPolicyKey :: "string \<Rightarrow> string option \<Rightarrow> string" where
  "pathBookPolicyKey storageKey action =
     (let tail = last (split_on CHR ''/'' storageKey)
      in if ends_with tail ''.bin'' then storageKey
         else case action of
           None \<Rightarrow> storageKey
         | Some a \<Rightarrow> if a \<noteq> [] \<and> a \<in> set PATH_ACTIONS then storageKey @ ''/'' @ a @ ''.bin''
                     else storageKey)"

definition isPathBookKey :: "string \<Rightarrow> bool" where
  "isPathBookKey key = list_ex (\<lambda>prefix. starts_with key prefix) PATH_BOOKS"

text \<open>\<^verbatim>\<open>Record<string, number>\<close>.\<close>

type_synonym thresholds = "(string \<times> jsnum) list"

definition exploreThresholdForKey :: "string \<Rightarrow> thresholds \<Rightarrow> jsnum option" where
  "exploreThresholdForKey key ths =
     (if \<not> isPathBookKey key then None
      else case map_of ths key of
        Some raw \<Rightarrow> if is_finite raw then Some raw else None
      | None \<Rightarrow> None)"

definition explorePathKept :: "string \<Rightarrow> thresholds \<Rightarrow> bool" where
  "explorePathKept key ths =
     (if \<not> isPathBookKey key then True
      else case exploreThresholdForKey key ths of
        None \<Rightarrow> True
      | Some threshold \<Rightarrow> num_le threshold EXPLORE_PRUNE_THRESHOLD)"

definition filterExploreKeys :: "string list \<Rightarrow> thresholds \<Rightarrow> string list" where
  "filterExploreKeys keys ths = filter (\<lambda>key. explorePathKept key ths) keys"

subsection \<open>Hub listings\<close>

text \<open>\<^verbatim>\<open>Object.entries\<close> of an object or array.\<close>

fun entries_of :: "jsval \<Rightarrow> jsobj" where
  "entries_of (JObj ob) = ob"
| "entries_of (JArr vs) = map (\<lambda>(i, v). (digits_of (int i), v)) (enumerate 0 vs)"
| "entries_of _ = []"

definition asFiniteNumber :: "jsval \<Rightarrow> jsnum option" where
  "asFiniteNumber v = finite_num v"

fun asBigInt :: "jsval \<Rightarrow> int" where
  "asBigInt (JBig i) = i"
| "asBigInt (JNum (Fin q)) = (if 0 \<le> q then \<lfloor>q\<rfloor> else \<lceil>q\<rceil>)"
| "asBigInt (JStr s) =
     (if s = [] then 0 else case bigint_of_text s of Some i \<Rightarrow> i | None \<Rightarrow> 0)"
| "asBigInt _ = 0"

record S3ExploreCompact =
  ex_scope :: string
  ex_epoch :: "string option"
  ex_policyKeys :: "string list"
  ex_thresholds :: thresholds

text \<open>The loop that copies the finite thresholds.\<close>

definition finite_thresholds :: "jsobj \<Rightarrow> thresholds" where
  "finite_thresholds es =
     foldl (\<lambda>ths (key, raw). case asFiniteNumber raw of
              None \<Rightarrow> ths | Some v \<Rightarrow> obj_set key v ths) [] es"

definition listed_keys :: "jsobj \<Rightarrow> thresholds \<Rightarrow> jsval list" where
  "listed_keys body ths =
     (case as_arr (field body ''policy_keys'') of
        Some ks \<Rightarrow> ks
      | None \<Rightarrow> (case as_arr (field body ''policyKeys'') of
          Some ks \<Rightarrow> ks
        | None \<Rightarrow> map (\<lambda>(k, v). JStr k) ths))"

definition nonempty_keys :: "jsval list \<Rightarrow> string list" where
  "nonempty_keys vs = List.map_filter nonempty_str vs"

definition keep_thresholds :: "string list \<Rightarrow> thresholds \<Rightarrow> thresholds" where
  "keep_thresholds keys ths =
     foldl (\<lambda>kept key. case map_of ths key of
              None \<Rightarrow> kept | Some t \<Rightarrow> obj_set key t kept) [] keys"

definition epoch_text :: "jsval \<Rightarrow> string option" where
  "epoch_text v =
     (case nonempty_str v of
        Some s \<Rightarrow> Some s
      | None \<Rightarrow> map_option (\<lambda>n. num_text (num_trunc n)) (finite_num v))"

definition pathsListingFromEnvelope :: "jsval \<Rightarrow> S3ExploreCompact option" where
  "pathsListingFromEnvelope payload =
     (case as_plain payload of
        None \<Rightarrow> None
      | Some body \<Rightarrow>
          let scope = (case as_str (field body ''scope'') of Some s \<Rightarrow> s | None \<Rightarrow> [])
          in if scope \<noteq> ''model/paths'' \<and> \<not> starts_with scope ''model/paths/'' then None
             else let ths = finite_thresholds (entries_of (field body ''thresholds''));
                      policyKeys = sort_strings (nonempty_keys (listed_keys body ths));
                      kept = filterExploreKeys policyKeys ths
                  in Some \<lparr>ex_scope = ''model/paths'',
                           ex_epoch = epoch_text (field body ''epoch''),
                           ex_policyKeys = kept,
                           ex_thresholds = keep_thresholds kept ths\<rparr>)"

record HistoryStamp =
  st_epoch :: int
  st_tick :: int
  st_timestamp :: int

record ClosedHistoryEntry =
  he_stamp :: HistoryStamp
  he_row :: jsobj

record S3ClosedCompact =
  cl_scope :: string
  cl_entries :: "ClosedHistoryEntry list"

definition bookFromClosedScope :: "string \<Rightarrow> string" where
  "bookFromClosedScope scope =
     (if starts_with scope ''virtual/'' then ''virtual''
      else if starts_with scope ''real/'' then ''real'' else ''paper'')"

definition closed_scope :: "string \<Rightarrow> bool" where
  "closed_scope scope \<longleftrightarrow>
     scope = ''paper/closed'' \<or> scope = ''real/closed'' \<or> scope = ''virtual/closed'' \<or>
     starts_with scope ''paper/closed/'' \<or> starts_with scope ''real/closed/'' \<or>
     starts_with scope ''virtual/closed/''"

text \<open>One lot of the listing: skipped unless it is an object with an object row and an id.\<close>

definition closed_entry :: "string \<Rightarrow> jsval \<Rightarrow> ClosedHistoryEntry option" where
  "closed_entry book raw =
     (case as_plain raw of
        None \<Rightarrow> None
      | Some entry \<Rightarrow>
          (case as_plain (field entry ''row'') of
             None \<Rightarrow> None
           | Some row \<Rightarrow>
               (case nonempty_str (field row ''id'') of
                  None \<Rightarrow> None
                | Some id' \<Rightarrow>
                    Some \<lparr>he_stamp = \<lparr>st_epoch = asBigInt (field entry ''epoch''),
                                     st_tick = asBigInt (field entry ''tick''),
                                     st_timestamp = asBigInt (field entry ''timestamp'')\<rparr>,
                          he_row = (case nonempty_str (field row ''book'') of
                              Some b \<Rightarrow> row
                            | None \<Rightarrow> obj_set ''book'' (JStr book) row)\<rparr>)))"

definition closedListingFromEnvelope :: "jsval \<Rightarrow> S3ClosedCompact option" where
  "closedListingFromEnvelope payload =
     (case as_plain payload of
        None \<Rightarrow> None
      | Some body \<Rightarrow>
          let scope = (case as_str (field body ''scope'') of Some s \<Rightarrow> s | None \<Rightarrow> [])
          in if \<not> closed_scope scope then None
             else case as_arr (field body ''entries'') of
               None \<Rightarrow> Some \<lparr>cl_scope = scope, cl_entries = []\<rparr>
             | Some raws \<Rightarrow>
                 Some \<lparr>cl_scope = scope,
                       cl_entries =
                         List.map_filter (closed_entry (bookFromClosedScope scope)) raws\<rparr>)"

subsection \<open>Lemmas\<close>

lemma filterExploreKeys_idem: "filterExploreKeys (filterExploreKeys ks ths) ths = filterExploreKeys ks ths"
  by (simp add: filterExploreKeys_def)

lemma set_filterExploreKeys: "set (filterExploreKeys ks ths) = {k \<in> set ks. explorePathKept k ths}"
  by (auto simp: filterExploreKeys_def)

lemma explorePathKept_cong: "map_of ths k = map_of ths' k \<Longrightarrow> explorePathKept k ths = explorePathKept k ths'"
  by (simp add: explorePathKept_def exploreThresholdForKey_def)

lemma map_of_finite_thresholds_aux:
  "map_of (foldl (\<lambda>ths (key, raw). case asFiniteNumber raw of
      None \<Rightarrow> ths | Some v \<Rightarrow> obj_set key v ths) acc es) k = Some n \<Longrightarrow>
   map_of acc k = Some n \<or> (k, JNum n) \<in> set es \<and> is_finite n"
  by (induction es arbitrary: acc)
    (fastforce simp: asFiniteNumber_def finite_num_Some map_of_obj_set split: option.splits if_splits)+

lemma map_of_finite_thresholds:
  "map_of (finite_thresholds es) k = Some n \<Longrightarrow> (k, JNum n) \<in> set es \<and> is_finite n"
  using map_of_finite_thresholds_aux [of "[]" es k n] by (auto simp: finite_thresholds_def)

lemma map_of_keep_thresholds:
  "map_of (keep_thresholds keys ths) k = (if k \<in> set keys then map_of ths k else None)"
proof -
  have "map_of (foldl (\<lambda>kept key. case map_of ths key of
      None \<Rightarrow> kept | Some t \<Rightarrow> obj_set key t kept) acc keys) k =
    (if k \<in> set keys \<and> map_of ths k \<noteq> None then map_of ths k else map_of acc k)" for acc
    by (induction keys arbitrary: acc) (auto simp: map_of_obj_set split: option.splits)
  then show ?thesis by (auto simp: keep_thresholds_def)
qed

lemma nonempty_keys_nonempty: "k \<in> set (nonempty_keys vs) \<Longrightarrow> JStr k \<in> set vs \<and> k \<noteq> []"
  by (auto simp: nonempty_keys_def set_map_filter_iff nonempty_str_Some)

text \<open>
  A paths listing never shows a pruned path and never invents a resistance: its keys are
  non-empty, sorted and kept by the prune rule, every reported threshold is finite, belongs to a
  listed key and is literally on the wire, and (with no invented value) a key whose threshold is
  reported is at or below the prune threshold.
\<close>

theorem paths_listing_sound:
  assumes "pathsListingFromEnvelope payload = Some c"
  shows "sorted (ex_policyKeys c) \<and>
    (\<forall>k \<in> set (ex_policyKeys c). k \<noteq> [] \<and> explorePathKept k (ex_thresholds c)) \<and>
    (\<forall>k n. map_of (ex_thresholds c) k = Some n \<longrightarrow>
      k \<in> set (ex_policyKeys c) \<and> is_finite n \<and>
      (\<exists>body. payload = JObj body \<and> (k, JNum n) \<in> set (entries_of (field body ''thresholds''))))"
proof -
  obtain body where body: "payload = JObj body"
    using assms by (cases payload) (auto simp: pathsListingFromEnvelope_def)
  define ths where "ths = finite_thresholds (entries_of (field body ''thresholds''))"
  define ks where "ks = sort_strings (nonempty_keys (listed_keys body ths))"
  have keys: "ex_policyKeys c = filterExploreKeys ks ths"
    and kept: "ex_thresholds c = keep_thresholds (filterExploreKeys ks ths) ths"
    using assms by (auto simp: body pathsListingFromEnvelope_def Let_def ths_def ks_def
        split: if_splits)
  have "sorted (ex_policyKeys c)"
    using sorted_sort_strings by (simp add: keys filterExploreKeys_def ks_def sorted_wrt_filter)
  moreover have "k \<noteq> [] \<and> explorePathKept k (ex_thresholds c)" if "k \<in> set (ex_policyKeys c)" for k
  proof -
    have k: "k \<in> set ks" "explorePathKept k ths"
      using that by (auto simp: keys set_filterExploreKeys)
    have "map_of (ex_thresholds c) k = map_of ths k"
      using that by (simp add: kept map_of_keep_thresholds keys)
    from explorePathKept_cong [OF this] k show ?thesis
      by (auto simp: ks_def dest!: nonempty_keys_nonempty)
  qed
  moreover have "k \<in> set (ex_policyKeys c) \<and> is_finite n \<and>
      (k, JNum n) \<in> set (entries_of (field body ''thresholds''))"
    if "map_of (ex_thresholds c) k = Some n" for k n
    using that
    by (auto simp: kept keys map_of_keep_thresholds ths_def split: if_splits
        dest: map_of_finite_thresholds)
  ultimately show ?thesis using body by blast
qed

theorem paths_listing_sound_witness:
  "\<exists>c. pathsListingFromEnvelope (JObj [(''scope'', JStr ''model/paths''),
      (''thresholds'', JObj [(''model/paths/b'', JNum (Fin 1)), (''model/paths/a'', JNum (Fin 0))])]) =
      Some c \<and> ex_policyKeys c = [''model/paths/a''] \<and> sorted (ex_policyKeys c)"
  (is "\<exists>c. pathsListingFromEnvelope ?payload = Some c \<and> _")
proof -
  have prune: "EXPLORE_PRUNE_THRESHOLD = Fin (3602879701896397 / 4503599627370496)"
    unfolding EXPLORE_PRUNE_THRESHOLD_def by code_simp
  obtain c where c: "pathsListingFromEnvelope ?payload = Some c"
    by (simp add: pathsListingFromEnvelope_def Let_def)
  then have "ex_policyKeys c = [''model/paths/a'']"
    by (auto simp: pathsListingFromEnvelope_def Let_def listed_keys_def nonempty_keys_def
        nonempty_str_def finite_thresholds_def asFiniteNumber_def finite_num_def obj_set_def
        array_index_def is_digit_def sort_strings_def sort_by_def filterExploreKeys_def
        explorePathKept_def exploreThresholdForKey_def isPathBookKey_def PATH_BOOKS_def
        starts_with_def prune List.map_filter_def)
  moreover have "sorted (ex_policyKeys c)" using paths_listing_sound [OF c] by blast
  ultimately show ?thesis using c by blast
qed

lemma closed_entry_Some:
  assumes "closed_entry book raw = Some e"
  obtains entry row where "raw = JObj entry" "field entry ''row'' = JObj row"
    "nonempty_str (field row ''id'') \<noteq> None"
    "he_row e = (if nonempty_str (field row ''book'') = None
       then obj_set ''book'' (JStr book) row else row)"
proof -
  obtain entry where entry: "raw = JObj entry"
    using assms by (cases raw) (auto simp: closed_entry_def)
  obtain row where row: "field entry ''row'' = JObj row"
    using assms entry by (cases "field entry ''row''") (auto simp: closed_entry_def)
  show thesis
    using assms that [OF entry row] by (auto simp: closed_entry_def entry row split: option.splits)
qed

lemma bookFromClosedScope_book: "\<exists>b. bookFromClosedScope scope = book_name b"
  by (auto simp: bookFromClosedScope_def intro: exI [of _ Virtual] exI [of _ Real] exI [of _ Paper]
      simp: book_name_def)

text \<open>
  Every lot a closed listing yields has a non-empty id and a ledger label: its own label if
  it carried one, else the ledger of the listing's S3 prefix; all its other fields are the ones
  on the wire.
\<close>

theorem closed_listing_labels_every_lot:
  assumes "closedListingFromEnvelope payload = Some c" and "e \<in> set (cl_entries c)"
  shows "nonempty_str (field (he_row e) ''id'') \<noteq> None \<and>
    (\<exists>body raws entry row. payload = JObj body \<and> field body ''entries'' = JArr raws \<and>
      JObj entry \<in> set raws \<and> field entry ''row'' = JObj row \<and>
      (\<forall>k. k \<noteq> ''book'' \<longrightarrow> field (he_row e) k = field row k) \<and>
      field (he_row e) ''book'' =
        (if nonempty_str (field row ''book'') = None
         then JStr (bookFromClosedScope (cl_scope c)) else field row ''book''))"
proof -
  obtain body where body: "payload = JObj body"
    using assms(1) by (cases payload) (auto simp: closedListingFromEnvelope_def)
  obtain raws raw where raws: "field body ''entries'' = JArr raws" and raw: "raw \<in> set raws"
    and e: "closed_entry (bookFromClosedScope (cl_scope c)) raw = Some e"
  proof (cases "field body ''entries''")
    case (JArr raws)
    then show ?thesis
      using assms that [of raws]
      by (auto simp: closedListingFromEnvelope_def body Let_def set_map_filter_iff split: if_splits)
  qed (use assms in \<open>auto simp: closedListingFromEnvelope_def body Let_def split: if_splits\<close>)
  from e obtain entry row where entry: "raw = JObj entry" "field entry ''row'' = JObj row"
    and lot: "nonempty_str (field row ''id'') \<noteq> None"
      "he_row e = (if nonempty_str (field row ''book'') = None
         then obj_set ''book'' (JStr (bookFromClosedScope (cl_scope c))) row else row)"
    by (rule closed_entry_Some)
  show ?thesis
    using body raws raw entry lot by (intro conjI exI [of _ body] exI [of _ raws] exI [of _ entry]
        exI [of _ row]) simp_all
qed

theorem closed_listing_labels_every_lot_witness:
  "\<exists>c e. closedListingFromEnvelope (JObj [(''scope'', JStr ''virtual/closed''), (''entries'',
      JArr [JNull, JObj [(''row'', JObj [(''id'', JStr ''x'')])]])]) = Some c \<and>
    e \<in> set (cl_entries c) \<and> nonempty_str (field (he_row e) ''id'') \<noteq> None \<and>
    field (he_row e) ''book'' = JStr ''virtual''"
  (is "\<exists>c e. closedListingFromEnvelope ?payload = Some c \<and> _")
proof -
  let ?e = "\<lparr>he_stamp = \<lparr>st_epoch = 0, st_tick = 0, st_timestamp = 0\<rparr>,
    he_row = [(''id'', JStr ''x''), (''book'', JStr ''virtual'')]\<rparr>"
  let ?c = "\<lparr>cl_scope = ''virtual/closed'', cl_entries = [?e]\<rparr>"
  have c: "closedListingFromEnvelope ?payload = Some ?c"
    by (simp add: closedListingFromEnvelope_def closed_scope_def closed_entry_def map_filter_Cons
        bookFromClosedScope_def starts_with_def nonempty_str_def obj_set_def array_index_def
        is_digit_def List.map_filter_def)
  show ?thesis
    using closed_listing_labels_every_lot [OF c, of ?e] c by auto
qed

end
