(* ===== verification/DeskRows.thy ===== *)
theory DeskRows
  imports BookReadout Stoploss ExplorePath
begin

text \<open>
  The lots on \<^verbatim>\<open>signals.positions\<close> as rows (\<^verbatim>\<open>components/learning/open-positions.tsx\<close>,
  \<^verbatim>\<open>lib/frame-position.ts\<close>, \<^verbatim>\<open>lib/open-position-count.ts\<close>) and as round trips
  (\<^verbatim>\<open>lib/desk-tape-marks.ts\<close>, \<^verbatim>\<open>lib/desk-closed-lifecycle.ts\<close>). What the page reads from its
  surroundings is one record: \<^verbatim>\<open>Date.parse\<close>, \<^verbatim>\<open>localeCompare\<close>, the current time as text, the
  positions store and the selected ledger. A row's \<^verbatim>\<open>id\<close> and \<^verbatim>\<open>symbol\<close> are read at their
  declared type, a string.
\<close>

record env =
  e_dp :: "string \<Rightarrow> int option"
  e_lc :: "string \<Rightarrow> string \<Rightarrow> int"
  e_now :: string
  e_positions :: "(string \<times> jsobj) list"
  e_book :: Book

subsection \<open>Rows\<close>

text \<open>\<^verbatim>\<open>framePositionRows\<close> on the layers a frame's \<^verbatim>\<open>lookup(["position"])\<close> returned.\<close>

definition layer_rows :: "jsval \<Rightarrow> jsobj list" where
  "layer_rows layer =
     (case layer of
        JArr rows \<Rightarrow> List.map_filter as_plain rows
      | JObj ob \<Rightarrow> [ob]
      | _ \<Rightarrow> [])"

definition framePositionRows :: "(string list \<Rightarrow> jsval list) \<Rightarrow> jsobj list" where
  "framePositionRows lookup = concat (map layer_rows (lookup [''position'']))"

definition cell_text :: "jsobj \<Rightarrow> string \<Rightarrow> string" where
  "cell_text row k = js_text (orelse (field row k) (JStr []))"

definition comparePositionRows :: "(string \<Rightarrow> string \<Rightarrow> int) \<Rightarrow> jsobj \<Rightarrow> jsobj \<Rightarrow> int" where
  "comparePositionRows lc a b =
     (let symbol = lc (cell_text a ''symbol'') (cell_text b ''symbol'')
      in if symbol \<noteq> 0 then symbol
         else let opened = lc (cell_text a ''opened_at'') (cell_text b ''opened_at'')
              in if opened \<noteq> 0 then opened
                 else lc (cell_text a ''id'') (cell_text b ''id''))"

definition positionRows :: "(string \<Rightarrow> string \<Rightarrow> int) \<Rightarrow> (string \<times> jsobj) list \<Rightarrow> jsobj list" where
  "positionRows lc state =
     sort_by (\<lambda>a b. comparePositionRows lc a b \<le> 0) (map_values state)"

definition positionsRevision :: "(string \<times> jsobj) list \<Rightarrow> string" where
  "positionsRevision state = join_with ''|'' (sort_strings (map_keys state))"

definition chartHeldRow :: "(string \<Rightarrow> int option) \<Rightarrow> jsobj \<Rightarrow> Book \<Rightarrow> bool" where
  "chartHeldRow dp row book = (onBook row book \<and> \<not> ro_closed (positionReadout dp row))"

text \<open>The default \<^verbatim>\<open>sort()\<close>: by text, \<^verbatim>\<open>undefined\<close> last.\<close>

definition default_before :: "jsval \<Rightarrow> jsval \<Rightarrow> bool" where
  "default_before a b = (b = JUndef \<or> (a \<noteq> JUndef \<and> js_text a \<le> js_text b))"

definition openLots :: "(string \<Rightarrow> int option) \<Rightarrow> jsobj list \<Rightarrow> Book \<Rightarrow> jsval list" where
  "openLots dp rows book =
     sort_by default_before
       (map (\<lambda>row. field row ''symbol'')
         (filter (\<lambda>row. \<not> ro_closed (positionReadout dp row) \<and> onBook row book) rows))"

definition lotInProfit :: "(string \<Rightarrow> int option) \<Rightarrow> jsobj \<Rightarrow> bool" where
  "lotInProfit dp row =
     (case ro_returnPct (positionReadout dp row) of None \<Rightarrow> False | Some p \<Rightarrow> num_lt (Fin 0) p)"

text \<open>The value \<^verbatim>\<open>syncOpenPositionCount\<close> stores.\<close>

definition syncOpenPositionCount :: "env \<Rightarrow> nat" where
  "syncOpenPositionCount e =
     length (openLots (e_dp e) (positionRows (e_lc e) (e_positions e)) (e_book e))"

subsection \<open>Tape marks\<close>

definition tickUint :: "jsval \<Rightarrow> jsnum option" where
  "tickUint v =
     (case v of
        JNum n \<Rightarrow> if is_finite n \<and> num_lt (Fin 0) n then Some n else None
      | JStr s \<Rightarrow> (let t = trim s
                   in if t \<noteq> [] \<and> list_all is_digit t then Some (number_of_text t) else None)
      | _ \<Rightarrow> None)"

definition policyEpochFromRow :: "jsobj \<Rightarrow> string option" where
  "policyEpochFromRow row =
     (let epoch = field row ''policy_epoch''
      in if nullish epoch \<or> epoch = JStr [] then None else Some (js_text epoch))"

record tape_marks =
  tape_a :: jsnum
  tape_b :: jsnum
  tape_c :: jsnum

definition tapeMarksFromDeskRow :: "jsobj \<Rightarrow> tape_marks option" where
  "tapeMarksFromDeskRow row =
     (case (tickUint (field row ''entry_tick''), tickUint (field row ''exit_tick'')) of
        (Some entry, Some exit) \<Rightarrow>
          if num_lt exit entry then None
          else Some \<lparr>tape_a = entry, tape_b = entry, tape_c = exit\<rparr>
      | _ \<Rightarrow> None)"

subsection \<open>Round trips\<close>

record LifeEvent =
  ev_at :: string
  ev_kind :: string
  ev_detail :: string
  ev_fields :: jsval

record LifeMark =
  mk_at :: string
  mk_bid :: jsnum
  mk_quantity :: jsnum
  mk_entry_price :: jsnum
  mk_unrealized :: jsnum
  mk_unrealized_return :: jsnum

record LifeOutcome =
  oc_pnl :: jsnum
  oc_pnl_pct :: jsnum
  oc_money :: "jsnum option"
  oc_hold_ns :: jsnum
  oc_expected_hold_ns :: "jsnum option"
  oc_triggers :: "string list option"
  oc_realized :: "jsnum option"
  oc_mark :: "jsnum option"
  oc_bars_held :: "jsnum option"
  oc_max_lifetime_bars :: "jsnum option"

record LearnedExitPolicy =
  lp_trailing :: "jsnum option"
  lp_cut :: "jsnum option"
  lp_maxBars :: "jsnum option"
  lp_worst :: "jsnum option"

text \<open>
  \<^verbatim>\<open>closed_at\<close> keeps \<^verbatim>\<open>undefined\<close> (\<^term>\<open>None\<close>) and \<^verbatim>\<open>null\<close> (\<^term>\<open>Some None\<close>) apart,
  because \<^verbatim>\<open>deskLifeChanged\<close> compares it with \<^verbatim>\<open>!==\<close>; every other optional property is only
  read through \<^verbatim>\<open>??\<close>, \<^verbatim>\<open>?.\<close> or truthiness.
\<close>

record Lifecycle =
  lf_id :: string
  lf_symbol :: "string option"
  lf_status :: string
  lf_policy_epoch :: "string option"
  lf_path :: "string option"
  lf_opened_at :: string
  lf_closed_at :: "string option option"
  lf_events :: "LifeEvent list option"
  lf_mark :: "LifeMark option"
  lf_stop_state :: "DynamicStoploss option"
  lf_policy :: "LearnedExitPolicy option"
  lf_peak_pct :: "jsnum option"
  lf_realized_pct :: "jsnum option"
  lf_pnl_trace :: "jsnum list option"
  lf_bars_held :: "jsnum option"
  lf_exit_trigger :: "string option"
  lf_official_exit_pct :: "jsnum option"
  lf_marks :: "LifeMark list option"
  lf_outcome :: "LifeOutcome option"
  lf_book :: "string option"
  lf_path_found :: "bool option"
  lf_desk :: bool
  lf_history :: bool
  lf_marks_a :: "jsnum option"
  lf_marks_b :: "jsnum option"
  lf_marks_c :: "jsnum option"

text \<open>A round trip with only its required properties.\<close>

definition bare_life :: "string \<Rightarrow> string option \<Rightarrow> string \<Rightarrow> string \<Rightarrow> Lifecycle" where
  "bare_life ident symbol status opened_at =
     \<lparr>lf_id = ident, lf_symbol = symbol, lf_status = status, lf_policy_epoch = None, lf_path = None,
      lf_opened_at = opened_at, lf_closed_at = None, lf_events = Some [], lf_mark = None,
      lf_stop_state = None, lf_policy = None, lf_peak_pct = None, lf_realized_pct = None,
      lf_pnl_trace = None, lf_bars_held = None, lf_exit_trigger = None,
      lf_official_exit_pct = None, lf_marks = None, lf_outcome = None, lf_book = None,
      lf_path_found = None, lf_desk = False, lf_history = False, lf_marks_a = None,
      lf_marks_b = None, lf_marks_c = None\<rparr>"

definition bookFromRow :: "jsobj \<Rightarrow> string" where
  "bookFromRow row = (case nonempty_str (field row ''book'') of Some b \<Rightarrow> b | None \<Rightarrow> ''paper'')"

text \<open>\<^verbatim>\<open>...stopFieldsFromRow(row)\<close> spread over the round trip under construction.\<close>

definition stopFieldsFromRow :: "jsobj \<Rightarrow> Lifecycle \<Rightarrow> Lifecycle" where
  "stopFieldsFromRow row life =
     (let stop = normalizeStoploss (field row ''stoploss'')
      in life\<lparr>lf_stop_state := stop, lf_policy := None,
              lf_peak_pct := map_option st_peak_pnl stop,
              lf_realized_pct := decimal (field row ''pnl_pct''),
              lf_bars_held := None, lf_pnl_trace := None,
              lf_exit_trigger := nonempty_str (field row ''exit_trigger''),
              lf_official_exit_pct := decimal (field row ''pnl_pct'')\<rparr>)"

definition mid_dot :: string where "mid_dot = [CHR 0xC2, CHR 0xB7]"

definition dotted :: "string option \<Rightarrow> string" where
  "dotted path = (case path of Some p \<Rightarrow> if p = [] then [] else '' '' @ mid_dot @ '' '' @ p | None \<Rightarrow> [])"

definition live_mark :: "env \<Rightarrow> PositionReadout \<Rightarrow> LifeMark option" where
  "live_mark e readout =
     (case ro_mark readout of
        None \<Rightarrow> None
      | Some bid \<Rightarrow> Some
          \<lparr>mk_at = e_now e, mk_bid = bid, mk_quantity = num_or_zero (ro_qty readout),
           mk_entry_price = num_or_zero (ro_entryPrice readout),
           mk_unrealized =
             (case (ro_returnPct readout, ro_entryPrice readout, ro_qty readout) of
                (Some r, Some p, Some q) \<Rightarrow> num_mul (num_mul p q) r
              | _ \<Rightarrow> Fin 0),
           mk_unrealized_return = num_or_zero (ro_returnPct readout)\<rparr>)"

definition lifecycleFromDeskOpen :: "env \<Rightarrow> jsobj \<Rightarrow> Lifecycle option" where
  "lifecycleFromDeskOpen e row =
     (case nonempty_str (field row ''id'') of
        None \<Rightarrow> None
      | Some ident \<Rightarrow>
          (let readout = positionReadout (e_dp e) row
           in case ro_openedAt readout of
                None \<Rightarrow> None
              | Some openedAt \<Rightarrow>
                  if ro_closed readout then None
                  else let mark = live_mark e readout;
                           entryPath = as_str (field row ''entry_path'')
                       in Some (stopFieldsFromRow row
                            ((bare_life ident (as_str (field row ''symbol'')) ''holding'' openedAt)
                              \<lparr>lf_closed_at := Some None, lf_book := Some (bookFromRow row),
                               lf_desk := True, lf_path_found := Some False, lf_path := entryPath,
                               lf_mark := mark,
                               lf_marks := Some (case mark of None \<Rightarrow> [] | Some m \<Rightarrow> [m]),
                               lf_events := Some [\<lparr>ev_at = openedAt, ev_kind = ''opened'',
                                 ev_detail = ''desk lot opened'' @ dotted entryPath,
                                 ev_fields = JUndef\<rparr>]\<rparr>))))"

definition desk_outcome ::
    "env \<Rightarrow> jsobj \<Rightarrow> PositionReadout \<Rightarrow> string \<Rightarrow> string \<Rightarrow> LifeOutcome option" where
  "desk_outcome e row readout openedAt closedAt =
     (let settle = settledOutcome (e_dp e) row;
          pnl = coalesce (ro_returnPct readout) (Option.bind settle so_pnl);
          pnlPct = coalesce (ro_returnPctDisplay readout) (Option.bind settle so_pnl_pct)
      in case (pnl, pnlPct) of
           (Some p, Some pct) \<Rightarrow> Some
             \<lparr>oc_pnl = p, oc_pnl_pct = pct, oc_money = decimal (field row ''pnl''),
              oc_hold_ns = (case Option.bind settle so_hold_ns of
                 Some h \<Rightarrow> h | None \<Rightarrow> hold_ns_between (e_dp e) closedAt openedAt),
              oc_expected_hold_ns = None,
              oc_triggers = Some (case Option.bind settle so_triggers of
                 Some t \<Rightarrow> t | None \<Rightarrow> [''desk settle'']),
              oc_realized = None, oc_mark = None, oc_bars_held = None,
              oc_max_lifetime_bars = None\<rparr>
         | _ \<Rightarrow> None)"

definition close_detail :: "env \<Rightarrow> jsobj \<Rightarrow> PositionReadout \<Rightarrow> string" where
  "close_detail e row readout =
     (let settle = settledOutcome (e_dp e) row;
          pnlPct = coalesce (ro_returnPctDisplay readout) (Option.bind settle so_pnl_pct);
          triggers = (case Option.bind settle so_triggers of Some t \<Rightarrow> t | None \<Rightarrow> []);
          exitTickText = (case tapeMarksFromDeskRow row of
             None \<Rightarrow> [] | Some t \<Rightarrow> '' '' @ mid_dot @ '' tick '' @ num_text (tape_c t))
      in if triggers \<noteq> [] then join_with '', '' triggers @ exitTickText
         else case pnlPct of
           None \<Rightarrow> ''closed'' @ exitTickText
         | Some p \<Rightarrow> ''return '' @ to_fixed 2 p @ ''%'' @ exitTickText)"

definition lifecycleFromDeskClosed :: "env \<Rightarrow> jsobj \<Rightarrow> Lifecycle option" where
  "lifecycleFromDeskClosed e row =
     (case nonempty_str (field row ''id'') of
        None \<Rightarrow> None
      | Some ident \<Rightarrow>
          (let readout = positionReadout (e_dp e) row
           in case (ro_openedAt readout, ro_closedAt readout) of
                (Some openedAt, Some closedAt) \<Rightarrow>
                  if \<not> ro_closed readout then None
                  else let tape = tapeMarksFromDeskRow row;
                           entryPath = as_str (field row ''entry_path'');
                           openDetail = ''desk open '' @ mid_dot @ '' tick '' @
                             (case tape of Some t \<Rightarrow> num_text (tape_b t) | None \<Rightarrow> em_dash) @
                             dotted entryPath
                       in Some (stopFieldsFromRow row
                            ((bare_life ident (as_str (field row ''symbol'')) ''closed'' openedAt)
                              \<lparr>lf_closed_at := Some (Some closedAt),
                               lf_book := Some (bookFromRow row), lf_desk := True,
                               lf_path_found := Some False,
                               lf_policy_epoch := policyEpochFromRow row, lf_path := entryPath,
                               lf_marks_a := map_option tape_a tape,
                               lf_marks_b := map_option tape_b tape,
                               lf_marks_c := map_option tape_c tape,
                               lf_events := Some
                                 [\<lparr>ev_at = openedAt, ev_kind = ''opened'', ev_detail = openDetail,
                                   ev_fields = JUndef\<rparr>,
                                  \<lparr>ev_at = closedAt, ev_kind = ''closed'',
                                   ev_detail = close_detail e row readout, ev_fields = JUndef\<rparr>],
                               lf_outcome := desk_outcome e row readout openedAt closedAt\<rparr>))
              | _ \<Rightarrow> None))"

subsection \<open>Ordering and counting\<close>

text \<open>
  What \<^verbatim>\<open>localeCompare\<close> promises: its sign is a total preorder, read in both directions.
\<close>

definition collation :: "(string \<Rightarrow> string \<Rightarrow> int) \<Rightarrow> bool" where
  "collation lc \<longleftrightarrow>
     (\<forall>a b. (lc a b < 0) = (0 < lc b a)) \<and>
     (\<forall>a b c. lc a b \<le> 0 \<longrightarrow> lc b c \<le> 0 \<longrightarrow> lc a c \<le> 0)"

lemma collation_sign:
  assumes "collation lc"
  shows "(lc a b = 0) = (lc b a = 0)" "(lc a b < 0) = (0 < lc b a)" "lc a b \<le> 0 \<or> lc b a \<le> 0"
proof -
  have *: "(lc x y < 0) = (0 < lc y x)" for x y using assms by (simp add: collation_def)
  show "(lc a b < 0) = (0 < lc b a)" by (rule *)
  from *[of a b] *[of b a] show "(lc a b = 0) = (lc b a = 0)" "lc a b \<le> 0 \<or> lc b a \<le> 0"
    by linarith+
qed

lemma collation_trans:
  assumes "collation lc" "lc a b \<le> 0" "lc b c \<le> 0"
  shows "lc a c \<le> 0" "lc a b < 0 \<or> lc b c < 0 \<Longrightarrow> lc a c < 0"
proof -
  have tr: "lc x y \<le> 0 \<Longrightarrow> lc y z \<le> 0 \<Longrightarrow> lc x z \<le> 0" for x y z
    using assms(1) unfolding collation_def by blast
  show "lc a c \<le> 0" by (rule tr [OF assms(2,3)])
  show "lc a c < 0" if "lc a b < 0 \<or> lc b c < 0"
  proof (rule ccontr)
    assume "\<not> lc a c < 0"
    then have "lc c a \<le> 0" using collation_sign(2) [OF assms(1), of c a]
        collation_sign(2) [OF assms(1), of a c] by linarith
    then have "lc b a \<le> 0" "lc c b \<le> 0" using tr assms(2,3) by blast+
    with that show False
      using collation_sign(2) [OF assms(1), of a b] collation_sign(2) [OF assms(1), of b c] by linarith
  qed
qed

lemma lexicographic_trans:
  assumes "collation lc" "lc a b \<le> 0" "lc b c \<le> 0" "lc a b = 0 \<Longrightarrow> lc b c = 0 \<Longrightarrow> P"
  shows "lc a c < 0 \<or> (lc a c = 0 \<and> P)"
  using assms collation_trans [OF assms(1-3)] by force

lemma compare_le_iff:
  "comparePositionRows lc a b \<le> 0 \<longleftrightarrow>
     lc (cell_text a ''symbol'') (cell_text b ''symbol'') < 0 \<or>
     lc (cell_text a ''symbol'') (cell_text b ''symbol'') = 0 \<and>
     (lc (cell_text a ''opened_at'') (cell_text b ''opened_at'') < 0 \<or>
      lc (cell_text a ''opened_at'') (cell_text b ''opened_at'') = 0 \<and>
      lc (cell_text a ''id'') (cell_text b ''id'') \<le> 0)"
  by (auto simp: comparePositionRows_def Let_def)

lemma compare_comparator:
  assumes "collation lc"
  shows "comparator (\<lambda>a b. comparePositionRows lc a b \<le> 0)"
proof
  fix x y z
  show "comparePositionRows lc x y \<le> 0 \<or> comparePositionRows lc y x \<le> 0"
    unfolding compare_le_iff using collation_sign [OF assms] by (smt (verit))
  assume xy: "comparePositionRows lc x y \<le> 0" and yz: "comparePositionRows lc y z \<le> 0"
  show "comparePositionRows lc x z \<le> 0"
    using xy yz unfolding compare_le_iff
    using lexicographic_trans [OF assms] collation_trans [OF assms] by (smt (verit))
qed

text \<open>
  The desk's lots are listed in one order whatever order the store holds them in: the rows
  are the store's lots, each once, sorted by symbol, then opening time, then id.
\<close>

theorem position_rows_sorted:
  assumes "collation lc"
  shows "mset (positionRows lc state) = mset (map_values state) \<and>
    sorted_wrt (\<lambda>a b. comparePositionRows lc a b \<le> 0) (positionRows lc state)"
  using comparator.sorted_sort_by [OF compare_comparator [OF assms]]
  by (simp add: positionRows_def)

definition code_unit_compare :: "string \<Rightarrow> string \<Rightarrow> int" where
  "code_unit_compare a b = (if a = b then 0 else if a < b then - 1 else 1)"

theorem position_rows_sorted_witness:
  "sorted_wrt (\<lambda>a b. comparePositionRows code_unit_compare a b \<le> 0)
     (positionRows code_unit_compare
       [(''2'', [(''id'', JStr ''2''), (''symbol'', JStr ''ETH/USD'')]),
        (''1'', [(''id'', JStr ''1''), (''symbol'', JStr ''BTC/USD'')])])"
proof -
  have "collation code_unit_compare"
    by (auto simp: collation_def code_unit_compare_def)
  then show ?thesis using position_rows_sorted by blast
qed

text \<open>
  The position count in the top bar is the number of open lots on the selected ledger, read
  straight from the store.
\<close>

theorem open_count_is_open_lots:
  "syncOpenPositionCount e = length (openOnBook (e_dp e) (map_values (e_positions e)) (e_book e))"
proof -
  have "mset (positionRows (e_lc e) (e_positions e)) = mset (map_values (e_positions e))"
    by (simp add: positionRows_def)
  then have "size (filter_mset P (mset (positionRows (e_lc e) (e_positions e)))) =
      size (filter_mset P (mset (map_values (e_positions e))))" for P by simp
  then have "length (filter P (positionRows (e_lc e) (e_positions e))) =
      length (filter P (map_values (e_positions e)))" for P
    by (metis mset_filter size_mset)
  then show ?thesis
    by (simp add: syncOpenPositionCount_def openLots_def openOnBook_def conj_commute)
qed

subsection \<open>A row is open or closed\<close>

lemma stopFields_keep [simp]:
  "lf_id (stopFieldsFromRow row l) = lf_id l" "lf_status (stopFieldsFromRow row l) = lf_status l"
  "lf_closed_at (stopFieldsFromRow row l) = lf_closed_at l" "lf_desk (stopFieldsFromRow row l) = lf_desk l"
  "lf_history (stopFieldsFromRow row l) = lf_history l" "lf_events (stopFieldsFromRow row l) = lf_events l"
  "lf_outcome (stopFieldsFromRow row l) = lf_outcome l" "lf_marks (stopFieldsFromRow row l) = lf_marks l"
  "lf_marks_a (stopFieldsFromRow row l) = lf_marks_a l" "lf_marks_b (stopFieldsFromRow row l) = lf_marks_b l"
  "lf_marks_c (stopFieldsFromRow row l) = lf_marks_c l" "lf_opened_at (stopFieldsFromRow row l) = lf_opened_at l"
  "lf_book (stopFieldsFromRow row l) = lf_book l"
  by (simp_all add: stopFieldsFromRow_def Let_def)

lemma closed_life_facts:
  assumes "lifecycleFromDeskClosed e row = Some l"
  shows "ro_closed (positionReadout (e_dp e) row)" "lf_status l = ''closed''" "lf_desk l"
    "\<not> lf_history l" "\<exists>c. lf_closed_at l = Some (Some c)" "nonempty_str (field row ''id'') = Some (lf_id l)"
    "lf_marks l = None"
  using assms
  by (auto simp: lifecycleFromDeskClosed_def bare_life_def Let_def split: option.splits if_splits)

lemma open_life_facts:
  assumes "lifecycleFromDeskOpen e row = Some l"
  shows "\<not> ro_closed (positionReadout (e_dp e) row)" "lf_status l = ''holding''" "lf_desk l"
    "\<not> lf_history l" "lf_outcome l = None" "nonempty_str (field row ''id'') = Some (lf_id l)"
  using assms
  by (auto simp: lifecycleFromDeskOpen_def bare_life_def Let_def split: option.splits if_splits)

text \<open>
  A closed desk lot becomes a closed round trip with its close time, an opening and a closing
  event, and tape marks in order; the same row never also gives an open one.
\<close>

theorem closed_row_closed_life:
  assumes "lifecycleFromDeskClosed e row = Some l"
  shows "lifecycleFromDeskOpen e row = None \<and> lf_status l = ''closed'' \<and>
    (\<exists>c. lf_closed_at l = Some (Some c) \<and>
       map_option (map (\<lambda>ev. (ev_kind ev, ev_at ev))) (lf_events l) =
         Some [(''opened'', lf_opened_at l), (''closed'', c)]) \<and>
    (case (lf_marks_a l, lf_marks_b l, lf_marks_c l) of
       (Some a, Some b, Some c) \<Rightarrow> a = b \<and> \<not> num_lt c b
     | (ma, mb, mc) \<Rightarrow> ma = None \<and> mb = None \<and> mc = None)"
proof -
  have "lifecycleFromDeskOpen e row = None"
    using closed_life_facts(1) [OF assms] open_life_facts(1) by fastforce
  then show ?thesis
    using assms
    by (auto simp: lifecycleFromDeskClosed_def tapeMarksFromDeskRow_def bare_life_def Let_def
        split: option.splits if_splits)
qed

theorem closed_row_closed_life_witness:
  "let e = \<lparr>e_dp = (\<lambda>_. Some 0), e_lc = (\<lambda>_ _. 0), e_now = [], e_positions = [], e_book = Paper\<rparr>;
       row = [(''id'', JStr ''lot''), (''opened_at'', JStr ''t0''), (''closed_at'', JStr ''t1'')]
   in \<exists>l. lifecycleFromDeskClosed e row = Some l \<and> lf_status l = ''closed'' \<and>
        lifecycleFromDeskOpen e row = None"
proof -
  let ?e = "\<lparr>e_dp = (\<lambda>_. Some 0), e_lc = (\<lambda>_ _. 0), e_now = [], e_positions = [], e_book = Paper\<rparr> :: env"
  let ?row = "[(''id'', JStr ''lot''), (''opened_at'', JStr ''t0''), (''closed_at'', JStr ''t1'')]"
  obtain l where l: "lifecycleFromDeskClosed ?e ?row = Some l"
    by (simp add: lifecycleFromDeskClosed_def positionReadout_def dateText_def nonempty_str_def Let_def)
  from closed_row_closed_life [OF l] l show ?thesis by (auto simp: Let_def)
qed

end
