(* ===== verification/HubWorker.thy ===== *)
theory HubWorker
  imports JsValue "HOL-Library.Word"
begin

text \<open>
  The websocket worker (\<^verbatim>\<open>providers/ws-worker.ts\<close>) and the handle the page keeps on it
  (\<^verbatim>\<open>lib/hub-socket.ts\<close>). The worker's module variables are a record; the browser's part
  (which sockets exist and in which \<^verbatim>\<open>readyState\<close>, what was handed to \<^verbatim>\<open>send\<close>, what was
  posted to the page) are further fields of it. Sockets are named by the generation they were
  created in. \<open>parse\<close> stands for \<^verbatim>\<open>JSON.parse\<close> of the decoded bytes: the value, or the text
  of the exception. Which event can happen in which state is a step relation; what the worker
  does on it is the function \<open>handle\<close>.
\<close>

subsection \<open>State\<close>

datatype readyState = CONNECTING | OPEN | CLOSING | CLOSED

datatype worker_post =
    READY
  | STATUS string
  | ERROR string
  | ENVELOPE jsval
  | COMMAND_FAILED string

record worker =
  socket :: "nat option"
  connectUrl :: string
  reconnectTimer :: "nat option"
  reconnectAttempts :: nat
  socketGeneration :: nat
  currentRoute :: string
  pendingCommands :: "jsobj list"
  sockets :: "(nat \<times> readyState) list"
  wire :: "(nat \<times> jsobj) list"
  posted :: "worker_post list"

definition RECONNECT_BASE_MS :: nat where "RECONNECT_BASE_MS = 500"

definition RECONNECT_MAX_MS :: nat where "RECONNECT_MAX_MS = 10000"

definition worker_start :: worker where
  "worker_start = \<lparr>socket = None, connectUrl = [], reconnectTimer = None, reconnectAttempts = 0,
     socketGeneration = 0, currentRoute = ''dashboard'', pendingCommands = [], sockets = [],
     wire = [], posted = [READY]\<rparr>"

definition post :: "worker_post \<Rightarrow> worker \<Rightarrow> worker" where
  "post m w = w\<lparr>posted := posted w @ [m]\<rparr>"

text \<open>\<^verbatim>\<open>socket !== null && socket.readyState === WebSocket.OPEN\<close>: the open socket, if any.\<close>

definition open_socket :: "worker \<Rightarrow> nat option" where
  "open_socket w =
     (case socket w of
        None \<Rightarrow> None
      | Some g \<Rightarrow> if map_of (sockets w) g = Some OPEN then Some g else None)"

definition send_open :: "jsobj \<Rightarrow> worker \<Rightarrow> worker" where
  "send_open m w =
     (case open_socket w of None \<Rightarrow> w | Some g \<Rightarrow> w\<lparr>wire := wire w @ [(g, m)]\<rparr>)"

subsection \<open>Operations\<close>

definition is_hindsight :: "jsobj \<Rightarrow> bool" where
  "is_hindsight command \<longleftrightarrow> field command ''type'' = JStr ''hindsight''"

definition queueCommand :: "jsobj \<Rightarrow> worker \<Rightarrow> worker" where
  "queueCommand command w =
     (let kept = (if is_hindsight command
                  then filter (\<lambda>item. \<not> is_hindsight item) (pendingCommands w)
                  else pendingCommands w)
      in w\<lparr>pendingCommands := kept @ [command]\<rparr>)"

definition flushCommands :: "worker \<Rightarrow> worker" where
  "flushCommands w =
     (case open_socket w of
        None \<Rightarrow> w
      | Some g \<Rightarrow> foldl (\<lambda>w command. send_open command w) w (pendingCommands w))"

definition sendRoute :: "string \<Rightarrow> worker \<Rightarrow> worker" where
  "sendRoute route w =
     send_open [(''type'', JStr ''route''), (''route'', JStr route)] (w\<lparr>currentRoute := route\<rparr>)"

definition sendFocus :: "string \<Rightarrow> worker \<Rightarrow> worker" where
  "sendFocus symbol w = send_open [(''type'', JStr ''focus''), (''symbol'', JStr symbol)] w"

definition sendPositionExit :: "string \<Rightarrow> worker \<Rightarrow> worker" where
  "sendPositionExit symbol w =
     send_open [(''type'', JStr ''position.exit''), (''symbol'', JStr symbol)] w"

definition teardownSocket :: "worker \<Rightarrow> worker" where
  "teardownSocket w =
     w\<lparr>socketGeneration := socketGeneration w + 1,
       sockets := (case socket w of
          None \<Rightarrow> sockets w
        | Some g \<Rightarrow> if map_of (sockets w) g = Some OPEN \<or> map_of (sockets w) g = Some CONNECTING
                    then AList.update g CLOSING (sockets w) else sockets w),
       socket := None\<rparr>"

definition scheduleReconnect :: "worker \<Rightarrow> worker" where
  "scheduleReconnect w =
     (case reconnectTimer w of
        Some _ \<Rightarrow> w
      | None \<Rightarrow> w\<lparr>reconnectTimer :=
          Some (min (RECONNECT_BASE_MS * 2 ^ reconnectAttempts w) RECONNECT_MAX_MS)\<rparr>)"

definition connect :: "string \<Rightarrow> worker \<Rightarrow> worker" where
  "connect url w =
     (if url = [] then w
      else let w = teardownSocket w
           in w\<lparr>connectUrl := url, socket := Some (socketGeneration w),
                sockets := AList.update (socketGeneration w) CONNECTING (sockets w)\<rparr>)"

text \<open>The timer's callback.\<close>

definition reconnect :: "worker \<Rightarrow> worker" where
  "reconnect w =
     (let w = w\<lparr>reconnectTimer := None, reconnectAttempts := reconnectAttempts w + 1\<rparr>
      in connect (connectUrl w) w)"

subsubsection \<open>Incoming data\<close>

datatype wire_data =
    ArrayBuffer "8 word list"
  | ArrayView "8 word list" nat nat
  | NoBuffer

fun asArrayBuffer :: "wire_data \<Rightarrow> 8 word list option" where
  "asArrayBuffer (ArrayBuffer b) = Some b"
| "asArrayBuffer (ArrayView b byteOffset byteLength) = Some (take byteLength (drop byteOffset b))"
| "asArrayBuffer NoBuffer = None"

definition on_message :: "(8 word list \<Rightarrow> string + jsval) \<Rightarrow> wire_data \<Rightarrow> worker \<Rightarrow> worker" where
  "on_message parse data w =
     (case asArrayBuffer data of
        None \<Rightarrow> w
      | Some bytes \<Rightarrow>
          if bytes = [] \<or> hd bytes \<noteq> 0x7b then w
          else case parse bytes of
            Inr v \<Rightarrow> post (ENVELOPE v) w
          | Inl err \<Rightarrow> post (ERROR err) w)"

subsubsection \<open>Socket events\<close>

definition on_open :: "nat \<Rightarrow> worker \<Rightarrow> worker" where
  "on_open generation w =
     (if generation \<noteq> socketGeneration w then w
      else let w = post (STATUS ''ONLINE'') (w\<lparr>reconnectAttempts := 0\<rparr>);
               w = (if currentRoute w \<noteq> [] then sendRoute (currentRoute w) w else w)
           in flushCommands w)"

definition on_close :: "nat \<Rightarrow> worker \<Rightarrow> worker" where
  "on_close generation w =
     (if generation \<noteq> socketGeneration w then w
      else scheduleReconnect (post (STATUS ''OFFLINE'') w))"

definition on_error :: "nat \<Rightarrow> string \<Rightarrow> worker \<Rightarrow> worker" where
  "on_error generation event w =
     (if generation \<noteq> socketGeneration w then w else post (ERROR event) w)"

subsubsection \<open>Messages from the page\<close>

datatype page_message =
    CONNECT "string option"
  | DISCONNECT
  | FOCUS "string option"
  | ROUTE "string option"
  | POSITION_EXIT "string option"
  | COMMAND "jsobj option"
  | OTHER_MESSAGE

definition text_or_empty :: "string option \<Rightarrow> string" where
  "text_or_empty s = (case s of None \<Rightarrow> [] | Some t \<Rightarrow> t)"

definition disconnect :: "worker \<Rightarrow> worker" where
  "disconnect w =
     teardownSocket (w\<lparr>reconnectTimer := None, reconnectAttempts := 0, pendingCommands := []\<rparr>)"

definition command_message :: "jsobj option \<Rightarrow> worker \<Rightarrow> worker" where
  "command_message command w =
     (case command of
        None \<Rightarrow> post (COMMAND_FAILED ''hub command is empty'') w
      | Some c \<Rightarrow> send_open c (queueCommand c w))"

fun on_page_message :: "page_message \<Rightarrow> worker \<Rightarrow> worker" where
  "on_page_message (CONNECT url) w = connect (text_or_empty url) w"
| "on_page_message DISCONNECT w = disconnect w"
| "on_page_message (FOCUS symbol) w = sendFocus (text_or_empty symbol) w"
| "on_page_message (ROUTE route) w = sendRoute (text_or_empty route) w"
| "on_page_message (POSITION_EXIT symbol) w = sendPositionExit (text_or_empty symbol) w"
| "on_page_message (COMMAND command) w = command_message command w"
| "on_page_message OTHER_MESSAGE w = w"

subsection \<open>The event loop\<close>

datatype event =
    Page page_message
  | SockOpen nat
  | SockClosing nat
  | SockClose nat
  | SockError nat string
  | SockMessage nat wire_data
  | Timer

text \<open>
  When the browser can deliver an event: socket events follow the socket's \<^verbatim>\<open>readyState\<close>
  (an opening handshake that completes after \<^verbatim>\<open>close()\<close> fires no \<^verbatim>\<open>open\<close>), the timer fires
  while it is armed.
\<close>

fun enabled :: "event \<Rightarrow> worker \<Rightarrow> bool" where
  "enabled (Page m) w = True"
| "enabled (SockOpen g) w = (map_of (sockets w) g = Some CONNECTING)"
| "enabled (SockClosing g) w = (map_of (sockets w) g = Some OPEN)"
| "enabled (SockClose g) w = (map_of (sockets w) g \<notin> {None, Some CLOSED})"
| "enabled (SockError g e) w = (map_of (sockets w) g \<notin> {None, Some CLOSED})"
| "enabled (SockMessage g d) w = (map_of (sockets w) g \<in> {Some OPEN, Some CLOSING})"
| "enabled Timer w = (reconnectTimer w \<noteq> None)"

text \<open>The browser updates \<^verbatim>\<open>readyState\<close>, then the worker's listener runs.\<close>

fun handle :: "(8 word list \<Rightarrow> string + jsval) \<Rightarrow> event \<Rightarrow> worker \<Rightarrow> worker" where
  "handle parse (Page m) w = on_page_message m w"
| "handle parse (SockOpen g) w = on_open g (w\<lparr>sockets := AList.update g OPEN (sockets w)\<rparr>)"
| "handle parse (SockClosing g) w = w\<lparr>sockets := AList.update g CLOSING (sockets w)\<rparr>"
| "handle parse (SockClose g) w = on_close g (w\<lparr>sockets := AList.update g CLOSED (sockets w)\<rparr>)"
| "handle parse (SockError g e) w = on_error g e w"
| "handle parse (SockMessage g d) w = on_message parse d w"
| "handle parse Timer w = reconnect w"

inductive worker_step ::
    "(8 word list \<Rightarrow> string + jsval) \<Rightarrow> worker \<Rightarrow> event \<Rightarrow> worker \<Rightarrow> bool" for parse where
  step: "enabled e w \<Longrightarrow> worker_step parse w e (handle parse e w)"

inductive_simps worker_step_iff: "worker_step parse w e w'"

inductive worker_run ::
    "(8 word list \<Rightarrow> string + jsval) \<Rightarrow> worker \<Rightarrow> event list \<Rightarrow> worker \<Rightarrow> bool" for parse where
  run_Nil: "worker_run parse w [] w"
| run_Cons: "worker_step parse w e w' \<Longrightarrow> worker_run parse w' es w'' \<Longrightarrow>
             worker_run parse w (e # es) w''"

definition reachable :: "(8 word list \<Rightarrow> string + jsval) \<Rightarrow> worker \<Rightarrow> bool" where
  "reachable parse w \<longleftrightarrow> (\<exists>es. worker_run parse worker_start es w)"

subsection \<open>The page's handle\<close>

text \<open>\<^term>\<open>None\<close> while no worker is bound, otherwise the messages posted to it.\<close>

type_synonym hub_handle = "page_message list option"

definition bindHubWorker :: "bool \<Rightarrow> hub_handle \<Rightarrow> hub_handle" where
  "bindHubWorker bound h = (if bound then Some [] else None)"

definition hub_sendRoute :: "string \<Rightarrow> hub_handle \<Rightarrow> hub_handle" where
  "hub_sendRoute route h = map_option (\<lambda>ms. ms @ [ROUTE (Some route)]) h"

definition hub_sendFocus :: "string \<Rightarrow> hub_handle \<Rightarrow> hub_handle" where
  "hub_sendFocus symbol h = map_option (\<lambda>ms. ms @ [FOCUS (Some symbol)]) h"

datatype hub_error = HubNotRunning jsobj

definition sendCommand :: "jsobj \<Rightarrow> hub_handle \<Rightarrow> hub_error + hub_handle" where
  "sendCommand command h =
     (case h of
        None \<Rightarrow> Inl (HubNotRunning command)
      | Some ms \<Rightarrow> Inr (Some (ms @ [COMMAND (Some command)])))"

definition trySendCommand :: "jsobj \<Rightarrow> hub_handle \<Rightarrow> bool \<times> hub_handle" where
  "trySendCommand command h =
     (case sendCommand command h of Inr h' \<Rightarrow> (True, h') | Inl _ \<Rightarrow> (False, h))"

subsection \<open>Sockets and timers\<close>

definition live :: "readyState option \<Rightarrow> bool" where
  "live r \<longleftrightarrow> r = Some CONNECTING \<or> r = Some OPEN"

lemma live_simps [simp]:
  "live (Some CONNECTING)" "live (Some OPEN)" "\<not> live (Some CLOSING)" "\<not> live (Some CLOSED)"
  "\<not> live None"
  by (simp_all add: live_def)

definition worker_inv :: "worker \<Rightarrow> bool" where
  "worker_inv w \<longleftrightarrow>
     (\<forall>g \<in> dom (map_of (sockets w)). g \<le> socketGeneration w) \<and>
     (\<forall>g. socket w = Some g \<longrightarrow> g = socketGeneration w \<and> map_of (sockets w) g \<noteq> None) \<and>
     (\<forall>g. live (map_of (sockets w) g) \<longrightarrow> socket w = Some g) \<and>
     (\<forall>d. reconnectTimer w = Some d \<longrightarrow> RECONNECT_BASE_MS \<le> d \<and> d \<le> RECONNECT_MAX_MS)"

text \<open>What the invariant reads, so that operations touching nothing else preserve it.\<close>

definition core :: "worker \<Rightarrow> nat option \<times> nat \<times> (nat \<times> readyState) list \<times> nat option" where
  "core w = (socket w, socketGeneration w, sockets w, reconnectTimer w)"

lemma worker_inv_core: "core w = core w' \<Longrightarrow> worker_inv w = worker_inv w'"
  by (simp add: core_def worker_inv_def)

lemma core_post [simp]: "core (post m w) = core w"
  by (simp add: core_def post_def)

lemma core_send_open [simp]: "core (send_open m w) = core w"
  by (simp add: core_def send_open_def split: option.split)

lemma core_queueCommand [simp]: "core (queueCommand c w) = core w"
  by (simp add: core_def queueCommand_def Let_def)

lemma core_flushCommands [simp]: "core (flushCommands w) = core w"
  by (simp add: flushCommands_def foldl_frame [where g = core] split: option.split)

lemma core_sendRoute [simp]: "core (sendRoute r w) = core w"
  by (simp add: sendRoute_def) (simp add: core_def)

lemma core_small [simp]:
  "core (sendFocus s w) = core w" "core (sendPositionExit s w) = core w"
  "core (command_message c w) = core w" "core (on_message parse d w) = core w"
  "core (on_error g e w) = core w"
  by (simp_all add: sendFocus_def sendPositionExit_def command_message_def on_message_def on_error_def
      split: option.split sum.split)

lemma core_on_open [simp]: "core (on_open g w) = core w"
  by (simp add: on_open_def Let_def) (simp add: core_def)

lemma map_of_teardown:
  "map_of (sockets (teardownSocket w)) g =
     (if socket w = Some g \<and> live (map_of (sockets w) g) then Some CLOSING
      else map_of (sockets w) g)"
  by (auto simp: teardownSocket_def update_conv' live_def split: option.splits)

lemma teardown_simps [simp]:
  "socket (teardownSocket w) = None" "socketGeneration (teardownSocket w) = Suc (socketGeneration w)"
  "reconnectTimer (teardownSocket w) = reconnectTimer w" "wire (teardownSocket w) = wire w"
  "posted (teardownSocket w) = posted w" "pendingCommands (teardownSocket w) = pendingCommands w"
  by (simp_all add: teardownSocket_def)

lemma inv_teardown: "worker_inv w \<Longrightarrow> worker_inv (teardownSocket w)"
  unfolding worker_inv_def
  by (auto simp: map_of_teardown dom_def le_SucI split: if_splits)

lemma inv_connect:
  assumes "worker_inv w"
  shows "worker_inv (connect url w)"
proof (cases "url = []")
  case False
  let ?t = "teardownSocket w"
  have t: "worker_inv ?t" by (rule inv_teardown [OF assms])
  then have dead: "\<not> live (map_of (sockets ?t) g)" for g by (auto simp: worker_inv_def)
  with t False show ?thesis
    by (auto simp: worker_inv_def connect_def Let_def update_conv' dom_def split: if_splits)
qed (simp add: connect_def assms)

lemma backoff_bounds:
  "RECONNECT_BASE_MS \<le> min (RECONNECT_BASE_MS * 2 ^ n) RECONNECT_MAX_MS \<and>
   min (RECONNECT_BASE_MS * 2 ^ n) RECONNECT_MAX_MS \<le> RECONNECT_MAX_MS"
  by (simp add: RECONNECT_BASE_MS_def RECONNECT_MAX_MS_def)

lemma inv_schedule: "worker_inv w \<Longrightarrow> worker_inv (scheduleReconnect w)"
  using backoff_bounds by (auto simp: worker_inv_def scheduleReconnect_def split: option.splits)

lemma inv_no_timer: "worker_inv w \<Longrightarrow> worker_inv (w\<lparr>reconnectTimer := None, reconnectAttempts := n\<rparr>)"
  by (simp add: worker_inv_def)

lemma inv_ready:
  assumes "worker_inv w" "map_of (sockets w) g \<noteq> None" "live (Some r) \<Longrightarrow> socket w = Some g"
  shows "worker_inv (w\<lparr>sockets := AList.update g r (sockets w)\<rparr>)"
  using assms by (auto simp: worker_inv_def update_conv' dom_def split: if_splits)

lemma inv_disconnect: "worker_inv w \<Longrightarrow> worker_inv (disconnect w)"
  unfolding disconnect_def
  by (rule inv_teardown) (simp add: worker_inv_def)

lemma inv_reconnect: "worker_inv w \<Longrightarrow> worker_inv (reconnect w)"
  unfolding reconnect_def Let_def by (intro inv_connect inv_no_timer)

lemma inv_on_close: "worker_inv w \<Longrightarrow> worker_inv (on_close g w)"
  by (simp add: on_close_def inv_schedule worker_inv_core [OF core_post])

lemma inv_page: "worker_inv w \<Longrightarrow> worker_inv (on_page_message m w)"
  by (cases m) (simp_all add: inv_connect inv_disconnect worker_inv_core [OF core_small(1)]
      worker_inv_core [OF core_small(2)] worker_inv_core [OF core_small(3)]
      worker_inv_core [OF core_sendRoute])

lemma inv_step: "worker_step parse w e w' \<Longrightarrow> worker_inv w \<Longrightarrow> worker_inv w'"
proof (cases e)
  case (SockOpen g)
  assume "worker_step parse w e w'" and inv: "worker_inv w"
  with SockOpen have "map_of (sockets w) g = Some CONNECTING"
    and w': "w' = on_open g (w\<lparr>sockets := AList.update g OPEN (sockets w)\<rparr>)"
    by (auto simp: worker_step_iff)
  moreover from this(1) inv have "socket w = Some g" by (simp add: worker_inv_def)
  ultimately show ?thesis using inv by (simp add: worker_inv_core [OF core_on_open] inv_ready)
qed (auto simp: worker_step_iff inv_page inv_on_close inv_reconnect worker_inv_core [OF core_small(4)]
      worker_inv_core [OF core_small(5)] intro!: inv_ready inv_on_close)

lemma inv_run: "worker_run parse w es w' \<Longrightarrow> worker_inv w \<Longrightarrow> worker_inv w'"
  by (induction rule: worker_run.induct) (auto intro: inv_step)

lemma inv_start: "worker_inv worker_start"
  by (simp add: worker_inv_def worker_start_def)

lemma reachable_inv: "reachable parse w \<Longrightarrow> worker_inv w"
  unfolding reachable_def using inv_run inv_start by blast

text \<open>
  C3. The worker never leaks a connection: in every reachable state at most one socket is
  connecting or open, it is the one the worker holds, and an armed reconnect waits between
  \<^verbatim>\<open>RECONNECT_BASE_MS\<close> and \<^verbatim>\<open>RECONNECT_MAX_MS\<close>.
\<close>

theorem single_live_connection:
  assumes "reachable parse w"
  shows "(\<forall>g. live (map_of (sockets w) g) \<longrightarrow> socket w = Some g) \<and>
    (\<forall>d. reconnectTimer w = Some d \<longrightarrow> RECONNECT_BASE_MS \<le> d \<and> d \<le> RECONNECT_MAX_MS)"
  using reachable_inv [OF assms] by (simp add: worker_inv_def)

lemma run_step: "enabled e w \<Longrightarrow> worker_run parse (handle parse e w) es w' \<Longrightarrow> worker_run parse w (e # es) w'"
  by (rule run_Cons [OF step])

lemmas worker_eval = worker_start_def connect_def teardownSocket_def on_open_def sendRoute_def
  send_open_def open_socket_def flushCommands_def post_def text_or_empty_def Let_def

theorem single_live_connection_witness:
  "\<exists>w. reachable (\<lambda>_. Inr JNull) w \<and> socket w = Some 1 \<and> map_of (sockets w) 1 = Some OPEN \<and>
     (\<forall>g. live (map_of (sockets w) g) \<longrightarrow> g = 1)"
proof -
  let ?p = "\<lambda>_. Inr JNull"
  let ?w1 = "handle ?p (Page (CONNECT (Some ''ws''))) worker_start"
  let ?w2 = "handle ?p (SockOpen 1) ?w1"
  have "enabled (SockOpen 1) ?w1" by (simp add: worker_eval)
  then have "worker_run ?p worker_start [Page (CONNECT (Some ''ws'')), SockOpen 1] ?w2"
    by (intro run_step run_Nil) simp_all
  then have r: "reachable ?p ?w2" by (auto simp: reachable_def)
  moreover have s: "socket ?w2 = Some 1" by (simp add: worker_eval)
  moreover have "map_of (sockets ?w2) 1 = Some OPEN" by (simp add: worker_eval)
  ultimately show ?thesis using single_live_connection [OF r] by (intro exI [of _ ?w2]) auto
qed

subsection \<open>Disconnecting\<close>

text \<open>Nothing the hub or the clock does can bring a torn-down worker back up.\<close>

definition down :: "worker \<Rightarrow> bool" where
  "down w \<longleftrightarrow> worker_inv w \<and> socket w = None \<and> reconnectTimer w = None"

fun connects :: "event \<Rightarrow> bool" where
  "connects (Page (CONNECT url)) = (text_or_empty url \<noteq> [])"
| "connects _ = False"

lemma send_open_None [simp]: "socket w = None \<Longrightarrow> send_open m w = w"
  by (simp add: send_open_def open_socket_def)

lemma command_down [simp]: "socket w = None \<Longrightarrow> wire (command_message c w) = wire w"
  by (simp add: command_message_def post_def queueCommand_def Let_def send_open_def open_socket_def
      split: option.split)

lemma core_fields: "core w = core w' \<Longrightarrow> socket w = socket w' \<and> reconnectTimer w = reconnectTimer w'"
  by (simp add: core_def)

lemma wire_on_message [simp]: "wire (on_message parse d w) = wire w"
  by (simp add: on_message_def post_def split: option.split sum.split)

lemma wire_on_error [simp]: "wire (on_error g e w) = wire w"
  by (simp add: on_error_def post_def)

lemma down_page:
  assumes "down w" "\<not> connects (Page m)"
  shows "socket (on_page_message m w) = None \<and> reconnectTimer (on_page_message m w) = None \<and>
    wire (on_page_message m w) = wire w"
  using assms core_fields [OF core_small(3)]
  by (cases m) (auto simp: down_def connect_def sendFocus_def sendPositionExit_def sendRoute_def
      disconnect_def)

text \<open>
  A close event of the generation in charge could still arm the timer; after a disconnect
  there is none, because tearing down starts a new generation with no socket.
\<close>

definition quiet :: "worker \<Rightarrow> bool" where
  "quiet w \<longleftrightarrow> down w \<and> map_of (sockets w) (socketGeneration w) = None"

lemma quiet_disconnect: "worker_inv w \<Longrightarrow> quiet (disconnect w)"
proof -
  assume inv: "worker_inv w"
  then have "map_of (sockets w) (Suc (socketGeneration w)) = None"
    by (force simp: worker_inv_def dom_def)
  with inv show ?thesis
    by (simp add: quiet_def down_def inv_disconnect)
      (simp add: disconnect_def map_of_teardown)
qed

lemma quiet_page:
  assumes "quiet w" "\<not> connects (Page m)"
  shows "quiet (on_page_message m w)"
proof (cases "m = DISCONNECT")
  case True
  then show ?thesis using assms quiet_disconnect by (simp add: quiet_def down_def)
next
  case False
  then have "core (on_page_message m w) = core w"
    using assms(2) by (cases m) (auto simp: connect_def)
  then show ?thesis
    using assms(1) worker_inv_core [of "on_page_message m w" w]
    by (simp add: quiet_def down_def core_def)
qed

lemma quiet_step:
  assumes "worker_step parse w e w'" "quiet w" "\<not> connects e"
  shows "quiet w' \<and> wire w' = wire w"
proof -
  have inv': "worker_inv w'" using assms inv_step by (simp add: quiet_def down_def)
  have e: "enabled e w" "w' = handle parse e w" using assms(1) by (auto simp: worker_step_iff)
  show ?thesis
  proof (cases e)
    case (Page m)
    then show ?thesis
      using assms e quiet_page down_page by (simp add: quiet_def)
  next
    case (SockMessage g d)
    then show ?thesis using assms(2) e core_small(4) inv'
      by (auto simp: quiet_def down_def core_def)
  next
    case (SockError g x)
    then show ?thesis using assms(2) e core_small(5) inv'
      by (auto simp: quiet_def down_def core_def)
  qed (use assms(2) e inv' in \<open>auto simp: quiet_def down_def update_conv' on_open_def on_close_def\<close>)
qed

lemma quiet_run:
  "worker_run parse w es w' \<Longrightarrow> quiet w \<Longrightarrow> list_all (\<lambda>e. \<not> connects e) es \<Longrightarrow>
     quiet w' \<and> wire w' = wire w"
proof (induction rule: worker_run.induct)
  case (run_Cons w e w' es w'')
  then have "quiet w' \<and> wire w' = wire w" by (intro quiet_step) auto
  with run_Cons show ?case by simp
qed simp

text \<open>
  C9. A disconnect is final until the page connects again: whatever the old sockets and the
  page do in the meantime, no socket is created, no reconnect is armed and nothing is sent.
\<close>

theorem disconnect_is_final:
  assumes "reachable parse w" and "worker_run parse (disconnect w) es w'"
    and "list_all (\<lambda>e. \<not> connects e) es"
  shows "socket w' = None \<and> reconnectTimer w' = None \<and> wire w' = wire w"
  using quiet_run [OF assms(2) quiet_disconnect assms(3)] reachable_inv [OF assms(1)]
  by (simp add: quiet_def down_def) (simp add: disconnect_def)

theorem disconnect_is_final_witness:
  "\<exists>w'. worker_run (\<lambda>_. Inr JNull) (disconnect worker_start) [Page (FOCUS (Some ''BTC/USD''))] w' \<and>
     socket w' = None \<and> reconnectTimer w' = None \<and> wire w' = []"
proof -
  let ?p = "\<lambda>_. Inr JNull"
  let ?e = "Page (FOCUS (Some ''BTC/USD''))"
  have "reachable ?p worker_start" unfolding reachable_def using run_Nil by blast
  moreover have run: "worker_run ?p (disconnect worker_start) [?e] (handle ?p ?e (disconnect worker_start))"
    by (rule run_step) (auto intro: run_Nil)
  ultimately have "socket (handle ?p ?e (disconnect worker_start)) = None \<and>
      reconnectTimer (handle ?p ?e (disconnect worker_start)) = None \<and>
      wire (handle ?p ?e (disconnect worker_start)) = wire worker_start"
    by (rule disconnect_is_final) simp
  with run show ?thesis
    by (intro exI [of _ "handle ?p ?e (disconnect worker_start)"]) (simp add: worker_start_def)
qed

subsection \<open>Commands\<close>

text \<open>The commands the page issued since it last disconnected.\<close>

fun issue :: "jsobj list \<Rightarrow> event \<Rightarrow> jsobj list" where
  "issue cs (Page (COMMAND (Some c))) = cs @ [c]"
| "issue cs (Page DISCONNECT) = []"
| "issue cs _ = cs"

definition issued :: "event list \<Rightarrow> jsobj list" where
  "issued es = foldl issue [] es"

definition queue_of :: "jsobj list \<Rightarrow> jsobj list \<Rightarrow> bool" where
  "queue_of cs q \<longleftrightarrow>
     filter (\<lambda>c. \<not> is_hindsight c) q = filter (\<lambda>c. \<not> is_hindsight c) cs \<and>
     filter is_hindsight q = take_last 1 (filter is_hindsight cs)"

lemma queue_of_push:
  "queue_of cs (pendingCommands w) \<Longrightarrow> queue_of (cs @ [c]) (pendingCommands (queueCommand c w))"
  by (auto simp: queue_of_def queueCommand_def Let_def take_last_def filter_empty_conv)

lemma pending_send_open [simp]: "pendingCommands (send_open m w) = pendingCommands w"
  by (simp add: send_open_def split: option.split)

lemma pending_keeps [simp]:
  "pendingCommands (post m w) = pendingCommands w"
  "pendingCommands (sendRoute r w) = pendingCommands w"
  "pendingCommands (sendFocus s w) = pendingCommands w"
  "pendingCommands (sendPositionExit s w) = pendingCommands w"
  "pendingCommands (connect url w) = pendingCommands w"
  "pendingCommands (scheduleReconnect w) = pendingCommands w"
  by (simp_all add: post_def sendRoute_def sendFocus_def sendPositionExit_def connect_def
      scheduleReconnect_def Let_def split: option.split)

lemma pending_flush [simp]: "pendingCommands (flushCommands w) = pendingCommands w"
  by (simp add: flushCommands_def foldl_frame [where g = pendingCommands] split: option.split)

lemma pending_events [simp]:
  "pendingCommands (on_open g w) = pendingCommands w"
  "pendingCommands (on_close g w) = pendingCommands w"
  "pendingCommands (on_error g e w) = pendingCommands w"
  "pendingCommands (on_message parse d w) = pendingCommands w"
  "pendingCommands (reconnect w) = pendingCommands w"
  by (simp_all add: on_open_def on_close_def on_error_def on_message_def reconnect_def Let_def
      split: option.split sum.split)

lemma queue_of_Nil: "queue_of [] []"
  by (simp add: queue_of_def take_last_def)

lemma queue_of_page:
  assumes "queue_of cs (pendingCommands w)"
  shows "queue_of (issue cs (Page m)) (pendingCommands (on_page_message m w))"
proof (cases m)
  case (COMMAND c)
  then show ?thesis
    using assms by (cases c) (auto simp: command_message_def intro: queue_of_push)
qed (use assms in \<open>simp_all add: disconnect_def queue_of_Nil\<close>)

lemma queue_of_step:
  "worker_step parse w e w' \<Longrightarrow> queue_of cs (pendingCommands w) \<Longrightarrow>
     queue_of (issue cs e) (pendingCommands w')"
  by (cases e) (auto simp: worker_step_iff queue_of_page)

lemma queue_of_run:
  "worker_run parse w es w' \<Longrightarrow> queue_of cs (pendingCommands w) \<Longrightarrow>
     queue_of (foldl issue cs es) (pendingCommands w')"
proof (induction arbitrary: cs rule: worker_run.induct)
  case (run_Cons w e w' es w'')
  from run_Cons.IH [OF queue_of_step [OF run_Cons.hyps(1) run_Cons.prems]] show ?case by simp
qed simp

text \<open>
  No command is lost and no stale hindsight survives: after any run the queue holds every
  other command issued since the last disconnect, in order, and of the hindsight commands only
  the newest.
\<close>

theorem queue_holds_issued_commands:
  assumes "worker_run parse worker_start es w"
  shows "filter (\<lambda>c. \<not> is_hindsight c) (pendingCommands w) =
      filter (\<lambda>c. \<not> is_hindsight c) (issued es) \<and>
    filter is_hindsight (pendingCommands w) = take_last 1 (filter is_hindsight (issued es))"
  using queue_of_run [OF assms, of "[]"]
  by (simp add: queue_of_def issued_def worker_start_def take_last_def)

theorem queue_holds_issued_commands_witness:
  "\<exists>w. worker_run (\<lambda>_. Inr JNull) worker_start
      [Page (COMMAND (Some [(''type'', JStr ''hindsight''), (''n'', JNum (Fin 1))])),
       Page (COMMAND (Some [(''type'', JStr ''hindsight''), (''n'', JNum (Fin 2))]))] w \<and>
     filter is_hindsight (pendingCommands w) = [[(''type'', JStr ''hindsight''), (''n'', JNum (Fin 2))]]"
proof -
  let ?p = "\<lambda>_. Inr JNull :: string + jsval"
  let ?c = "\<lambda>n. Page (COMMAND (Some [(''type'', JStr ''hindsight''), (''n'', JNum (Fin n))]))"
  let ?w = "handle ?p (?c 2) (handle ?p (?c 1) worker_start)"
  have run: "worker_run ?p worker_start [?c 1, ?c 2] ?w"
    by (intro run_step run_Nil) simp_all
  from queue_holds_issued_commands [OF run]
  have "filter is_hindsight (pendingCommands ?w) = [[(''type'', JStr ''hindsight''), (''n'', JNum (Fin 2))]]"
    by (simp add: issued_def is_hindsight_def take_last_def)
  with run show ?thesis by blast
qed

subsection \<open>What an open socket receives\<close>

lemma wire_send_open:
  "open_socket w = Some g \<Longrightarrow> wire (send_open m w) = wire w @ [(g, m)] \<and> open_socket (send_open m w) = Some g"
  by (auto simp: send_open_def open_socket_def split: option.splits)

lemma wire_send_all:
  "open_socket w = Some g \<Longrightarrow>
     wire (foldl (\<lambda>w c. send_open c w) w cs) = wire w @ map (Pair g) cs"
proof (induction cs arbitrary: w)
  case (Cons c cs)
  then show ?case using wire_send_open [OF Cons.prems, of c] by simp
qed simp

text \<open>
  C11. When the socket in charge opens, the hub is told the page's current route first and then
  receives every queued command in order; the queue is not emptied, so commands that already
  went out on an earlier socket are sent again.
\<close>

theorem open_replays_queue:
  assumes "reachable parse w" and "enabled (SockOpen g) w" and "currentRoute w \<noteq> []"
  shows "wire (handle parse (SockOpen g) w) =
      wire w @ map (Pair g)
        ([(''type'', JStr ''route''), (''route'', JStr (currentRoute w))] # pendingCommands w) \<and>
    pendingCommands (handle parse (SockOpen g) w) = pendingCommands w"
proof -
  have g: "socket w = Some g" "g = socketGeneration w"
    using reachable_inv [OF assms(1)] assms(2) by (auto simp: worker_inv_def)
  let ?route = "[(''type'', JStr ''route''), (''route'', JStr (currentRoute w))]"
  let ?w1 = "post (STATUS ''ONLINE'') (w\<lparr>sockets := AList.update g OPEN (sockets w), reconnectAttempts := 0\<rparr>)"
  let ?w2 = "sendRoute (currentRoute w) ?w1"
  have "open_socket (?w1\<lparr>currentRoute := currentRoute w\<rparr>) = Some g"
    using g by (simp add: open_socket_def post_def update_conv')
  then have w2: "wire ?w2 = wire w @ [(g, ?route)]" "open_socket ?w2 = Some g"
    using wire_send_open by (fastforce simp: sendRoute_def post_def)+
  have "handle parse (SockOpen g) w = flushCommands ?w2"
    using g assms(3) by (simp add: on_open_def Let_def post_def)
  then show ?thesis
    using w2 wire_send_all [OF w2(2), of "pendingCommands w"] by (simp add: flushCommands_def post_def)
      (simp add: flushCommands_def foldl_frame [where g = pendingCommands])
qed

theorem open_replays_queue_witness:
  "let p = (\<lambda>_. Inr JNull);
       w = connect ''ws'' (command_message (Some [(''type'', JStr ''s3'')]) worker_start)
   in wire (handle p (SockOpen 1) w) =
      [(1, [(''type'', JStr ''route''), (''route'', JStr ''dashboard'')]), (1, [(''type'', JStr ''s3'')])]"
proof -
  let ?p = "\<lambda>_. Inr JNull :: string + jsval"
  let ?c = "Page (COMMAND (Some [(''type'', JStr ''s3'')]))"
  let ?w = "connect ''ws'' (command_message (Some [(''type'', JStr ''s3'')]) worker_start)"
  have "worker_run ?p worker_start [?c, Page (CONNECT (Some ''ws''))] ?w"
    by (intro run_step) (simp_all add: text_or_empty_def run_Nil)
  then have "reachable ?p ?w" by (auto simp: reachable_def)
  moreover have "enabled (SockOpen 1) ?w"
    by (simp add: worker_eval command_message_def queueCommand_def)
  moreover have "currentRoute ?w = ''dashboard''" "wire ?w = []" "pendingCommands ?w = [[(''type'', JStr ''s3'')]]"
    by (simp_all add: worker_eval command_message_def queueCommand_def is_hindsight_def)
  ultimately show ?thesis
    using open_replays_queue [of ?p ?w 1] by (simp add: Let_def del: handle.simps)
qed

end
