(* ===== verification/Lifecycle.thy ===== *)
theory Lifecycle
  imports DeskRows HubWorker
begin

text \<open>
  The round-trip store of \<^verbatim>\<open>lib/lifecycle.ts\<close>: the module's maps, its published snapshot and
  the one-shot history request are a record; every exported operation is a function on it. A
  frame's nested objects are read at their declared types (a required number that is missing is
  \<^verbatim>\<open>NaN\<close>, a required text is empty).
\<close>

subsection \<open>Frames\<close>

definition num_at :: "jsobj \<Rightarrow> string \<Rightarrow> jsnum" where
  "num_at ob k = (case as_num (field ob k) of Some n \<Rightarrow> n | None \<Rightarrow> NaN)"

definition text_at :: "jsobj \<Rightarrow> string \<Rightarrow> string" where
  "text_at ob k = (case as_str (field ob k) of Some s \<Rightarrow> s | None \<Rightarrow> [])"

definition event_of :: "jsval \<Rightarrow> LifeEvent option" where
  "event_of v =
     map_option (\<lambda>ob. \<lparr>ev_at = text_at ob ''at'', ev_kind = text_at ob ''kind'',
       ev_detail = text_at ob ''detail'', ev_fields = field ob ''fields''\<rparr>) (as_plain v)"

definition mark_of :: "jsval \<Rightarrow> LifeMark option" where
  "mark_of v =
     map_option (\<lambda>ob. \<lparr>mk_at = text_at ob ''at'', mk_bid = num_at ob ''bid'',
       mk_quantity = num_at ob ''quantity'', mk_entry_price = num_at ob ''entry_price'',
       mk_unrealized = num_at ob ''unrealized'',
       mk_unrealized_return = num_at ob ''unrealized_return''\<rparr>) (as_plain v)"

definition outcome_of :: "jsval \<Rightarrow> LifeOutcome option" where
  "outcome_of v =
     map_option (\<lambda>ob. \<lparr>oc_pnl = num_at ob ''pnl'', oc_pnl_pct = num_at ob ''pnl_pct'',
       oc_money = as_num (field ob ''money''), oc_hold_ns = num_at ob ''hold_ns'',
       oc_expected_hold_ns = as_num (field ob ''expected_hold_ns''),
       oc_triggers = map_option (List.map_filter as_str) (as_arr (field ob ''triggers'')),
       oc_realized = as_num (field ob ''realized''), oc_mark = as_num (field ob ''mark''),
       oc_bars_held = as_num (field ob ''bars_held''),
       oc_max_lifetime_bars = as_num (field ob ''max_lifetime_bars'')\<rparr>) (as_plain v)"

definition stop_state_of :: "jsval \<Rightarrow> DynamicStoploss option" where
  "stop_state_of v =
     map_option (\<lambda>ob. \<lparr>st_state = Option.bind (as_str (field ob ''state'')) (map_of STATE_LABELS),
       st_exit_reason = as_str (field ob ''exit_reason''), st_friction = num_at ob ''friction'',
       st_current_pnl = num_at ob ''current_pnl'', st_peak_pnl = num_at ob ''peak_pnl'',
       st_floor_pnl = num_at ob ''floor_pnl'', st_has_floor = truthy (field ob ''has_floor''),
       st_room_pct = num_at ob ''room_pct'', st_proximity = num_at ob ''proximity'',
       st_downside_pressure = num_at ob ''downside_pressure'',
       st_downside_magnitude_ratio = num_at ob ''downside_magnitude_ratio'',
       st_consecutive_down = num_at ob ''consecutive_down'',
       st_opened_at = as_str (field ob ''opened_at''),
       st_last_peak_time = as_str (field ob ''last_peak_time'')\<rparr>) (as_plain v)"

definition policy_of :: "jsval \<Rightarrow> LearnedExitPolicy option" where
  "policy_of v =
     map_option (\<lambda>ob. \<lparr>lp_trailing = as_num (field ob ''trailing''), lp_cut = as_num (field ob ''cut''),
       lp_maxBars = as_num (field ob ''maxBars''), lp_worst = as_num (field ob ''worst'')\<rparr>) (as_plain v)"

definition closed_at_of :: "jsval \<Rightarrow> string option option" where
  "closed_at_of v = (case v of JStr s \<Rightarrow> Some (Some s) | JNull \<Rightarrow> Some None | _ \<Rightarrow> None)"

text \<open>A snapshot frame as the round trip it is.\<close>

definition lifecycle_of :: "jsobj \<Rightarrow> Lifecycle" where
  "lifecycle_of ob =
     \<lparr>lf_id = text_at ob ''id'', lf_symbol = as_str (field ob ''symbol''),
      lf_status = text_at ob ''status'', lf_policy_epoch = as_str (field ob ''policy_epoch''),
      lf_path = as_str (field ob ''path''), lf_opened_at = text_at ob ''opened_at'',
      lf_closed_at = closed_at_of (field ob ''closed_at''),
      lf_events = map_option (List.map_filter event_of) (as_arr (field ob ''events'')),
      lf_mark = mark_of (field ob ''mark''), lf_stop_state = stop_state_of (field ob ''stop_state''),
      lf_policy = policy_of (field ob ''policy''), lf_peak_pct = as_num (field ob ''peak_pct''),
      lf_realized_pct = as_num (field ob ''realized_pct''),
      lf_pnl_trace = map_option (List.map_filter as_num) (as_arr (field ob ''pnl_trace'')),
      lf_bars_held = as_num (field ob ''bars_held''),
      lf_exit_trigger = as_str (field ob ''exit_trigger''),
      lf_official_exit_pct = as_num (field ob ''official_exit_pct''),
      lf_marks = map_option (List.map_filter mark_of) (as_arr (field ob ''marks'')),
      lf_outcome = outcome_of (field ob ''outcome''), lf_book = as_str (field ob ''book''),
      lf_path_found = (case field ob ''path_found'' of JBool b \<Rightarrow> Some b | _ \<Rightarrow> None),
      lf_desk = truthy (field ob ''desk''), lf_history = truthy (field ob ''history''),
      lf_marks_a = as_num (field ob ''marks_a''), lf_marks_b = as_num (field ob ''marks_b''),
      lf_marks_c = as_num (field ob ''marks_c'')\<rparr>"

definition has_text :: "jsobj \<Rightarrow> string \<Rightarrow> bool" where
  "has_text ob k = (as_str (field ob k) \<noteq> None)"

definition isSnapshot :: "jsval \<Rightarrow> jsobj option" where
  "isSnapshot frame =
     (case as_record frame of
        None \<Rightarrow> None
      | Some v \<Rightarrow>
          if has_text v ''id'' \<and> has_text v ''symbol'' \<and> has_text v ''status'' \<and>
             has_text v ''opened_at'' \<and>
             (as_arr (field v ''events'') \<noteq> None \<or> field v ''events'' = JNull)
          then Some v else None)"

definition isFrame :: "jsval \<Rightarrow> jsobj option" where
  "isFrame frame =
     (case as_record frame of
        None \<Rightarrow> None
      | Some v \<Rightarrow>
          if has_text v ''id'' \<and> has_text v ''symbol'' \<and> has_text v ''status'' \<and>
             has_text v ''opened_at'' \<and>
             (field v ''event'' = JNull) \<noteq> (field v ''mark'' = JNull)
          then Some v else None)"

subsection \<open>Reports\<close>

record Performance =
  pf_closed :: nat
  pf_wins :: nat
  pf_win_rate :: "jsnum option"
  pf_mean_return :: "jsnum option"
  pf_pnl :: jsnum

record LifecycleReport =
  rp_lifecycles :: "Lifecycle list"
  rp_performance :: Performance
  rp_open_count :: nat

definition sum_num :: "jsnum list \<Rightarrow> jsnum" where
  "sum_num xs = foldl num_add (Fin 0) xs"

definition settled_pnl :: "Lifecycle \<Rightarrow> jsnum option" where
  "settled_pnl life = (if lf_status life = ''closed'' then map_option oc_pnl (lf_outcome life) else None)"

definition summarize :: "Lifecycle list \<Rightarrow> LifecycleReport" where
  "summarize all =
     (let returns = List.map_filter settled_pnl all;
          closed = length returns;
          wins = length (filter (num_lt (Fin 0)) returns)
      in \<lparr>rp_lifecycles = all,
          rp_performance =
            \<lparr>pf_closed = closed, pf_wins = wins,
             pf_win_rate = (if 0 < closed then Some (num_div (num_of_nat wins) (num_of_nat closed)) else None),
             pf_mean_return = (if 0 < closed then Some (num_div (sum_num returns) (num_of_nat closed)) else None),
             pf_pnl = sum_num returns\<rparr>,
          rp_open_count = length (filter (\<lambda>life. lf_status life \<noteq> ''closed'' \<and>
                                                 lf_status life \<noteq> ''abandoned'') all)\<rparr>)"

definition selectBook :: "LifecycleReport \<Rightarrow> Book \<Rightarrow> LifecycleReport" where
  "selectBook report book =
     summarize (filter (\<lambda>life. (case lf_book life of Some b \<Rightarrow> b | None \<Rightarrow> ''paper'') = book_name book)
       (rp_lifecycles report))"

subsection \<open>The store\<close>

record life_state =
  lives :: "(string \<times> Lifecycle) list"
  historyStamp :: "(string \<times> HistoryStamp) list"
  snapshot :: LifecycleReport
  notified :: nat
  positionCount :: nat
  closedHistoryRequested :: bool
  hub :: hub_handle

definition SESSION_LIFECYCLE_LIMIT :: nat where "SESSION_LIFECYCLE_LIMIT = 200"

definition HISTORY_LIFECYCLE_CAP :: nat where "HISTORY_LIFECYCLE_CAP = 10000"

definition life_start :: life_state where
  "life_start = \<lparr>lives = [], historyStamp = [], snapshot = summarize [], notified = 0,
     positionCount = 0, closedHistoryRequested = False, hub = None\<rparr>"

definition newest_first :: "(string \<Rightarrow> string \<Rightarrow> int) \<Rightarrow> Lifecycle list \<Rightarrow> Lifecycle list" where
  "newest_first lc ls = sort_by (\<lambda>a b. lc (lf_opened_at b) (lf_opened_at a) \<le> 0) ls"

definition publish :: "env \<Rightarrow> life_state \<Rightarrow> life_state" where
  "publish e s =
     s\<lparr>snapshot := summarize (newest_first (e_lc e) (map_values (lives s))),
       positionCount := syncOpenPositionCount e,
       notified := notified s + 1\<rparr>"

text \<open>\<^verbatim>\<open>===\<close> on two numbers either of which may be \<^verbatim>\<open>undefined\<close>.\<close>

fun same_num :: "jsnum option \<Rightarrow> jsnum option \<Rightarrow> bool" where
  "same_num None None = True"
| "same_num (Some a) (Some b) = num_eq a b"
| "same_num _ _ = False"

definition list_length :: "'a list option \<Rightarrow> nat" where
  "list_length xs = (case xs of None \<Rightarrow> 0 | Some l \<Rightarrow> length l)"

definition deskLifeChanged :: "Lifecycle option \<Rightarrow> Lifecycle \<Rightarrow> bool" where
  "deskLifeChanged prev next_life =
     (case prev of
        None \<Rightarrow> True
      | Some p \<Rightarrow>
          lf_status p \<noteq> lf_status next_life \<or>
          lf_closed_at p \<noteq> lf_closed_at next_life \<or>
          \<not> same_num (map_option mk_bid (lf_mark p)) (map_option mk_bid (lf_mark next_life)) \<or>
          \<not> same_num (map_option mk_unrealized_return (lf_mark p))
                     (map_option mk_unrealized_return (lf_mark next_life)) \<or>
          \<not> same_num (map_option oc_pnl (lf_outcome p)) (map_option oc_pnl (lf_outcome next_life)) \<or>
          \<not> same_num (map_option oc_pnl_pct (lf_outcome p))
                     (map_option oc_pnl_pct (lf_outcome next_life)) \<or>
          list_length (lf_marks p) \<noteq> list_length (lf_marks next_life) \<or>
          list_length (lf_events p) \<noteq> list_length (lf_events next_life))"

definition settled :: "Lifecycle \<Rightarrow> bool" where
  "settled life = (lf_status life = ''closed'' \<or> lf_status life = ''abandoned'')"

definition kind_count :: "bool \<Rightarrow> (string \<times> Lifecycle) list \<Rightarrow> nat" where
  "kind_count history ls = length (filter (\<lambda>(_, life). lf_history life = history) ls)"

text \<open>\<^verbatim>\<open>evictClosed\<close>: the first settled entry of the kind leaves both maps.\<close>

definition evictClosed ::
    "bool \<Rightarrow> (string \<times> Lifecycle) list \<times> (string \<times> HistoryStamp) list \<Rightarrow>
     ((string \<times> Lifecycle) list \<times> (string \<times> HistoryStamp) list) option" where
  "evictClosed historyOnly maps =
     map_option (\<lambda>(ident, _). (map_del ident (fst maps), map_del ident (snd maps)))
       (find (\<lambda>(_, life). lf_history life = historyOnly \<and> settled life) (fst maps))"

lemma find_SomeD: "find P xs = Some x \<Longrightarrow> x \<in> set xs \<and> P x"
  by (induction xs) (auto split: if_splits)

lemma evictClosed_Some:
  assumes "evictClosed h maps = Some maps'"
  obtains ident life where "(ident, life) \<in> set (fst maps)" "lf_history life = h" "settled life"
    "maps' = (map_del ident (fst maps), map_del ident (snd maps))"
  using assms by (auto simp: evictClosed_def dest!: find_SomeD intro: that)

lemma map_del_shrinks: "(k, v) \<in> set m \<Longrightarrow> length (map_del k m) < length m"
  unfolding map_del_def by (rule length_filter_less) auto

lemma evictClosed_shrinks: "evictClosed h maps = Some maps' \<Longrightarrow> length (fst maps') < length (fst maps)"
  by (erule evictClosed_Some) (simp add: map_del_shrinks)

function evict_while ::
    "bool \<Rightarrow> nat \<Rightarrow> (string \<times> Lifecycle) list \<times> (string \<times> HistoryStamp) list \<Rightarrow>
     (string \<times> Lifecycle) list \<times> (string \<times> HistoryStamp) list" where
  "evict_while historyOnly cap maps =
     (if cap < kind_count historyOnly (fst maps)
      then case evictClosed historyOnly maps of
             None \<Rightarrow> maps
           | Some maps' \<Rightarrow> evict_while historyOnly cap maps'
      else maps)"
  by pat_completeness auto

termination
  by (relation "measure (\<lambda>(_, _, maps). length (fst maps))") (auto dest: evictClosed_shrinks)

declare evict_while.simps [simp del]

definition storeLife :: "Lifecycle \<Rightarrow> life_state \<Rightarrow> bool \<times> life_state" where
  "storeLife life s =
     (if map_of (lives s) (lf_id life) \<noteq> None \<and>
         \<not> deskLifeChanged (map_of (lives s) (lf_id life)) life
      then (False, s)
      else let placed = AList.update (lf_id life) life (map_del (lf_id life) (lives s));
               maps = (if lf_history life then evict_while True HISTORY_LIFECYCLE_CAP (placed, historyStamp s)
                       else evict_while False SESSION_LIFECYCLE_LIMIT (placed, historyStamp s))
           in (True, s\<lparr>lives := fst maps, historyStamp := snd maps\<rparr>))"

definition remember :: "env \<Rightarrow> Lifecycle \<Rightarrow> life_state \<Rightarrow> life_state" where
  "remember e life s =
     (case storeLife life s of (stored, s') \<Rightarrow> if stored then publish e s' else s')"

subsection \<open>Live frames\<close>

definition next_marks :: "LifeMark option \<Rightarrow> LifeMark list \<Rightarrow> LifeMark list" where
  "next_marks mark marks =
     (case mark of
        None \<Rightarrow> marks
      | Some m \<Rightarrow>
          (case last_opt marks of
             None \<Rightarrow> take_last 400 (marks @ [m])
           | Some l \<Rightarrow> if mk_at l \<noteq> mk_at m \<or> \<not> num_eq (mk_bid l) (mk_bid m)
                       then take_last 400 (marks @ [m]) else marks))"

definition list_or_empty :: "'a list option \<Rightarrow> 'a list" where
  "list_or_empty xs = (case xs of None \<Rightarrow> [] | Some l \<Rightarrow> l)"

definition nonempty_or :: "'a list \<Rightarrow> 'a list option \<Rightarrow> 'a list option" where
  "nonempty_or xs other = (if xs \<noteq> [] then Some xs else other)"

text \<open>\<^verbatim>\<open>frame.closed_at ?? life.closed_at\<close>.\<close>

definition coalesce_close :: "jsval \<Rightarrow> string option option \<Rightarrow> string option option" where
  "coalesce_close v prior = (case as_str v of Some s \<Rightarrow> Some (Some s) | None \<Rightarrow> prior)"

definition fold_frame :: "jsobj \<Rightarrow> Lifecycle \<Rightarrow> Lifecycle" where
  "fold_frame v life =
     (let mark = mark_of (field v ''mark'');
          marks = next_marks mark (list_or_empty (lf_marks life))
      in life\<lparr>lf_status := text_at v ''status'',
              lf_closed_at := coalesce_close (field v ''closed_at'') (lf_closed_at life),
              lf_outcome := coalesce (outcome_of (field v ''outcome'')) (lf_outcome life),
              lf_mark := coalesce mark (lf_mark life),
              lf_stop_state := coalesce (stop_state_of (field v ''stop_state'')) (lf_stop_state life),
              lf_marks := nonempty_or marks (lf_marks life),
              lf_events := (case event_of (field v ''event'') of
                 None \<Rightarrow> lf_events life
               | Some ev \<Rightarrow> Some (list_or_empty (lf_events life) @ [ev]))\<rparr>)"

definition ingestPositionFrame :: "env \<Rightarrow> jsval \<Rightarrow> life_state \<Rightarrow> life_state" where
  "ingestPositionFrame e frame s =
     (case isSnapshot frame of
        Some v \<Rightarrow>
          (let life = lifecycle_of v
           in remember e (life\<lparr>lf_events := Some (list_or_empty (lf_events life))\<rparr>) s)
      | None \<Rightarrow>
          (case isFrame frame of
             None \<Rightarrow> s
           | Some v \<Rightarrow>
               (let ident = text_at v ''id'';
                    life = (case map_of (lives s) ident of
                       Some life \<Rightarrow> life
                     | None \<Rightarrow> (bare_life ident (as_str (field v ''symbol'')) (text_at v ''status'')
                                  (text_at v ''opened_at''))
                               \<lparr>lf_policy_epoch := as_str (field v ''policy_epoch'')\<rparr>)
                in remember e (fold_frame v life) s)))"

subsection \<open>Desk rows\<close>

definition open_ids :: "env \<Rightarrow> jsobj list \<Rightarrow> string list" where
  "open_ids e rows =
     List.map_filter (\<lambda>row. nonempty_str (field row ''id''))
       (filter (\<lambda>row. \<not> ro_closed (positionReadout (e_dp e) row)) rows)"

text \<open>The properties both merges fill in from the round trip already held.\<close>

definition fill_from :: "Lifecycle option \<Rightarrow> Lifecycle \<Rightarrow> Lifecycle" where
  "fill_from existing life =
     (case existing of
        None \<Rightarrow> life
      | Some x \<Rightarrow>
          life\<lparr>lf_policy_epoch := coalesce (lf_policy_epoch life) (lf_policy_epoch x),
               lf_marks_a := coalesce (lf_marks_a life) (lf_marks_a x),
               lf_marks_b := coalesce (lf_marks_b life) (lf_marks_b x),
               lf_marks_c := coalesce (lf_marks_c life) (lf_marks_c x),
               lf_path := coalesce (lf_path life) (lf_path x),
               lf_path_found := coalesce (lf_path_found life) (lf_path_found x),
               lf_stop_state := coalesce (lf_stop_state life) (lf_stop_state x),
               lf_policy := coalesce (lf_policy life) (lf_policy x),
               lf_peak_pct := coalesce (lf_peak_pct life) (lf_peak_pct x),
               lf_realized_pct := coalesce (lf_realized_pct life) (lf_realized_pct x),
               lf_bars_held := coalesce (lf_bars_held life) (lf_bars_held x),
               lf_pnl_trace := coalesce (lf_pnl_trace life) (lf_pnl_trace x),
               lf_exit_trigger := coalesce (lf_exit_trigger life) (lf_exit_trigger x),
               lf_official_exit_pct := coalesce (lf_official_exit_pct life) (lf_official_exit_pct x),
               lf_events := nonempty_or (list_or_empty (lf_events x)) (lf_events life),
               lf_outcome := coalesce (lf_outcome life) (lf_outcome x),
               lf_mark := coalesce (lf_mark life) (lf_mark x)\<rparr>)"

definition merge_desk :: "Lifecycle option \<Rightarrow> Lifecycle \<Rightarrow> Lifecycle" where
  "merge_desk existing life =
     (let prior = Option.bind existing lf_marks;
          marks = take_last 400 (list_or_empty prior @ list_or_empty (lf_marks life))
      in (fill_from existing life)\<lparr>lf_marks := nonempty_or marks prior\<rparr>)"

definition desk_row_step :: "env \<Rightarrow> bool \<times> life_state \<Rightarrow> jsobj \<Rightarrow> bool \<times> life_state" where
  "desk_row_step e acc row =
     (case acc of (changed, s) \<Rightarrow>
        (case coalesce (lifecycleFromDeskClosed e row) (lifecycleFromDeskOpen e row) of
           None \<Rightarrow> (changed, s)
         | Some life \<Rightarrow>
             (let existing = map_of (lives s) (lf_id life)
              in if (case existing of None \<Rightarrow> False
                     | Some x \<Rightarrow> lf_status x = ''closed'' \<and> lf_status life \<noteq> ''closed'')
                 then (changed, s)
                 else case storeLife (merge_desk existing life) s of
                   (stored, s') \<Rightarrow> (changed \<or> stored, s'))))"

definition gone :: "string list \<Rightarrow> string \<times> Lifecycle \<Rightarrow> bool" where
  "gone openIds entry =
     (lf_desk (snd entry) \<and> lf_status (snd entry) \<noteq> ''closed'' \<and> fst entry \<notin> set openIds)"

definition ingestDeskClosedLots :: "env \<Rightarrow> jsobj list \<Rightarrow> life_state \<Rightarrow> life_state" where
  "ingestDeskClosedLots e rows s =
     (let openIds = open_ids e rows;
          changed = list_ex (gone openIds) (lives s);
          swept = s\<lparr>lives := filter (\<lambda>entry. \<not> gone openIds entry) (lives s)\<rparr>
      in case foldl (desk_row_step e) (changed, swept) rows of
           (changed, s') \<Rightarrow> if changed then publish e s' else s')"

definition ingestDeskSnapshot :: "env \<Rightarrow> life_state \<Rightarrow> life_state" where
  "ingestDeskSnapshot e s = ingestDeskClosedLots e (positionRows (e_lc e) (e_positions e)) s"

subsection \<open>Rows for statistics\<close>

definition opt_num :: "jsnum option \<Rightarrow> jsval" where
  "opt_num x = (case x of None \<Rightarrow> JNull | Some n \<Rightarrow> JNum n)"

definition opt_text :: "string option \<Rightarrow> jsval" where
  "opt_text x = (case x of None \<Rightarrow> JNull | Some s \<Rightarrow> JStr s)"

definition closed_at_val :: "string option option \<Rightarrow> jsval" where
  "closed_at_val x = (case x of None \<Rightarrow> JUndef | Some v \<Rightarrow> opt_text v)"

definition deskRowFromClosedLife :: "Lifecycle \<Rightarrow> jsobj option" where
  "deskRowFromClosedLife life =
     (case lf_outcome life of
        None \<Rightarrow> None
      | Some outcome \<Rightarrow>
          if lf_status life \<noteq> ''closed'' then None
          else Some
            [(''id'', JStr (lf_id life)),
             (''symbol'', (case lf_symbol life of Some x \<Rightarrow> JStr x | None \<Rightarrow> JUndef)),
             (''book'', JStr (case lf_book life of Some b \<Rightarrow> b | None \<Rightarrow> ''paper'')),
             (''opened_at'', JStr (lf_opened_at life)),
             (''closed_at'', closed_at_val (lf_closed_at life)),
             (''pnl'', JNum (oc_pnl outcome)), (''pnl_pct'', JNum (oc_pnl_pct outcome)),
             (''hold_ns'', JNum (oc_hold_ns outcome)),
             (''outcome_triggers'', (case oc_triggers outcome of
                None \<Rightarrow> JNull | Some ts \<Rightarrow> JArr (map JStr ts))),
             (''exit_trigger'', opt_text (lf_exit_trigger life))])"

definition stats_step :: "jsobj list \<times> string list \<Rightarrow> Lifecycle \<Rightarrow> jsobj list \<times> string list" where
  "stats_step acc life =
     (case acc of (rows, seen) \<Rightarrow>
        if \<not> lf_desk life \<or> lf_status life \<noteq> ''closed'' \<or> lf_outcome life = None then (rows, seen)
        else if lf_id life \<in> set seen then (rows, seen)
        else case deskRowFromClosedLife life of
          None \<Rightarrow> (rows, seen)
        | Some row \<Rightarrow> (rows @ [row], lf_id life # seen))"

definition deskRowsForStats :: "env \<Rightarrow> life_state \<Rightarrow> jsobj list" where
  "deskRowsForStats e s =
     (let rows = positionRows (e_lc e) (e_positions e);
          seen = List.map_filter (\<lambda>row. nonempty_str (field row ''id'')) rows
      in fst (foldl stats_step (rows, seen) (map_values (lives s))))"

definition resetLifecycles :: "life_state \<Rightarrow> life_state" where
  "resetLifecycles s =
     s\<lparr>lives := [], historyStamp := [], snapshot := summarize [], notified := notified s + 1\<rparr>"

subsection \<open>Stored history\<close>

definition historyFrameIsNewerStamp :: "HistoryStamp \<Rightarrow> HistoryStamp \<Rightarrow> bool" where
  "historyFrameIsNewerStamp stamp prior =
     (if st_epoch stamp \<noteq> st_epoch prior then st_epoch prior < st_epoch stamp
      else if st_tick stamp \<noteq> st_tick prior then st_tick prior < st_tick stamp
      else st_timestamp prior < st_timestamp stamp)"

definition merge_history :: "Lifecycle option \<Rightarrow> Lifecycle \<Rightarrow> Lifecycle" where
  "merge_history existing life =
     (fill_from existing life)
       \<lparr>lf_marks := nonempty_or (list_or_empty (Option.bind existing lf_marks)) (lf_marks life)\<rparr>"

definition ingestHistoryClosedEntry ::
    "env \<Rightarrow> ClosedHistoryEntry \<Rightarrow> life_state \<Rightarrow> bool \<times> life_state" where
  "ingestHistoryClosedEntry e entry s =
     (case nonempty_str (field (he_row entry) ''id'') of
        None \<Rightarrow> (False, s)
      | Some ident \<Rightarrow>
          (let existing = map_of (lives s) ident
           in if (case existing of Some x \<Rightarrow> \<not> lf_history x | None \<Rightarrow> False) then (False, s)
              else if (case map_of (historyStamp s) ident of
                         Some prior \<Rightarrow> \<not> historyFrameIsNewerStamp (he_stamp entry) prior
                       | None \<Rightarrow> False) then (False, s)
              else let s = s\<lparr>historyStamp := AList.update ident (he_stamp entry) (historyStamp s)\<rparr>
                   in case lifecycleFromDeskClosed e (he_row entry) of
                        None \<Rightarrow> (False, s)
                      | Some life \<Rightarrow>
                          storeLife (merge_history existing
                            (life\<lparr>lf_history := True, lf_desk := True\<rparr>)) s))"

definition history_step :: "env \<Rightarrow> bool \<times> life_state \<Rightarrow> ClosedHistoryEntry \<Rightarrow> bool \<times> life_state" where
  "history_step e acc entry =
     (case acc of (changed, s) \<Rightarrow>
        case ingestHistoryClosedEntry e entry s of (stored, s') \<Rightarrow> (changed \<or> stored, s'))"

definition ingestHistoryClosedBatch ::
    "env \<Rightarrow> ClosedHistoryEntry list \<Rightarrow> life_state \<Rightarrow> life_state" where
  "ingestHistoryClosedBatch e entries s =
     (case foldl (history_step e) (False, s) entries of
        (changed, s') \<Rightarrow> if changed then publish e s' else s')"

definition s3_command :: "string \<Rightarrow> jsobj" where
  "s3_command path = [(''type'', JStr ''s3''), (''prefix'', JStr path)]"

definition requestClosedPositionHistory :: "life_state \<Rightarrow> life_state" where
  "requestClosedPositionHistory s =
     (if closedHistoryRequested s then s
      else s\<lparr>closedHistoryRequested := True,
             hub := foldl (\<lambda>h path. snd (trySendCommand (s3_command path) h)) (hub s)
                      [''paper/closed'', ''virtual/closed'', ''real/closed'']\<rparr>)"

definition resetClosedHistoryRequest :: "life_state \<Rightarrow> life_state" where
  "resetClosedHistoryRequest s = s\<lparr>closedHistoryRequested := False\<rparr>"

subsection \<open>Formats\<close>

definition signedMoney :: "jsnum \<Rightarrow> string" where
  "signedMoney v = (if num_le (Fin 0) v then ''+'' else []) @ to_fixed 2 v"

definition ratePercent :: "jsnum option \<Rightarrow> string" where
  "ratePercent v = (case v of None \<Rightarrow> em_dash | Some r \<Rightarrow> to_fixed 1 (num_mul (Fin 100) r) @ ''%'')"

definition seconds :: "jsnum \<Rightarrow> string" where
  "seconds nanoseconds =
     (let s = num_div nanoseconds (Fin 1000000000)
      in if num_lt s (Fin 120) then to_fixed 1 s @ ''s''
         else if num_lt s (Fin 7200) then to_fixed 1 (num_div s (Fin 60)) @ ''m''
         else to_fixed 2 (num_div s (Fin 3600)) @ ''h'')"

subsection \<open>Runs of the store\<close>

datatype life_op =
    Frame jsval
  | DeskLots "jsobj list"
  | History "ClosedHistoryEntry list"
  | RequestHistory
  | ResetRequest
  | Reset
  | BindHub bool

fun apply_op :: "env \<Rightarrow> life_op \<Rightarrow> life_state \<Rightarrow> life_state" where
  "apply_op e (Frame frame) s = ingestPositionFrame e frame s"
| "apply_op e (DeskLots rows) s = ingestDeskClosedLots e rows s"
| "apply_op e (History entries) s = ingestHistoryClosedBatch e entries s"
| "apply_op e RequestHistory s = requestClosedPositionHistory s"
| "apply_op e ResetRequest s = resetClosedHistoryRequest s"
| "apply_op e Reset s = resetLifecycles s"
| "apply_op e (BindHub b) s = s\<lparr>hub := bindHubWorker b (hub s)\<rparr>"

text \<open>The page's surroundings may change between operations, its collation may not.\<close>

inductive life_reach :: "(string \<Rightarrow> string \<Rightarrow> int) \<Rightarrow> life_state \<Rightarrow> bool" for lc where
  start: "life_reach lc life_start"
| op: "life_reach lc s \<Longrightarrow> e_lc e = lc \<Longrightarrow> life_reach lc (apply_op e x s)"

subsection \<open>Invariant\<close>

definition settled_count :: "bool \<Rightarrow> (string \<times> Lifecycle) list \<Rightarrow> nat" where
  "settled_count h ls = length (filter (\<lambda>(_, life). lf_history life = h \<and> settled life) ls)"

definition keyed_lives :: "(string \<times> Lifecycle) list \<Rightarrow> bool" where
  "keyed_lives ls \<longleftrightarrow> distinct (map fst ls) \<and> list_all (\<lambda>(k, life). lf_id life = k) ls"

definition store_ok :: "life_state \<Rightarrow> bool" where
  "store_ok s \<longleftrightarrow> keyed_lives (lives s) \<and>
     settled_count False (lives s) \<le> SESSION_LIFECYCLE_LIMIT \<and>
     settled_count True (lives s) \<le> HISTORY_LIFECYCLE_CAP"

definition coherent :: "(string \<Rightarrow> string \<Rightarrow> int) \<Rightarrow> life_state \<Rightarrow> bool" where
  "coherent lc s \<longleftrightarrow> snapshot s = summarize (newest_first lc (map_values (lives s)))"

lemma settled_le_kind: "settled_count h ls \<le> kind_count h ls"
  unfolding settled_count_def kind_count_def
  by (induction ls) (auto split: prod.splits)

lemma length_filter_filter_le: "length (filter P (filter Q xs)) \<le> length (filter P xs)"
  by (induction xs) auto

lemma settled_count_filter: "settled_count h (filter P ls) \<le> settled_count h ls"
  by (simp add: settled_count_def length_filter_filter_le del: filter_filter)

lemma settled_count_del: "settled_count h (map_del k ls) \<le> settled_count h ls"
  by (simp add: map_del_def settled_count_filter)

lemma keyed_filter: "keyed_lives ls \<Longrightarrow> keyed_lives (filter P ls)"
  by (auto simp: keyed_lives_def list_all_iff distinct_map_filter)

lemma keyed_del: "keyed_lives ls \<Longrightarrow> keyed_lives (map_del k ls)"
  by (simp add: map_del_def keyed_filter)

lemma evict_while_invariant:
  assumes "P (fst maps)" and "\<And>k ls. P ls \<Longrightarrow> P (map_del k ls)"
  shows "P (fst (evict_while h cap maps))"
  using assms(1)
proof (induction h cap maps rule: evict_while.induct)
  case (1 h cap maps)
  show ?case
  proof (cases "if cap < kind_count h (fst maps) then evictClosed h maps else None")
    case None
    then have "evict_while h cap maps = maps"
      by (subst evict_while.simps) (auto split: if_splits)
    with 1 show ?thesis by simp
  next
    case (Some maps')
    then have c: "cap < kind_count h (fst maps)" "evictClosed h maps = Some maps'"
      by (auto split: if_splits)
    then have "evict_while h cap maps = evict_while h cap maps'"
      by (subst evict_while.simps) simp
    moreover from c(2) have "P (fst maps')"
      by (rule evictClosed_Some) (simp add: 1(2) assms(2))
    ultimately show ?thesis using 1(1) [OF c] by simp
  qed
qed

lemma evict_while_keeps:
  "keyed_lives (fst maps) \<Longrightarrow> keyed_lives (fst (evict_while h cap maps))"
  by (rule evict_while_invariant) (simp_all add: keyed_del)

lemma evict_while_count:
  "settled_count k (fst (evict_while h cap maps)) \<le> settled_count k (fst maps)"
  by (rule evict_while_invariant) (auto intro: order_trans [OF settled_count_del])

lemma evictClosed_None: "evictClosed h maps = None \<Longrightarrow> settled_count h (fst maps) = 0"
  by (auto simp: evictClosed_def find_None_iff settled_count_def filter_empty_conv)

lemma evict_while_cap: "settled_count h (fst (evict_while h cap maps)) \<le> cap"
proof (induction h cap maps rule: evict_while.induct)
  case (1 h cap maps)
  show ?case
  proof (cases "cap < kind_count h (fst maps)")
    case True
    then show ?thesis
      using 1 evictClosed_None [of h maps]
      by (subst evict_while.simps) (auto split: option.split)
  next
    case False
    then show ?thesis
      using settled_le_kind [of h "fst maps"] by (subst evict_while.simps) simp
  qed
qed

lemma storeLife_unchanged: "storeLife life s = (False, s') \<Longrightarrow> s' = s"
  by (auto simp: storeLife_def Let_def split: if_splits)

lemma storeLife_snapshot [simp]: "snapshot (snd (storeLife life s)) = snapshot s"
  by (simp add: storeLife_def Let_def)

lemma keyed_place: "keyed_lives ls \<Longrightarrow> keyed_lives (map_del (lf_id life) ls @ [(lf_id life, life)])"
  using keyed_del [of ls "lf_id life"] by (auto simp: keyed_lives_def map_del_def)

lemma store_ok_storeLife:
  assumes "store_ok s"
  shows "store_ok (snd (storeLife life s))"
proof (cases "fst (storeLife life s)")
  case False
  then show ?thesis using storeLife_unchanged [of life s] assms by (cases "storeLife life s") auto
next
  case True
  let ?placed = "map_del (lf_id life) (lives s) @ [(lf_id life, life)]"
  let ?cap = "if lf_history life then HISTORY_LIFECYCLE_CAP else SESSION_LIFECYCLE_LIMIT"
  let ?maps = "evict_while (lf_history life) ?cap (?placed, historyStamp s)"
  have lives': "lives (snd (storeLife life s)) = fst ?maps"
    using True by (auto simp: storeLife_def Let_def map_move_last split: if_splits)
  have "keyed_lives (fst ?maps)"
    using assms by (intro evict_while_keeps) (simp add: store_ok_def keyed_place)
  moreover have "settled_count (lf_history life) (fst ?maps) \<le> ?cap" by (rule evict_while_cap)
  moreover have "settled_count (\<not> lf_history life) (fst ?maps) \<le>
      settled_count (\<not> lf_history life) (lives s)"
  proof -
    have "settled_count (\<not> lf_history life) (fst ?maps) \<le> settled_count (\<not> lf_history life) ?placed"
      using evict_while_count [of _ _ _ "(?placed, historyStamp s)"] by simp
    also have "\<dots> = settled_count (\<not> lf_history life) (map_del (lf_id life) (lives s))"
      by (simp add: settled_count_def)
    also have "\<dots> \<le> settled_count (\<not> lf_history life) (lives s)" by (rule settled_count_del)
    finally show ?thesis .
  qed
  ultimately show ?thesis
    using assms by (cases "lf_history life") (auto simp: store_ok_def lives')
qed

text \<open>The loop state of the two batch operations: unpublished changes are flagged.\<close>

definition batch_ok :: "(string \<Rightarrow> string \<Rightarrow> int) \<Rightarrow> bool \<times> life_state \<Rightarrow> bool" where
  "batch_ok lc acc \<longleftrightarrow> store_ok (snd acc) \<and> (fst acc \<or> coherent lc (snd acc))"

lemma coherent_publish [simp]: "coherent (e_lc e) (publish e s)"
  by (simp add: coherent_def publish_def)

lemma store_ok_publish [simp]: "store_ok (publish e s) = store_ok s"
  by (simp add: store_ok_def publish_def)

lemma batch_ok_store:
  assumes "batch_ok lc (changed, s)" "storeLife life s = (stored, s')"
  shows "batch_ok lc (changed \<or> stored, s')"
proof (cases stored)
  case True
  then show ?thesis using assms store_ok_storeLife [of s life] by (simp add: batch_ok_def)
next
  case False
  then show ?thesis using assms storeLife_unchanged [of life s s'] by simp
qed

lemma batch_ok_publish:
  assumes "batch_ok (e_lc e) acc"
  shows "store_ok (case acc of (changed, s) \<Rightarrow> if changed then publish e s else s) \<and>
    coherent (e_lc e) (case acc of (changed, s) \<Rightarrow> if changed then publish e s else s)"
  using assms by (auto simp: batch_ok_def split: prod.splits)

lemma remember_ok:
  assumes "store_ok s" "coherent (e_lc e) s"
  shows "store_ok (remember e life s) \<and> coherent (e_lc e) (remember e life s)"
proof (cases "storeLife life s")
  case (Pair stored s')
  from batch_ok_publish [OF batch_ok_store [OF _ Pair, of "e_lc e" False]] assms Pair
  show ?thesis by (simp add: remember_def batch_ok_def)
qed

lemma frame_ok:
  assumes "store_ok s" "coherent (e_lc e) s"
  shows "store_ok (ingestPositionFrame e frame s) \<and> coherent (e_lc e) (ingestPositionFrame e frame s)"
  using assms remember_ok by (auto simp: ingestPositionFrame_def Let_def split: option.splits)

lemma desk_row_step_ok: "batch_ok lc acc \<Longrightarrow> batch_ok lc (desk_row_step e acc row)"
  by (cases acc)
    (auto simp: desk_row_step_def Let_def split: option.split prod.split intro: batch_ok_store)

lemma desk_lots_ok:
  assumes "store_ok s" "coherent (e_lc e) s"
  shows "store_ok (ingestDeskClosedLots e rows s) \<and> coherent (e_lc e) (ingestDeskClosedLots e rows s)"
proof -
  let ?ids = "open_ids e rows"
  let ?swept = "s\<lparr>lives := filter (\<lambda>entry. \<not> gone ?ids entry) (lives s)\<rparr>"
  have "store_ok ?swept"
    using assms(1) settled_count_filter [of _ "\<lambda>entry. \<not> gone ?ids entry" "lives s"]
    by (auto simp: store_ok_def keyed_filter intro: order_trans)
  moreover have "coherent (e_lc e) ?swept" if "\<not> list_ex (gone ?ids) (lives s)"
  proof -
    have "filter (\<lambda>entry. \<not> gone ?ids entry) (lives s) = lives s"
      using that by (simp add: list_ex_iff filter_id_conv)
    with assms(2) show ?thesis by (simp add: coherent_def)
  qed
  ultimately have "batch_ok (e_lc e) (list_ex (gone ?ids) (lives s), ?swept)"
    by (auto simp: batch_ok_def)
  then have "batch_ok (e_lc e) (foldl (desk_row_step e) (list_ex (gone ?ids) (lives s), ?swept) rows)"
    by (rule foldl_invariant) (rule desk_row_step_ok)
  from batch_ok_publish [OF this] show ?thesis by (simp add: ingestDeskClosedLots_def Let_def)
qed

lemma batch_ok_stamps:
  "batch_ok lc (c, s\<lparr>historyStamp := h\<rparr>) = batch_ok lc (c, s)"
  by (simp add: batch_ok_def store_ok_def coherent_def)

lemma history_entry_cases:
  assumes "ingestHistoryClosedEntry e entry s = (stored, s')"
  obtains (skip) "\<not> stored" "s' = s"
  | (stamp) h where "\<not> stored" "s' = s\<lparr>historyStamp := h\<rparr>"
  | (store) h life where "storeLife life (s\<lparr>historyStamp := h\<rparr>) = (stored, s')"
proof (cases "nonempty_str (field (he_row entry) ''id'')")
  case None
  with assms skip show ?thesis by (simp add: ingestHistoryClosedEntry_def)
next
  case (Some ident)
  let ?held = "case map_of (lives s) ident of Some x \<Rightarrow> \<not> lf_history x | None \<Rightarrow> False"
  let ?old = "case map_of (historyStamp s) ident of
      Some prior \<Rightarrow> \<not> historyFrameIsNewerStamp (he_stamp entry) prior | None \<Rightarrow> False"
  show ?thesis
  proof (cases "?held \<or> ?old")
    case True
    then have "ingestHistoryClosedEntry e entry s = (False, s)"
      unfolding ingestHistoryClosedEntry_def Some option.case Let_def by (cases ?held) simp_all
    with assms skip show ?thesis by simp
  next
    case False
    then show ?thesis
      using assms stamp [OF _ sym] store
      unfolding ingestHistoryClosedEntry_def Some option.case Let_def
      by (cases "lifecycleFromDeskClosed e (he_row entry)") auto
  qed
qed

lemma history_step_ok: "batch_ok lc acc \<Longrightarrow> batch_ok lc (history_step e acc entry)"
proof -
  assume ok: "batch_ok lc acc"
  obtain changed s where acc: "acc = (changed, s)" by (cases acc)
  obtain stored s' where eq: "ingestHistoryClosedEntry e entry s = (stored, s')"
    by (cases "ingestHistoryClosedEntry e entry s")
  from eq have "batch_ok lc (changed \<or> stored, s')"
  proof (cases rule: history_entry_cases)
    case (store h life)
    with ok acc show ?thesis using batch_ok_store batch_ok_stamps by blast
  qed (use ok acc in \<open>simp_all add: batch_ok_stamps\<close>)
  with acc eq show ?thesis by (simp add: history_step_def)
qed

lemma history_ok:
  assumes "store_ok s" "coherent (e_lc e) s"
  shows "store_ok (ingestHistoryClosedBatch e entries s) \<and>
    coherent (e_lc e) (ingestHistoryClosedBatch e entries s)"
proof -
  have "batch_ok (e_lc e) (False, s)" using assms by (simp add: batch_ok_def)
  then have "batch_ok (e_lc e) (foldl (history_step e) (False, s) entries)"
    by (rule foldl_invariant) (rule history_step_ok)
  from batch_ok_publish [OF this] show ?thesis by (simp add: ingestHistoryClosedBatch_def)
qed

lemma empty_ok: "settled_count h [] = 0" "keyed_lives []"
  by (simp_all add: settled_count_def keyed_lives_def)

lemma newest_first_Nil [simp]: "newest_first lc [] = []"
  by (simp add: newest_first_def sort_by_def)

lemma apply_op_ok:
  assumes "store_ok s" "coherent (e_lc e) s"
  shows "store_ok (apply_op e x s) \<and> coherent (e_lc e) (apply_op e x s)"
proof (cases x)
  case (Frame f) then show ?thesis using frame_ok [OF assms] by simp
next
  case (DeskLots r) then show ?thesis using desk_lots_ok [OF assms] by simp
next
  case (History h) then show ?thesis using history_ok [OF assms] by simp
qed (use assms in \<open>auto simp: requestClosedPositionHistory_def resetClosedHistoryRequest_def
      resetLifecycles_def store_ok_def coherent_def empty_ok map_values_def\<close>)

text \<open>
  C4. In every reachable state the published report is the summary of exactly the round trips
  held, newest first; every round trip is filed under its own id; and at most 200 settled session
  trips and 10000 settled history trips are kept.
\<close>

theorem lifecycle_store_invariant:
  assumes "life_reach lc s"
  shows "snapshot s = summarize (newest_first lc (map_values (lives s))) \<and>
    distinct (map fst (lives s)) \<and> (\<forall>(k, life) \<in> set (lives s). lf_id life = k) \<and>
    settled_count False (lives s) \<le> 200 \<and> settled_count True (lives s) \<le> 10000"
proof -
  have "store_ok s \<and> coherent lc s"
    using assms
  proof induction
    case start
    then show ?case
      by (simp add: life_start_def store_ok_def coherent_def empty_ok map_values_def)
  next
    case (op s e x)
    then show ?case using apply_op_ok [of s e x] by simp
  qed
  then show ?thesis
    by (auto simp: store_ok_def coherent_def keyed_lives_def list_all_iff
        SESSION_LIFECYCLE_LIMIT_def HISTORY_LIFECYCLE_CAP_def)
qed

definition demo_env :: env where
  "demo_env = \<lparr>e_dp = (\<lambda>_. Some 0), e_lc = code_unit_compare, e_now = ''now'', e_positions = [],
     e_book = Paper\<rparr>"

theorem lifecycle_store_invariant_witness:
  "let s = apply_op demo_env (DeskLots [[(''id'', JStr ''a''), (''opened_at'', JStr ''t'')]]) life_start
   in snapshot s = summarize (newest_first code_unit_compare (map_values (lives s)))"
proof -
  have "life_reach code_unit_compare (apply_op demo_env x life_start)" for x
    by (rule op [OF start]) (simp add: demo_env_def)
  from lifecycle_store_invariant [OF this] show ?thesis by (simp add: Let_def del: apply_op.simps)
qed

subsection \<open>Performance\<close>

lemma length_map_filter_le: "length (List.map_filter f xs) \<le> length xs"
  by (simp add: List.map_filter_def)

lemma settled_or_open:
  "length (List.map_filter settled_pnl all) +
     length (filter (\<lambda>life. lf_status life \<noteq> ''closed'' \<and> lf_status life \<noteq> ''abandoned'') all)
   \<le> length all"
  by (induction all) (auto simp: map_filter_Cons List.map_filter_def settled_pnl_def)

text \<open>
  The performance figures are consistent: no more wins than settled trips, no trip counted as
  both settled and open, and a win rate, when there is one, between 0 and 1.
\<close>

theorem performance_consistent:
  assumes "length all < 2 ^ 32"
  shows "let p = rp_performance (summarize all)
    in pf_wins p \<le> pf_closed p \<and> pf_closed p + rp_open_count (summarize all) \<le> length all \<and>
       (pf_win_rate p = None) = (pf_closed p = 0) \<and> pred_option (num_in 0 1) (pf_win_rate p)"
proof -
  let ?r = "List.map_filter settled_pnl all"
  let ?w = "length (filter (num_lt (Fin 0)) ?r)"
  have le: "?w \<le> length ?r" by simp
  have small: "length ?r \<le> 2 ^ 53" using assms length_map_filter_le [of settled_pnl all] by simp
  have "num_of_nat ?w = Fin (of_nat ?w)" "num_of_nat (length ?r) = Fin (of_nat (length ?r))"
    unfolding num_of_nat_def using fl_of_nat [OF order_trans [OF le small]] fl_of_nat [OF small] .
  then have "num_in 0 1 (num_div (num_of_nat ?w) (num_of_nat (length ?r)))" if "0 < length ?r"
    using that b64.rnd_ratio [OF le that] by (auto simp: num_in_iff)
  then show ?thesis
    using le settled_or_open [of all] by (auto simp: summarize_def Let_def)
qed

theorem performance_consistent_witness:
  "pred_option (num_in 0 1) (pf_win_rate (rp_performance (summarize [bare_life ''a'' None ''closed'' ''t''])))"
  using performance_consistent [of "[bare_life ''a'' None ''closed'' ''t'']"] by (simp add: Let_def)

subsection \<open>Closes and history\<close>

lemma evict_while_idle: "kind_count h (fst maps) \<le> cap \<Longrightarrow> evict_while h cap maps = maps"
  by (subst evict_while.simps) simp

lemma kind_count_le: "kind_count h ls \<le> length ls"
  by (simp add: kind_count_def)

lemma length_place: "length (map_del k ls @ [(k, v)]) \<le> Suc (length ls)"
  by (simp add: map_del_def)

lemma map_of_place: "map_of (map_del k ls @ [(k, v)]) = (map_of ls)(k \<mapsto> v)"
  by (simp add: map_move_last [symmetric] js_map.get_put js_map.get_del fun_eq_iff)

text \<open>A store with room left only adds or replaces the one entry.\<close>

lemma storeLife_room:
  assumes "length (lives s) < (if lf_history life then HISTORY_LIFECYCLE_CAP else SESSION_LIFECYCLE_LIMIT)"
    and "storeLife life s = (stored, s')"
  shows "length (lives s') \<le> Suc (length (lives s))" "historyStamp s' = historyStamp s"
    "map_of (lives s') = (if stored then (map_of (lives s))(lf_id life \<mapsto> life) else map_of (lives s))"
proof -
  let ?placed = "map_del (lf_id life) (lives s) @ [(lf_id life, life)]"
  have "kind_count h ?placed \<le> Suc (length (lives s))" for h
    using kind_count_le [of h ?placed] length_place [of "lf_id life" "lives s" life] by linarith
  then have "evict_while (lf_history life)
      (if lf_history life then HISTORY_LIFECYCLE_CAP else SESSION_LIFECYCLE_LIMIT)
      (?placed, historyStamp s) = (?placed, historyStamp s)"
    using assms(1) by (intro evict_while_idle) (fastforce intro: order_trans)
  then have "s' = (if stored then s\<lparr>lives := ?placed\<rparr> else s)"
    using assms(2) by (auto simp: storeLife_def Let_def map_move_last split: if_splits)
  then show "length (lives s') \<le> Suc (length (lives s))" "historyStamp s' = historyStamp s"
    "map_of (lives s') = (if stored then (map_of (lives s))(lf_id life \<mapsto> life) else map_of (lives s))"
    using length_place [of "lf_id life" "lives s" life] by (auto simp: map_of_place simp del: length_append map_of_append)
qed

lemma fill_from_keeps [simp]:
  "lf_id (fill_from x l) = lf_id l" "lf_status (fill_from x l) = lf_status l"
  "lf_history (fill_from x l) = lf_history l" "lf_closed_at (fill_from x l) = lf_closed_at l"
  by (simp_all add: fill_from_def split: option.split)

lemma merge_desk_keeps [simp]:
  "lf_id (merge_desk x l) = lf_id l" "lf_status (merge_desk x l) = lf_status l"
  "lf_history (merge_desk x l) = lf_history l"
  by (simp_all add: merge_desk_def Let_def)

lemma merge_history_keeps [simp]:
  "lf_id (merge_history x l) = lf_id l" "lf_status (merge_history x l) = lf_status l"
  "lf_history (merge_history x l) = lf_history l"
  by (simp_all add: merge_history_def)

text \<open>One desk row on a store with room.\<close>

definition closed_in :: "life_state \<Rightarrow> string \<Rightarrow> bool" where
  "closed_in s ident \<longleftrightarrow> (\<exists>l. map_of (lives s) ident = Some l \<and> lf_status l = ''closed'')"

lemma desk_row_life:
  "coalesce (lifecycleFromDeskClosed e row) (lifecycleFromDeskOpen e row) = Some life \<Longrightarrow>
     \<not> lf_history life"
  using closed_life_facts(4) [of e row life] open_life_facts(4) [of e row life]
  by (cases "lifecycleFromDeskClosed e row") auto

lemma desk_row_step_close:
  assumes "length (lives s) < SESSION_LIFECYCLE_LIMIT" "closed_in s ident"
    and "desk_row_step e (changed, s) row = (changed', s')"
  shows "length (lives s') \<le> Suc (length (lives s)) \<and> closed_in s' ident"
proof (cases "coalesce (lifecycleFromDeskClosed e row) (lifecycleFromDeskOpen e row)")
  case None
  with assms show ?thesis by (simp add: desk_row_step_def)
next
  case (Some life)
  let ?x = "map_of (lives s) (lf_id life)"
  let ?skip = "case ?x of None \<Rightarrow> False | Some x \<Rightarrow> lf_status x = ''closed'' \<and> lf_status life \<noteq> ''closed''"
  obtain stored s2 where st: "storeLife (merge_desk ?x life) s = (stored, s2)"
    by (cases "storeLife (merge_desk ?x life) s")
  show ?thesis
  proof (cases ?skip)
    case True
    then have "s' = s" using assms(3) Some by (simp add: desk_row_step_def Let_def)
    with assms(2) show ?thesis by simp
  next
    case False
    then have "s' = s2" using assms(3) Some st by (simp add: desk_row_step_def Let_def)
    moreover have room: "length (lives s) <
        (if lf_history (merge_desk ?x life) then HISTORY_LIFECYCLE_CAP else SESSION_LIFECYCLE_LIMIT)"
      using assms(1) desk_row_life [OF Some] by simp
    ultimately show ?thesis
      using storeLife_room [OF room st] assms(2) False
      by (auto simp: closed_in_def split: if_splits)
  qed
qed

lemma desk_rows_close:
  "length (lives s) + length rows \<le> SESSION_LIFECYCLE_LIMIT \<Longrightarrow> closed_in s ident \<Longrightarrow>
     closed_in (snd (foldl (desk_row_step e) (changed, s) rows)) ident"
proof (induction rows arbitrary: changed s)
  case (Cons row rows)
  obtain changed' s' where step: "desk_row_step e (changed, s) row = (changed', s')"
    by (cases "desk_row_step e (changed, s) row")
  from desk_row_step_close [OF _ Cons.prems(2) step] Cons.prems(1)
  have "length (lives s') \<le> Suc (length (lives s)) \<and> closed_in s' ident" by simp
  then show ?case using Cons.IH [of s' changed'] Cons.prems(1) step by simp
qed simp

lemma closed_in_publish [simp]: "closed_in (publish e s) ident = closed_in s ident"
  by (simp add: closed_in_def publish_def)

lemma map_of_filter_keep:
  "distinct (map fst m) \<Longrightarrow> map_of m k = Some v \<Longrightarrow> P (k, v) \<Longrightarrow> map_of (filter P m) k = Some v"
  by (induction m) (auto simp: rev_image_eqI split: if_splits dest: map_of_SomeD)



text \<open>The stamp order is linear; an entry is absorbed when delivering it changes nothing.\<close>

lemma newer_linear:
  "\<not> historyFrameIsNewerStamp a p \<Longrightarrow> historyFrameIsNewerStamp b p \<Longrightarrow>
     \<not> historyFrameIsNewerStamp a b"
  by (auto simp: historyFrameIsNewerStamp_def split: if_splits)

lemma newer_irrefl [simp]: "\<not> historyFrameIsNewerStamp a a"
  by (simp add: historyFrameIsNewerStamp_def)

definition session_held :: "life_state \<Rightarrow> string \<Rightarrow> bool" where
  "session_held s ident \<longleftrightarrow> (\<exists>x. map_of (lives s) ident = Some x \<and> \<not> lf_history x)"

definition absorbed :: "ClosedHistoryEntry \<Rightarrow> life_state \<Rightarrow> bool" where
  "absorbed entry s \<longleftrightarrow>
     (case nonempty_str (field (he_row entry) ''id'') of
        None \<Rightarrow> True
      | Some ident \<Rightarrow> session_held s ident \<or>
          (\<exists>p. map_of (historyStamp s) ident = Some p \<and> \<not> historyFrameIsNewerStamp (he_stamp entry) p))"

lemma absorbed_noop: "absorbed entry s \<Longrightarrow> ingestHistoryClosedEntry e entry s = (False, s)"
  by (auto simp: absorbed_def session_held_def ingestHistoryClosedEntry_def Let_def split: option.splits)

lemma fresh_entry:
  assumes "\<not> absorbed entry s"
  obtains ident where "nonempty_str (field (he_row entry) ''id'') = Some ident"
    "\<not> session_held s ident"
    "\<forall>p. map_of (historyStamp s) ident = Some p \<longrightarrow> historyFrameIsNewerStamp (he_stamp entry) p"
  using assms by (auto simp: absorbed_def split: option.splits)

lemma fresh_result:
  assumes "nonempty_str (field (he_row entry) ''id'') = Some ident" "\<not> session_held s ident"
    and "\<forall>p. map_of (historyStamp s) ident = Some p \<longrightarrow> historyFrameIsNewerStamp (he_stamp entry) p"
  shows "ingestHistoryClosedEntry e entry s =
    (let s = s\<lparr>historyStamp := AList.update ident (he_stamp entry) (historyStamp s)\<rparr>
     in case lifecycleFromDeskClosed e (he_row entry) of
          None \<Rightarrow> (False, s)
        | Some life \<Rightarrow> storeLife (merge_history (map_of (lives s) ident)
            (life\<lparr>lf_history := True, lf_desk := True\<rparr>)) s)"
proof -
  have "\<not> (case map_of (lives s) ident of Some x \<Rightarrow> \<not> lf_history x | None \<Rightarrow> False)"
    using assms(2) by (auto simp: session_held_def split: option.splits)
  moreover have "\<not> (case map_of (historyStamp s) ident of
      Some prior \<Rightarrow> \<not> historyFrameIsNewerStamp (he_stamp entry) prior | None \<Rightarrow> False)"
    using assms(3) by (auto split: option.splits)
  ultimately show ?thesis
    unfolding ingestHistoryClosedEntry_def assms(1) option.case Let_def
    by (simp split: option.split)
qed

text \<open>What one delivery leaves behind, in a store with room.\<close>

lemma history_entry_effect:
  assumes "length (lives s) < HISTORY_LIFECYCLE_CAP" "\<not> absorbed entry s"
    and "ingestHistoryClosedEntry e entry s = (stored, s')"
  obtains ident where "nonempty_str (field (he_row entry) ''id'') = Some ident"
    "map_of (historyStamp s') = (map_of (historyStamp s))(ident \<mapsto> he_stamp entry)"
    "\<forall>p. map_of (historyStamp s) ident = Some p \<longrightarrow> historyFrameIsNewerStamp (he_stamp entry) p"
    "session_held s' = session_held s" "length (lives s') \<le> Suc (length (lives s))"
proof -
  from fresh_entry [OF assms(2)] obtain ident where
    i: "nonempty_str (field (he_row entry) ''id'') = Some ident" "\<not> session_held s ident"
    and newer: "\<forall>p. map_of (historyStamp s) ident = Some p \<longrightarrow> historyFrameIsNewerStamp (he_stamp entry) p"
    by blast
  let ?s1 = "s\<lparr>historyStamp := AList.update ident (he_stamp entry) (historyStamp s)\<rparr>"
  note res = fresh_result [OF i newer, of e, unfolded assms(3) Let_def]
  show ?thesis
  proof (cases "lifecycleFromDeskClosed e (he_row entry)")
    case None
    then show ?thesis
      using res i newer by (intro that [of ident]) (auto simp: update_conv' session_held_def fun_eq_iff)
  next
    case (Some life)
    let ?m = "merge_history (map_of (lives ?s1) ident) (life\<lparr>lf_history := True, lf_desk := True\<rparr>)"
    have ident: "lf_id life = ident" using closed_life_facts(6) [OF Some] i(1) by simp
    have st: "storeLife ?m ?s1 = (stored, s')" using res Some by simp
    have room: "length (lives ?s1) <
        (if lf_history ?m then HISTORY_LIFECYCLE_CAP else SESSION_LIFECYCLE_LIMIT)"
      using assms(1) by simp
    from storeLife_room [OF room st] show ?thesis
      using i newer
      by (intro that [of ident]) (auto simp: update_conv' session_held_def fun_eq_iff ident)
  qed
qed

lemma absorbed_keeps:
  assumes "length (lives s) < HISTORY_LIFECYCLE_CAP" "absorbed x s"
  shows "absorbed x (snd (ingestHistoryClosedEntry e entry s))"
proof (cases "absorbed entry s")
  case True
  then show ?thesis using assms(2) by (simp add: absorbed_noop)
next
  case False
  obtain stored s' where eq: "ingestHistoryClosedEntry e entry s = (stored, s')"
    by (cases "ingestHistoryClosedEntry e entry s")
  show ?thesis
  proof (rule history_entry_effect [OF assms(1) False eq])
    fix ident
    assume st: "map_of (historyStamp s') = (map_of (historyStamp s))(ident \<mapsto> he_stamp entry)"
      and newer: "\<forall>p. map_of (historyStamp s) ident = Some p \<longrightarrow> historyFrameIsNewerStamp (he_stamp entry) p"
      and held: "session_held s' = session_held s"
    have "absorbed x s'"
    proof (cases "nonempty_str (field (he_row x) ''id'')")
      case (Some i)
      with assms(2) have "session_held s i \<or>
          (\<exists>p. map_of (historyStamp s) i = Some p \<and> \<not> historyFrameIsNewerStamp (he_stamp x) p)"
        by (simp add: absorbed_def)
      then have "session_held s i \<or> (\<exists>p. map_of (historyStamp s') i = Some p \<and>
          \<not> historyFrameIsNewerStamp (he_stamp x) p)"
        using newer newer_linear unfolding st by (metis fun_upd_apply)
      with Some show ?thesis by (simp add: absorbed_def held)
    qed (simp add: absorbed_def)
    then show ?thesis by (simp add: eq)
  qed
qed

lemma absorbed_after:
  assumes "length (lives s) < HISTORY_LIFECYCLE_CAP"
  shows "absorbed entry (snd (ingestHistoryClosedEntry e entry s)) \<and>
    length (lives (snd (ingestHistoryClosedEntry e entry s))) \<le> Suc (length (lives s))"
proof (cases "absorbed entry s")
  case True
  then show ?thesis by (simp add: absorbed_noop)
next
  case False
  obtain stored s' where eq: "ingestHistoryClosedEntry e entry s = (stored, s')"
    by (cases "ingestHistoryClosedEntry e entry s")
  show ?thesis
  proof (rule history_entry_effect [OF assms False eq])
    fix ident
    assume "nonempty_str (field (he_row entry) ''id'') = Some ident"
      and "map_of (historyStamp s') = (map_of (historyStamp s))(ident \<mapsto> he_stamp entry)"
      and "length (lives s') \<le> Suc (length (lives s))"
    then show ?thesis by (simp add: eq absorbed_def)
  qed
qed

lemma history_step_pair:
  "history_step e (changed, s) entry =
     (changed \<or> fst (ingestHistoryClosedEntry e entry s), snd (ingestHistoryClosedEntry e entry s))"
  by (simp add: history_step_def split: prod.split)

lemma history_fold_absorbs:
  "length (lives s) + length entries \<le> HISTORY_LIFECYCLE_CAP \<Longrightarrow> \<forall>x \<in> handled. absorbed x s \<Longrightarrow>
     \<forall>x \<in> handled \<union> set entries. absorbed x (snd (foldl (history_step e) (changed, s) entries))"
proof (induction entries arbitrary: handled changed s)
  case (Cons entry entries)
  let ?s' = "snd (ingestHistoryClosedEntry e entry s)"
  have room: "length (lives s) < HISTORY_LIFECYCLE_CAP" using Cons.prems(1) by simp
  have "\<forall>x \<in> insert entry handled. absorbed x ?s'"
    using Cons.prems(2) absorbed_keeps [OF room] absorbed_after [OF room] by blast
  moreover have "length (lives ?s') + length entries \<le> HISTORY_LIFECYCLE_CAP"
    using absorbed_after [OF room, of entry e] Cons.prems(1) by simp
  ultimately show ?case
    using Cons.IH [of ?s' "insert entry handled" "changed \<or> fst (ingestHistoryClosedEntry e entry s)"]
    by (simp add: history_step_pair)
qed simp

lemma absorbed_publish [simp]: "absorbed x (publish e s) = absorbed x s"
  by (simp add: absorbed_def session_held_def publish_def split: option.split)

lemma replay_fold_noop:
  "\<forall>x \<in> set entries. absorbed x s \<Longrightarrow> foldl (history_step e) (changed, s) entries = (changed, s)"
  by (induction entries) (auto simp: history_step_def absorbed_noop)



end
