(* ===== verification/ValueFrame.thy ===== *)
theory ValueFrame
  imports JsValue "HOL-Library.Word"
begin

text \<open>
  Workspace frames (\<^verbatim>\<open>types/value.ts\<close>) and the decoding of their layers
  (\<^verbatim>\<open>lib/json-bytes.ts\<close>). A layer is a byte array; \<open>parse\<close> is \<^verbatim>\<open>JSON.parse\<close> of its
  UTF-8 text, \<^term>\<open>None\<close> when that raises. The decoder remembers results per byte-array
  object, so arrays are addresses in a store of immutable contents there; it is shown
  transparent, and the frame operations then decode by contents. The per-frame cache of
  \<^verbatim>\<open>readings\<close> only avoids recomputation and is left out. A layer slot can be
  \<^verbatim>\<open>undefined\<close> when a frame has fewer layers than indexes.
\<close>

type_synonym bytes = "8 word list"

subsection \<open>Remembered results\<close>

text \<open>What a client of a remembering function relies on.\<close>

locale memo =
  fixes run :: "'k \<Rightarrow> 'c \<Rightarrow> 'r \<times> 'c"
    and spec :: "'k \<Rightarrow> 'r"
    and ok :: "'c \<Rightarrow> bool"
  assumes run_spec: "ok c \<Longrightarrow> fst (run k c) = spec k"
    and run_ok: "ok c \<Longrightarrow> ok (snd (run k c))"
begin

fun run_all :: "'k list \<Rightarrow> 'c \<Rightarrow> 'r list \<times> 'c" where
  "run_all [] c = ([], c)"
| "run_all (k # ks) c =
     (let r = run k c; rs = run_all ks (snd r) in (fst r # fst rs, snd rs))"

lemma run_all_spec: "ok c \<Longrightarrow> fst (run_all ks c) = map spec ks \<and> ok (snd (run_all ks c))"
  by (induction ks arbitrary: c) (simp_all add: Let_def run_spec run_ok)

end

record decode_cache =
  decoded :: "(nat \<times> jsval) list"
  invalid :: "nat list"

definition decodeJsonBytes ::
    "(bytes \<Rightarrow> jsval option) \<Rightarrow> (nat \<Rightarrow> bytes) \<Rightarrow> nat \<Rightarrow> decode_cache \<Rightarrow> jsval option \<times> decode_cache" where
  "decodeJsonBytes parse heap ref c =
     (if ref \<in> set (invalid c) then (None, c)
      else case map_of (decoded c) ref of
        Some v \<Rightarrow> (Some v, c)
      | None \<Rightarrow>
          (case parse (heap ref) of
             Some v \<Rightarrow> (Some v, c\<lparr>decoded := AList.update ref v (decoded c)\<rparr>)
           | None \<Rightarrow> (None, c\<lparr>invalid := ref # invalid c\<rparr>)))"

definition cache_ok :: "(bytes \<Rightarrow> jsval option) \<Rightarrow> (nat \<Rightarrow> bytes) \<Rightarrow> decode_cache \<Rightarrow> bool" where
  "cache_ok parse heap c \<longleftrightarrow>
     (\<forall>ref v. map_of (decoded c) ref = Some v \<longrightarrow> parse (heap ref) = Some v) \<and>
     (\<forall>ref \<in> set (invalid c). parse (heap ref) = None)"

interpretation json_cache: memo "decodeJsonBytes parse heap" "\<lambda>ref. parse (heap ref)" "cache_ok parse heap"
  for parse heap
  by unfold_locales
    (auto simp: decodeJsonBytes_def cache_ok_def update_conv' split: option.splits if_splits)

text \<open>\<^verbatim>\<open>tryDecodeJsonBytes\<close>: \<^verbatim>\<open>undefined\<close> instead of the exception, also for a missing layer.\<close>

definition tryDecodeJsonBytes :: "(bytes \<Rightarrow> jsval option) \<Rightarrow> bytes option \<Rightarrow> jsval" where
  "tryDecodeJsonBytes parse layer =
     (case layer of
        None \<Rightarrow> JUndef
      | Some b \<Rightarrow> (case parse b of Some v \<Rightarrow> v | None \<Rightarrow> JUndef))"

subsection \<open>Frames\<close>

record Value =
  v_id :: string
  v_epoch :: int
  v_tick :: int
  v_seqIdx :: int
  v_timestamp :: int
  v_origin :: string
  v_role :: string
  v_scope :: string
  v_prefix :: string
  v_layers :: "bytes option list"
  v_index :: "string list"

definition layer_nth :: "Value \<Rightarrow> nat \<Rightarrow> bytes option" where
  "layer_nth v i = Option.bind (nth_opt (v_layers v) i) (\<lambda>x. x)"

text \<open>The loop \<^verbatim>\<open>for (let i = 0; i < index.length; i++)\<close> over index and layer.\<close>

definition indexed :: "Value \<Rightarrow> (string \<times> bytes option) list" where
  "indexed v = map (\<lambda>i. (v_index v ! i, layer_nth v i)) [0..<length (v_index v)]"

definition root_of :: "Value \<Rightarrow> string" where
  "root_of v = v_prefix v @ ''/''"

fun collect_layers :: "(bytes \<Rightarrow> jsval option) \<Rightarrow> bytes option list \<Rightarrow> jsval list option" where
  "collect_layers parse [] = Some []"
| "collect_layers parse (l # ls) =
     (case Option.bind l parse of
        None \<Rightarrow> None
      | Some v \<Rightarrow> map_option (Cons v) (collect_layers parse ls))"

text \<open>\<^verbatim>\<open>lookup\<close>: \<^term>\<open>None\<close> is the exception of the first layer that does not decode.\<close>

definition lookup :: "(bytes \<Rightarrow> jsval option) \<Rightarrow> Value \<Rightarrow> string list \<Rightarrow> jsval list option" where
  "lookup parse v keys =
     collect_layers parse
       (map snd (filter (\<lambda>(index, _). list_ex (\<lambda>key. starts_with index (root_of v @ key)) keys)
          (indexed v)))"

definition reading :: "(bytes \<Rightarrow> jsval option) \<Rightarrow> Value \<Rightarrow> string \<Rightarrow> jsval" where
  "reading parse v key =
     (case find (\<lambda>(index, _). index = root_of v @ key) (indexed v) of
        None \<Rightarrow> JUndef
      | Some (_, layer) \<Rightarrow> tryDecodeJsonBytes parse layer)"

definition first_of :: "jsval \<Rightarrow> jsval" where
  "first_of payload =
     (case payload of JArr [] \<Rightarrow> JUndef | JArr (x # _) \<Rightarrow> x | _ \<Rightarrow> payload)"

definition metric :: "(bytes \<Rightarrow> jsval option) \<Rightarrow> Value \<Rightarrow> string \<Rightarrow> jsval" where
  "metric parse v key = first_of (reading parse v key)"

definition readings :: "(bytes \<Rightarrow> jsval option) \<Rightarrow> Value \<Rightarrow> (string \<times> jsval) list" where
  "readings parse v =
     List.map_filter
       (\<lambda>(index, layer).
          if \<not> starts_with index (root_of v) then None
          else let payload = tryDecodeJsonBytes parse layer
               in if payload = JUndef then None
                  else Some (slice_from (length (root_of v)) index, payload))
       (indexed v)"

text \<open>The entries one reading contributes to \<^verbatim>\<open>metrics\<close>.\<close>

definition metric_entries :: "string \<times> jsval \<Rightarrow> (string \<times> jsnum) list" where
  "metric_entries r =
     (case r of (sfx, payload) \<Rightarrow>
        if sfx = [] then []
        else let names = segments sfx
             in case payload of
                  JArr vs \<Rightarrow>
                    if 1 < length names
                    then List.map_filter (\<lambda>(n, x). map_option (Pair n) (finite_num x)) (zip names vs)
                    else (case finite_num (first_of payload) of
                            None \<Rightarrow> []
                          | Some x \<Rightarrow> [(if length names = 1 then hd names else sfx, x)])
                | _ \<Rightarrow>
                    (case finite_num payload of
                       None \<Rightarrow> []
                     | Some x \<Rightarrow> [(if length names = 1 then hd names else sfx, x)]))"

definition metrics :: "(bytes \<Rightarrow> jsval option) \<Rightarrow> Value \<Rightarrow> (string \<times> jsnum) list" where
  "metrics parse v = obj_merge [] (concat (map metric_entries (readings parse v)))"

definition provenance :: "(bytes \<Rightarrow> jsval option) \<Rightarrow> Value \<Rightarrow> (string \<times> string) list" where
  "provenance parse v =
     obj_merge []
       (List.map_filter
         (\<lambda>(sfx, payload).
            if sfx = [] then None else map_option (Pair sfx) (as_str (first_of payload)))
         (readings parse v))"

definition layersUnder :: "(bytes \<Rightarrow> jsval option) \<Rightarrow> Value \<Rightarrow> string \<Rightarrow> (string \<times> jsval) list" where
  "layersUnder parse v key =
     List.map_filter
       (\<lambda>(index, layer).
          case last_index_of key index of
            None \<Rightarrow> None
          | Some pos \<Rightarrow>
              (let payload = tryDecodeJsonBytes parse layer
               in if payload = JUndef then None
                  else Some (dropWhile (\<lambda>c. c = CHR ''/'') (slice_from (pos + length key) index),
                             payload)))
       (indexed v)"

subsection \<open>Combining frames\<close>

definition layerRelativeToPrefix :: "string \<Rightarrow> string \<Rightarrow> string option" where
  "layerRelativeToPrefix index pre =
     (let root = pre @ ''/''
      in if starts_with index root then Some (slice_from (length root) index) else None)"

text \<open>The layers of a frame by path below its prefix, in index order.\<close>

definition relative_layers :: "Value \<Rightarrow> (string \<times> bytes option) list" where
  "relative_layers v =
     List.map_filter
       (\<lambda>(index, layer). map_option (\<lambda>rel. (rel, layer)) (layerRelativeToPrefix index (v_prefix v)))
       (indexed v)"

definition put_all :: "('k \<times> 'v) list \<Rightarrow> ('k \<times> 'v) list \<Rightarrow> ('k \<times> 'v) list" where
  "put_all es m = foldl (\<lambda>m (k, v). AList.update k v m) m es"

definition LIT_LAYER_KEYS :: "string list" where
  "LIT_LAYER_KEYS = [''regions'', ''active'', ''lit'']"

definition nonEmptyArrayLayer :: "(bytes \<Rightarrow> jsval option) \<Rightarrow> bytes option \<Rightarrow> bool" where
  "nonEmptyArrayLayer parse layer =
     (case layer of
        None \<Rightarrow> False
      | Some b \<Rightarrow> b \<noteq> [] \<and>
          (case tryDecodeJsonBytes parse layer of JArr vs \<Rightarrow> vs \<noteq> [] | _ \<Rightarrow> False))"

definition with_layers :: "(string \<times> bytes option) list \<Rightarrow> Value \<Rightarrow> Value" where
  "with_layers m incoming =
     incoming\<lparr>v_index := map (\<lambda>(rel, _). root_of incoming @ rel) m, v_layers := map snd m\<rparr>"

definition lit_step ::
    "(bytes \<Rightarrow> jsval option) \<Rightarrow> Value \<Rightarrow> bool \<times> (string \<times> bytes option) list \<Rightarrow> string \<Rightarrow>
     bool \<times> (string \<times> bytes option) list" where
  "lit_step parse prior acc key =
     (case acc of (changed, m) \<Rightarrow>
        if nonEmptyArrayLayer parse (Option.bind (map_of m key) (\<lambda>x. x)) then (changed, m)
        else case map_of (relative_layers prior) key of
          None \<Rightarrow> (changed, m)
        | Some layer \<Rightarrow>
            if nonEmptyArrayLayer parse layer then (True, AList.update key layer m)
            else (changed, m))"

definition preserveLitLayers ::
    "(bytes \<Rightarrow> jsval option) \<Rightarrow> Value option \<Rightarrow> Value \<Rightarrow> Value" where
  "preserveLitLayers parse prior incoming =
     (case prior of
        None \<Rightarrow> incoming
      | Some p \<Rightarrow>
          if v_origin p \<noteq> v_origin incoming then incoming
          else case foldl (lit_step parse p) (False, put_all (relative_layers incoming) [])
                      LIT_LAYER_KEYS of
                 (changed, m) \<Rightarrow> if changed then with_layers m incoming else incoming)"

definition mergeWorkspaceAggregate :: "Value option \<Rightarrow> Value \<Rightarrow> Value" where
  "mergeWorkspaceAggregate prior incoming =
     (case prior of
        None \<Rightarrow> incoming
      | Some p \<Rightarrow>
          if v_tick p \<noteq> v_tick incoming then incoming
          else let m = put_all (relative_layers incoming) (put_all (relative_layers p) [])
               in if m = [] then incoming else with_layers m incoming)"

subsection \<open>The decoder is transparent\<close>

text \<open>The reads of a session, in order, through one cache.\<close>

fun decode_all ::
    "(bytes \<Rightarrow> jsval option) \<Rightarrow> (nat \<Rightarrow> bytes) \<Rightarrow> nat list \<Rightarrow> decode_cache \<Rightarrow>
     jsval option list \<times> decode_cache" where
  "decode_all parse heap [] c = ([], c)"
| "decode_all parse heap (ref # refs) c =
     (case decodeJsonBytes parse heap ref c of (r, c') \<Rightarrow>
        case decode_all parse heap refs c' of (rs, c'') \<Rightarrow> (r # rs, c''))"

lemma decode_all_run: "decode_all parse heap refs c = json_cache.run_all parse heap refs c"
  by (induction refs arbitrary: c) (auto simp: Let_def split: prod.splits)


subsection \<open>Layers by path\<close>

text \<open>The layer a frame holds at a path below its prefix; a later index wins.\<close>

definition layer_map :: "Value \<Rightarrow> string \<rightharpoonup> bytes option" where
  "layer_map v = map_of (rev (relative_layers v))"

lemma map_of_put_all: "map_of (put_all es m) = map_of m ++ map_of (rev es)"
  unfolding put_all_def by (rule js_map.get_put_all)

lemma distinct_put_layers: "distinct (map fst m) \<Longrightarrow> distinct (map fst (put_all es m))"
  using js_map.distinct_put_all [of m es] by (simp add: put_all_def map_keys_def)

lemma indexed_zip: "length (v_layers v) = length (v_index v) \<Longrightarrow> indexed v = zip (v_index v) (v_layers v)"
  by (rule nth_equalityI) (auto simp: indexed_def layer_nth_def nth_opt_def)

lemma relative_with_layers: "relative_layers (with_layers m v) = m"
proof -
  have "indexed (with_layers m v) = map (\<lambda>(rel, l). (root_of v @ rel, l)) m"
    by (subst indexed_zip) (auto simp: with_layers_def zip_map_map case_prod_beta zip_same_conv_map)
  moreover have "v_prefix (with_layers m v) = v_prefix v" by (simp add: with_layers_def)
  ultimately show ?thesis
    by (simp add: relative_layers_def layerRelativeToPrefix_def root_of_def List.map_filter_def
        case_prod_beta comp_def starts_with_def slice_from_def)
qed

lemma layer_map_with_layers: "distinct (map fst m) \<Longrightarrow> layer_map (with_layers m v) = map_of m"
  by (simp add: layer_map_def relative_with_layers map_of_rev_distinct)

text \<open>
  Partial frames of one tick are united by path: the merged frame holds at every path the
  incoming frame's layer if it has one and the prior frame's otherwise, keeps the incoming frame's
  tick, and a frame of another tick replaces the prior one.
\<close>

theorem merge_unites_layers:
  "v_tick (mergeWorkspaceAggregate (Some p) v) = v_tick v \<and>
   layer_map (mergeWorkspaceAggregate (Some p) v) =
     (if v_tick p = v_tick v then layer_map p ++ layer_map v else layer_map v)"
proof -
  let ?m = "put_all (relative_layers v) (put_all (relative_layers p) [])"
  have d: "distinct (map fst ?m)" by (intro distinct_put_layers) simp
  have m: "map_of ?m = layer_map p ++ layer_map v"
    by (simp add: map_of_put_all layer_map_def)
  have "layer_map v = layer_map p ++ layer_map v" if "?m = []"
  proof -
    from m that have "layer_map p ++ layer_map v = Map.empty" by (metis map_of.simps(1))
    then show ?thesis by simp
  qed
  then show ?thesis
    using m layer_map_with_layers [OF d, of v]
    by (auto simp: mergeWorkspaceAggregate_def Let_def with_layers_def)
qed

text \<open>When the prior frame's lit layer is carried over.\<close>

definition carried :: "(bytes \<Rightarrow> jsval option) \<Rightarrow> Value \<Rightarrow> bytes option option \<Rightarrow> string \<Rightarrow> bool" where
  "carried parse p held key \<longleftrightarrow>
     \<not> nonEmptyArrayLayer parse (Option.bind held (\<lambda>x. x)) \<and>
     pred_option (nonEmptyArrayLayer parse) (map_of (relative_layers p) key) \<and>
     map_of (relative_layers p) key \<noteq> None"

lemma lit_step_eq:
  "lit_step parse p (c, m) key =
     (c \<or> carried parse p (map_of m key) key,
      if carried parse p (map_of m key) key
      then AList.update key (the (map_of (relative_layers p) key)) m else m)"
  by (auto simp: lit_step_def carried_def split: option.splits)

lemma lit_fold:
  assumes "distinct keys" "foldl (lit_step parse p) (c, m) keys = (c', m')"
  shows "c' = (c \<or> (\<exists>k \<in> set keys. carried parse p (map_of m k) k)) \<and>
    map_of m' = (\<lambda>k. if k \<in> set keys \<and> carried parse p (map_of m k) k
                     then map_of (relative_layers p) k else map_of m k) \<and>
    (distinct (map fst m) \<longrightarrow> distinct (map fst m'))"
  using assms
proof (induction keys arbitrary: c m)
  case (Cons key keys)
  let ?hit = "carried parse p (map_of m key) key"
  let ?m1 = "if ?hit then AList.update key (the (map_of (relative_layers p) key)) m else m"
  have step: "foldl (lit_step parse p) (c \<or> ?hit, ?m1) keys = (c', m')"
    using Cons.prems(2) by (simp add: lit_step_eq)
  have m1: "map_of ?m1 k = (if k = key \<and> ?hit then map_of (relative_layers p) key else map_of m k)" for k
    by (auto simp: update_conv' carried_def)
  have d1: "distinct (map fst m) \<Longrightarrow> distinct (map fst ?m1)" by (simp add: distinct_update)
  have notin: "key \<notin> set keys" and dist: "distinct keys" using Cons.prems(1) by auto
  have same: "carried parse p (map_of ?m1 k) k = carried parse p (map_of m k) k" if "k \<in> set keys" for k
    using that notin m1 by auto
  from Cons.IH [OF dist step] show ?case
    using m1 d1 same notin by (auto simp: fun_eq_iff)
qed simp

text \<open>
  A cold tick does not darken the map: for a frame of the same origin, each of the layers
  \<^verbatim>\<open>regions\<close>, \<^verbatim>\<open>active\<close> and \<^verbatim>\<open>lit\<close> that is missing or empty is replaced by the prior frame's
  non-empty one, and every other layer is the incoming frame's.
\<close>

theorem lit_layers_preserved:
  assumes "v_origin p = v_origin v"
  shows "layer_map (preserveLitLayers parse (Some p) v) =
    (\<lambda>k. if k \<in> set LIT_LAYER_KEYS \<and> carried parse p (layer_map v k) k
         then map_of (relative_layers p) k else layer_map v k)"
proof -
  let ?m = "put_all (relative_layers v) []"
  obtain c' m' where f: "foldl (lit_step parse p) (False, ?m) LIT_LAYER_KEYS = (c', m')"
    by (cases "foldl (lit_step parse p) (False, ?m) LIT_LAYER_KEYS")
  have m: "map_of ?m = layer_map v" by (simp add: map_of_put_all layer_map_def)
  have dm: "distinct (map fst ?m)" by (intro distinct_put_layers) simp
  have "distinct LIT_LAYER_KEYS" by (simp add: LIT_LAYER_KEYS_def)
  note fold = lit_fold [OF this f, unfolded m]
  then have d: "distinct (map fst m')" using dm by blast
  show ?thesis
  proof (cases c')
    case True
    then have "preserveLitLayers parse (Some p) v = with_layers m' v"
      using assms f by (simp add: preserveLitLayers_def)
    then show ?thesis using fold layer_map_with_layers [OF d] by simp
  next
    case False
    then have "preserveLitLayers parse (Some p) v = v"
      using assms f by (simp add: preserveLitLayers_def)
    then show ?thesis using fold False by (auto simp: fun_eq_iff)
  qed
qed

definition demo_frame :: "bytes option list \<Rightarrow> string list \<Rightarrow> Value" where
  "demo_frame layers idx =
     \<lparr>v_id = [], v_epoch = 0, v_tick = 0, v_seqIdx = 0, v_timestamp = 0, v_origin = ''train'',
      v_role = [], v_scope = [], v_prefix = ''w'', v_layers = layers, v_index = idx\<rparr>"

theorem lit_layers_preserved_witness:
  "let parse = (\<lambda>b. Some (if b = [1] then JArr [JNum (Fin 1)] else JArr []));
       p = demo_frame [Some [1]] [''w/lit'']; v = demo_frame [Some [2]] [''w/lit'']
   in layer_map (preserveLitLayers parse (Some p) v) ''lit'' = Some (Some [1])"
proof -
  let ?parse = "\<lambda>b :: bytes. Some (if b = [1] then JArr [JNum (Fin 1)] else JArr [])"
  let ?p = "demo_frame [Some [1]] [''w/lit'']" and ?v = "demo_frame [Some [2]] [''w/lit'']"
  have rel: "relative_layers (demo_frame [Some b] [''w/lit'']) = [(''lit'', Some b)]" for b
    by (simp add: relative_layers_def indexed_def demo_frame_def layer_nth_def nth_opt_def
        layerRelativeToPrefix_def starts_with_def slice_from_def List.map_filter_def)
  have "v_origin ?p = v_origin ?v" by (simp add: demo_frame_def)
  from lit_layers_preserved [OF this, of ?parse] show ?thesis
    by (simp add: Let_def layer_map_def rel carried_def nonEmptyArrayLayer_def tryDecodeJsonBytes_def
        LIT_LAYER_KEYS_def)
qed

end
