(* ===== verification/Cognition.thy ===== *)
theory Cognition
  imports Books ExplorePath ValueFrame HubWorker
begin

text \<open>
  The cognition collection (\<^verbatim>\<open>collections/cognition.ts\<close>): the known symbols, the policy-tree
  store, the per-symbol region rings and the functions that fold hub frames into them. All
  module state is one record; \<open>parse\<close> is \<^verbatim>\<open>JSON.parse\<close> of a layer's bytes.
\<close>

subsection \<open>Symbols\<close>

definition SYMBOLS :: "string list" where
  "SYMBOLS = [''BTC/USD'', ''ETH/USD'', ''SOL/USD'', ''XRP/USD'', ''ADA/USD'', ''DOGE/USD'',
     ''AVAX/USD'', ''DOT/USD'', ''LINK/USD'', ''LTC/USD'']"

definition rememberSymbol :: "string \<Rightarrow> string list \<Rightarrow> string list" where
  "rememberSymbol symbol known =
     (if CHR ''/'' \<in> set symbol \<and> symbol \<notin> set known then known @ [symbol] else known)"

definition at_boundary :: "string \<Rightarrow> string \<Rightarrow> bool" where
  "at_boundary path symbol = (path = symbol \<or> starts_with path (symbol @ ''/''))"

definition better_symbol :: "string \<Rightarrow> string option \<Rightarrow> string \<Rightarrow> string option" where
  "better_symbol path best symbol =
     (if (case best of None \<Rightarrow> True | Some b \<Rightarrow> length b < length symbol) \<and> at_boundary path symbol
      then Some symbol else best)"

definition splitSymbol :: "string list \<Rightarrow> string \<Rightarrow> (string \<times> string) option" where
  "splitSymbol known path =
     map_option (\<lambda>best. (best, slice_from (length best + 1) path))
       (foldl (better_symbol path) None known)"

subsection \<open>State\<close>

record CognitionBranch =
  br_hash :: string
  br_depth :: jsnum
  br_visits :: jsnum
  br_meanEdge :: jsnum
  br_confidence :: jsnum
  br_policy :: string
  br_observed :: "bool option"

record CognitionGate =
  gt_tickEpoch :: string
  gt_enabled :: bool
  gt_surpriseZ :: jsnum
  gt_warmup :: string
  gt_learningRate :: jsnum

record CognitionProblem =
  pb_level :: string
  pb_reason :: string
  pb_fix :: string

record CognitionTreeFrame =
  tr_epoch :: string
  tr_paths :: jsnum
  tr_trading :: bool
  tr_gate :: "CognitionGate option"
  tr_keys :: "string list"
  tr_branches :: "CognitionBranch list"
  tr_problem :: "CognitionProblem option"

record CognitionMatch =
  ma_symbol :: string
  ma_tick :: jsnum
  ma_tokens :: "string list"
  ma_stored :: bool
  ma_match :: string
  ma_depth :: jsnum
  ma_action :: string
  ma_livePath :: "string option"
  ma_triggerPath :: "string option"
  ma_policyPath :: "string option"
  ma_similarity :: "jsnum option"
  ma_exactMatch :: "bool option"
  ma_blockedReason :: "string option"
  ma_rejected :: "string list option"

type_synonym region_row = "jsnum option list"

record CognitionState =
  cg_epoch :: string
  cg_policyKeys :: "string list"
  cg_thresholds :: thresholds
  cg_matches :: "(string \<times> CognitionMatch) list"
  cg_problem :: "CognitionProblem option"
  cg_tree :: "CognitionTreeFrame option"

record cognition =
  symbols :: "string list"
  cog :: CognitionState
  regionRings :: "(string \<times> (jsnum \<times> region_row) list) list"
  regionHistory :: "(string \<times> region_row list) list"
  cog_hub :: hub_handle

definition cognition_start :: cognition where
  "cognition_start =
     \<lparr>symbols = SYMBOLS,
      cog = \<lparr>cg_epoch = ''0'', cg_policyKeys = [], cg_thresholds = [], cg_matches = [],
             cg_problem = None, cg_tree = None\<rparr>,
      regionRings = [], regionHistory = [], cog_hub = None\<rparr>"

subsection \<open>Region rings\<close>

definition REGION_COUNT :: nat where "REGION_COUNT = 23"

definition primaryRegionIndex :: "string \<Rightarrow> nat option" where
  "primaryRegionIndex token =
     (case token of
        r # a # b # _ \<Rightarrow>
          if r = CHR ''R'' \<and> is_digit a \<and> is_digit b
          then let sector = nat (int_of_digits [a, b])
               in if sector < REGION_COUNT then Some sector else None
          else None
      | _ \<Rightarrow> None)"

text \<open>\<^verbatim>\<open>REGION.test\<close>: exactly \<^verbatim>\<open>R\<close> and two digits.\<close>

definition is_region :: "string \<Rightarrow> bool" where
  "is_region token =
     (case token of [r, a, b] \<Rightarrow> r = CHR ''R'' \<and> is_digit a \<and> is_digit b | _ \<Rightarrow> False)"

definition paint :: "jsnum list \<Rightarrow> region_row \<Rightarrow> nat \<times> string \<Rightarrow> region_row" where
  "paint brightness row entry =
     (case (primaryRegionIndex (snd entry), nth_opt brightness (fst entry)) of
        (Some sector, Some x) \<Rightarrow> row[sector := Some x]
      | _ \<Rightarrow> row)"

definition ring_row :: "(jsnum \<times> region_row) list \<Rightarrow> string list \<Rightarrow> jsnum list \<Rightarrow> region_row" where
  "ring_row prior tokens brightness =
     foldl (paint brightness)
       (case last_opt prior of Some l \<Rightarrow> snd l | None \<Rightarrow> replicate REGION_COUNT None)
       (enumerate 0 tokens)"

definition noteRegions :: "string \<Rightarrow> jsnum \<Rightarrow> string list \<Rightarrow> jsnum list \<Rightarrow> cognition \<Rightarrow> cognition" where
  "noteRegions symbol tick tokens brightness s =
     (if tokens = [] then s
      else let prior = (case map_of (regionRings s) symbol of Some r \<Rightarrow> r | None \<Rightarrow> []);
               row = ring_row prior tokens brightness;
               kept = (if (case last_opt prior of Some l \<Rightarrow> num_eq (fst l) tick | None \<Rightarrow> False)
                       then butlast prior else take_last 23 prior);
               ring = kept @ [(tick, row)]
           in s\<lparr>regionRings := AList.update symbol ring (regionRings s),
                regionHistory := obj_set symbol (map snd ring) (regionHistory s)\<rparr>)"

subsection \<open>Indexes\<close>

definition TRAIN_REGIONS :: string where "TRAIN_REGIONS = ''train/regions/''"

definition REJECT :: string where "REJECT = ''train/reject/''"

text \<open>The parsed index together with the symbols known afterwards.\<close>

definition parseTrainRegionsIndex ::
    "string list \<Rightarrow> string \<Rightarrow> (string \<times> string list) option \<times> string list" where
  "parseTrainRegionsIndex known index =
     (case index_of TRAIN_REGIONS index of
        None \<Rightarrow> (None, known)
      | Some start \<Rightarrow>
          (case splitSymbol known (slice_from (start + length TRAIN_REGIONS) index) of
             None \<Rightarrow> (None, known)
           | Some (symbol, rest) \<Rightarrow>
               (let known' = rememberSymbol symbol known; parts = segments rest
                in case last_opt parts of
                     None \<Rightarrow> (None, known')
                   | Some leaf \<Rightarrow>
                       if leaf = ''tokens'' then (Some (symbol, []), known')
                       else if \<not> is_region leaf then (None, known')
                       else (Some (symbol, butlast parts @ [leaf]), known'))))"

definition s3KeyFromIndex :: "string \<Rightarrow> string \<Rightarrow> string option" where
  "s3KeyFromIndex framePrefix index =
     (let root = framePrefix @ ''/''
      in if \<not> starts_with index root then None
         else let key = slice_from (length root) index in if key = [] then None else Some key)"

text \<open>
  The match of \<^verbatim>\<open>/model\/current\/(.+\/(?:enter|exit))\.bin/\<close>: from the first occurrence of the
  head, up to the last \<^verbatim>\<open>/enter.bin\<close> or \<^verbatim>\<open>/exit.bin\<close> with something before it.
\<close>

definition current_model_key :: "string \<Rightarrow> string option" where
  "current_model_key index =
     (case index_of ''model/current/'' index of
        None \<Rightarrow> None
      | Some start \<Rightarrow>
          (let tail = slice_from (start + length ''model/current/'') index;
               hits = filter (\<lambda>i. starts_with (drop i tail) ''/enter.bin'' \<or>
                                  starts_with (drop i tail) ''/exit.bin'') [1..<length tail]
           in map_option
                (\<lambda>i. ''model/current/'' @ take i tail @
                     (if starts_with (drop i tail) ''/enter.bin'' then ''/enter'' else ''/exit'') @ ''.bin'')
                (last_opt hits)))"

definition policyKeyFromIndex :: "string \<Rightarrow> string option \<Rightarrow> string option" where
  "policyKeyFromIndex index framePrefix =
     (case (case framePrefix of
              None \<Rightarrow> None
            | Some p \<Rightarrow> if p = [] then None else s3KeyFromIndex p index) of
        Some key \<Rightarrow> Some key
      | None \<Rightarrow> if starts_with index ''model/paths'' then Some index else current_model_key index)"

definition parseTrainRejectIndex :: "string \<Rightarrow> (string \<times> string) option" where
  "parseTrainRejectIndex index =
     (case index_of REJECT index of
        None \<Rightarrow> None
      | Some start \<Rightarrow>
          (let parts = segments (slice_from (start + length REJECT) index)
           in case last_opt parts of
                None \<Rightarrow> None
              | Some token \<Rightarrow>
                  if \<not> is_region token then None
                  else let symbol = join_with ''/'' (butlast parts)
                       in if symbol = [] then None else Some (symbol, token)))"

subsection \<open>Training layers\<close>

text \<open>\<^verbatim>\<open>Number(value)\<close> on a decoded value.\<close>

definition to_number :: "jsval \<Rightarrow> jsnum" where
  "to_number v =
     (case v of
        JUndef \<Rightarrow> NaN
      | JNull \<Rightarrow> Fin 0
      | JBool b \<Rightarrow> Fin (if b then 1 else 0)
      | JNum n \<Rightarrow> n
      | JBig i \<Rightarrow> num_of_int i
      | JStr s \<Rightarrow> number_of_text s
      | JArr vs \<Rightarrow> number_of_text (js_text v)
      | JObj ob \<Rightarrow> NaN)"

definition set_match :: "CognitionMatch \<Rightarrow> cognition \<Rightarrow> cognition" where
  "set_match m s = s\<lparr>cog := (cog s)\<lparr>cg_matches := obj_set (ma_symbol m) m (cg_matches (cog s))\<rparr>\<rparr>"

definition fresh_match :: "string \<Rightarrow> jsnum \<Rightarrow> string list \<Rightarrow> string list option \<Rightarrow> CognitionMatch" where
  "fresh_match symbol tick tokens rejected =
     \<lparr>ma_symbol = symbol, ma_tick = tick, ma_tokens = tokens, ma_stored = False, ma_match = [],
      ma_depth = num_of_nat (length tokens), ma_action = [], ma_livePath = None,
      ma_triggerPath = None, ma_policyPath = None, ma_similarity = None, ma_exactMatch = None,
      ma_blockedReason = None, ma_rejected = rejected\<rparr>"

definition note_sentence :: "string \<Rightarrow> jsnum \<Rightarrow> string list \<Rightarrow> cognition \<Rightarrow> cognition" where
  "note_sentence symbol tick tokens s =
     (let rejected = (case map_of (cg_matches (cog s)) symbol of
            Some prior \<Rightarrow> if num_eq (ma_tick prior) tick then ma_rejected prior else Some []
          | None \<Rightarrow> Some [])
      in set_match (fresh_match symbol tick tokens rejected) s)"

definition ingestTrainRegions :: "jsnum \<Rightarrow> string \<Rightarrow> jsval \<Rightarrow> cognition \<Rightarrow> bool \<times> cognition" where
  "ingestTrainRegions tick index payload s =
     (case parseTrainRegionsIndex (symbols s) index of
        (None, known) \<Rightarrow> (False, s\<lparr>symbols := known\<rparr>)
      | (Some (symbol, toks), known) \<Rightarrow>
          (let s = s\<lparr>symbols := known\<rparr>
           in if toks = [] then
                (let tokens = (case payload of JArr vs \<Rightarrow> List.map_filter as_str vs | _ \<Rightarrow> [])
                 in if tokens = [] then (True, s) else (True, note_sentence symbol tick tokens s))
              else
                (let brightness = (case payload of
                       JArr vs \<Rightarrow> filter is_finite (map to_number vs) | _ \<Rightarrow> []);
                     s = (if brightness \<noteq> [] then noteRegions symbol tick toks brightness s else s)
                 in (True, note_sentence symbol tick toks s))))"

definition ingestTrainReject :: "jsnum \<Rightarrow> string \<Rightarrow> cognition \<Rightarrow> bool \<times> cognition" where
  "ingestTrainReject tick index s =
     (case parseTrainRejectIndex index of
        None \<Rightarrow> (False, s)
      | Some (symbol, token) \<Rightarrow>
          (let prior = map_of (cg_matches (cog s)) symbol;
               rejected = (case prior of
                  Some p \<Rightarrow> if num_eq (ma_tick p) tick
                            then (case ma_rejected p of Some r \<Rightarrow> r | None \<Rightarrow> []) @ [token]
                            else [token]
                | None \<Rightarrow> [token]);
               base = (case prior of Some p \<Rightarrow> p | None \<Rightarrow> fresh_match symbol tick [] None);
               entry = base\<lparr>ma_tick := tick, ma_rejected := Some rejected\<rparr>
           in (True, s\<lparr>cog := (cog s)\<lparr>cg_matches := obj_set symbol entry (cg_matches (cog s))\<rparr>\<rparr>)))"

subsection \<open>Frame guards\<close>

definition obj_of :: "jsval \<Rightarrow> jsobj" where
  "obj_of v = (case as_record v of Some ob \<Rightarrow> ob | None \<Rightarrow> [])"

definition is_text :: "jsval \<Rightarrow> bool" where "is_text v = (as_str v \<noteq> None)"

definition is_number :: "jsval \<Rightarrow> bool" where "is_number v = (as_num v \<noteq> None)"

definition is_bool :: "jsval \<Rightarrow> bool" where "is_bool v = (v = JBool True \<or> v = JBool False)"

definition isBranch :: "jsval \<Rightarrow> bool" where
  "isBranch v =
     (let b = obj_of v
      in is_text (field b ''hash'') \<and> is_number (field b ''depth'') \<and> is_number (field b ''visits'') \<and>
         is_number (field b ''meanEdge'') \<and> is_number (field b ''confidence'') \<and>
         is_text (field b ''policy''))"

definition isGate :: "jsval \<Rightarrow> bool" where
  "isGate v =
     (v = JNull \<or>
      (let g = obj_of v
       in is_text (field g ''tickEpoch'') \<and> is_bool (field g ''enabled'') \<and>
          is_number (field g ''surpriseZ'') \<and> is_text (field g ''warmup'') \<and>
          is_number (field g ''learningRate'')))"

definition isProblem :: "jsval \<Rightarrow> bool" where
  "isProblem v =
     (v = JNull \<or>
      (let p = obj_of v
       in (field p ''level'' = JStr ''error'' \<or> field p ''level'' = JStr ''warning'') \<and>
          nonempty_str (field p ''reason'') \<noteq> None \<and> nonempty_str (field p ''fix'') \<noteq> None))"

definition all_items :: "(jsval \<Rightarrow> bool) \<Rightarrow> jsval \<Rightarrow> bool" where
  "all_items P v = (case v of JArr vs \<Rightarrow> list_all P vs | _ \<Rightarrow> False)"

definition isTree :: "jsval \<Rightarrow> bool" where
  "isTree v =
     (let t = obj_of v
      in is_text (field t ''epoch'') \<and> is_number (field t ''paths'') \<and> is_bool (field t ''trading'') \<and>
         isGate (orelse (field t ''gate'') JNull) \<and> all_items is_text (field t ''keys'') \<and>
         all_items isBranch (field t ''branches'') \<and> isProblem (orelse (field t ''problem'') JNull))"

definition isMatch :: "jsval \<Rightarrow> bool" where
  "isMatch v =
     (let m = obj_of v
      in nonempty_str (field m ''symbol'') \<noteq> None \<and> is_number (field m ''tick'') \<and>
         all_items is_text (field m ''tokens'') \<and> is_bool (field m ''stored'') \<and>
         is_text (field m ''match'') \<and> is_number (field m ''depth'') \<and> is_text (field m ''action''))"

text \<open>The typed values behind a frame that passed its guard.\<close>

definition txt_at :: "jsobj \<Rightarrow> string \<Rightarrow> string" where
  "txt_at ob k = (case as_str (field ob k) of Some s \<Rightarrow> s | None \<Rightarrow> [])"

definition nmb_at :: "jsobj \<Rightarrow> string \<Rightarrow> jsnum" where
  "nmb_at ob k = (case as_num (field ob k) of Some n \<Rightarrow> n | None \<Rightarrow> NaN)"

definition opt_bool :: "jsval \<Rightarrow> bool option" where
  "opt_bool v = (case v of JBool b \<Rightarrow> Some b | _ \<Rightarrow> None)"

definition texts :: "jsval \<Rightarrow> string list" where
  "texts v = (case v of JArr vs \<Rightarrow> List.map_filter as_str vs | _ \<Rightarrow> [])"

definition branch_of :: "jsval \<Rightarrow> CognitionBranch" where
  "branch_of v =
     (let b = obj_of v
      in \<lparr>br_hash = txt_at b ''hash'', br_depth = nmb_at b ''depth'', br_visits = nmb_at b ''visits'',
          br_meanEdge = nmb_at b ''meanEdge'', br_confidence = nmb_at b ''confidence'',
          br_policy = txt_at b ''policy'', br_observed = opt_bool (field b ''observed'')\<rparr>)"

definition gate_of :: "jsval \<Rightarrow> CognitionGate option" where
  "gate_of v =
     (if nullish v then None
      else let g = obj_of v
           in Some \<lparr>gt_tickEpoch = txt_at g ''tickEpoch'', gt_enabled = (field g ''enabled'' = JBool True),
                    gt_surpriseZ = nmb_at g ''surpriseZ'', gt_warmup = txt_at g ''warmup'',
                    gt_learningRate = nmb_at g ''learningRate''\<rparr>)"

definition problem_of :: "jsval \<Rightarrow> CognitionProblem option" where
  "problem_of v =
     (if nullish v then None
      else let p = obj_of v
           in Some \<lparr>pb_level = txt_at p ''level'', pb_reason = txt_at p ''reason'', pb_fix = txt_at p ''fix''\<rparr>)"

definition tree_of :: "jsval \<Rightarrow> CognitionTreeFrame" where
  "tree_of v =
     (let t = obj_of v
      in \<lparr>tr_epoch = txt_at t ''epoch'', tr_paths = nmb_at t ''paths'',
          tr_trading = (field t ''trading'' = JBool True), tr_gate = gate_of (field t ''gate''),
          tr_keys = texts (field t ''keys''),
          tr_branches = (case field t ''branches'' of JArr vs \<Rightarrow> map branch_of vs | _ \<Rightarrow> []),
          tr_problem = problem_of (field t ''problem'')\<rparr>)"

definition match_of :: "jsval \<Rightarrow> CognitionMatch" where
  "match_of v =
     (let m = obj_of v
      in \<lparr>ma_symbol = txt_at m ''symbol'', ma_tick = nmb_at m ''tick'', ma_tokens = texts (field m ''tokens''),
          ma_stored = (field m ''stored'' = JBool True), ma_match = txt_at m ''match'',
          ma_depth = nmb_at m ''depth'', ma_action = txt_at m ''action'',
          ma_livePath = as_str (field m ''livePath''), ma_triggerPath = as_str (field m ''triggerPath''),
          ma_policyPath = as_str (field m ''policyPath''), ma_similarity = as_num (field m ''similarity''),
          ma_exactMatch = opt_bool (field m ''exactMatch''),
          ma_blockedReason = as_str (field m ''blockedReason''),
          ma_rejected = (case field m ''rejected'' of JArr vs \<Rightarrow> Some (texts (JArr vs)) | _ \<Rightarrow> None)\<rparr>)"

subsection \<open>The policy tree\<close>

definition strip_prefix :: "string \<Rightarrow> string \<Rightarrow> string" where
  "strip_prefix p s = (if starts_with s p then slice_from (length p) s else s)"

definition strip_suffix :: "string \<Rightarrow> string \<Rightarrow> string" where
  "strip_suffix p s = (if ends_with s p then take (length s - length p) s else s)"

definition branchesFromPolicyKeys :: "string list \<Rightarrow> CognitionBranch list" where
  "branchesFromPolicyKeys keys =
     map (\<lambda>raw.
       let trimmed = strip_suffix ''/enter.bin''
             (strip_prefix ''policy/current/'' (strip_prefix ''model/explore/'' raw))
       in \<lparr>br_hash = trimmed, br_depth = num_of_nat (length (segments trimmed)), br_visits = Fin 0,
           br_meanEdge = Fin 0, br_confidence = Fin 0, br_policy = ''ENTER'', br_observed = Some False\<rparr>)
       (filter (\<lambda>raw. includes_str raw ''enter.bin'') keys)"

definition thresholdFromPathBook :: "jsval \<Rightarrow> jsnum option" where
  "thresholdFromPathBook payload =
     (case as_plain payload of
        None \<Rightarrow> None
      | Some body \<Rightarrow>
          if nonempty_str (field body ''action'') = None then None
          else finite_num (field body ''resistance''))"

definition thresholdFromExploreBytes :: "(bytes \<Rightarrow> jsval option) \<Rightarrow> bytes \<Rightarrow> jsnum option" where
  "thresholdFromExploreBytes parse b =
     (let json = tryDecodeJsonBytes parse (Some b)
      in coalesce (finite_num json) (thresholdFromPathBook json))"

definition sameStringList :: "string list \<Rightarrow> string list \<Rightarrow> bool" where
  "sameStringList left right = (length left = length right \<and> list_all2 (=) left right)"

definition sameThresholds :: "thresholds \<Rightarrow> thresholds \<Rightarrow> bool" where
  "sameThresholds left right =
     (length left = length right \<and>
      list_all (\<lambda>(key, a). case map_of right key of None \<Rightarrow> False | Some b \<Rightarrow> num_eq a b) left)"

definition ingestExploreListPrefix :: "S3ExploreCompact \<Rightarrow> CognitionState \<Rightarrow> CognitionState" where
  "ingestExploreListPrefix input state =
     (if ex_scope input \<noteq> ''model/paths'' then state
      else let nextEpoch = (case ex_epoch input of Some e \<Rightarrow> e | None \<Rightarrow> cg_epoch state);
               nextThresholds = obj_merge (cg_thresholds state) (ex_thresholds input);
               merged = remdups (cg_policyKeys state @ ex_policyKeys input);
               nextKeys = filterExploreKeys (sort_strings merged) nextThresholds
           in if nextEpoch = cg_epoch state \<and> sameStringList (cg_policyKeys state) nextKeys \<and>
                 sameThresholds (cg_thresholds state) nextThresholds
              then state
              else state\<lparr>cg_epoch := nextEpoch, cg_policyKeys := nextKeys,
                         cg_thresholds := nextThresholds\<rparr>)"

definition ingestPolicyKeys :: "jsval \<Rightarrow> string option \<Rightarrow> CognitionState \<Rightarrow> bool \<times> CognitionState" where
  "ingestPolicyKeys keys epoch state =
     (case as_arr keys of
        None \<Rightarrow> (False, state)
      | Some ks \<Rightarrow>
          (let policyKeys = filter (\<lambda>key. starts_with key ''model/paths/'') (List.map_filter as_str ks)
           in if policyKeys = [] then (False, state)
              else (True, state\<lparr>cg_epoch := (case epoch of
                              Some e \<Rightarrow> if e \<noteq> [] then e else cg_epoch state
                            | None \<Rightarrow> cg_epoch state),
                          cg_policyKeys := filterExploreKeys policyKeys (cg_thresholds state)\<rparr>)))"

text \<open>A path walk's strings, absent or empty alike where the code uses \<^verbatim>\<open>||\<close>.\<close>

definition walkAction :: "jsobj \<Rightarrow> string" where
  "walkAction row =
     (case map_option lower (as_str (field row ''storyPhase'')) of
        Some story \<Rightarrow>
          if story = ''enter'' \<or> story = ''hold'' \<or> story = ''exit'' then story
          else if truthy (field row ''enter'') then ''enter'' else ''exit''
      | None \<Rightarrow> if truthy (field row ''enter'') then ''enter'' else ''exit'')"

definition first_text :: "jsobj \<Rightarrow> string list \<Rightarrow> string" where
  "first_text row ks =
     (case List.map_filter (\<lambda>k. nonempty_str (field row k)) ks of s # _ \<Rightarrow> s | [] \<Rightarrow> [])"

definition walk_match :: "jsnum \<Rightarrow> CognitionMatch option \<Rightarrow> jsobj \<Rightarrow> string \<Rightarrow> CognitionMatch" where
  "walk_match tick prior row symbol =
     (let phase = first_text row [''phase'', ''policy'', ''trigger'', ''live''];
          tokens = segments phase
      in (fresh_match symbol tick tokens
           (case prior of
              None \<Rightarrow> Some []
            | Some p \<Rightarrow> if num_eq (ma_tick p) tick then ma_rejected p
                        else Some (case ma_rejected p of Some r \<Rightarrow> r | None \<Rightarrow> [])))
         \<lparr>ma_stored := (case prior of Some p \<Rightarrow> ma_stored p | None \<Rightarrow> False),
          ma_match := (case prior of Some p \<Rightarrow> ma_match p | None \<Rightarrow> []),
          ma_action := walkAction row,
          ma_livePath := as_str (field row ''live''),
          ma_triggerPath := as_str (field row ''trigger''),
          ma_policyPath := Some (case nonempty_str (field row ''policy'') of Some x \<Rightarrow> x | None \<Rightarrow> phase)\<rparr>)"

definition walk_step ::
    "jsnum \<Rightarrow> (string \<times> CognitionMatch) list \<Rightarrow> jsobj \<Rightarrow> (string \<times> CognitionMatch) list" where
  "walk_step tick matches row =
     (case nonempty_str (field row ''symbol'') of
        None \<Rightarrow> matches
      | Some symbol \<Rightarrow>
          obj_set symbol (walk_match tick (map_of matches symbol) row symbol) matches)"

definition walk_rows :: "jsval list \<Rightarrow> jsobj list" where
  "walk_rows payload =
     filter (\<lambda>row. nonempty_str (field row ''symbol'') \<noteq> None) (List.map_filter as_record payload)"

definition refresh_trie :: "hub_handle \<Rightarrow> hub_handle" where
  "refresh_trie h =
     snd (trySendCommand [(''type'', JStr ''s3''), (''prefix'', JStr ''model/paths'')] h)"

definition ingestPathWalks :: "jsnum \<Rightarrow> jsval \<Rightarrow> cognition \<Rightarrow> bool \<times> cognition" where
  "ingestPathWalks tick payload s =
     (case as_arr payload of
        None \<Rightarrow> (False, s)
      | Some items \<Rightarrow>
          (let rows = walk_rows items
           in if rows = [] then (False, s)
              else let exited = list_ex (\<lambda>row. field row ''outcome'' = JStr ''exit submitted'') rows;
                       c = (cog s)\<lparr>cg_matches := foldl (walk_step tick) (cg_matches (cog s)) rows\<rparr>
                   in if exited then
                        (True, s\<lparr>cog := c\<lparr>cg_policyKeys :=
                                   filter (\<lambda>key. \<not> starts_with key ''model/paths'') (cg_policyKeys c)\<rparr>,
                                 cog_hub := refresh_trie (cog_hub s)\<rparr>)
                      else (True, s\<lparr>cog := c\<rparr>)))"

definition ingest_tree :: "CognitionTreeFrame \<Rightarrow> cognition \<Rightarrow> cognition" where
  "ingest_tree tree s =
     (let state = cog s;
          policyKeys = filterExploreKeys (tr_keys tree) (cg_thresholds state)
      in s\<lparr>cog := \<lparr>cg_epoch = tr_epoch tree, cg_policyKeys = policyKeys,
                   cg_thresholds = cg_thresholds state, cg_matches = [],
                   cg_problem = tr_problem tree, cg_tree = Some tree\<rparr>,
           cog_hub := (if \<not> sameStringList (cg_policyKeys state) policyKeys
                       then refresh_trie (cog_hub s) else cog_hub s)\<rparr>)"

definition ingestCognitionFrame :: "string \<Rightarrow> jsval \<Rightarrow> cognition \<Rightarrow> bool \<times> cognition" where
  "ingestCognitionFrame role payload s =
     (if role = ''keys'' \<and> as_record payload \<noteq> None then
        (let body = obj_of payload;
             r = ingestPolicyKeys (field body ''keys'') (as_str (field body ''epoch'')) (cog s)
         in (fst r, s\<lparr>cog := snd r\<rparr>))
      else if role = ''tree'' \<and> isTree payload then (True, ingest_tree (tree_of payload) s)
      else if role = ''match'' \<and> isMatch payload then (True, set_match (match_of payload) s)
      else (False, s))"

definition layer_step ::
    "(bytes \<Rightarrow> jsval option) \<Rightarrow> string list \<times> thresholds \<Rightarrow> string \<times> bytes \<Rightarrow> string list \<times> thresholds" where
  "layer_step parse acc layer =
     (case acc of (keys, ths) \<Rightarrow>
        case policyKeyFromIndex (fst layer) None of
          None \<Rightarrow> (keys, ths)
        | Some key \<Rightarrow>
            if key = [] \<or> \<not> starts_with key ''model/paths/'' \<or> key \<in> set keys then (keys, ths)
            else (keys @ [key],
                  case thresholdFromExploreBytes parse (snd layer) of
                    Some t \<Rightarrow> obj_set key t ths | None \<Rightarrow> ths))"

definition ingestPolicyLayers ::
    "(bytes \<Rightarrow> jsval option) \<Rightarrow> int \<Rightarrow> (string \<times> bytes) list \<Rightarrow> CognitionState \<Rightarrow> CognitionState" where
  "ingestPolicyLayers parse epoch layers state =
     (case foldl (layer_step parse) ([], []) layers of (keys, ths) \<Rightarrow>
        (let keptKeys = filterExploreKeys keys ths;
             keptThresholds = keep_thresholds keptKeys ths
         in if keptKeys = [] then state
            else state\<lparr>cg_epoch := int_text epoch, cg_policyKeys := keptKeys,
                       cg_thresholds := obj_merge
                         (filter (\<lambda>(key, _). \<not> starts_with key ''model/paths/'') (cg_thresholds state))
                         keptThresholds\<rparr>))"

subsection \<open>The longest known symbol\<close>

definition best_of :: "string \<Rightarrow> string list \<Rightarrow> string option \<Rightarrow> bool" where
  "best_of path known best \<longleftrightarrow>
     (case best of
        None \<Rightarrow> \<forall>s \<in> set known. \<not> at_boundary path s
      | Some b \<Rightarrow> b \<in> set known \<and> at_boundary path b \<and>
          (\<forall>s \<in> set known. at_boundary path s \<longrightarrow> length s \<le> length b))"

lemma best_of_fold: "best_of path known (foldl (better_symbol path) None known)"
proof (induction known rule: rev_induct)
  case (snoc s known)
  then show ?case
    by (cases "foldl (better_symbol path) None known")
      (auto simp: best_of_def better_symbol_def split: option.splits if_splits)
qed (simp add: best_of_def)

lemma at_boundary_cut:
  "at_boundary path s \<Longrightarrow>
     path = s \<and> slice_from (length s + 1) path = [] \<or>
     path = s @ ''/'' @ slice_from (length s + 1) path"
  by (auto simp: at_boundary_def starts_with_def slice_from_def elim!: prefixE)

text \<open>
  A path is cut at the longest known symbol that ends on a segment boundary: the result is a
  known symbol, what remains is the rest of the path, no longer known symbol fits, and the cut fails
  only when no known symbol fits at all.
\<close>

theorem split_at_longest_symbol:
  "case splitSymbol known path of
     None \<Rightarrow> \<forall>s \<in> set known. \<not> at_boundary path s
   | Some (symbol, rest) \<Rightarrow>
       symbol \<in> set known \<and> (path = symbol \<and> rest = [] \<or> path = symbol @ ''/'' @ rest) \<and>
       (\<forall>s \<in> set known. at_boundary path s \<longrightarrow> length s \<le> length symbol)"
  using best_of_fold [of path known] at_boundary_cut [of path]
  by (auto simp: splitSymbol_def best_of_def split: option.splits)

theorem split_at_longest_symbol_witness:
  "splitSymbol SYMBOLS ''BTC/USD/R01'' = Some (''BTC/USD'', ''R01'') \<and>
   list_all (\<lambda>s. length s \<le> length ''BTC/USD'') (filter (at_boundary ''BTC/USD/R01'') SYMBOLS)"
proof -
  have eq: "splitSymbol SYMBOLS ''BTC/USD/R01'' = Some (''BTC/USD'', ''R01'')"
    by (simp add: splitSymbol_def SYMBOLS_def better_symbol_def at_boundary_def starts_with_def slice_from_def)
  with split_at_longest_symbol [of SYMBOLS "''BTC/USD/R01''"] show ?thesis by (simp add: list_all_iff)
qed

subsection \<open>Region rings\<close>

lemma length_paint [simp]: "length (paint b row e) = length row"
  by (simp add: paint_def split: option.split)

lemma length_ring_row:
  "(\<And>l. last_opt prior = Some l \<Longrightarrow> length (snd l) = REGION_COUNT) \<Longrightarrow>
     length (ring_row prior tokens b) = REGION_COUNT"
  unfolding ring_row_def
  by (subst foldl_frame [where g = length]) (auto split: option.split)

lemma paint_fold_other:
  "(\<forall>(i, t) \<in> set es. primaryRegionIndex t \<noteq> Some r) \<Longrightarrow> foldl (paint b) row es ! r = row ! r"
proof (induction es arbitrary: row)
  case (Cons e es)
  have "paint b row e ! r = row ! r"
    using Cons.prems by (cases e) (auto simp: paint_def split: option.splits)
  with Cons show ?case by simp
qed simp

text \<open>
  A region a tick did not observe keeps its last brightness: when no token of the sentence
  names the region, the new row of the ring has the previous row's value there.
\<close>

theorem unobserved_region_keeps_brightness:
  assumes "\<forall>t \<in> set tokens. primaryRegionIndex t \<noteq> Some r" and "last_opt prior = Some l"
  shows "ring_row prior tokens brightness ! r = snd l ! r"
  unfolding ring_row_def using assms
  by (subst paint_fold_other) (auto simp: in_set_enumerate_eq)

theorem unobserved_region_keeps_brightness_witness:
  "ring_row [(Fin 1, [Some (Fin 5), None])] [''R01''] [Fin 9] ! 0 = Some (Fin 5)"
  using unobserved_region_keeps_brightness
    [of "[''R01'']" 0 "[(Fin 1, [Some (Fin 5), None])]" "(Fin 1, [Some (Fin 5), None])" "[Fin 9]"]
  by (simp add: primaryRegionIndex_def is_digit_def int_of_digits_def digit_val_def Let_def last_opt_def)

definition ring_ok :: "(jsnum \<times> region_row) list \<Rightarrow> bool" where
  "ring_ok ring \<longleftrightarrow> length ring \<le> 24 \<and> list_all (\<lambda>p. length (snd p) = REGION_COUNT) ring"

definition cognition_ok :: "cognition \<Rightarrow> bool" where
  "cognition_ok s \<longleftrightarrow>
     (\<forall>symbol ring. map_of (regionRings s) symbol = Some ring \<longrightarrow> ring_ok ring) \<and>
     map_of (regionHistory s) = (\<lambda>symbol. map_option (map snd) (map_of (regionRings s) symbol)) \<and>
     (\<forall>symbol m. map_of (cg_matches (cog s)) symbol = Some m \<longrightarrow> ma_symbol m = symbol)"

lemma last_opt_in: "last_opt xs = Some x \<Longrightarrow> x \<in> set xs"
  by (auto simp: last_opt_def split: if_splits)

lemma ring_ok_extend:
  assumes "ring_ok prior"
  shows "ring_ok (butlast prior @ [(tick, ring_row prior tokens b)])"
    and "ring_ok (take_last 23 prior @ [(tick, ring_row prior tokens b)])"
proof -
  have "length (ring_row prior tokens b) = REGION_COUNT"
    by (rule length_ring_row) (use assms last_opt_in in \<open>fastforce simp: ring_ok_def list_all_iff\<close>)
  then show "ring_ok (butlast prior @ [(tick, ring_row prior tokens b)])"
    "ring_ok (take_last 23 prior @ [(tick, ring_row prior tokens b)])"
    using assms set_take_last [of 23 prior]
    by (auto simp: ring_ok_def list_all_iff dest: in_set_butlastD)
qed

lemma noteRegions_ok:
  assumes "cognition_ok s"
  shows "cognition_ok (noteRegions symbol tick tokens b s)"
proof -
  have "ring_ok (case map_of (regionRings s) symbol of Some r \<Rightarrow> r | None \<Rightarrow> [])"
    using assms by (auto simp: cognition_ok_def ring_ok_def split: option.splits)
  note ext = ring_ok_extend [OF this]
  from assms show ?thesis
    by (auto simp: cognition_ok_def noteRegions_def Let_def update_conv' map_of_obj_set fun_eq_iff ext)
qed

lemma set_match_ok: "cognition_ok s \<Longrightarrow> cognition_ok (set_match m s)"
  by (auto simp: cognition_ok_def set_match_def map_of_obj_set)

lemma symbols_ok [simp]: "cognition_ok (s\<lparr>symbols := k\<rparr>) = cognition_ok s"
  by (simp add: cognition_ok_def)

lemma note_sentence_ok: "cognition_ok s \<Longrightarrow> cognition_ok (note_sentence symbol tick tokens s)"
  by (simp add: note_sentence_def Let_def set_match_ok)

lemma trainRegions_ok: "cognition_ok s \<Longrightarrow> cognition_ok (snd (ingestTrainRegions tick index payload s))"
  by (auto simp: ingestTrainRegions_def Let_def note_sentence_ok noteRegions_ok
      split: prod.splits option.splits)

lemma trainReject_ok: "cognition_ok s \<Longrightarrow> cognition_ok (snd (ingestTrainReject tick index s))"
  by (auto simp: ingestTrainReject_def Let_def cognition_ok_def map_of_obj_set fresh_match_def
      split: option.splits)

definition filed :: "(string \<times> CognitionMatch) list \<Rightarrow> bool" where
  "filed ms \<longleftrightarrow> (\<forall>symbol m. map_of ms symbol = Some m \<longrightarrow> ma_symbol m = symbol)"

lemma walk_step_filed: "filed ms \<Longrightarrow> filed (walk_step tick ms row)"
  by (auto simp: filed_def walk_step_def walk_match_def fresh_match_def Let_def map_of_obj_set
      split: option.splits if_splits)

lemma pathWalks_ok:
  assumes "cognition_ok s"
  shows "cognition_ok (snd (ingestPathWalks tick payload s))"
proof -
  have "filed (foldl (walk_step tick) (cg_matches (cog s)) rows)" for rows
    by (rule foldl_invariant) (use assms in \<open>auto simp: cognition_ok_def filed_def intro: walk_step_filed [unfolded filed_def, rule_format]\<close>)
  then show ?thesis
    using assms by (auto simp: ingestPathWalks_def Let_def cognition_ok_def filed_def split: option.split)
qed

lemma cog_only_ok:
  "cognition_ok s \<Longrightarrow> filed (cg_matches c) \<Longrightarrow> cognition_ok (s\<lparr>cog := c, cog_hub := h\<rparr>)"
  by (simp add: cognition_ok_def filed_def)

lemma cognition_filed: "cognition_ok s \<Longrightarrow> filed (cg_matches (cog s))"
  by (simp add: cognition_ok_def filed_def)

lemma matches_keep [simp]:
  "cg_matches (ingestExploreListPrefix input c) = cg_matches c"
  "cg_matches (snd (ingestPolicyKeys keys epoch c)) = cg_matches c"
  "cg_matches (ingestPolicyLayers parse ep layers c) = cg_matches c"
  by (simp_all add: ingestExploreListPrefix_def ingestPolicyKeys_def ingestPolicyLayers_def Let_def
      split: option.split prod.split)

lemma cog_only_ok': "cognition_ok s \<Longrightarrow> filed (cg_matches c) \<Longrightarrow> cognition_ok (s\<lparr>cog := c\<rparr>)"
  by (simp add: cognition_ok_def filed_def)

lemma frame_cognition_ok: "cognition_ok s \<Longrightarrow> cognition_ok (snd (ingestCognitionFrame role payload s))"
  using cognition_filed [of s]
  by (auto simp: ingestCognitionFrame_def Let_def ingest_tree_def filed_def
      intro!: set_match_ok cog_only_ok cog_only_ok')

datatype cognition_op =
    TrainRegions jsnum string jsval
  | TrainReject jsnum string
  | PathWalks jsnum jsval
  | CognitionFrame string jsval
  | ExploreList S3ExploreCompact
  | PolicyLayers int "(string \<times> bytes) list"

fun apply_cognition ::
    "(bytes \<Rightarrow> jsval option) \<Rightarrow> cognition_op \<Rightarrow> cognition \<Rightarrow> cognition" where
  "apply_cognition parse (TrainRegions tick index payload) s = snd (ingestTrainRegions tick index payload s)"
| "apply_cognition parse (TrainReject tick index) s = snd (ingestTrainReject tick index s)"
| "apply_cognition parse (PathWalks tick payload) s = snd (ingestPathWalks tick payload s)"
| "apply_cognition parse (CognitionFrame role payload) s = snd (ingestCognitionFrame role payload s)"
| "apply_cognition parse (ExploreList input) s = s\<lparr>cog := ingestExploreListPrefix input (cog s)\<rparr>"
| "apply_cognition parse (PolicyLayers epoch layers) s =
     s\<lparr>cog := ingestPolicyLayers parse epoch layers (cog s)\<rparr>"

lemma apply_cognition_ok: "cognition_ok s \<Longrightarrow> cognition_ok (apply_cognition parse x s)"
  using cognition_filed [of s]
  by (cases x) (auto simp: trainRegions_ok trainReject_ok pathWalks_ok frame_cognition_ok
      intro!: cog_only_ok')

text \<open>
  C14. Whatever frames arrive, every region ring stays bounded (at most 24 rows of 23 cells), the
  history store shows exactly the rings' rows, and every match is filed under its own symbol.
\<close>

theorem cognition_store_invariant:
  "let s = foldl (\<lambda>s x. apply_cognition parse x s) cognition_start ops
   in (\<forall>symbol. pred_option (\<lambda>ring. length ring \<le> 24 \<and> list_all (\<lambda>p. length (snd p) = 23) ring)
         (map_of (regionRings s) symbol)) \<and>
      map_of (regionHistory s) = (\<lambda>symbol. map_option (map snd) (map_of (regionRings s) symbol)) \<and>
      (\<forall>symbol. pred_option (\<lambda>m. ma_symbol m = symbol) (map_of (cg_matches (cog s)) symbol))"
proof -
  have "cognition_ok (foldl (\<lambda>s x. apply_cognition parse x s) cognition_start ops)"
  proof (rule foldl_invariant)
    show "cognition_ok cognition_start" by (simp add: cognition_ok_def cognition_start_def)
  qed (rule apply_cognition_ok)
  then show ?thesis
    by (simp add: cognition_ok_def ring_ok_def REGION_COUNT_def Let_def pred_option_def)
qed

subsection \<open>Listing chunks\<close>

lemma update_same: "map_of ob k = Some v \<Longrightarrow> AList.update k v ob = ob"
  by (induction ob) auto

lemma obj_set_same: "map_of ob k = Some v \<Longrightarrow> obj_set k v ob = ob"
  by (auto simp: obj_set_def update_same dest: map_of_SomeD intro: rev_image_eqI)

lemma put_known_all:
  "\<forall>(k, v) \<in> set es. map_of ob k = Some v \<Longrightarrow> foldl (\<lambda>d (k, v). obj_set k v d) ob es = ob"
  by (induction es) (auto simp: obj_set_same)

lemma obj_merge_again:
  assumes "distinct (map fst b)"
  shows "obj_merge (obj_merge a b) b = obj_merge a b"
proof -
  have "\<forall>(k, v) \<in> set b. map_of (obj_merge a b) k = Some v"
    using assms by (auto simp: get_obj_merge)
  then show ?thesis by (simp add: obj_merge_def [of "obj_merge a b"] put_known_all)
qed

definition listed :: "string list \<Rightarrow> string list \<Rightarrow> thresholds \<Rightarrow> string list" where
  "listed held new ths = filterExploreKeys (sort_strings (remdups (held @ new))) ths"

lemma set_listed: "set (listed held new ths) = {k \<in> set held \<union> set new. explorePathKept k ths}"
  by (auto simp: listed_def set_filterExploreKeys)

lemma sorted_distinct_listed: "sorted (listed held new ths) \<and> distinct (listed held new ths)"
  using sorted_sort_strings by (auto simp: listed_def filterExploreKeys_def sorted_wrt_filter)

lemma listed_again: "listed (listed held new ths) new ths = listed held new ths"
  by (rule sorted_distinct_set_unique) (auto simp: sorted_distinct_listed set_listed)

lemma sameStringList_eq: "sameStringList a b \<longleftrightarrow> a = b"
  by (auto simp: sameStringList_def list_all2_eq [symmetric])

lemma explore_cases:
  "ex_scope input = ''model/paths'' \<Longrightarrow>
   (let nt = obj_merge (cg_thresholds c) (ex_thresholds input);
        nk = listed (cg_policyKeys c) (ex_policyKeys input) nt;
        ne = (case ex_epoch input of Some e \<Rightarrow> e | None \<Rightarrow> cg_epoch c)
    in (ingestExploreListPrefix input c = c \<and> cg_policyKeys c = nk \<and> cg_epoch c = ne) \<or>
       ingestExploreListPrefix input c = c\<lparr>cg_epoch := ne, cg_policyKeys := nk, cg_thresholds := nt\<rparr>)"
  by (auto simp: ingestExploreListPrefix_def listed_def Let_def sameStringList_eq)

text \<open>
  Chunks of a listing unite into one book: after a chunk the keys are sorted, without
  duplicates, and exactly the held and listed keys that the prune rule keeps under the united
  thresholds; and a chunk delivered again changes nothing.
\<close>

theorem explore_chunk_united:
  assumes "ex_scope input = ''model/paths''" and "distinct (map fst (ex_thresholds input))"
  shows "let c' = ingestExploreListPrefix input c;
             ths = obj_merge (cg_thresholds c) (ex_thresholds input)
    in sorted (cg_policyKeys c') \<and> distinct (cg_policyKeys c') \<and>
       set (cg_policyKeys c') =
         {k \<in> set (cg_policyKeys c) \<union> set (ex_policyKeys input). explorePathKept k ths} \<and>
       ingestExploreListPrefix input c' = c'"
proof -
  let ?nt = "obj_merge (cg_thresholds c) (ex_thresholds input)"
  let ?nk = "listed (cg_policyKeys c) (ex_policyKeys input) ?nt"
  let ?c' = "ingestExploreListPrefix input c"
  have keys: "cg_policyKeys ?c' = ?nk"
    using explore_cases [OF assms(1), of c] by (auto simp: Let_def)
  have again: "ingestExploreListPrefix input ?c' = ?c'"
  proof (cases "?c' = c")
    case False
    define ne where "ne = (case ex_epoch input of Some e \<Rightarrow> e | None \<Rightarrow> cg_epoch c)"
    have c': "?c' = c\<lparr>cg_epoch := ne, cg_policyKeys := ?nk, cg_thresholds := ?nt\<rparr>"
      using explore_cases [OF assms(1), of c] False by (auto simp: Let_def ne_def)
    then have "cg_epoch ?c' = ne" by simp
    moreover have "(case ex_epoch input of Some e \<Rightarrow> e | None \<Rightarrow> ne) = ne"
      by (simp add: ne_def split: option.split)
    ultimately have ep: "(case ex_epoch input of Some e \<Rightarrow> e | None \<Rightarrow> cg_epoch ?c') = ne"
      by (cases "ex_epoch input") simp_all
    have th: "obj_merge (cg_thresholds ?c') (ex_thresholds input) = ?nt"
      using c' by (simp add: obj_merge_again [OF assms(2)])
    from explore_cases [OF assms(1), of ?c']
    have "ingestExploreListPrefix input ?c' = ?c' \<or>
        ingestExploreListPrefix input ?c' =
          ?c'\<lparr>cg_epoch := ne, cg_policyKeys := ?nk, cg_thresholds := ?nt\<rparr>"
      unfolding Let_def ep th keys listed_again by blast
    then show ?thesis using c' by simp
  qed simp
  show ?thesis
    using again sorted_distinct_listed [of "cg_policyKeys c" "ex_policyKeys input" ?nt]
    by (simp add: Let_def keys set_listed)
qed

theorem explore_chunk_united_witness:
  "let input = \<lparr>ex_scope = ''model/paths'', ex_epoch = None, ex_policyKeys = [''model/paths/b'', ''model/paths/a''],
                ex_thresholds = []\<rparr>;
       c' = ingestExploreListPrefix input (cog cognition_start)
   in sorted (cg_policyKeys c') \<and> ingestExploreListPrefix input c' = c'"
  using explore_chunk_united
    [of "\<lparr>ex_scope = ''model/paths'', ex_epoch = None, ex_policyKeys = [''model/paths/b'', ''model/paths/a''],
          ex_thresholds = []\<rparr>" "cog cognition_start"]
  by (simp add: Let_def)

end
