(* ===== verification/Pixels.thy ===== *)
theory Pixels
  imports JsNumber
begin

text \<open>
  What the drawings share: readings that are exact and of moderate size, the position of a reading
  in its range, where a scaled fraction of a whole number of pixels ends up, and the loop that runs
  over a window for its least and greatest reading (\<open>running_min\<close>, \<open>running_max\<close>: \<^verbatim>\<open>ui/sparkline.tsx\<close> and
  the tiles of the long-tail page). Used by that page's charts, the latent scatter and the inspector.
\<close>

text \<open>A reading the format holds exactly, of moderate size.\<close>

definition drawable :: "jsnum \<Rightarrow> bool" where
  "drawable v \<longleftrightarrow> (case v of Fin q \<Rightarrow> fl q = Fin q \<and> \<bar>q\<bar> \<le> of_int (2 ^ 50) | _ \<Rightarrow> False)"

lemma drawableD: "drawable v \<Longrightarrow> \<exists>q. v = Fin q \<and> fl q = Fin q \<and> \<bar>q\<bar> \<le> of_int (2 ^ 50)"
  by (cases v) (simp_all add: drawable_def)

lemma num_sub_fl: "num_sub (Fin a) (Fin b) = fl (a - b)"
  by (simp add: num_sub_def)

lemma ratio_in_unit:
  assumes "a \<le> q" "q \<le> b" "\<bar>a\<bar> \<le> of_int (2 ^ 51)" "\<bar>b\<bar> \<le> of_int (2 ^ 51)"
  obtains d s where "fl (q - a) = Fin d" "fl (b - a) = Fin s" "0 \<le> d" "d \<le> s" "s \<noteq> 0 \<Longrightarrow> num_in 0 1 (fl (d / s))"
proof -
  have "b - a \<le> of_int (2 ^ 53)" using assms(3,4) by simp
  then have "num_in (of_int 0) (of_int (2 ^ 53)) (fl (b - a))" using assms(1,2) by (intro fl_in) simp_all
  then obtain s where s: "fl (b - a) = Fin s" "0 \<le> s" by (auto simp: num_in_iff)
  have "num_le (Fin 0) (fl (q - a))" using assms(1) by (intro b64.rnd_nonneg) simp
  moreover have "num_le (fl (q - a)) (Fin s)" using fl_mono [of "q - a" "b - a"] assms(2) s by simp
  ultimately obtain d where d: "fl (q - a) = Fin d" "0 \<le> d" "d \<le> s"
    using num_between_finite by blast
  then have "s \<noteq> 0 \<Longrightarrow> num_in 0 1 (fl (d / s))" using s by (intro fl_unit) simp_all
  with d s that show thesis by blast
qed

lemma scaled_within:
  assumes "num_in 0 1 f" "0 \<le> n" "n \<le> 2 ^ 52"
  shows "num_in 0 (of_int n) (num_mul f (Fin (of_int n)))"
proof -
  obtain q where q: "f = Fin q" "0 \<le> q" "q \<le> 1" using assms(1) by (auto simp: num_in_iff)
  have "q * of_int n \<le> of_int n" "0 \<le> q * (of_int n :: rat)"
    using q assms(2) by (simp_all add: mult_left_le_one_le)
  then show ?thesis using fl_in [of 0 "q * of_int n" n] assms q by simp
qed

lemma add_within:
  assumes "num_in 0 (of_int n) x" "\<bar>m\<bar> \<le> 2 ^ 51" "0 \<le> n" "n \<le> 2 ^ 51"
  shows "num_in (of_int m) (of_int (m + n)) (num_add (Fin (of_int m)) x)"
    "num_in (of_int (m - n)) (of_int m) (num_sub (Fin (of_int m)) x)"
proof -
  obtain q where q: "x = Fin q" "0 \<le> q" "q \<le> of_int n" using assms(1) by (auto simp: num_in_iff)
  show "num_in (of_int m) (of_int (m + n)) (num_add (Fin (of_int m)) x)"
    using fl_in [of m "of_int m + q" "m + n"] assms(2-) q by simp
  show "num_in (of_int (m - n)) (of_int m) (num_sub (Fin (of_int m)) x)"
    using fl_in [of "m - n" "of_int m - q" m] assms(2-) q by (simp add: num_sub_fl)
qed

lemma num_sub_int: "\<bar>a - b\<bar> \<le> 2 ^ 53 \<Longrightarrow> num_sub (Fin (of_int a)) (Fin (of_int b)) = Fin (of_int (a - b))"
  using b64.rnd_int [of "a - b"] by (simp add: num_sub_fl)

lemma num_max_int: "num_max (Fin (of_int a)) (Fin (of_int b)) = Fin (of_int (max a b))"
  by (simp add: num_max_def max_def)

lemma num_min_fold:
  "(\<forall>x \<in> set xs. x \<noteq> NaN) \<Longrightarrow> a \<noteq> NaN \<Longrightarrow>
     num_le (foldl num_min a xs) a \<and> (\<forall>x \<in> set xs. num_le (foldl num_min a xs) x)"
proof (induction xs arbitrary: a)
  case (Cons x xs)
  have "num_min a x \<noteq> NaN" using Cons.prems by (simp add: num_min_def)
  moreover have "num_le (num_min a x) a \<and> num_le (num_min a x) x"
    using num_min_le [of a x] Cons.prems by simp
  moreover from Cons.prems have "\<forall>y \<in> set xs. y \<noteq> NaN" by simp
  ultimately have "num_le (foldl num_min (num_min a x) xs) (num_min a x)"
    "\<forall>y \<in> set xs. num_le (foldl num_min (num_min a x) xs) y" "num_le (num_min a x) a" "num_le (num_min a x) x"
    using Cons.IH [of "num_min a x"] by simp_all
  then show ?case using num_le_trans [of "foldl num_min (num_min a x) xs" "num_min a x"] by simp
qed simp

lemma num_max_fold:
  "(\<forall>x \<in> set xs. x \<noteq> NaN) \<Longrightarrow> a \<noteq> NaN \<Longrightarrow>
     num_le a (foldl num_max a xs) \<and> (\<forall>x \<in> set xs. num_le x (foldl num_max a xs))"
proof (induction xs arbitrary: a)
  case (Cons x xs)
  have "num_max a x \<noteq> NaN" using Cons.prems by (simp add: num_max_def)
  moreover have le: "num_le a (num_max a x)" "num_le x (num_max a x)" using num_max_ge [of a x] Cons.prems by simp_all
  ultimately have "num_le (num_max a x) (foldl num_max (num_max a x) xs)"
    "\<forall>y \<in> set xs. num_le y (foldl num_max (num_max a x) xs)"
    using Cons.IH [of "num_max a x"] Cons.prems by simp_all
  with le show ?case using num_le_trans [of _ "num_max a x" "foldl num_max (num_max a x) xs"] by simp
qed simp

lemma fold_extreme_in:
  "foldl num_min a xs \<in> insert a (set xs) \<or> foldl num_min a xs = NaN"
  "foldl num_max b xs \<in> insert b (set xs) \<or> foldl num_max b xs = NaN"
  by (induction xs arbitrary: a b) (auto simp: num_min_def num_max_def)

text \<open>A range a domain may be: finite, of moderate size.\<close>

definition plain_range :: "jsnum \<times> jsnum \<Rightarrow> bool" where
  "plain_range d \<longleftrightarrow> (\<exists>a b. d = (Fin a, Fin b) \<and> \<bar>a\<bar> \<le> of_int (2 ^ 51) \<and> \<bar>b\<bar> \<le> of_int (2 ^ 51))"

lemma drawable_plain: "drawable a \<Longrightarrow> drawable b \<Longrightarrow> plain_range (a, b)"
  by (auto simp: plain_range_def dest!: drawableD)

lemma drawable_small: "\<bar>n\<bar> \<le> 2 ^ 50 \<Longrightarrow> drawable (Fin (of_int n))"
  using b64.rnd_int [of n] by (simp add: drawable_def flip: of_int_abs)

text \<open>The ends of a list of such readings.\<close>

lemma fold_extremes:
  assumes "vs \<noteq> []" "list_all drawable vs"
  shows "drawable (foldl num_min PInf vs)" "drawable (foldl num_max NInf vs)"
    "\<forall>v \<in> set vs. num_le (foldl num_min PInf vs) v" "\<forall>v \<in> set vs. num_le v (foldl num_max NInf vs)"
proof -
  have nn: "\<forall>v \<in> set vs. v \<noteq> NaN" using assms(2) by (auto simp: list_all_iff drawable_def)
  let ?l = "foldl num_min PInf vs" and ?h = "foldl num_max NInf vs"
  show le: "\<forall>v \<in> set vs. num_le ?l v" "\<forall>v \<in> set vs. num_le v ?h"
    using num_min_fold [OF nn, of PInf] num_max_fold [OF nn, of NInf] by simp_all
  obtain x where x: "x \<in> set vs" using assms(1) by (cases vs) auto
  then have fx: "drawable x" using assms(2) by (simp add: list_all_iff)
  have "?l \<noteq> NaN" "?h \<noteq> NaN" "?l \<noteq> PInf" "?h \<noteq> NInf"
    using le x fx by (cases x; auto simp: drawable_def)+
  then show "drawable ?l" "drawable ?h"
    using fold_extreme_in(1) [of PInf vs] fold_extreme_in(2) [of NInf vs] assms(2) by (auto simp: list_all_iff)
qed

text \<open>The running minimum and maximum the spark lines keep with \<^verbatim>\<open><\<close> and \<^verbatim>\<open>>\<close>.\<close>

definition running_min :: "jsnum list \<Rightarrow> jsnum" where
  "running_min vs = foldl (\<lambda>m x. if num_lt x m then x else m) (hd vs) (tl vs)"

definition running_max :: "jsnum list \<Rightarrow> jsnum" where
  "running_max vs = foldl (\<lambda>m x. if num_lt m x then x else m) (hd vs) (tl vs)"

lemma running_fold:
  "list_all drawable xs \<Longrightarrow> drawable a \<Longrightarrow>
     (let m = foldl (\<lambda>m x. if num_lt x m then x else m) a xs
      in drawable m \<and> num_le m a \<and> list_all (\<lambda>x. num_le m x) xs) \<and>
     (let m = foldl (\<lambda>m x. if num_lt m x then x else m) a xs
      in drawable m \<and> num_le a m \<and> list_all (\<lambda>x. num_le x m) xs)"
proof (induction xs arbitrary: a)
  case Nil
  then show ?case by (auto dest: drawableD)
next
  case (Cons x xs)
  have "drawable x" using Cons.prems by simp
  with Cons.prems(2) obtain p q where pq: "a = Fin p" "x = Fin q" using drawableD by blast
  let ?lo = "if num_lt x a then x else a" and ?hi = "if num_lt a x then x else a"
  have d: "drawable ?lo" "drawable ?hi" "list_all drawable xs" using Cons.prems by simp_all
  have o: "num_le ?lo a" "num_le ?lo x" "num_le a ?hi" "num_le x ?hi" using pq by auto
  let ?m = "foldl (\<lambda>m x. if num_lt x m then x else m) ?lo xs" and ?n = "foldl (\<lambda>m x. if num_lt m x then x else m) ?hi xs"
  have m: "drawable ?m" "num_le ?m ?lo" "list_all (num_le ?m) xs" and n: "drawable ?n" "num_le ?hi ?n" "list_all (\<lambda>x. num_le x ?n) xs"
    using Cons.IH [OF d(3,1)] Cons.IH [OF d(3,2)] by (simp_all only: Let_def)
  have "num_le ?m a" "num_le ?m x" using num_le_trans [OF m(2)] o by blast+
  moreover have "num_le a ?n" "num_le x ?n" using num_le_trans [OF _ n(2)] o by blast+
  ultimately show ?case using m n by (simp only: foldl_Cons list.pred_inject Let_def simp_thms)
qed

lemma running_bounds:
  assumes "vs \<noteq> []" "list_all drawable vs"
  shows "drawable (running_min vs)" "drawable (running_max vs)"
    "list_all (\<lambda>v. num_le (running_min vs) v \<and> num_le v (running_max vs)) vs"
  using running_fold [of "tl vs" "hd vs"] assms
  by (cases vs; simp add: running_min_def running_max_def Let_def list_all_iff)+

end
