(* ===== verification/LongtailStats.thy ===== *)
theory LongtailStats
  imports Lifecycle Cognition Pixels
begin

text \<open>
  The summaries and verdicts of \<^verbatim>\<open>collections/longtail.ts\<close> (its recorder is in the next
  theory): what one sample of the trajectory holds, how it is folded from desk rows, the path
  book and the policy matches, and how a window of samples is judged. Counts are numbers,
  because a sample restored from history carries whatever finite number was stored.
\<close>

subsection \<open>Tones\<close>

datatype AlertVariant = ASuccess | AWarning | AError | AInfo

primrec alertVariant :: "Tone \<Rightarrow> AlertVariant" where
  "alertVariant Good = ASuccess"
| "alertVariant Warn = AWarning"
| "alertVariant Bad = AError"
| "alertVariant Info = AInfo"
| "alertVariant Neutral = AInfo"

definition winRateTone :: "jsnum option \<Rightarrow> Tone" where
  "winRateTone v =
     (case v of
        None \<Rightarrow> Neutral
      | Some x \<Rightarrow> if num_le (fl (55 / 100)) x then Good
                  else if num_le (fl (45 / 100)) x then Warn else Bad)"

definition returnTone :: "jsnum option \<Rightarrow> Tone" where
  "returnTone v =
     (case v of
        None \<Rightarrow> Neutral
      | Some x \<Rightarrow> if num_lt (Fin 0) x then Good
                  else if num_le (fl (- 1 / 100)) x then Warn else Bad)"

definition matchTone :: "jsnum option \<Rightarrow> Tone" where
  "matchTone v =
     (case v of
        None \<Rightarrow> Neutral
      | Some x \<Rightarrow> if num_le (fl (5 / 10)) x then Good
                  else if num_le (fl (2 / 10)) x then Warn else Bad)"

definition resistanceTone :: "jsnum option \<Rightarrow> jsnum \<Rightarrow> Tone" where
  "resistanceTone v floor_res =
     (case v of
        None \<Rightarrow> Neutral
      | Some x \<Rightarrow> if num_le x floor_res then Good
                  else if num_le x (fl (5 / 10)) then Info
                  else if num_le x EXPLORE_PRUNE_THRESHOLD then Warn else Bad)"

subsection \<open>Samples\<close>

record BookDeskStats =
  bs_closed :: jsnum
  bs_open :: jsnum
  bs_wins :: jsnum
  bs_winRate :: "jsnum option"
  bs_meanReturn :: "jsnum option"
  bs_medianReturn :: "jsnum option"
  bs_worstReturn :: "jsnum option"
  bs_avgHoldNs :: "jsnum option"

record PathBookSnapshot =
  ps_developed :: "jsnum option"
  ps_promoted :: "jsnum option"
  ps_meanResistance :: "jsnum option"
  ps_added :: "jsnum option"
  ps_removed :: "jsnum option"

record PolicySnapshot =
  pl_checks :: jsnum
  pl_hits :: jsnum
  pl_hitRate :: "jsnum option"

record ExitMix =
  xm_profit :: jsnum
  xm_stop :: jsnum
  xm_policy :: jsnum
  xm_other :: jsnum
  xm_total :: jsnum

record OpenLotTelemetry =
  ol_open :: "jsnum option"
  ol_invalidation :: "jsnum option"
  ol_trailing :: "jsnum option"
  ol_damage :: "jsnum option"
  ol_armed :: "jsnum option"
  ol_maxProximity :: "jsnum option"

text \<open>The three nested records \<^verbatim>\<open>exits\<close> and \<^verbatim>\<open>stops\<close> are functions of the ledger.\<close>

record LongtailSample =
  ls_at :: jsnum
  ls_books :: "Book \<Rightarrow> BookDeskStats"
  ls_paperWin :: "jsnum option"
  ls_paperEdge :: "jsnum option"
  ls_realWin :: "jsnum option"
  ls_realEdge :: "jsnum option"
  ls_realArmed :: "jsnum option"
  ls_eligibleResistance :: jsnum
  ls_paths :: PathBookSnapshot
  ls_policy :: PolicySnapshot
  ls_exits :: "Book \<Rightarrow> ExitMix"
  ls_stops :: "Book \<Rightarrow> OpenLotTelemetry"

definition pct :: "jsnum \<Rightarrow> string" where
  "pct v = to_fixed 1 (num_mul (Fin 100) v) @ ''%''"

definition emptyBookStats :: BookDeskStats where
  "emptyBookStats = \<lparr>bs_closed = Fin 0, bs_open = Fin 0, bs_wins = Fin 0, bs_winRate = None,
     bs_meanReturn = None, bs_medianReturn = None, bs_worstReturn = None, bs_avgHoldNs = None\<rparr>"

definition emptyExitMix :: ExitMix where
  "emptyExitMix = \<lparr>xm_profit = Fin 0, xm_stop = Fin 0, xm_policy = Fin 0, xm_other = Fin 0,
     xm_total = Fin 0\<rparr>"

definition emptyStops :: OpenLotTelemetry where
  "emptyStops = \<lparr>ol_open = None, ol_invalidation = None, ol_trailing = None, ol_damage = None,
     ol_armed = None, ol_maxProximity = None\<rparr>"

definition emptyPaths :: PathBookSnapshot where
  "emptyPaths = \<lparr>ps_developed = None, ps_promoted = None, ps_meanResistance = None,
     ps_added = None, ps_removed = None\<rparr>"

definition emptyPolicy :: PolicySnapshot where
  "emptyPolicy = \<lparr>pl_checks = Fin 0, pl_hits = Fin 0, pl_hitRate = None\<rparr>"

subsection \<open>Statistics\<close>

text \<open>The comparator \<^verbatim>\<open>a - b\<close>; a \<^verbatim>\<open>NaN\<close> difference counts as equal.\<close>

definition num_before :: "jsnum \<Rightarrow> jsnum \<Rightarrow> bool" where
  "num_before a b = (\<not> num_lt (Fin 0) (num_sub a b))"

text \<open>On a non-empty list, as it is called.\<close>

definition median :: "jsnum list \<Rightarrow> jsnum" where
  "median values =
     (let sorted_values = sort_by num_before values; mid = length values div 2
      in if length values mod 2 = 0
         then num_div (num_add (sorted_values ! (mid - 1)) (sorted_values ! mid)) (Fin 2)
         else sorted_values ! mid)"

definition mean :: "jsnum list \<Rightarrow> jsnum option" where
  "mean values =
     (if values \<noteq> [] then Some (num_div (sum_num values) (num_of_nat (length values))) else None)"

datatype Bucket = Profit | Stop | Policy | Other

definition classifyExit :: "string \<Rightarrow> Bucket" where
  "classifyExit trigger =
     (let label = lower trigger; has = includes_str label
      in if has ''exit branch'' \<or> has ''learned_exit'' \<or> has ''policy exit'' then Policy
         else if has ''cleared friction'' \<or> has ''pct profit'' \<or> has ''trailing'' \<or> has ''harvest'' \<or>
                 (has ''profit'' \<and> \<not> has ''stop'') then Profit
         else if has ''invalidation'' \<or> has ''friction dip'' \<or> has ''stop'' \<or> has ''exhaustion'' \<or>
                 has ''evaporation'' \<or> has ''drag'' then Stop
         else Other)"

definition count_num :: "('a \<Rightarrow> bool) \<Rightarrow> 'a list \<Rightarrow> jsnum" where
  "count_num P xs = num_of_nat (length (filter P xs))"

text \<open>The lots that count: closed on the ledger with a known return.\<close>

definition scored_rows :: "(string \<Rightarrow> int option) \<Rightarrow> jsobj list \<Rightarrow> Book \<Rightarrow> jsobj list" where
  "scored_rows dp rows book =
     filter (\<lambda>row. countsTowardBookPerformance row book)
       (filter (\<lambda>row. ro_returnPct (positionReadout dp row) \<noteq> None) (closedOnBook dp rows book))"

definition book_returns :: "(string \<Rightarrow> int option) \<Rightarrow> jsobj list \<Rightarrow> Book \<Rightarrow> jsnum list" where
  "book_returns dp rows book =
     List.map_filter (\<lambda>row. ro_returnPct (positionReadout dp row)) (scored_rows dp rows book)"

definition summarizeBook :: "(string \<Rightarrow> int option) \<Rightarrow> jsobj list \<Rightarrow> Book \<Rightarrow> BookDeskStats" where
  "summarizeBook dp rows book =
     (let onThisBook = filter (\<lambda>row. onBook row book) rows;
          settled_rows = filter (\<lambda>row. ro_returnPct (positionReadout dp row) \<noteq> None)
                           (closedOnBook dp rows book);
          returns = book_returns dp rows book;
          wins = num_of_nat (length (filter (num_lt (Fin 0)) returns));
          holds = filter (num_lt (Fin 0))
                    (List.map_filter (\<lambda>row. ro_holdNs (positionReadout dp row)) settled_rows)
      in \<lparr>bs_closed = num_of_nat (length (scored_rows dp rows book)),
          bs_open = num_of_nat (length (openOnBook dp onThisBook book)),
          bs_wins = wins,
          bs_winRate = (if returns \<noteq> [] then Some (num_div wins (num_of_nat (length returns))) else None),
          bs_meanReturn = mean returns,
          bs_medianReturn = (if returns \<noteq> [] then Some (median returns) else None),
          bs_worstReturn = (if returns \<noteq> [] then Some (foldl num_min PInf returns) else None),
          bs_avgHoldNs = mean holds\<rparr>)"

definition stop_armed :: "DynamicStoploss \<Rightarrow> bool" where
  "stop_armed st =
     (st_state st = Some Critical \<or> st_state st = Some Dangerous \<or> st_state st = Some Triggered \<or>
      num_le (fl (7 / 10)) (st_proximity st) \<or> num_le (fl (7 / 10)) (st_downside_pressure st))"

definition summarizeStops :: "(string \<Rightarrow> int option) \<Rightarrow> jsobj list \<Rightarrow> Book \<Rightarrow> OpenLotTelemetry" where
  "summarizeStops dp rows book =
     (let open_rows = filter (\<lambda>row. onBook row book \<and> \<not> ro_closed (positionReadout dp row)) rows;
          stops = List.map_filter (\<lambda>row. normalizeStoploss (field row ''stoploss'')) open_rows;
          positive = filter (num_lt (Fin 0));
          maxProximity = foldl (\<lambda>m p. if num_lt m p then p else m) (Fin 0) (map st_proximity stops)
      in \<lparr>ol_open = (if open_rows \<noteq> [] then Some (num_of_nat (length open_rows)) else None),
          ol_invalidation = mean (positive (map st_downside_pressure stops)),
          ol_trailing = mean (positive (map st_proximity (filter st_has_floor stops))),
          ol_damage = mean (positive (map st_downside_magnitude_ratio stops)),
          ol_armed = (if stops \<noteq> [] then Some (count_num stop_armed stops) else None),
          ol_maxProximity = (if stops \<noteq> [] \<and> num_lt (Fin 0) maxProximity
                             then Some maxProximity else None)\<rparr>)"

definition row_triggers :: "jsobj \<Rightarrow> string list" where
  "row_triggers row =
     (let triggers = (case field row ''outcome_triggers'' of
            JArr vs \<Rightarrow> List.map_filter nonempty_str vs | _ \<Rightarrow> [])
      in if triggers \<noteq> [] then triggers
         else case nonempty_str (field row ''exit_trigger'') of Some t \<Rightarrow> [t] | None \<Rightarrow> [])"

definition book_triggers :: "(string \<Rightarrow> int option) \<Rightarrow> jsobj list \<Rightarrow> Book \<Rightarrow> string list" where
  "book_triggers dp rows book = concat (map row_triggers (closedOnBook dp rows book))"

definition summarizeExits :: "(string \<Rightarrow> int option) \<Rightarrow> jsobj list \<Rightarrow> Book \<Rightarrow> ExitMix" where
  "summarizeExits dp rows book =
     (let triggers = book_triggers dp rows book;
          bucket = (\<lambda>b. count_num (\<lambda>t. classifyExit t = b) triggers)
      in \<lparr>xm_profit = bucket Profit, xm_stop = bucket Stop, xm_policy = bucket Policy,
          xm_other = bucket Other, xm_total = num_of_nat (length triggers)\<rparr>)"

text \<open>The keys the path book counts, and their reported resistances that are still in the book.\<close>

definition active_keys :: "thresholds \<Rightarrow> string list \<Rightarrow> string list" where
  "active_keys ths policyKeys =
     (let keys = filter isPathBookKey policyKeys
      in if keys \<noteq> [] then keys else filter isPathBookKey (map_keys ths))"

definition reported :: "thresholds \<Rightarrow> string \<Rightarrow> jsnum option" where
  "reported ths key =
     (case map_of ths key of Some r \<Rightarrow> if is_finite r then Some r else None | None \<Rightarrow> None)"

definition summarizePathBook ::
    "thresholds \<Rightarrow> string list \<Rightarrow> jsnum \<Rightarrow> string list option \<Rightarrow> PathBookSnapshot" where
  "summarizePathBook ths policyKeys eligible priorKeys =
     (if filter isPathBookKey policyKeys = [] \<and> ths = [] then emptyPaths
      else let active = active_keys ths policyKeys;
               inBook = (\<lambda>key. case reported ths key of
                          None \<Rightarrow> True | Some r \<Rightarrow> \<not> num_lt EXPLORE_PRUNE_THRESHOLD r);
               developed = length (filter inBook active);
               resistances = filter (\<lambda>r. \<not> num_lt EXPLORE_PRUNE_THRESHOLD r)
                               (List.map_filter (reported ths) active);
               promoted = count_num (\<lambda>r. num_le r eligible) resistances;
               current = remdups active
           in \<lparr>ps_developed = (if 0 < developed then Some (num_of_nat developed) else None),
               ps_promoted = (if 0 < developed then Some promoted else None),
               ps_meanResistance = mean resistances,
               ps_added = map_option (\<lambda>prior. count_num (\<lambda>k. k \<notin> set prior) current) priorKeys,
               ps_removed = map_option (\<lambda>prior. count_num (\<lambda>k. k \<notin> set current) prior) priorKeys\<rparr>)"

definition summarizePolicy :: "(string \<times> CognitionMatch) list \<Rightarrow> PolicySnapshot" where
  "summarizePolicy matches =
     (let rows = map_values matches
      in if rows = [] then emptyPolicy
         else let hits = count_num ma_stored rows; checks = num_of_nat (length rows)
              in \<lparr>pl_checks = checks, pl_hits = hits, pl_hitRate = Some (num_div hits checks)\<rparr>)"

definition topExitTriggers ::
    "(string \<Rightarrow> int option) \<Rightarrow> jsobj list \<Rightarrow> Book \<Rightarrow> (string \<times> nat) list" where
  "topExitTriggers dp rows book =
     (let counts = foldl (\<lambda>m t. AList.update t
                            ((case map_of m t of Some n \<Rightarrow> n | None \<Rightarrow> 0) + 1) m)
                     [] (book_triggers dp rows book)
      in take 8 (sort_by (\<lambda>a b. snd b \<le> snd a) counts))"

subsection \<open>Judging a window\<close>

record tier =
  ti_stats :: BookDeskStats
  ti_winRate :: "jsnum option"
  ti_edge :: "jsnum option"
  ti_armed :: "jsnum option"

definition tierStats :: "LongtailSample \<Rightarrow> Book \<Rightarrow> tier" where
  "tierStats sample book =
     (let stats = ls_books sample book
      in case book of
           Paper \<Rightarrow> \<lparr>ti_stats = stats, ti_winRate = coalesce (ls_paperWin sample) (bs_winRate stats),
                     ti_edge = coalesce (ls_paperEdge sample) (bs_meanReturn stats), ti_armed = None\<rparr>
         | Real \<Rightarrow> \<lparr>ti_stats = stats, ti_winRate = coalesce (ls_realWin sample) (bs_winRate stats),
                    ti_edge = coalesce (ls_realEdge sample) (bs_meanReturn stats),
                    ti_armed = ls_realArmed sample\<rparr>
         | Virtual \<Rightarrow> \<lparr>ti_stats = stats, ti_winRate = bs_winRate stats, ti_edge = bs_meanReturn stats,
                       ti_armed = None\<rparr>)"

datatype Trend = Up | Down | Flat

definition trendOf :: "jsnum option \<Rightarrow> jsnum option \<Rightarrow> Trend" where
  "trendOf current prior =
     (case (shown current, shown prior) of
        (Some c, Some p) \<Rightarrow>
          if num_lt (num_abs (num_sub c p)) (fl (1 / 100)) then Flat
          else if num_lt p c then Up else Down
      | _ \<Rightarrow> Flat)"

definition flip_step :: "Book \<Rightarrow> nat \<times> jsnum option \<Rightarrow> LongtailSample \<Rightarrow> nat \<times> jsnum option" where
  "flip_step book acc sample =
     (case acc of (flips, prior) \<Rightarrow>
        case ti_edge (tierStats sample book) of
          None \<Rightarrow> (flips, prior)
        | Some e \<Rightarrow>
            (case prior of
               Some p \<Rightarrow>
                 if \<not> num_eq (num_sign p) (Fin 0) \<and> \<not> num_eq (num_sign e) (Fin 0) \<and>
                    \<not> num_eq (num_sign p) (num_sign e)
                 then flips + 1 else flips
             | None \<Rightarrow> flips, Some e))"

definition signFlips :: "LongtailSample list \<Rightarrow> Book \<Rightarrow> nat" where
  "signFlips samples book = fst (foldl (flip_step book) (0, None) samples)"

definition path_churn :: "PathBookSnapshot \<Rightarrow> jsnum" where
  "path_churn paths = num_add (num_or_zero (ps_added paths)) (num_or_zero (ps_removed paths))"

definition sixteen_back :: "LongtailSample list \<Rightarrow> LongtailSample" where
  "sixteen_back samples = samples ! (length samples - 16)"

text \<open>The verdict before any settled lot counts.\<close>

definition path_verdict :: "PathBookSnapshot \<Rightarrow> PathBookSnapshot \<Rightarrow> string \<times> Tone" where
  "path_verdict paths prior =
     (case ps_developed paths of
        Some developed \<Rightarrow>
          if num_lt (num_max (Fin 2) (num_mul developed (fl (15 / 100)))) (path_churn paths) \<and>
             num_eq (num_or_zero (ps_promoted paths)) (num_or_zero (ps_promoted prior))
          then (''Thrashing paths'', Warn) else (''Path book live'', Info)
      | None \<Rightarrow> (''Warming up'', Neutral))"

definition verdict :: "LongtailSample list \<Rightarrow> Book \<Rightarrow> string \<times> Tone" where
  "verdict samples book =
     (if length samples < 2 then (''Warming up'', Neutral)
      else let latest = last samples; prior = sixteen_back samples;
               now = tierStats latest book; before = tierStats prior book
           in if ti_edge now = None \<and> ti_winRate now = None
              then path_verdict (ls_paths latest) (ls_paths prior)
              else let edgeTone = returnTone (ti_edge now);
                       winTone = winRateTone (ti_winRate now);
                       trend = trendOf (ti_edge now) (ti_edge before);
                       flips = signFlips (take_last 24 samples) book;
                       pathChurn = num_le (num_max (Fin 3)
                          (num_mul (num_or_zero (ps_developed (ls_paths latest))) (fl (2 / 10))))
                          (path_churn (ls_paths latest));
                       losing = (edgeTone = Bad \<or> winTone = Bad);
                       winning = (edgeTone = Good \<and> winTone \<noteq> Bad)
                   in if 3 \<le> flips \<and> \<not> (winning \<and> trend = Up) then (''Thrashing'', Bad)
                      else if pathChurn \<and> trend = Flat \<and> edgeTone \<noteq> Good then (''Thrashing'', Warn)
                      else if losing then
                        (if trend = Down then (''Degrading'', Bad)
                         else if trend = Up then (''Recovering'', Warn) else (''Stuck'', Bad))
                      else if winning then
                        (if trend = Down then (''Slipping'', Warn)
                         else if trend = Up then (''Improving'', Good) else (''Stable'', Info))
                      else (''Mixed'', Warn))"

subsection \<open>Insights\<close>

record Insight =
  in_id :: string
  in_title :: string
  in_body :: string
  in_tone :: Tone

definition le_sign :: string where "le_sign = [CHR 0xE2, CHR 0x89, CHR 0xA4]"

definition minus_sign :: string where "minus_sign = [CHR 0xE2, CHR 0x88, CHR 0x92]"

definition pct_or_dash :: "jsnum option \<Rightarrow> string" where
  "pct_or_dash v = (case v of None \<Rightarrow> em_dash | Some x \<Rightarrow> pct x)"

primrec trend_text :: "Trend \<Rightarrow> string" where
  "trend_text Up = ''up''"
| "trend_text Down = ''down''"
| "trend_text Flat = ''flat''"

definition tier_insight :: "LongtailSample \<Rightarrow> Book \<Rightarrow> Insight" where
  "tier_insight latest book =
     (let ti = tierStats latest book; name = book_name book
      in \<lparr>in_id = ''tier'', in_title = name @ '' trajectory'',
          in_body = (if ti_edge ti = None \<and> ti_winRate ti = None
             then ''No settled '' @ name @ '' lots yet that count toward edge.''
             else ''Win '' @ pct_or_dash (ti_winRate ti) @ '', edge '' @ pct_or_dash (ti_edge ti) @ '', '' @
                  num_text (bs_closed (ti_stats ti)) @ '' settled '' @ mid_dot @ '' '' @
                  num_text (bs_open (ti_stats ti)) @ '' open'' @
                  (case ti_armed ti of
                     None \<Rightarrow> []
                   | Some a \<Rightarrow> '' '' @ mid_dot @ '' real '' @
                       (if num_le (fl (5 / 10)) a then ''armed'' else ''halted'')) @ ''.''),
          in_tone = (case ti_edge ti of
             None \<Rightarrow> Neutral
           | Some e \<Rightarrow> if returnTone (Some e) = Good \<and> winRateTone (ti_winRate ti) \<noteq> Bad
                       then Good else returnTone (Some e))\<rparr>)"

definition paths_insight :: "LongtailSample \<Rightarrow> LongtailSample \<Rightarrow> Insight" where
  "paths_insight latest prior =
     (let paths = ls_paths latest
      in case ps_developed paths of
           None \<Rightarrow> \<lparr>in_id = ''paths'', in_title = ''Path book'',
             in_body = ''model/paths has not listed yet. Request S3 prefix model/paths or wait for a live paths envelope.'',
             in_tone = Neutral\<rparr>
         | Some developed \<Rightarrow>
             (let churn = path_churn paths;
                  mean_text = (case ps_meanResistance paths of None \<Rightarrow> em_dash | Some m \<Rightarrow> to_fixed 2 m);
                  meanTrend = trendOf (ps_meanResistance paths) (ps_meanResistance (ls_paths prior))
              in \<lparr>in_id = ''paths'', in_title = ''Path book'',
                  in_body = num_text developed @ '' developed, '' @
                    num_text (num_or_zero (ps_promoted paths)) @ '' at '' @ le_sign @
                    to_fixed 2 (ls_eligibleResistance latest) @ '' paper floor, mean resistance '' @
                    mean_text @ '' ('' @ trend_text meanTrend @ ''). Churn +'' @
                    num_text (num_or_zero (ps_added paths)) @ ''/'' @ minus_sign @
                    num_text (num_or_zero (ps_removed paths)) @
                    (if num_le (Fin 3) churn then '' '' @ em_dash @ '' watch thrash'' else []) @ ''.'',
                  in_tone = (if num_lt (Fin 0) (num_or_zero (ps_promoted paths)) \<and> meanTrend = Down
                             then Good else if num_le (Fin 3) churn then Warn else Info)\<rparr>))"

definition policy_insight :: "LongtailSample \<Rightarrow> Insight" where
  "policy_insight latest =
     (let policy = ls_policy latest
      in \<lparr>in_id = ''policy'', in_title = ''Policy hit'',
          in_body = (if num_eq (pl_checks policy) (Fin 0) then ''No live symbol matches yet.''
             else pct (num_or_zero (pl_hitRate policy)) @ '' of '' @ num_text (pl_checks policy) @
                  '' live symbol cuts landed on a stored path ('' @ num_text (pl_hits policy) @ '' hits).''),
          in_tone = matchTone (pl_hitRate policy)\<rparr>)"

definition exits_insight :: "LongtailSample \<Rightarrow> Book \<Rightarrow> Insight" where
  "exits_insight latest book =
     (let exits = ls_exits latest book
      in if num_eq (xm_total exits) (Fin 0)
         then \<lparr>in_id = ''exits'', in_title = ''Exit mix'',
               in_body = ''No closed '' @ book_name book @ '' exit triggers yet.'', in_tone = Neutral\<rparr>
         else \<lparr>in_id = ''exits'', in_title = ''Exit mix'',
               in_body = num_text (xm_profit exits) @ '' profit, '' @ num_text (xm_stop exits) @ '' stop, '' @
                 num_text (xm_policy exits) @ '' policy, '' @ num_text (xm_other exits) @ '' other ('' @
                 num_text (xm_total exits) @ '' triggers).'',
               in_tone = (if num_lt (xm_stop exits) (xm_profit exits) then Good
                          else if num_lt (xm_profit exits) (xm_stop exits) then Warn else Info)\<rparr>)"

definition stops_insight :: "LongtailSample \<Rightarrow> Book \<Rightarrow> Insight" where
  "stops_insight latest book =
     (let stops = ls_stops latest book
      in \<lparr>in_id = ''stops'', in_title = ''Stop posture'',
          in_body = (case ol_open stops of
             None \<Rightarrow> ''No open '' @ book_name book @ '' lots priced.''
           | Some n \<Rightarrow>
               if num_eq n (Fin 0) then ''No open '' @ book_name book @ '' lots priced.''
               else num_text n @ '' open; invalidation '' @ pct_or_dash (ol_invalidation stops) @
                    '', trail '' @ pct_or_dash (ol_trailing stops) @ '', damage '' @
                    pct_or_dash (ol_damage stops) @ ''; nearest '' @
                    pct_or_dash (ol_maxProximity stops) @ ''.''),
          in_tone = (case ol_maxProximity stops of
             None \<Rightarrow> Neutral
           | Some m \<Rightarrow> if num_le (Fin 1) m then Bad
                       else if num_le (fl (7 / 10)) m then Warn else Good)\<rparr>)"

definition buildInsights :: "LongtailSample list \<Rightarrow> Book \<Rightarrow> Insight list" where
  "buildInsights samples book =
     (if samples = []
      then [\<lparr>in_id = ''warmup'', in_title = ''Collecting baseline'',
             in_body = ''Waiting on '' @ book_name book @
               '' closed lots, confidence, and the model/paths book from the hub.'',
             in_tone = Neutral\<rparr>]
      else let latest = last samples
           in [tier_insight latest book, paths_insight latest (sixteen_back samples),
               policy_insight latest, exits_insight latest book, stops_insight latest book])"

subsection \<open>What the summaries satisfy\<close>

lemma num_of_nat_small: "n \<le> 2 ^ 53 \<Longrightarrow> num_of_nat n = Fin (of_nat n)"
  by (simp add: num_of_nat_def fl_of_nat)

lemma ratio_unit:
  assumes "k \<le> n" "0 < n" "n \<le> 2 ^ 53"
  shows "num_in 0 1 (num_div (num_of_nat k) (num_of_nat n))"
proof -
  have "num_of_nat k = Fin (of_nat k)" "num_of_nat n = Fin (of_nat n)"
    using assms by (simp_all add: num_of_nat_small)
  then show ?thesis using b64.rnd_ratio [OF assms(1,2)] assms(2) by (auto simp: num_in_iff)
qed

lemma length_map_filter_total:
  "(\<And>x. x \<in> set xs \<Longrightarrow> f x \<noteq> None) \<Longrightarrow> length (List.map_filter f xs) = length xs"
  by (induction xs) (auto simp: map_filter_Cons List.map_filter_def split: option.splits)

lemma returns_scored: "length (book_returns dp rows book) = length (scored_rows dp rows book)"
  unfolding book_returns_def by (rule length_map_filter_total) (auto simp: scored_rows_def)

lemma scored_le: "length (scored_rows dp rows book) \<le> length rows"
proof -
  have "length (scored_rows dp rows book) \<le> length (closedOnBook dp rows book)"
    unfolding scored_rows_def by (metis filter_filter length_filter_le)
  also have "\<dots> \<le> length rows" by (simp add: closedOnBook_def)
  finally show ?thesis .
qed

text \<open>
  A ledger's statistics are consistent: the settled count is the number of returns, the win
  rate exists exactly when there is one and lies between 0 and 1, and the worst return is below
  every return.
\<close>

theorem book_stats_consistent:
  assumes "length rows < 2 ^ 32" and "\<forall>r \<in> set (book_returns dp rows book). r \<noteq> NaN"
  shows "let b = summarizeBook dp rows book; returns = book_returns dp rows book
    in bs_closed b = Fin (of_nat (length returns)) \<and>
       (bs_winRate b = None) = (returns = []) \<and> pred_option (num_in 0 1) (bs_winRate b) \<and>
       pred_option (\<lambda>w. \<forall>r \<in> set returns. num_le w r) (bs_worstReturn b)"
proof -
  let ?r = "book_returns dp rows book"
  have small: "length ?r \<le> 2 ^ 53" using assms(1) scored_le [of dp rows book] by (simp add: returns_scored)
  have closed: "bs_closed (summarizeBook dp rows book) = Fin (of_nat (length ?r))"
    using num_of_nat_small [OF small] by (simp add: summarizeBook_def Let_def returns_scored)
  have "pred_option (num_in 0 1) (bs_winRate (summarizeBook dp rows book))"
    using ratio_unit [OF length_filter_le _ small] by (auto simp: summarizeBook_def Let_def)
  moreover have "pred_option (\<lambda>w. \<forall>r \<in> set ?r. num_le w r) (bs_worstReturn (summarizeBook dp rows book))"
    using num_min_fold [OF assms(2), of PInf] by (auto simp: summarizeBook_def Let_def)
  ultimately show ?thesis using closed by (simp add: Let_def) (simp add: summarizeBook_def Let_def)
qed

theorem book_stats_consistent_witness:
  "let row = [(''closed_at'', JStr ''t''), (''pnl_pct'', JNum (Fin 5))]
   in pred_option (num_in 0 1) (bs_winRate (summarizeBook (\<lambda>_. Some 0) [row] Paper))"
proof -
  let ?row = "[(''closed_at'', JStr ''t''), (''pnl_pct'', JNum (Fin 5))]"
  have "num_div (Fin 5) (Fin 100) \<noteq> NaN" by (simp add: b64.rnd_not_NaN)
  then have "\<forall>r \<in> set (book_returns (\<lambda>_. Some 0) [?row] Paper). r \<noteq> NaN"
    by (auto simp: book_returns_def set_map_filter_iff scored_rows_def closedOnBook_def positionReadout_def
        returnFraction_def decimal_def Let_def)
  from book_stats_consistent [OF _ this] show ?thesis by (simp add: Let_def)
qed

lemma tally_counts:
  "map_of (foldl (\<lambda>m t. AList.update t ((case map_of m t of Some n \<Rightarrow> n | None \<Rightarrow> 0) + 1) m) [] ts) t =
     (if t \<in> set ts then Some (count_list ts t) else None)"
  by (induction ts rule: rev_induct) (auto simp: update_conv')

lemma tally_distinct:
  "distinct (map fst (foldl (\<lambda>m t. AList.update t ((case map_of m t of Some n \<Rightarrow> n | None \<Rightarrow> (0 :: nat)) + 1) m) [] ts))"
  by (induction ts rule: rev_induct) (auto simp: distinct_update)

lemma count_desc: "comparator (\<lambda>a b :: 'a \<times> nat. snd b \<le> snd a)"
  by unfold_locales auto

lemma sorted_wrt_take: "sorted_wrt P xs \<Longrightarrow> sorted_wrt P (take n xs)"
  by (metis append_take_drop_id sorted_wrt_append)

text \<open>
  The exit rail lists at most eight triggers of the ledger's closed lots, each once, most
  frequent first, and each with the exact number of times it occurred.
\<close>

theorem top_triggers_exact:
  "let top = topExitTriggers dp rows book; ts = book_triggers dp rows book
   in length top \<le> 8 \<and> distinct (map fst top) \<and> sorted_wrt (\<lambda>a b. snd b \<le> snd a) top \<and>
      list_all (\<lambda>(t, n). n = count_list ts t \<and> 0 < n) top"
proof -
  let ?ts = "book_triggers dp rows book"
  let ?m = "foldl (\<lambda>m t. AList.update t ((case map_of m t of Some n \<Rightarrow> n | None \<Rightarrow> (0 :: nat)) + 1) m) [] ?ts"
  let ?s = "sort_by (\<lambda>a b. snd b \<le> snd a) ?m"
  have top: "topExitTriggers dp rows book = take 8 ?s" by (simp add: topExitTriggers_def Let_def)
  have "mset (map fst ?s) = mset (map fst ?m)" by (simp only: mset_map mset_sort_by)
  then have "distinct (map fst ?s)" using tally_distinct mset_eq_imp_distinct_iff by blast
  then have d: "distinct (map fst (take 8 ?s))" by (simp add: take_map [symmetric] distinct_take)
  have srt: "sorted_wrt (\<lambda>a b. snd b \<le> snd a) (take 8 ?s)"
    by (intro sorted_wrt_take comparator.sorted_sort_by count_desc)
  have "n = count_list ?ts t \<and> 0 < n" if "(t, n) \<in> set (take 8 ?s)" for t n
  proof -
    have "(t, n) \<in> set ?m" using in_set_takeD [OF that] by simp
    then have "map_of ?m t = Some n" by (rule map_of_is_SomeI [OF tally_distinct])
    then show ?thesis unfolding tally_counts by (cases "t \<in> set ?ts") (auto intro!: gr0I simp: count_list_0_iff)
  qed
  with d srt show ?thesis by (auto simp: top Let_def list_all_iff)
qed

text \<open>
  The verdict is never green on the strength of the path book: it is good only when the
  ledger's edge is positive, its win rate is not bad and the edge is rising.
\<close>

theorem verdict_good_means_winning:
  assumes "snd (verdict samples book) = Good"
  shows "let now = tierStats (last samples) book
    in returnTone (ti_edge now) = Good \<and> winRateTone (ti_winRate now) \<noteq> Bad \<and>
       trendOf (ti_edge now) (ti_edge (tierStats (sixteen_back samples) book)) = Up"
  using assms
  by (auto simp: verdict_def path_verdict_def Let_def split: if_splits option.splits)

definition demo_sample :: "jsnum \<Rightarrow> LongtailSample" where
  "demo_sample e = \<lparr>ls_at = Fin 0, ls_books = (\<lambda>_. emptyBookStats\<lparr>bs_winRate := Some (Fin 1), bs_meanReturn := Some e\<rparr>),
     ls_paperWin = None, ls_paperEdge = None, ls_realWin = None, ls_realEdge = None, ls_realArmed = None,
     ls_eligibleResistance = Fin 0, ls_paths = emptyPaths, ls_policy = emptyPolicy,
     ls_exits = (\<lambda>_. emptyExitMix), ls_stops = (\<lambda>_. emptyStops)\<rparr>"

theorem verdict_good_means_winning_witness:
  "snd (verdict [demo_sample (Fin 1), demo_sample (Fin 2)] Virtual) = Good \<and>
   returnTone (ti_edge (tierStats (demo_sample (Fin 2)) Virtual)) = Good"
proof -
  have tier: "ti_edge (tierStats (demo_sample e) Virtual) = Some e"
    "ti_winRate (tierStats (demo_sample e) Virtual) = Some (Fin 1)" for e
    by (simp_all add: tierStats_def demo_sample_def)
  have "num_le (fl (55 / 100)) (Fin 1)" by code_simp
  then have win: "winRateTone (Some (Fin 1)) = Good" by (simp add: winRateTone_def)
  have "\<not> num_lt (num_abs (num_sub (Fin 2) (Fin 1))) (fl (1 / 100))" by code_simp
  then have trend: "trendOf (Some (Fin 2)) (Some (Fin 1)) = Up" by (simp add: trendOf_def shown_def)
  have gain: "returnTone (Some (Fin 2)) = Good" by (simp add: returnTone_def)
  have "snd (verdict [demo_sample (Fin 1), demo_sample (Fin 2)] Virtual) = Good"
    unfolding verdict_def Let_def by (simp add: tier win trend gain sixteen_back_def)
  from this verdict_good_means_winning [OF this] show ?thesis by (simp add: Let_def)
qed

end
