(* ===== verification/LongtailRecorder.thy ===== *)
theory LongtailRecorder
  imports LongtailStats CircularBuffer
begin

text \<open>
  The recorder half of \<^verbatim>\<open>collections/longtail.ts\<close>: the bounded chart window, samples taken
  from the live stores, samples restored from history, and the trajectory seeded from closed
  lots. \<open>now\<close> is \<^verbatim>\<open>Date.now()\<close>. The recorder reads the confidence frame and the cognition
  store, and a capture feeds the desk rows back into the round-trip store, so these are passed
  in and, where changed, returned. The window's slots all hold samples (its invariant), so
  reading it drops nothing.
\<close>

definition CHART_SAMPLES :: nat where "CHART_SAMPLES = 240"

definition SAMPLE_EVERY_MS :: jsnum where "SAMPLE_EVERY_MS = Fin 5000"

record longtail =
  samples :: "LongtailSample list"
  lastSampleAt :: jsnum
  sourcesReady :: bool
  chartWindow :: "LongtailSample circular"
  priorPathKeys :: "string list option"
  sourcesRequested :: bool
  historyBuffer :: "LongtailSample circular option"
  recorderRunning :: bool

definition longtail_start :: longtail where
  "longtail_start = \<lparr>samples = [], lastSampleAt = Fin 0, sourcesReady = False,
     chartWindow = Circular CHART_SAMPLES, priorPathKeys = None, sourcesRequested = False,
     historyBuffer = None, recorderRunning = False\<rparr>"

definition held_samples :: "LongtailSample circular \<Rightarrow> LongtailSample list" where
  "held_samples w = List.map_filter (\<lambda>x. x) (circ_values w)"

subsection \<open>The window\<close>

definition publishWindow :: "jsnum option \<Rightarrow> longtail \<Rightarrow> longtail" where
  "publishWindow at_time t =
     (let held = held_samples (chartWindow t)
      in t\<lparr>samples := held,
           lastSampleAt := num_or_zero (coalesce at_time (map_option ls_at (last_opt held)))\<rparr>)"

definition installWindow :: "LongtailSample list \<Rightarrow> longtail \<Rightarrow> longtail" where
  "installWindow rows t =
     publishWindow None
       (t\<lparr>chartWindow := foldl (\<lambda>w row. circ_push row w) (Circular CHART_SAMPLES) rows\<rparr>)"

definition pushSample :: "LongtailSample \<Rightarrow> longtail \<Rightarrow> longtail" where
  "pushSample sample t =
     publishWindow (Some (ls_at sample)) (t\<lparr>chartWindow := circ_push sample (chartWindow t)\<rparr>)"

definition requestLongtailSources :: "life_state \<Rightarrow> longtail \<Rightarrow> life_state \<times> longtail" where
  "requestLongtailSources life t =
     (if sourcesRequested t then (life, t)
      else let life = requestClosedPositionHistory life
           in (life\<lparr>hub := snd (trySendCommand (s3_command ''model/paths'') (hub life))\<rparr>,
               t\<lparr>sourcesRequested := True, sourcesReady := True\<rparr>))"

definition resetLongtailSourcesRequest :: "longtail \<Rightarrow> longtail" where
  "resetLongtailSourcesRequest t = t\<lparr>sourcesRequested := False, sourcesReady := False\<rparr>"

subsection \<open>Live samples\<close>

definition if_closed :: "BookConfidence \<Rightarrow> jsnum option \<Rightarrow> jsnum option" where
  "if_closed c v = (if num_lt (Fin 0) (conf_closed c) then v else None)"

definition captureSample ::
    "env \<Rightarrow> ConfidenceFrame \<Rightarrow> CognitionState \<Rightarrow> jsnum \<Rightarrow> life_state \<Rightarrow> longtail \<Rightarrow>
     LongtailSample \<times> life_state \<times> longtail" where
  "captureSample e frame cognition at_time life t =
     (let dp = e_dp e;
          desk = deskRowsForStats e life;
          life = ingestDeskClosedLots e desk life;
          eligible = (if is_finite (eligible_resistance frame) then eligible_resistance frame
                      else default_eligible);
          paths = summarizePathBook (cg_thresholds cognition) (cg_policyKeys cognition) eligible
                    (priorPathKeys t);
          activeKeys = (if cg_policyKeys cognition \<noteq> []
                        then filter isPathBookKey (cg_policyKeys cognition)
                        else filter isPathBookKey (map_keys (cg_thresholds cognition)));
          paperConf = confidenceFor frame Paper;
          realConf = confidenceFor frame Real
      in (\<lparr>ls_at = at_time, ls_books = summarizeBook dp desk,
           ls_paperWin = if_closed paperConf (win_rate paperConf),
           ls_paperEdge = if_closed paperConf (edge paperConf),
           ls_realWin = if_closed realConf (win_rate realConf),
           ls_realEdge = if_closed realConf (edge realConf),
           ls_realArmed = (if real_ceiling frame
                           then Some (if armed realConf then Fin 1 else Fin 0) else None),
           ls_eligibleResistance = eligible, ls_paths = paths,
           ls_policy = summarizePolicy (cg_matches cognition),
           ls_exits = summarizeExits dp desk, ls_stops = summarizeStops dp desk\<rparr>,
          life, t\<lparr>priorPathKeys := Some (remdups activeKeys)\<rparr>))"

definition recordLongtailSample ::
    "env \<Rightarrow> ConfidenceFrame \<Rightarrow> CognitionState \<Rightarrow> jsnum \<Rightarrow> life_state \<times> longtail \<Rightarrow> life_state \<times> longtail" where
  "recordLongtailSample e frame cognition now lt =
     (case captureSample e frame cognition now (fst lt) (snd lt) of
        (sample, life, t) \<Rightarrow> (life, pushSample sample t))"

definition maybeRecordLongtailSample ::
    "env \<Rightarrow> ConfidenceFrame \<Rightarrow> CognitionState \<Rightarrow> jsnum \<Rightarrow> life_state \<times> longtail \<Rightarrow> life_state \<times> longtail" where
  "maybeRecordLongtailSample e frame cognition now lt =
     (if samples (snd lt) \<noteq> [] \<and> num_lt (num_sub now (lastSampleAt (snd lt))) SAMPLE_EVERY_MS
      then lt else recordLongtailSample e frame cognition now lt)"

subsection \<open>Restored samples\<close>

definition finiteOrNull :: "jsval \<Rightarrow> jsnum option" where
  "finiteOrNull v = finite_num v"

definition countOrZero :: "jsval \<Rightarrow> jsnum" where
  "countOrZero v = (case finiteOrNull v of None \<Rightarrow> Fin 0 | Some n \<Rightarrow> n)"

definition bookFromHistory :: "jsval \<Rightarrow> BookDeskStats option" where
  "bookFromHistory v =
     map_option (\<lambda>row. \<lparr>bs_closed = countOrZero (field row ''closed''), bs_open = countOrZero (field row ''open''),
       bs_wins = countOrZero (field row ''wins''), bs_winRate = finiteOrNull (field row ''winRate''),
       bs_meanReturn = finiteOrNull (field row ''meanReturn''),
       bs_medianReturn = finiteOrNull (field row ''medianReturn''),
       bs_worstReturn = finiteOrNull (field row ''worstReturn''),
       bs_avgHoldNs = finiteOrNull (field row ''avgHoldNs'')\<rparr>) (as_record v)"

definition pathsFromHistory :: "jsval \<Rightarrow> PathBookSnapshot" where
  "pathsFromHistory v =
     (case as_record v of
        None \<Rightarrow> emptyPaths
      | Some row \<Rightarrow>
          \<lparr>ps_developed = finiteOrNull (field row ''developed''),
           ps_promoted = finiteOrNull (field row ''promoted''),
           ps_meanResistance = finiteOrNull (orelse (field row ''meanResistance'') (field row ''meanThreshold'')),
           ps_added = finiteOrNull (field row ''added''),
           ps_removed = finiteOrNull (field row ''removed'')\<rparr>)"

definition policyFromHistory :: "jsval \<Rightarrow> PolicySnapshot" where
  "policyFromHistory v =
     (case as_record v of
        None \<Rightarrow> emptyPolicy
      | Some row \<Rightarrow>
          (let checks = countOrZero (field row ''checks''); hits = countOrZero (field row ''hits'')
           in \<lparr>pl_checks = checks, pl_hits = hits,
               pl_hitRate = coalesce (finiteOrNull (field row ''hitRate''))
                 (if num_lt (Fin 0) checks then Some (num_div hits checks) else None)\<rparr>))"

definition exitMixFromHistory :: "jsval \<Rightarrow> ExitMix" where
  "exitMixFromHistory v =
     (case as_record v of
        None \<Rightarrow> emptyExitMix
      | Some row \<Rightarrow>
          \<lparr>xm_profit = countOrZero (field row ''profit''), xm_stop = countOrZero (field row ''stop''),
           xm_policy = countOrZero (field row ''policy''), xm_other = countOrZero (field row ''other''),
           xm_total = countOrZero (field row ''total'')\<rparr>)"

definition stopsFromHistory :: "jsval \<Rightarrow> OpenLotTelemetry" where
  "stopsFromHistory v =
     (case as_record v of
        None \<Rightarrow> emptyStops
      | Some row \<Rightarrow>
          \<lparr>ol_open = finiteOrNull (field row ''open''), ol_invalidation = finiteOrNull (field row ''invalidation''),
           ol_trailing = finiteOrNull (field row ''trailing''), ol_damage = finiteOrNull (field row ''damage''),
           ol_armed = finiteOrNull (field row ''armed''),
           ol_maxProximity = finiteOrNull (field row ''maxProximity'')\<rparr>)"

definition historySample :: "jsval \<Rightarrow> LongtailSample option" where
  "historySample v =
     (case as_record v of
        None \<Rightarrow> None
      | Some row \<Rightarrow>
          (let real = (case bookFromHistory (field row ''real'') of Some b \<Rightarrow> b | None \<Rightarrow> emptyBookStats);
               exits = obj_of (field row ''exits''); stops = obj_of (field row ''stops'')
           in case (finiteOrNull (field row ''at''), bookFromHistory (field row ''paper''),
                    bookFromHistory (field row ''virtual'')) of
                (Some at_time, Some paper, Some virtual) \<Rightarrow> Some
                  \<lparr>ls_at = at_time,
                   ls_books = (\<lambda>b. case b of Paper \<Rightarrow> paper | Virtual \<Rightarrow> virtual | Real \<Rightarrow> real),
                   ls_paperWin = finiteOrNull (field row ''paperWin''),
                   ls_paperEdge = finiteOrNull (field row ''paperEdge''),
                   ls_realWin = finiteOrNull (field row ''realWin''),
                   ls_realEdge = finiteOrNull (field row ''realEdge''),
                   ls_realArmed = finiteOrNull (field row ''realArmed''),
                   ls_eligibleResistance =
                     (case finiteOrNull (field row ''eligibleResistance'') of
                        Some x \<Rightarrow> x | None \<Rightarrow> default_eligible),
                   ls_paths = pathsFromHistory (orelse (field row ''paths'') (field row ''training'')),
                   ls_policy = policyFromHistory (field row ''policy''),
                   ls_exits = (\<lambda>b. exitMixFromHistory (field exits (book_name b))),
                   ls_stops = (\<lambda>b. stopsFromHistory (field stops (book_name b)))\<rparr>
              | _ \<Rightarrow> None))"

definition beginLongtailHistory :: "longtail \<Rightarrow> longtail" where
  "beginLongtailHistory t = t\<lparr>historyBuffer := Some (Circular CHART_SAMPLES)\<rparr>"

definition ingestLongtailHistory :: "jsval \<Rightarrow> longtail \<Rightarrow> bool \<times> longtail" where
  "ingestLongtailHistory payload t =
     (case (historyBuffer t, as_arr payload) of
        (Some b, Some items) \<Rightarrow>
          (let accepted = List.map_filter historySample items
           in (accepted \<noteq> [], t\<lparr>historyBuffer := Some (foldl (\<lambda>w x. circ_push x w) b accepted)\<rparr>))
      | _ \<Rightarrow> (False, t))"

definition endLongtailHistory ::
    "env \<Rightarrow> ConfidenceFrame \<Rightarrow> CognitionState \<Rightarrow> jsnum \<Rightarrow> life_state \<times> longtail \<Rightarrow> life_state \<times> longtail" where
  "endLongtailHistory e frame cognition now lt =
     (case historyBuffer (snd lt) of
        None \<Rightarrow> lt
      | Some b \<Rightarrow>
          (let seeded = sort_by (\<lambda>x y. num_before (ls_at x) (ls_at y)) (held_samples b);
               t = (snd lt)\<lparr>historyBuffer := None\<rparr>
           in if seeded = [] then (fst lt, t)
              else maybeRecordLongtailSample e frame cognition now (fst lt, installWindow seeded t)))"

subsection \<open>Seeding from closed lots\<close>

definition windowIsWarmupOnly :: "LongtailSample list \<Rightarrow> bool" where
  "windowIsWarmupOnly held =
     (held = [] \<or>
      (length held \<le> 2 \<and>
       list_all (\<lambda>s. (\<forall>b \<in> set all_books. num_eq (bs_closed (ls_books s b)) (Fin 0)) \<and>
                     ps_developed (ls_paths s) = None) held))"

definition dated_rows :: "(string \<Rightarrow> int option) \<Rightarrow> jsobj list \<Rightarrow> (jsobj \<times> jsnum) list" where
  "dated_rows dp rows =
     sort_by (\<lambda>a b. num_before (snd a) (snd b))
       (map (\<lambda>row. (row, case ro_closedAt (positionReadout dp row) of
                           None \<Rightarrow> Fin 0
                         | Some c \<Rightarrow> let t = date_num dp c in if is_finite t then t else Fin 0)) rows)"

definition seed_step :: "nat \<Rightarrow> nat" where
  "seed_step n = max 1 ((n + CHART_SAMPLES - 1) div CHART_SAMPLES)"

text \<open>The indexes the loop does not skip.\<close>

definition seed_indexes :: "nat \<Rightarrow> nat list" where
  "seed_indexes n = filter (\<lambda>i. (i + 1) mod seed_step n = 0 \<or> i = n - 1) [0..<n]"

definition seed_sample ::
    "(string \<Rightarrow> int option) \<Rightarrow> jsnum \<Rightarrow> jsnum \<Rightarrow> (jsobj \<times> jsnum) list \<Rightarrow> nat \<Rightarrow> LongtailSample" where
  "seed_sample dp now eligible dated i =
     (let cumulative = map fst (take (i + 1) dated); stamp = snd (dated ! i)
      in \<lparr>ls_at = (if stamp \<noteq> Fin 0 \<and> stamp \<noteq> NaN then stamp
                   else num_sub now (num_mul (num_of_nat (length dated - 1 - i)) SAMPLE_EVERY_MS)),
          ls_books = summarizeBook dp cumulative,
          ls_paperWin = None, ls_paperEdge = None, ls_realWin = None, ls_realEdge = None,
          ls_realArmed = None, ls_eligibleResistance = eligible, ls_paths = emptyPaths,
          ls_policy = emptyPolicy, ls_exits = summarizeExits dp cumulative,
          ls_stops = (\<lambda>_. emptyStops)\<rparr>)"

definition seed_samples ::
    "(string \<Rightarrow> int option) \<Rightarrow> jsnum \<Rightarrow> jsnum \<Rightarrow> (jsobj \<times> jsnum) list \<Rightarrow> LongtailSample list" where
  "seed_samples dp now eligible dated =
     map (seed_sample dp now eligible dated) (seed_indexes (length dated))"

definition seedFromClosedLots ::
    "env \<Rightarrow> ConfidenceFrame \<Rightarrow> jsnum \<Rightarrow> life_state \<Rightarrow> longtail \<Rightarrow> bool \<times> longtail" where
  "seedFromClosedLots e frame now life t =
     (if \<not> windowIsWarmupOnly (held_samples (chartWindow t)) then (False, t)
      else let rows = filter (\<lambda>row. ro_closed (positionReadout (e_dp e) row)) (deskRowsForStats e life)
           in if length rows < 2 then (False, t)
              else let seeded = seed_samples (e_dp e) now (eligible_resistance frame)
                                  (dated_rows (e_dp e) rows)
                   in if length seeded < 2 then (False, t) else (True, installWindow seeded t))"

subsection \<open>The recorder\<close>

definition recorder_tick ::
    "env \<Rightarrow> ConfidenceFrame \<Rightarrow> CognitionState \<Rightarrow> jsnum \<Rightarrow> life_state \<times> longtail \<Rightarrow> life_state \<times> longtail" where
  "recorder_tick e frame cognition now lt =
     maybeRecordLongtailSample e frame cognition now
       (fst lt, snd (seedFromClosedLots e frame now (fst lt) (snd lt)))"

definition ensureLongtailRecorder ::
    "env \<Rightarrow> ConfidenceFrame \<Rightarrow> CognitionState \<Rightarrow> jsnum \<Rightarrow> life_state \<times> longtail \<Rightarrow> life_state \<times> longtail" where
  "ensureLongtailRecorder e frame cognition now lt =
     (if recorderRunning (snd lt) then lt
      else case requestLongtailSources (fst lt) (snd lt) of (life, t) \<Rightarrow>
        (case recordLongtailSample e frame cognition now
                (life, snd (seedFromClosedLots e frame now life t)) of
           (life', t') \<Rightarrow> (life', t'\<lparr>recorderRunning := True\<rparr>)))"

definition resetLongtailRecorder :: "longtail \<Rightarrow> longtail" where
  "resetLongtailRecorder t = longtail_start"

subsection \<open>The window is the newest samples\<close>

lemma held_contents: "circ_ok w \<Longrightarrow> held_samples w = contents w"
  by (simp add: held_samples_def values_contents List.map_filter_def comp_def)

definition window_ok :: "LongtailSample circular \<Rightarrow> bool" where
  "window_ok w \<longleftrightarrow> circ_ok w \<and> positions w = CHART_SAMPLES"

definition recorder_ok :: "longtail \<Rightarrow> bool" where
  "recorder_ok t \<longleftrightarrow> window_ok (chartWindow t) \<and> samples t = contents (chartWindow t) \<and>
     pred_option window_ok (historyBuffer t)"

lemma window_push_all: "window_ok w \<Longrightarrow> window_ok (foldl (\<lambda>w x. circ_push x w) w xs)"
  using ring.push_all [of w xs] by (simp add: window_ok_def)

lemma window_empty: "window_ok (Circular CHART_SAMPLES)"
  by (simp add: window_ok_def circ_ok_Circular)

lemma recorder_pushSample:
  assumes "recorder_ok t"
  shows "recorder_ok (pushSample x t) \<and> samples (pushSample x t) = take_last CHART_SAMPLES (samples t @ [x])"
proof -
  have w: "window_ok (circ_push x (chartWindow t))"
    using assms window_push_all [of "chartWindow t" "[x]"] by (simp add: recorder_ok_def)
  then show ?thesis
    using assms
    by (simp add: recorder_ok_def window_ok_def pushSample_def publishWindow_def Let_def held_contents contents_push)
qed

lemma recorder_installWindow:
  assumes "recorder_ok t"
  shows "recorder_ok (installWindow rows t) \<and> samples (installWindow rows t) = take_last CHART_SAMPLES rows"
proof -
  let ?w = "foldl (\<lambda>w row. circ_push row w) (Circular CHART_SAMPLES) rows"
  have "window_ok ?w" by (rule window_push_all [OF window_empty])
  moreover have "contents ?w = take_last CHART_SAMPLES rows"
    using ring.push_all [of "Circular CHART_SAMPLES" rows] by (simp add: circ_ok_Circular)
  ultimately show ?thesis
    using assms by (simp add: recorder_ok_def window_ok_def installWindow_def publishWindow_def Let_def held_contents)
qed

lemma recorder_record: "recorder_ok (snd lt) \<Longrightarrow> recorder_ok (snd (recordLongtailSample e f c now lt))"
proof -
  assume ok: "recorder_ok (snd lt)"
  obtain x life t where cap: "captureSample e f c now (fst lt) (snd lt) = (x, life, t)"
    by (cases "captureSample e f c now (fst lt) (snd lt)") auto
  then have "recorder_ok t" using ok by (auto simp: captureSample_def recorder_ok_def Let_def)
  then show ?thesis using recorder_pushSample by (simp add: recordLongtailSample_def cap)
qed

lemma recorder_maybe: "recorder_ok (snd lt) \<Longrightarrow> recorder_ok (snd (maybeRecordLongtailSample e f c now lt))"
  by (simp add: maybeRecordLongtailSample_def recorder_record)

lemma recorder_seed: "recorder_ok t \<Longrightarrow> recorder_ok (snd (seedFromClosedLots e f now life t))"
  using recorder_installWindow by (simp add: seedFromClosedLots_def Let_def)

lemma recorder_end: "recorder_ok (snd lt) \<Longrightarrow> recorder_ok (snd (endLongtailHistory e f c now lt))"
proof (cases "historyBuffer (snd lt)")
  case (Some b)
  assume ok: "recorder_ok (snd lt)"
  let ?t = "(snd lt)\<lparr>historyBuffer := None\<rparr>"
  have "recorder_ok ?t" using ok by (simp add: recorder_ok_def)
  then show ?thesis
    using Some recorder_maybe recorder_installWindow by (simp add: endLongtailHistory_def Let_def)
qed (simp add: endLongtailHistory_def)

lemma recorder_ingest: "recorder_ok t \<Longrightarrow> recorder_ok (snd (ingestLongtailHistory payload t))"
  using window_push_all
  by (auto simp: ingestLongtailHistory_def Let_def recorder_ok_def split: option.splits)

lemma recorder_request: "recorder_ok t \<Longrightarrow> recorder_ok (snd (requestLongtailSources life t))"
  by (simp add: requestLongtailSources_def Let_def recorder_ok_def)

lemma recorder_ensure: "recorder_ok (snd lt) \<Longrightarrow> recorder_ok (snd (ensureLongtailRecorder e f c now lt))"
proof -
  assume ok: "recorder_ok (snd lt)"
  obtain life t where req: "requestLongtailSources (fst lt) (snd lt) = (life, t)"
    by (cases "requestLongtailSources (fst lt) (snd lt)")
  have "recorder_ok t" using recorder_request [OF ok, of "fst lt"] by (simp add: req)
  then have "recorder_ok (snd (recordLongtailSample e f c now (life, snd (seedFromClosedLots e f now life t))))"
    by (intro recorder_record) (simp add: recorder_seed)
  then show ?thesis
    using ok by (auto simp: ensureLongtailRecorder_def req recorder_ok_def split: prod.splits)
qed

lemma recorder_start: "recorder_ok longtail_start"
  using window_empty by (simp add: recorder_ok_def longtail_start_def)

datatype recorder_op =
    Ensure
  | Tick
  | BeginHistory
  | HistoryPage jsval
  | EndHistory
  | ResetSources
  | ResetRecorder

fun apply_recorder ::
    "env \<Rightarrow> ConfidenceFrame \<Rightarrow> CognitionState \<Rightarrow> jsnum \<Rightarrow> recorder_op \<Rightarrow> life_state \<times> longtail \<Rightarrow>
     life_state \<times> longtail" where
  "apply_recorder e f c now Ensure lt = ensureLongtailRecorder e f c now lt"
| "apply_recorder e f c now Tick lt = recorder_tick e f c now lt"
| "apply_recorder e f c now BeginHistory lt = (fst lt, beginLongtailHistory (snd lt))"
| "apply_recorder e f c now (HistoryPage payload) lt = (fst lt, snd (ingestLongtailHistory payload (snd lt)))"
| "apply_recorder e f c now EndHistory lt = endLongtailHistory e f c now lt"
| "apply_recorder e f c now ResetSources lt = (fst lt, resetLongtailSourcesRequest (snd lt))"
| "apply_recorder e f c now ResetRecorder lt = (fst lt, resetLongtailRecorder (snd lt))"

lemma recorder_apply: "recorder_ok (snd lt) \<Longrightarrow> recorder_ok (snd (apply_recorder e f c now x lt))"
proof (cases x)
  case Tick
  then show "recorder_ok (snd lt) \<Longrightarrow> ?thesis"
    by (simp add: recorder_tick_def recorder_maybe recorder_seed)
next
  case BeginHistory
  then show "recorder_ok (snd lt) \<Longrightarrow> ?thesis"
    using window_empty by (simp add: beginLongtailHistory_def recorder_ok_def)
next
  case ResetSources
  then show "recorder_ok (snd lt) \<Longrightarrow> ?thesis"
    by (simp add: resetLongtailSourcesRequest_def recorder_ok_def)
qed (simp_all add: recorder_ensure recorder_ingest recorder_end resetLongtailRecorder_def recorder_start)

text \<open>
  C15. The published trajectory is the chart window and stays bounded: after any run of the
  recorder, under any inputs, the store shows exactly the window's samples, at most 240 of them;
  and recording one more keeps the newest 240.
\<close>

theorem recorder_window_bounded:
  "let t = snd (foldl (\<lambda>lt (e, f, c, now, x). apply_recorder e f c now x lt) (life, longtail_start) ops)
   in samples t = held_samples (chartWindow t) \<and> length (samples t) \<le> 240 \<and>
      samples (pushSample x t) = take_last 240 (samples t @ [x])"
proof -
  define t where "t = snd (foldl (\<lambda>lt (e, f, c, now, x). apply_recorder e f c now x lt) (life, longtail_start) ops)"
  have ok: "recorder_ok t"
    unfolding t_def
    by (rule foldl_invariant) (auto simp: recorder_start intro: recorder_apply)
  have "samples t = held_samples (chartWindow t)" "length (samples t) \<le> 240"
    using ok by (auto simp: recorder_ok_def window_ok_def circ_ok_def held_contents CHART_SAMPLES_def)
  moreover have "samples (pushSample x t) = take_last 240 (samples t @ [x])"
    using recorder_pushSample [OF ok, of x] by (simp only: CHART_SAMPLES_def)
  ultimately have "samples t = held_samples (chartWindow t) \<and> length (samples t) \<le> 240 \<and>
      samples (pushSample x t) = take_last 240 (samples t @ [x])"
    by simp
  then show ?thesis unfolding Let_def t_def [symmetric] .
qed

subsection \<open>The seeded trajectory\<close>

lemma multiples_below: "0 < k \<Longrightarrow> length (filter (\<lambda>i. (i + 1) mod k = 0) [0..<n]) = n div k"
  by (induction n) (auto simp: div_Suc)

lemma seed_count:
  assumes "0 < k" "n \<le> c * k"
  shows "length (filter (\<lambda>i. (i + 1) mod k = 0 \<or> i = n - 1) [0..<n]) \<le> c"
proof (cases n)
  case (Suc m)
  have split: "filter (\<lambda>i. (i + 1) mod k = 0 \<or> i = n - 1) [0..<n] =
      filter (\<lambda>i. (i + 1) mod k = 0) [0..<m] @ [m]"
    by (simp add: Suc) (rule filter_cong, auto)
  have "m div k < c"
    using assms Suc by (simp add: less_mult_imp_div_less)
  then show ?thesis unfolding split using multiples_below [OF assms(1), of m] by simp
qed simp

lemma seed_step_enough: "n \<le> CHART_SAMPLES * seed_step n"
proof -
  have "n \<le> CHART_SAMPLES * ((n + CHART_SAMPLES - 1) div CHART_SAMPLES)"
    unfolding CHART_SAMPLES_def by linarith
  also have "\<dots> \<le> CHART_SAMPLES * seed_step n"
    by (intro mult_left_mono) (simp_all add: seed_step_def)
  finally show ?thesis .
qed

lemma seed_indexes_last: "0 < n \<Longrightarrow> seed_indexes n \<noteq> [] \<and> last (seed_indexes n) = n - 1"
  by (cases n) (simp_all add: seed_indexes_def)

text \<open>
  The trajectory seeded from closed lots always fits the chart window, so installing it drops
  nothing, and its last point summarises all of the lots.
\<close>

theorem seed_fits_window:
  assumes "dated \<noteq> []"
  shows "length (seed_samples dp now eligible dated) \<le> 240 \<and>
    ls_books (last (seed_samples dp now eligible dated)) = summarizeBook dp (map fst dated) \<and>
    ls_exits (last (seed_samples dp now eligible dated)) = summarizeExits dp (map fst dated)"
proof -
  have "length (seed_samples dp now eligible dated) \<le> CHART_SAMPLES"
    unfolding seed_samples_def length_map seed_indexes_def
    by (rule seed_count [OF _ seed_step_enough]) (simp add: seed_step_def)
  moreover have "last (seed_samples dp now eligible dated) =
      seed_sample dp now eligible dated (length dated - 1)"
    using seed_indexes_last [of "length dated"] assms by (simp add: seed_samples_def last_map)
  moreover have "take (length dated - 1 + 1) dated = dated" using assms by (cases dated) auto
  ultimately show ?thesis by (simp add: seed_sample_def Let_def CHART_SAMPLES_def)
qed

theorem seed_fits_window_witness:
  "length (seed_samples (\<lambda>_. None) (Fin 0) (Fin 0) [([], Fin 1), ([], Fin 2)]) \<le> 240"
  using seed_fits_window [of "[([], Fin 1), ([], Fin 2)]"] by blast

end
