(* ===== verification/PageFeed.thy ===== *)
theory PageFeed
  imports LongtailRecorder
begin

text \<open>
  The page's end of the feed (\<^verbatim>\<open>providers/websocket.tsx\<close>): how an envelope from the worker is
  dealt out to the stores of \<^verbatim>\<open>collections/app.ts\<close> and to the components, the listings of
  \<^verbatim>\<open>hub/apply-s3-compact.ts\<close>, the engine readout of \<^verbatim>\<open>lib/engine-telemetry.ts\<close>, the hub's
  addresses (\<^verbatim>\<open>lib/hub.ts\<close>), and the mount and status handling that start the conversation with
  the worker. The stores the panels share are one record.
\<close>

subsection \<open>Addresses\<close>

record location =
  loc_protocol :: string
  loc_hostname :: string

definition hub_host :: "location \<Rightarrow> string" where
  "hub_host loc =
     (if loc_hostname loc = [] \<or> loc_hostname loc = ''localhost'' then ''127.0.0.1''
      else loc_hostname loc)"

definition hubBaseUrl :: "string option \<Rightarrow> location \<Rightarrow> string" where
  "hubBaseUrl configured loc =
     (case configured of
        Some (c # cs) \<Rightarrow>
          strip_suffix ''/ws''
            (if starts_with (c # cs) ''ws'' then ''http'' @ drop 2 (c # cs) else c # cs)
      | _ \<Rightarrow> (if loc_protocol loc = ''https:'' then ''https:'' else ''http:'') @ ''//'' @
             hub_host loc @ '':8765'')"

definition hubWsUrl :: "string option \<Rightarrow> location \<Rightarrow> string" where
  "hubWsUrl configured loc =
     (case configured of
        Some (c # cs) \<Rightarrow> strip_suffix ''/ws'' (c # cs)
      | _ \<Rightarrow> (if loc_protocol loc = ''https:'' then ''wss:'' else ''ws:'') @ ''//'' @
             hub_host loc @ '':8765'')"

subsection \<open>The shared stores\<close>

definition SIGNALS :: "string list" where
  "SIGNALS = [''correlation'', ''cvd'', ''depthflow'', ''hawkes'', ''leadlag'', ''liquidity'',
     ''morphology'', ''pumpdump'', ''sentiment'', ''toxicity'', ''resonance'', ''regions'', ''paths'',
     ''positions'', ''decisions'', ''tick'']"

text \<open>
  The atoms and stores an envelope can reach. The stores \<^verbatim>\<open>positions\<close>, \<^verbatim>\<open>decisions\<close> and
  \<^verbatim>\<open>tick\<close> are fields of their own, the other signals are in \<open>pg_signals\<close>.
\<close>

record page =
  pg_route :: string
  pg_online :: string
  pg_tickCount :: jsnum
  pg_balance :: jsval
  pg_balances :: jsobj
  pg_phase :: string
  pg_candidates :: nat
  pg_book :: Book
  pg_signals :: jsobj
  pg_positions :: "(string \<times> jsobj) list"
  pg_decisions :: "(string \<times> jsobj) list"
  pg_tick :: jsval
  pg_confidence :: ConfidenceFrame
  pg_cog :: CognitionState
  pg_life :: life_state
  pg_longtail :: longtail

definition page_start :: page where
  "page_start =
     \<lparr>pg_route = ''dashboard'', pg_online = ''OFFLINE'', pg_tickCount = Fin 0, pg_balance = JNull,
      pg_balances = [], pg_phase = em_dash, pg_candidates = 0, pg_book = Virtual,
      pg_signals = map (\<lambda>k. (k, JObj []))
        (filter (\<lambda>k. k \<notin> {''positions'', ''decisions'', ''tick''}) SIGNALS),
      pg_positions = [], pg_decisions = [], pg_tick = JNull, pg_confidence = initial_confidence,
      pg_cog = cog cognition_start, pg_life = life_start, pg_longtail = longtail_start\<rparr>"

text \<open>What the page reads from its host: \<^verbatim>\<open>Date.parse\<close>, \<^verbatim>\<open>localeCompare\<close> and the clock.\<close>

record host =
  h_dp :: "string \<Rightarrow> int option"
  h_lc :: "string \<Rightarrow> string \<Rightarrow> int"
  h_iso :: string
  h_now :: jsnum

definition env_of :: "host \<Rightarrow> page \<Rightarrow> env" where
  "env_of h p = \<lparr>e_dp = h_dp h, e_lc = h_lc h, e_now = h_iso h, e_positions = pg_positions p,
     e_book = pg_book p\<rparr>"

subsection \<open>Lots and decisions from the wire\<close>

definition asPosition :: "jsval \<Rightarrow> (string \<times> jsobj) option" where
  "asPosition raw =
     (case as_plain raw of
        None \<Rightarrow> None
      | Some row \<Rightarrow> map_option (\<lambda>ident. (ident, row)) (nonempty_str (field row ''id'')))"

definition put_lot :: "(string \<times> jsobj) list \<Rightarrow> jsval \<Rightarrow> (string \<times> jsobj) list" where
  "put_lot lots raw = (case asPosition raw of None \<Rightarrow> lots | Some (ident, row) \<Rightarrow> obj_set ident row lots)"

definition positionsFromWire :: "jsval \<Rightarrow> (string \<times> jsobj) list" where
  "positionsFromWire v =
     (case v of
        JArr rows \<Rightarrow> foldl put_lot [] rows
      | JObj ob \<Rightarrow> foldl put_lot [] (map_values ob)
      | _ \<Rightarrow> [])"

definition put_decision :: "(string \<times> jsobj) list \<Rightarrow> jsval \<Rightarrow> (string \<times> jsobj) list" where
  "put_decision next raw =
     (case as_plain raw of
        None \<Rightarrow> next
      | Some decision \<Rightarrow>
          if \<not> truthy (field decision ''symbol'') \<or> \<not> truthy (field decision ''action'') then next
          else obj_set (decisionStoreKey decision)
                 (obj_set ''tier'' (JStr (book_name (decisionBook decision))) decision) next)"

definition decisionsFromWire :: "jsval \<Rightarrow> (string \<times> jsobj) list" where
  "decisionsFromWire v =
     (case as_plain v of None \<Rightarrow> [] | Some ob \<Rightarrow> foldl put_decision [] (map_values ob))"

subsection \<open>Listings\<close>

definition applyPathsEnvelope :: "jsval \<Rightarrow> CognitionState \<Rightarrow> bool \<times> CognitionState" where
  "applyPathsEnvelope payload c =
     (case pathsListingFromEnvelope payload of
        None \<Rightarrow> (False, c)
      | Some listing \<Rightarrow> (True, ingestExploreListPrefix listing c))"

definition applyClosedEnvelope ::
    "env \<Rightarrow> ConfidenceFrame \<Rightarrow> jsnum \<Rightarrow> jsval \<Rightarrow> life_state \<times> longtail \<Rightarrow> bool \<times> (life_state \<times> longtail)" where
  "applyClosedEnvelope e frame now payload lt =
     (case closedListingFromEnvelope payload of
        None \<Rightarrow> (False, lt)
      | Some listing \<Rightarrow>
          let life = ingestHistoryClosedBatch e (cl_entries listing) (fst lt)
          in (True, (life, snd (seedFromClosedLots e frame now life (snd lt)))))"

subsection \<open>Envelopes\<close>

text \<open>\<^verbatim>\<open>{ ...v }\<close>: an array or a string spreads into its indexes, any other value into nothing.\<close>

fun spread_of :: "jsval \<Rightarrow> jsobj" where
  "spread_of (JStr s) = entries_of (JArr (map (\<lambda>c. JStr [c]) s))"
| "spread_of v = entries_of v"

definition set_signal :: "string \<Rightarrow> jsval \<Rightarrow> page \<Rightarrow> page" where
  "set_signal key v p = p\<lparr>pg_signals := AList.update key v (pg_signals p)\<rparr>"

definition ingest_tick :: "jsval \<Rightarrow> page \<Rightarrow> page" where
  "ingest_tick v p =
     (let p = p\<lparr>pg_tick := v\<rparr>
      in case Option.bind (as_record v) (\<lambda>light. as_num (field light ''n'')) of
           Some n \<Rightarrow> if num_lt (Fin 0) n then p\<lparr>pg_tickCount := n\<rparr> else p
         | None \<Rightarrow> p)"

definition ingest_positions :: "string option \<Rightarrow> jsval \<Rightarrow> page \<Rightarrow> page" where
  "ingest_positions mode v p =
     (let lots = positionsFromWire v
      in p\<lparr>pg_positions := (if mode = Some ''snapshot'' then lots else obj_merge (pg_positions p) lots)\<rparr>)"

definition ingest_closed :: "host \<Rightarrow> jsval \<Rightarrow> page \<Rightarrow> page" where
  "ingest_closed h v p =
     (case snd (applyClosedEnvelope (env_of h p) (pg_confidence p) (h_now h) v
                  (pg_life p, pg_longtail p)) of
        (life, t) \<Rightarrow> p\<lparr>pg_life := life, pg_longtail := t\<rparr>)"

text \<open>One round of the loop over \<^verbatim>\<open>Object.entries(payload)\<close>.\<close>

definition ingest_entry :: "host \<Rightarrow> string option \<Rightarrow> page \<Rightarrow> string \<times> jsval \<Rightarrow> page" where
  "ingest_entry h mode p kv =
     (case kv of (key, v) \<Rightarrow>
        if key = ''positions_mode'' then p
        else if key = ''balance'' then p\<lparr>pg_balance := v\<rparr>
        else if key = ''balances'' \<and> as_record v \<noteq> None
             then p\<lparr>pg_balances := obj_merge (pg_balances p) (entries_of v)\<rparr>
        else if key = ''confidence'' then p\<lparr>pg_confidence := ingestConfidence v (pg_confidence p)\<rparr>
        else if key = ''paths'' then p\<lparr>pg_cog := snd (applyPathsEnvelope v (pg_cog p))\<rparr>
        else if key = ''closed'' then ingest_closed h v p
        else if key \<notin> set SIGNALS then p
        else if key = ''tick'' then ingest_tick v p
        else if key = ''decisions''
             then p\<lparr>pg_decisions := obj_merge (pg_decisions p) (decisionsFromWire v)\<rparr>
        else if key = ''positions'' then ingest_positions mode v p
        else if as_plain v \<noteq> None
             then set_signal key
                    (JObj (obj_merge (spread_of (field (pg_signals p) key)) (spread_of v))) p
        else set_signal key v p)"

definition ingestEnvelope :: "host \<Rightarrow> jsobj \<Rightarrow> page \<Rightarrow> page" where
  "ingestEnvelope h payload p =
     foldl (ingest_entry h (as_str (field payload ''positions_mode''))) p payload"

subsection \<open>Engine readout\<close>

definition live_decision :: "Book \<Rightarrow> jsobj \<Rightarrow> bool" where
  "live_decision book decision =
     (truthy (field decision ''action'') \<and> field decision ''action'' \<noteq> JStr ''skip'' \<and>
      decisionBook decision = book)"

definition engine_phase :: "page \<Rightarrow> string" where
  "engine_phase p =
     (if (case cg_tree (pg_cog p) of Some t \<Rightarrow> tr_trading t | None \<Rightarrow> False) then ''trading''
      else if (case Option.bind (cg_tree (pg_cog p)) tr_gate of Some g \<Rightarrow> gt_enabled g | None \<Rightarrow> False)
           then ''evaluate''
      else if num_lt (Fin 0) (pg_tickCount p) then ''live'' else pg_phase p)"

definition syncEngineTelemetry :: "page \<Rightarrow> page" where
  "syncEngineTelemetry p =
     p\<lparr>pg_candidates :=
         length (filter (\<lambda>m. ma_action m \<noteq> []) (map_values (cg_matches (pg_cog p)))) +
         length (filter (live_decision (pg_book p)) (map_values (pg_decisions p))),
       pg_phase := engine_phase p\<rparr>"

subsection \<open>The feed\<close>

definition on_status :: "string \<Rightarrow> page \<Rightarrow> page" where
  "on_status status p =
     (if status = ''OFFLINE'' then p\<lparr>pg_online := ''OFFLINE''\<rparr>
      else if status = ''ONLINE'' then
        (let life = requestClosedPositionHistory (resetClosedHistoryRequest (pg_life p))
         in case requestLongtailSources life (resetLongtailSourcesRequest (pg_longtail p)) of
              (life, t) \<Rightarrow> p\<lparr>pg_online := ''ONLINE'', pg_life := life, pg_longtail := t\<rparr>)
      else if status = ''CONNECTING'' then p\<lparr>pg_online := ''CONNECTING''\<rparr>
      else p)"

text \<open>
  The listener on the worker. A text the worker parses starts with a brace, so an envelope's
  payload is an object.
\<close>

fun on_worker_message :: "host \<Rightarrow> worker_post \<Rightarrow> page \<Rightarrow> page" where
  "on_worker_message h (ENVELOPE (JObj payload)) p = syncEngineTelemetry (ingestEnvelope h payload p)"
| "on_worker_message h (STATUS status) p = on_status status p"
| "on_worker_message h _ p = p"

definition post_to_worker :: "page_message \<Rightarrow> page \<Rightarrow> page" where
  "post_to_worker m p =
     p\<lparr>pg_life := (pg_life p)\<lparr>hub := map_option (\<lambda>ms. ms @ [m]) (hub (pg_life p))\<rparr>\<rparr>"

definition bind_worker :: "bool \<Rightarrow> page \<Rightarrow> page" where
  "bind_worker bound p = p\<lparr>pg_life := (pg_life p)\<lparr>hub := bindHubWorker bound (hub (pg_life p))\<rparr>\<rparr>"

definition start_recorder :: "host \<Rightarrow> page \<Rightarrow> page" where
  "start_recorder h p =
     (case ensureLongtailRecorder (env_of h p) (pg_confidence p) (pg_cog p) (h_now h)
             (pg_life p, pg_longtail p) of
        (life, t) \<Rightarrow> p\<lparr>pg_life := life, pg_longtail := t\<rparr>)"

definition mount_feed :: "host \<Rightarrow> string option \<Rightarrow> location \<Rightarrow> page \<Rightarrow> page" where
  "mount_feed h configured loc p =
     (let p = bind_worker True (start_recorder h p);
          p = p\<lparr>pg_life := (pg_life p)\<lparr>hub := hub_sendRoute (pg_route p) (hub (pg_life p))\<rparr>\<rparr>
      in post_to_worker (CONNECT (Some (hubWsUrl configured loc @ ''/ws''))) p)"

definition unmount_feed :: "page \<Rightarrow> page" where
  "unmount_feed p = bind_worker False (post_to_worker DISCONNECT p)"

definition set_route :: "string \<Rightarrow> page \<Rightarrow> page" where
  "set_route route p =
     p\<lparr>pg_route := route, pg_life := (pg_life p)\<lparr>hub := hub_sendRoute route (hub (pg_life p))\<rparr>\<rparr>"

subsection \<open>Runs of the page\<close>

datatype page_op =
    Mount "string option" location
  | Unmount
  | FromWorker worker_post
  | Route string
  | DeskFeed
  | RecorderTick

definition desk_feed :: "host \<Rightarrow> page \<Rightarrow> page" where
  "desk_feed h p = p\<lparr>pg_life := ingestDeskSnapshot (env_of h p) (pg_life p)\<rparr>"

definition tick_recorder :: "host \<Rightarrow> page \<Rightarrow> page" where
  "tick_recorder h p =
     (case recorder_tick (env_of h p) (pg_confidence p) (pg_cog p) (h_now h)
             (pg_life p, pg_longtail p) of
        (life, t) \<Rightarrow> p\<lparr>pg_life := life, pg_longtail := t\<rparr>)"

fun apply_page :: "host \<Rightarrow> page_op \<Rightarrow> page \<Rightarrow> page" where
  "apply_page h (Mount configured loc) p = mount_feed h configured loc p"
| "apply_page h Unmount p = unmount_feed p"
| "apply_page h (FromWorker m) p = on_worker_message h m p"
| "apply_page h (Route route) p = set_route route p"
| "apply_page h DeskFeed p = desk_feed h p"
| "apply_page h RecorderTick p = tick_recorder h p"

text \<open>The host's clock moves between operations, its collation does not.\<close>

inductive page_reach :: "(string \<Rightarrow> string \<Rightarrow> int) \<Rightarrow> page \<Rightarrow> bool" for lc where
  page_init: "page_reach lc page_start"
| page_step: "page_reach lc p \<Longrightarrow> h_lc h = lc \<Longrightarrow> page_reach lc (apply_page h x p)"

subsection \<open>The page's invariant\<close>

definition lots_filed :: "(string \<times> jsobj) list \<Rightarrow> bool" where
  "lots_filed m \<longleftrightarrow> distinct (map fst m) \<and>
     list_all (\<lambda>(k, row). k \<noteq> [] \<and> field row ''id'' = JStr k) m"

definition decisions_filed :: "(string \<times> jsobj) list \<Rightarrow> bool" where
  "decisions_filed m \<longleftrightarrow> distinct (map fst m) \<and>
     list_all (\<lambda>(k, d). k = decisionStoreKey d \<and> field d ''tier'' = JStr (book_name (decisionBook d))) m"

definition life_ok :: "(string \<Rightarrow> string \<Rightarrow> int) \<Rightarrow> life_state \<Rightarrow> bool" where
  "life_ok lc s \<longleftrightarrow> Lifecycle.store_ok s \<and> coherent lc s"

definition page_ok :: "(string \<Rightarrow> string \<Rightarrow> int) \<Rightarrow> page \<Rightarrow> bool" where
  "page_ok lc p \<longleftrightarrow> life_ok lc (pg_life p) \<and> recorder_ok (pg_longtail p) \<and>
     confidence_ok (pg_confidence p) \<and> lots_filed (pg_positions p) \<and> decisions_filed (pg_decisions p)"

lemma map_of_list_all:
  "distinct (map fst m) \<Longrightarrow> list_all (\<lambda>(k, v). P k v) m = (\<forall>k v. map_of m k = Some v \<longrightarrow> P k v)"
  by (auto simp: list_all_iff)

lemma filed_set:
  assumes "distinct (map fst m) \<and> list_all (\<lambda>(k, v). P k v) m" and "P k v"
  shows "distinct (map fst (obj_set k v m)) \<and> list_all (\<lambda>(k, v). P k v) (obj_set k v m)"
  using assms distinct_obj_set [of m k v] by (auto simp: map_of_list_all map_of_obj_set)

lemma filed_merge:
  assumes "distinct (map fst a) \<and> list_all (\<lambda>(k, v). P k v) a"
    and "distinct (map fst b) \<and> list_all (\<lambda>(k, v). P k v) b"
  shows "distinct (map fst (obj_merge a b)) \<and> list_all (\<lambda>(k, v). P k v) (obj_merge a b)"
proof -
  have d: "distinct (map fst (obj_merge a b))" using assms distinct_obj_merge by blast
  then show ?thesis
    using assms by (auto simp: map_of_list_all get_obj_merge coalesce_def split: option.splits)
qed

lemma lots_merge: "lots_filed a \<Longrightarrow> lots_filed b \<Longrightarrow> lots_filed (obj_merge a b)"
  unfolding lots_filed_def by (rule filed_merge)

lemma decisions_merge: "decisions_filed a \<Longrightarrow> decisions_filed b \<Longrightarrow> decisions_filed (obj_merge a b)"
  unfolding decisions_filed_def by (rule filed_merge)

lemma lots_put: "lots_filed m \<Longrightarrow> lots_filed (put_lot m raw)"
  by (auto simp: lots_filed_def put_lot_def asPosition_def nonempty_str_Some split: option.splits
      intro!: filed_set [THEN conjunct1] filed_set [THEN conjunct2])

lemma lots_wire: "lots_filed (positionsFromWire v)"
proof -
  have nil: "lots_filed []" by (simp add: lots_filed_def)
  have "lots_filed (foldl put_lot [] rows)" for rows
    using nil by (rule foldl_invariant) (rule lots_put)
  then show ?thesis by (cases v) (simp_all add: positionsFromWire_def nil)
qed

lemma decisionBook_tier [simp]:
  "decisionBook (obj_set ''tier'' (JStr (book_name b)) d) = b"
  by (simp add: decisionBook_def)

lemma decisionStoreKey_tier [simp]:
  "decisionStoreKey (obj_set ''tier'' (JStr (book_name (decisionBook d))) d) = decisionStoreKey d"
  by (simp add: decisionStoreKey_def)

lemma decisions_put: "decisions_filed m \<Longrightarrow> decisions_filed (put_decision m raw)"
  by (auto simp: decisions_filed_def put_decision_def split: option.splits
      intro!: filed_set [THEN conjunct1] filed_set [THEN conjunct2])

lemma decisions_wire: "decisions_filed (decisionsFromWire v)"
proof -
  have nil: "decisions_filed []" by (simp add: decisions_filed_def)
  have "decisions_filed (foldl put_decision [] rows)" for rows
    using nil by (rule foldl_invariant) (rule decisions_put)
  then show ?thesis by (simp add: decisionsFromWire_def nil split: option.split)
qed

subsubsection \<open>Round trips\<close>

lemma life_ok_other [simp]:
  "life_ok lc (s\<lparr>hub := h\<rparr>) = life_ok lc s"
  "life_ok lc (requestClosedPositionHistory s) = life_ok lc s"
  "life_ok lc (resetClosedHistoryRequest s) = life_ok lc s"
  by (simp_all add: life_ok_def Lifecycle.store_ok_def coherent_def requestClosedPositionHistory_def
      resetClosedHistoryRequest_def)

lemma life_ok_request: "life_ok lc (fst (requestLongtailSources life t)) = life_ok lc life"
  by (simp add: requestLongtailSources_def Let_def)

lemma life_ok_desk: "life_ok (e_lc e) s \<Longrightarrow> life_ok (e_lc e) (ingestDeskClosedLots e rows s)"
  using desk_lots_ok [of s e rows] by (simp add: life_ok_def)

lemma life_ok_record:
  "life_ok (e_lc e) (fst lt) \<Longrightarrow> life_ok (e_lc e) (fst (recordLongtailSample e f c now lt))"
  by (simp add: recordLongtailSample_def captureSample_def Let_def life_ok_desk)

lemma life_ok_tick:
  "life_ok (e_lc e) (fst lt) \<Longrightarrow> life_ok (e_lc e) (fst (recorder_tick e f c now lt))"
  by (simp add: recorder_tick_def maybeRecordLongtailSample_def life_ok_record)

lemma life_ok_ensure:
  "life_ok (e_lc e) (fst lt) \<Longrightarrow> life_ok (e_lc e) (fst (ensureLongtailRecorder e f c now lt))"
proof -
  assume ok: "life_ok (e_lc e) (fst lt)"
  obtain life t where req: "requestLongtailSources (fst lt) (snd lt) = (life, t)"
    by (cases "requestLongtailSources (fst lt) (snd lt)")
  have "life_ok (e_lc e) life" using ok life_ok_request [of "e_lc e" "fst lt" "snd lt"] by (simp add: req)
  then have "life_ok (e_lc e)
      (fst (recordLongtailSample e f c now (life, snd (seedFromClosedLots e f now life t))))"
    by (intro life_ok_record) simp
  then show ?thesis
    using ok by (auto simp: ensureLongtailRecorder_def req split: prod.splits)
qed

lemma life_ok_closed:
  "life_ok (e_lc e) (fst lt) \<Longrightarrow> life_ok (e_lc e) (fst (snd (applyClosedEnvelope e f now payload lt)))"
  using history_ok [of "fst lt" e]
  by (auto simp: applyClosedEnvelope_def Let_def life_ok_def split: option.split)

lemma recorder_closed:
  "recorder_ok (snd lt) \<Longrightarrow> recorder_ok (snd (snd (applyClosedEnvelope e f now payload lt)))"
  by (auto simp: applyClosedEnvelope_def Let_def recorder_seed split: option.split)

subsubsection \<open>Operations\<close>

lemma env_of_lc [simp]: "e_lc (env_of h p) = h_lc h"
  by (simp add: env_of_def)

lemma page_ok_life:
  assumes "page_ok lc p" and "life_ok lc (fst lt)" and "recorder_ok (snd lt)"
  shows "page_ok lc (p\<lparr>pg_life := fst lt, pg_longtail := snd lt\<rparr>)"
  using assms by (simp add: page_ok_def)

lemma page_ok_entry: "page_ok (h_lc h) p \<Longrightarrow> page_ok (h_lc h) (ingest_entry h mode p kv)"
proof -
  assume ok: "page_ok (h_lc h) p"
  let ?lt = "(pg_life p, pg_longtail p)"
  have closed: "page_ok (h_lc h) (ingest_closed h v p)" for v
    using ok life_ok_closed [of "env_of h p" ?lt] recorder_closed [of ?lt]
    by (simp add: ingest_closed_def page_ok_def case_prod_beta)
  moreover have "page_ok (h_lc h) (ingest_tick v p)" for v
    using ok by (simp add: ingest_tick_def page_ok_def Let_def split: option.split)
  moreover have "page_ok (h_lc h) (ingest_positions mode v p)" for v
    using ok lots_wire [of v] by (simp add: ingest_positions_def page_ok_def lots_merge Let_def)
  moreover have "decisions_filed (obj_merge (pg_decisions p) (decisionsFromWire v))" for v
    using ok decisions_wire [of v] by (simp add: page_ok_def decisions_merge)
  ultimately show ?thesis
    using ok by (cases kv) (simp add: ingest_entry_def set_signal_def page_ok_def confidence_ok_ingest)
qed

lemma page_ok_envelope: "page_ok (h_lc h) p \<Longrightarrow> page_ok (h_lc h) (ingestEnvelope h payload p)"
  unfolding ingestEnvelope_def by (erule foldl_invariant) (rule page_ok_entry)

lemma page_ok_status: "page_ok lc p \<Longrightarrow> page_ok lc (on_status status p)"
proof -
  assume ok: "page_ok lc p"
  let ?life = "requestClosedPositionHistory (resetClosedHistoryRequest (pg_life p))"
  let ?t = "resetLongtailSourcesRequest (pg_longtail p)"
  have "recorder_ok ?t" using ok by (simp add: page_ok_def resetLongtailSourcesRequest_def recorder_ok_def)
  then have "recorder_ok (snd (requestLongtailSources ?life ?t))" by (rule recorder_request)
  moreover have "life_ok lc (fst (requestLongtailSources ?life ?t))"
    using ok by (simp add: life_ok_request page_ok_def)
  ultimately show ?thesis
    using ok by (simp add: on_status_def page_ok_def Let_def case_prod_beta)
qed

lemma page_ok_message: "page_ok (h_lc h) p \<Longrightarrow> page_ok (h_lc h) (on_worker_message h m p)"
proof (cases "(h, m, p)" rule: on_worker_message.cases)
  case (1 h' payload p')
  then show "page_ok (h_lc h) p \<Longrightarrow> ?thesis"
    using page_ok_envelope [of h p payload] by (simp add: syncEngineTelemetry_def page_ok_def)
qed (simp_all add: page_ok_status)

lemma page_ok_hub: "page_ok lc (p\<lparr>pg_life := (pg_life p)\<lparr>hub := x\<rparr>\<rparr>) = page_ok lc p"
  by (simp add: page_ok_def)

lemma page_ok_start_recorder: "page_ok (h_lc h) p \<Longrightarrow> page_ok (h_lc h) (start_recorder h p)"
  using life_ok_ensure [of "env_of h p" "(pg_life p, pg_longtail p)"]
    recorder_ensure [of "(pg_life p, pg_longtail p)"]
  by (simp add: start_recorder_def page_ok_def case_prod_beta)

lemma recorder_tick_ok: "recorder_ok (snd lt) \<Longrightarrow> recorder_ok (snd (recorder_tick e f c now lt))"
  using recorder_apply [of lt e f c now Tick] by simp

lemma page_ok_apply: "page_ok (h_lc h) p \<Longrightarrow> page_ok (h_lc h) (apply_page h x p)"
proof (cases x)
  case (Mount configured loc)
  then show "page_ok (h_lc h) p \<Longrightarrow> ?thesis"
    using page_ok_start_recorder [of h p]
    by (simp add: mount_feed_def post_to_worker_def bind_worker_def Let_def page_ok_def)
next
  case Unmount
  then show "page_ok (h_lc h) p \<Longrightarrow> ?thesis"
    by (simp add: unmount_feed_def post_to_worker_def bind_worker_def page_ok_def)
next
  case (Route r)
  then show "page_ok (h_lc h) p \<Longrightarrow> ?thesis" by (simp add: set_route_def page_ok_def)
next
  case DeskFeed
  then show "page_ok (h_lc h) p \<Longrightarrow> ?thesis"
    using life_ok_desk [of "env_of h p"]
    by (simp add: desk_feed_def ingestDeskSnapshot_def page_ok_def)
next
  case RecorderTick
  then show "page_ok (h_lc h) p \<Longrightarrow> ?thesis"
    using life_ok_tick [of "env_of h p" "(pg_life p, pg_longtail p)"]
      recorder_tick_ok [of "(pg_life p, pg_longtail p)"]
    by (simp add: tick_recorder_def page_ok_def case_prod_beta)
qed (simp add: page_ok_message)

lemma confidence_ok_start: "confidence_ok initial_confidence"
  by (simp add: confidence_ok_def initial_confidence_def emptyBook_def book_conf_ok_def)

lemma page_ok_start: "page_ok lc page_start"
  using confidence_ok_start recorder_start
  by (simp add: page_ok_def page_start_def life_ok_def life_start_def Lifecycle.store_ok_def coherent_def
      empty_ok map_values_def lots_filed_def decisions_filed_def)


definition demo_host :: host where
  "demo_host = \<lparr>h_dp = (\<lambda>_. None), h_lc = code_unit_compare, h_iso = ''t'', h_now = Fin 0\<rparr>"


subsection \<open>Positions of an envelope\<close>

lemma entry_positions:
  "pg_positions (ingest_entry h mode p (k, v)) =
     (if k = ''positions'' then pg_positions (ingest_positions mode v p) else pg_positions p)"
  by (simp add: ingest_entry_def ingest_closed_def ingest_tick_def set_signal_def SIGNALS_def Let_def
      split: prod.split option.split)

lemma entries_positions:
  "distinct (map fst payload) \<Longrightarrow> pg_positions (foldl (ingest_entry h mode) p payload) =
     (case map_of payload ''positions'' of
        None \<Rightarrow> pg_positions p | Some v \<Rightarrow> pg_positions (ingest_positions mode v p))"
proof (induction payload arbitrary: p)
  case (Cons kv payload)
  obtain k v where kv: "kv = (k, v)" by (cases kv)
  show ?case
  proof (cases "k = ''positions''")
    case True
    then have "map_of payload ''positions'' = None" using Cons.prems kv by (simp add: map_of_eq_None_iff)
    then show ?thesis using Cons True kv entry_positions by simp
  next
    case False
    then show ?thesis
      using Cons kv entry_positions [of h mode p k v]
      by (simp add: ingest_positions_def Let_def split: option.split)
  qed
qed simp

text \<open>
  A snapshot of the lots replaces the store and any other delivery is laid over it, wherever
  the mode stands in the envelope and whatever else the envelope carries; an envelope without lots
  leaves them alone.
\<close>

theorem envelope_positions:
  assumes "distinct (map fst payload)"
  shows "pg_positions (ingestEnvelope h payload p) =
    (case map_of payload ''positions'' of
       None \<Rightarrow> pg_positions p
     | Some v \<Rightarrow> if field payload ''positions_mode'' = JStr ''snapshot'' then positionsFromWire v
                 else obj_merge (pg_positions p) (positionsFromWire v))"
proof -
  have "(as_str (field payload ''positions_mode'') = Some ''snapshot'') =
      (field payload ''positions_mode'' = JStr ''snapshot'')"
    by (cases "field payload ''positions_mode''") simp_all
  then show ?thesis
    using entries_positions [OF assms]
    by (simp add: ingestEnvelope_def ingest_positions_def Let_def split: option.split)
qed

theorem envelope_positions_witness:
  "pg_positions (ingestEnvelope demo_host
     [(''positions'', JArr []), (''positions_mode'', JStr ''snapshot'')]
     (page_start\<lparr>pg_positions := [(''a'', [(''id'', JStr ''a'')])]\<rparr>)) = []"
  using envelope_positions [of "[(''positions'', JArr []), (''positions_mode'', JStr ''snapshot'')]" demo_host
      "page_start\<lparr>pg_positions := [(''a'', [(''id'', JStr ''a'')])]\<rparr>"]
  by (simp add: positionsFromWire_def)

subsection \<open>Coming online\<close>

definition deliver :: "page_message list \<Rightarrow> worker \<Rightarrow> worker" where
  "deliver ms w = foldl (\<lambda>w m. on_page_message m w) w ms"

definition source_requests :: "jsobj list" where
  "source_requests = map s3_command [''paper/closed'', ''virtual/closed'', ''real/closed'', ''model/paths'']"

lemma hub_recorded:
  "hub (pg_life (bind_worker True p)) = Some []" "pg_route (start_recorder h p) = pg_route p"
  by (simp_all add: bind_worker_def bindHubWorker_def start_recorder_def split: prod.split)

lemma hub_mount:
  "hub (pg_life (mount_feed h configured loc p)) =
     Some [ROUTE (Some (pg_route p)), CONNECT (Some (hubWsUrl configured loc @ ''/ws''))]"
  by (simp add: mount_feed_def post_to_worker_def hub_sendRoute_def bind_worker_def bindHubWorker_def Let_def
      start_recorder_def split: prod.split)

lemma hub_online:
  "hub (pg_life p) = Some ms \<Longrightarrow>
     hub (pg_life (on_status ''ONLINE'' p)) = Some (ms @ map (COMMAND \<circ> Some) source_requests)"
  by (simp add: on_status_def requestLongtailSources_def requestClosedPositionHistory_def
      resetClosedHistoryRequest_def resetLongtailSourcesRequest_def trySendCommand_def sendCommand_def
      source_requests_def Let_def)

lemma deliver_requests:
  "open_socket w = Some g \<Longrightarrow>
     wire (deliver (map (COMMAND \<circ> Some) cs) w) = wire w @ map (Pair g) cs"
proof (induction cs arbitrary: w)
  case (Cons c cs)
  have "open_socket (command_message (Some c) w) = Some g" "wire (command_message (Some c) w) = wire w @ [(g, c)]"
    using Cons.prems by (auto simp: command_message_def send_open_def queueCommand_def open_socket_def Let_def
        split: option.splits if_splits)
  with Cons.IH [of "command_message (Some c) w"] show ?case by (simp add: deliver_def)
qed (simp add: deliver_def)

text \<open>
  C2. Coming online always fetches the desk's history: once the worker's socket opens after a
  mount, the hub is told the page's route, the page learns that it is online, and the hub then
  receives one request for each ledger's closed lots and one for the path book, although the
  recorder had already marked them as requested before the worker existed.
\<close>

theorem startup_fetches_history:
  assumes "pg_route p \<noteq> []"
  shows "let p1 = mount_feed h configured loc p;
             sent = (case hub (pg_life p1) of Some ms \<Rightarrow> ms | None \<Rightarrow> []);
             w1 = deliver sent worker_start;
             w2 = handle parse (SockOpen 1) w1;
             p2 = on_worker_message h (last (posted w2)) p1;
             fresh = (case hub (pg_life p2) of Some ms \<Rightarrow> drop (length sent) ms | None \<Rightarrow> [])
    in enabled (SockOpen 1) w1 \<and> pg_online p2 = ''ONLINE'' \<and>
       wire (deliver fresh w2) =
         map (Pair 1) ([(''type'', JStr ''route''), (''route'', JStr (pg_route p))] # source_requests)"
proof -
  let ?url = "hubWsUrl configured loc @ ''/ws''"
  let ?ms = "[ROUTE (Some (pg_route p)), CONNECT (Some ?url)]"
  let ?w1 = "deliver ?ms worker_start"
  let ?w2 = "handle parse (SockOpen 1) ?w1"
  have w1: "?w1 = worker_start\<lparr>currentRoute := pg_route p, socketGeneration := 1, connectUrl := ?url,
      socket := Some 1, sockets := [(1, CONNECTING)]\<rparr>"
    by (simp add: deliver_def worker_start_def text_or_empty_def sendRoute_def send_open_def open_socket_def
        connect_def teardownSocket_def Let_def)
  have w2: "open_socket ?w2 = Some 1" "last (posted ?w2) = STATUS ''ONLINE''"
    "wire ?w2 = [(1, [(''type'', JStr ''route''), (''route'', JStr (pg_route p))])]"
    unfolding w1 using assms by (simp_all add: worker_start_def on_open_def post_def sendRoute_def send_open_def
        open_socket_def flushCommands_def Let_def)
  have online: "hub (pg_life (on_status ''ONLINE'' (mount_feed h configured loc p))) =
      Some (?ms @ map (COMMAND \<circ> Some) source_requests)"
    by (rule hub_online [OF hub_mount])
  have "pg_online (on_status ''ONLINE'' (mount_feed h configured loc p)) = ''ONLINE''"
    by (simp add: on_status_def Let_def split: prod.split)
  moreover have "enabled (SockOpen 1) ?w1" by (simp add: w1)
  ultimately show ?thesis
    using online deliver_requests [OF w2(1), of source_requests]
    by (simp add: hub_mount Let_def w2(2,3) del: handle.simps One_nat_def)
qed

theorem startup_fetches_history_witness:
  "let p1 = mount_feed demo_host None \<lparr>loc_protocol = ''http:'', loc_hostname = ''localhost''\<rparr> page_start
   in pg_online (on_worker_message demo_host (last (posted (handle (\<lambda>_. Inl []) (SockOpen 1)
        (deliver (case hub (pg_life p1) of Some ms \<Rightarrow> ms | None \<Rightarrow> []) worker_start)))) p1) = ''ONLINE''"
proof -
  have "pg_route page_start \<noteq> []" by (simp add: page_start_def)
  from startup_fetches_history [OF this, of demo_host None "\<lparr>loc_protocol = ''http:'', loc_hostname = ''localhost''\<rparr>"
      "\<lambda>_. Inl []"]
  show ?thesis unfolding Let_def by blast
qed

end
