(* ===== verification/Warehouse.thy ===== *)
theory Warehouse
  imports JsValue
begin

text \<open>
  The workbench's connection to the warehouse (\<^verbatim>\<open>components/workbench/warehouse-handler.ts\<close>): the
  repair of statements, the promise cache of schemas and sizes, and the viewport buffers that turn
  scrolling into few fetches. Concurrency is explicit: a call is answered at once or waits for a
  fetch, and a fetch settles in an event of its own. The database, its SQL generator and the Arrow
  codec are not part of the program: a fetch settles with the rows it returned, with nothing, or
  with an error, and a call the buffers cannot answer is handed to the library's own handler.
\<close>

subsection \<open>Statements\<close>

definition word_char :: "char \<Rightarrow> bool" where
  "word_char c =
     (let n = of_char c :: nat
      in 48 \<le> n \<and> n \<le> 57 \<or> 65 \<le> n \<and> n \<le> 90 \<or> 97 \<le> n \<and> n \<le> 122 \<or> n = 95)"

text \<open>
  What follows \<^verbatim>\<open>SELECT\s+FROM\<close>, case ignored, at the start of the text, if it is there and ends on
  a word boundary.
\<close>

definition select_from :: "string \<Rightarrow> string option" where
  "select_from s =
     (let rest = drop 6 s; gap = takeWhile is_space rest; tail = dropWhile is_space rest
      in if lower (take 6 s) = ''select'' \<and> gap \<noteq> [] \<and> lower (take 4 tail) = ''from'' \<and>
            (drop 4 tail = [] \<or> \<not> word_char (hd (drop 4 tail)))
         then Some (drop 4 tail) else None)"

lemma select_from_shorter: "select_from s = Some rest \<Longrightarrow> length rest < length s"
  by (cases s) (auto simp: select_from_def Let_def split: if_splits
      dest: arg_cong [where f = length] intro: le_less_trans [OF diff_le_self]
      intro!: le_less_trans [OF length_dropWhile_le [THEN diff_le_mono, THEN le_trans]])

text \<open>The global replacement; the flag says whether the character before is a word character.\<close>

function sanitize_from :: "bool \<Rightarrow> string \<Rightarrow> string" where
  "sanitize_from w [] = []"
| "sanitize_from w (c # s) =
     (case if w then None else select_from (c # s) of
        Some rest \<Rightarrow> ''SELECT NULL FROM'' @ sanitize_from True rest
      | None \<Rightarrow> c # sanitize_from (word_char c) s)"
  by pat_completeness auto

termination
  by (relation "measure (\<lambda>(_, s). length s)") (auto dest: select_from_shorter split: if_splits)

definition sanitizeSql :: "string \<Rightarrow> string" where
  "sanitizeSql sql = sanitize_from False sql"

definition getHostedTables :: "jsobj list \<Rightarrow> string list" where
  "getHostedTables listing =
     map (\<lambda>row. js_text (field row ''database'') @ ''.'' @ js_text (field row ''schema'') @ ''.'' @
                js_text (field row ''name''))
       (filter (\<lambda>row. field row ''database'' \<noteq> JStr ''memory'') listing)"

subsection \<open>Remembered answers\<close>

text \<open>
  A promise is a number; \<open>asked\<close> counts the calls of \<^verbatim>\<open>resolve\<close>. \<^verbatim>\<open>remember\<close> hands out the known
  promise of a name or starts one.
\<close>

record promises =
  known :: "(string \<times> nat) list"
  asked :: nat

definition remember_promise :: "string \<Rightarrow> promises \<Rightarrow> nat \<times> promises" where
  "remember_promise name m =
     (case map_of (known m) name of
        Some p \<Rightarrow> (p, m)
      | None \<Rightarrow> (asked m, m\<lparr>known := AList.update name (asked m) (known m), asked := asked m + 1\<rparr>))"

definition no_promises :: promises where
  "no_promises = \<lparr>known = [], asked = 0\<rparr>"

text \<open>The \<^verbatim>\<open>catch\<close> of a promise that was started for \<open>name\<close>, and the deletion of a view.\<close>

definition forget :: "string \<Rightarrow> promises \<Rightarrow> promises" where
  "forget name m = m\<lparr>known := map_del name (known m)\<rparr>"

subsection \<open>Viewport buffers\<close>

record viewport =
  vp_start_row :: "int option"
  vp_end_row :: "int option"
  vp_start_col :: "int option"
  vp_end_col :: "int option"

record 'r viewport_buffer =
  bf_viewId :: string
  bf_startRow :: int
  bf_endRow :: int
  bf_startCol :: "int option"
  bf_endCol :: "int option"
  bf_table :: "'r list"

definition BUFFER_ROWS :: int where "BUFFER_ROWS = 2000"

definition OVERSCAN_ROWS :: int where "OVERSCAN_ROWS = 400"

definition first_row :: "viewport \<Rightarrow> int" where
  "first_row vp = (case vp_start_row vp of Some r \<Rightarrow> r | None \<Rightarrow> 0)"

definition end_row :: "viewport \<Rightarrow> int" where
  "end_row vp = (case vp_end_row vp of Some r \<Rightarrow> r | None \<Rightarrow> first_row vp + 33)"

definition covers :: "'r viewport_buffer \<Rightarrow> viewport \<Rightarrow> bool" where
  "covers cached vp =
     (bf_startCol cached = vp_start_col vp \<and> bf_endCol cached = vp_end_col vp \<and>
      bf_startRow cached \<le> first_row vp \<and> end_row vp \<le> bf_endRow cached)"

text \<open>The rows \<^verbatim>\<open>fillSlice\<close> hands to the grid.\<close>

definition fillSlice :: "'r viewport_buffer \<Rightarrow> viewport \<Rightarrow> 'r list" where
  "fillSlice cached vp =
     (let numRows = int (length (bf_table cached));
          relStart = min numRows (max 0 (first_row vp - bf_startRow cached));
          relEnd = min numRows (max relStart (end_row vp - bf_startRow cached))
      in take (nat (relEnd - relStart)) (drop (nat relStart) (bf_table cached)))"

text \<open>The rows a fetch asks for around the visible ones.\<close>

record fetch =
  ft_view :: string
  ft_viewport :: viewport
  ft_start :: int
  ft_end :: int

definition viewport_fetch :: "string \<Rightarrow> viewport \<Rightarrow> fetch" where
  "viewport_fetch view vp =
     (let startRow = first_row vp; rowCount = end_row vp - startRow;
          targetStart = max 0 (startRow - OVERSCAN_ROWS)
      in \<lparr>ft_view = view, ft_viewport = vp, ft_start = targetStart,
          ft_end = targetStart + max BUFFER_ROWS (rowCount + OVERSCAN_ROWS)\<rparr>)"

subsection \<open>Calls and fetches\<close>

text \<open>How a call ends: with rows from a buffer, in the library's handler, or with an error.\<close>

datatype 'r answer = Served "'r list" | Direct | Raised string

record call =
  ca_view :: string
  ca_viewport :: viewport
  ca_attempt :: nat
  ca_fetch :: nat

record 'r warehouse =
  schemas :: promises
  sizes :: promises
  widths :: promises
  viewportBuffers :: "(string \<times> 'r viewport_buffer) list"
  inFlightFetches :: "(string \<times> nat) list"
  running :: "(nat \<times> fetch) list"
  waiting :: "call list"
  answers :: "(string \<times> viewport \<times> 'r answer) list"
  started :: nat

definition warehouse_start :: "'r warehouse" where
  "warehouse_start = \<lparr>schemas = no_promises, sizes = no_promises, widths = no_promises, viewportBuffers = [], inFlightFetches = [], running = [], waiting = [],
     answers = [], started = 0\<rparr>"

definition fromCache :: "'r warehouse \<Rightarrow> string \<Rightarrow> viewport \<Rightarrow> 'r list option" where
  "fromCache w view vp =
     (case map_of (viewportBuffers w) view of
        None \<Rightarrow> None
      | Some cached \<Rightarrow> if covers cached vp then Some (fillSlice cached vp) else None)"

definition answer_call :: "string \<Rightarrow> viewport \<Rightarrow> 'r answer \<Rightarrow> 'r warehouse \<Rightarrow> 'r warehouse" where
  "answer_call view vp a w = w\<lparr>answers := answers w @ [(view, vp, a)]\<rparr>"

text \<open>
  One pass of the loop in \<^verbatim>\<open>viewGetData\<close>, up to its \<^verbatim>\<open>await\<close>: answer from the buffer, or join the
  view's fetch, starting it if there is none, or after four attempts fall back to the library.
\<close>

definition attempt_call :: "string \<Rightarrow> viewport \<Rightarrow> nat \<Rightarrow> 'r warehouse \<Rightarrow> 'r warehouse" where
  "attempt_call view vp attempt w =
     (case fromCache w view vp of
        Some rows \<Rightarrow> answer_call view vp (Served rows) w
      | None \<Rightarrow>
          if 4 \<le> attempt then answer_call view vp Direct w
          else let wait = (\<lambda>f. \<lparr>ca_view = view, ca_viewport = vp, ca_attempt = attempt + 1, ca_fetch = f\<rparr>)
               in case map_of (inFlightFetches w) view of
                    Some f \<Rightarrow> w\<lparr>waiting := waiting w @ [wait f]\<rparr>
                  | None \<Rightarrow>
                      w\<lparr>inFlightFetches := AList.update view (started w) (inFlightFetches w),
                        running := AList.update (started w) (viewport_fetch view vp) (running w),
                        waiting := waiting w @ [wait (started w)],
                        started := started w + 1\<rparr>)"

definition viewGetData :: "string \<Rightarrow> viewport \<Rightarrow> 'r warehouse \<Rightarrow> 'r warehouse" where
  "viewGetData view vp w =
     (if end_row vp - first_row vp \<le> 0 then answer_call view vp Direct w
      else attempt_call view vp 0 w)"

text \<open>
  What a fetch leaves behind when it settles: its rows in the buffer, unless the answer was empty
  or an error, and no entry in flight if the entry is still its own.
\<close>

definition store_fetch :: "fetch \<Rightarrow> (string + 'r list option) \<Rightarrow> 'r warehouse \<Rightarrow> 'r warehouse" where
  "store_fetch f result w =
     (case result of
        Inr (Some table) \<Rightarrow>
          w\<lparr>viewportBuffers := AList.update (ft_view f)
              \<lparr>bf_viewId = ft_view f, bf_startRow = ft_start f, bf_endRow = ft_start f + int (length table),
               bf_startCol = vp_start_col (ft_viewport f), bf_endCol = vp_end_col (ft_viewport f),
               bf_table = table\<rparr> (viewportBuffers w)\<rparr>
      | _ \<Rightarrow> w)"

definition resume_call :: "(string + 'r list option) \<Rightarrow> 'r warehouse \<Rightarrow> call \<Rightarrow> 'r warehouse" where
  "resume_call result w c =
     (case result of
        Inl err \<Rightarrow> answer_call (ca_view c) (ca_viewport c) (Raised err) w
      | Inr _ \<Rightarrow> attempt_call (ca_view c) (ca_viewport c) (ca_attempt c) w)"

definition settle :: "nat \<Rightarrow> (string + 'r list option) \<Rightarrow> 'r warehouse \<Rightarrow> 'r warehouse" where
  "settle i result w =
     (case map_of (running w) i of
        None \<Rightarrow> w
      | Some f \<Rightarrow>
          (let w' = store_fetch f result
                 (w\<lparr>running := map_del i (running w),
                    inFlightFetches := (if map_of (inFlightFetches w) (ft_view f) = Some i
                                        then map_del (ft_view f) (inFlightFetches w)
                                        else inFlightFetches w),
                    waiting := filter (\<lambda>c. ca_fetch c \<noteq> i) (waiting w)\<rparr>)
           in foldl (resume_call result) w' (filter (\<lambda>c. ca_fetch c = i) (waiting w))))"

text \<open>The remembered questions: the promise handed out, and the failure of one.\<close>

datatype question = Schema | Size | Width

definition tableSchema :: "string \<Rightarrow> 'r warehouse \<Rightarrow> nat \<times> 'r warehouse" where
  "tableSchema name w = (let m = remember_promise name (schemas w) in (fst m, w\<lparr>schemas := snd m\<rparr>))"

definition tableSize :: "string \<Rightarrow> 'r warehouse \<Rightarrow> nat \<times> 'r warehouse" where
  "tableSize name w = (let m = remember_promise name (sizes w) in (fst m, w\<lparr>sizes := snd m\<rparr>))"

definition viewColumnSize :: "string \<Rightarrow> 'r warehouse \<Rightarrow> nat \<times> 'r warehouse" where
  "viewColumnSize name w = (let m = remember_promise name (widths w) in (fst m, w\<lparr>widths := snd m\<rparr>))"

fun ask_question :: "question \<Rightarrow> string \<Rightarrow> 'r warehouse \<Rightarrow> nat \<times> 'r warehouse" where
  "ask_question Schema = tableSchema"
| "ask_question Size = tableSize"
| "ask_question Width = viewColumnSize"

fun fail_question :: "question \<Rightarrow> string \<Rightarrow> 'r warehouse \<Rightarrow> 'r warehouse" where
  "fail_question Schema name w = w\<lparr>schemas := forget name (schemas w)\<rparr>"
| "fail_question Size name w = w\<lparr>sizes := forget name (sizes w)\<rparr>"
| "fail_question Width name w = w\<lparr>widths := forget name (widths w)\<rparr>"

definition viewDelete :: "string \<Rightarrow> 'r warehouse \<Rightarrow> 'r warehouse" where
  "viewDelete view w =
     w\<lparr>schemas := forget view (schemas w), sizes := forget view (sizes w), widths := forget view (widths w),
       viewportBuffers := map_del view (viewportBuffers w),
       inFlightFetches := map_del view (inFlightFetches w)\<rparr>"

subsection \<open>Runs\<close>

text \<open>Rows \<open>a\<close> to \<open>b\<close> of a view.\<close>

definition window :: "'r list \<Rightarrow> int \<Rightarrow> int \<Rightarrow> 'r list" where
  "window rows a b = take (nat (b - a)) (drop (nat a) rows)"

datatype 'r warehouse_event =
    Ask string viewport
  | Settle nat "string + 'r list option"
  | Drop string
  | Question question string
  | Failed question string

fun warehouse_handle :: "'r warehouse_event \<Rightarrow> 'r warehouse \<Rightarrow> 'r warehouse" where
  "warehouse_handle (Ask view vp) w = viewGetData view vp w"
| "warehouse_handle (Settle i result) w = settle i result w"
| "warehouse_handle (Drop view) w = viewDelete view w"
| "warehouse_handle (Question q name) w = snd (ask_question q name w)"
| "warehouse_handle (Failed q name) w = fail_question q name w"

text \<open>The warehouse answers a fetch with the rows of the view that were asked for.\<close>

fun honest :: "(string \<Rightarrow> 'r list) \<Rightarrow> 'r warehouse \<Rightarrow> 'r warehouse_event \<Rightarrow> bool" where
  "honest rows w (Settle i (Inr (Some table))) =
     (case map_of (running w) i of
        None \<Rightarrow> True
      | Some f \<Rightarrow> table = window (rows (ft_view f)) (ft_start f) (ft_end f))"
| "honest rows w _ = True"

inductive warehouse_reach :: "(string \<Rightarrow> 'r list) \<Rightarrow> 'r warehouse \<Rightarrow> bool" for rows where
  empty: "warehouse_reach rows warehouse_start"
| event: "warehouse_reach rows w \<Longrightarrow> honest rows w e \<Longrightarrow> warehouse_reach rows (warehouse_handle e w)"

subsection \<open>Buffers hold the view's rows\<close>

definition buffer_ok :: "'r list \<Rightarrow> 'r viewport_buffer \<Rightarrow> bool" where
  "buffer_ok rows b \<longleftrightarrow> 0 \<le> bf_startRow b \<and>
     bf_endRow b = bf_startRow b + int (length (bf_table b)) \<and>
     bf_table b = take (length (bf_table b)) (drop (nat (bf_startRow b)) rows)"

definition answer_ok :: "(string \<Rightarrow> 'r list) \<Rightarrow> string \<times> viewport \<times> 'r answer \<Rightarrow> bool" where
  "answer_ok rows x \<longleftrightarrow>
     (case x of (view, vp, Served t) \<Rightarrow>
        0 \<le> first_row vp \<and> end_row vp \<le> int (length (rows view)) \<and>
        t = window (rows view) (first_row vp) (end_row vp)
      | _ \<Rightarrow> True)"

definition call_ok :: "(nat \<times> fetch) list \<Rightarrow> call \<Rightarrow> bool" where
  "call_ok fs c \<longleftrightarrow> first_row (ca_viewport c) < end_row (ca_viewport c) \<and> ca_attempt c \<le> 4 \<and>
     map_of fs (ca_fetch c) \<noteq> None"

definition warehouse_ok :: "(string \<Rightarrow> 'r list) \<Rightarrow> 'r warehouse \<Rightarrow> bool" where
  "warehouse_ok rows w \<longleftrightarrow>
     (\<forall>view b. map_of (viewportBuffers w) view = Some b \<longrightarrow> buffer_ok (rows view) b) \<and>
     (\<forall>x \<in> set (answers w). answer_ok rows x) \<and>
     (\<forall>c \<in> set (waiting w). call_ok (running w) c) \<and>
     (\<forall>view i. map_of (inFlightFetches w) view = Some i \<longrightarrow>
        (\<exists>f. map_of (running w) i = Some f \<and> ft_view f = view)) \<and>
     (\<forall>i f. map_of (running w) i = Some f \<longrightarrow> 0 \<le> ft_start f \<and> i < started w)"

lemma covered_slice:
  assumes "buffer_ok rows b" "covers b vp" "first_row vp < end_row vp"
  shows "0 \<le> first_row vp \<and> end_row vp \<le> int (length rows) \<and>
    fillSlice b vp = window rows (first_row vp) (end_row vp)"
proof -
  let ?s = "bf_startRow b" and ?n = "int (length (bf_table b))" and ?f = "first_row vp" and ?e = "end_row vp"
  have c: "0 \<le> ?s" "?s \<le> ?f" "?e \<le> ?s + ?n" using assms by (auto simp: buffer_ok_def covers_def)
  have tab: "bf_table b = take (nat ?n) (drop (nat ?s) rows)" using assms by (simp add: buffer_ok_def)
  have "length (bf_table b) = length (take (nat ?n) (drop (nat ?s) rows))" by (rule arg_cong [OF tab])
  then have len: "?s + ?n \<le> int (length rows)" using c assms(3) by auto
  have "fillSlice b vp = take (nat (?e - ?f)) (drop (nat (?f - ?s)) (bf_table b))"
    using c assms(3) by (simp add: fillSlice_def Let_def min_def max_def)
  also have "\<dots> = take (nat (?e - ?f)) (drop (nat (?f - ?s)) (drop (nat ?s) rows))"
    using c assms(3) by (subst tab) (auto simp: drop_take min_def)
  also have "\<dots> = window rows ?f ?e" using c by (simp add: window_def nat_diff_distrib)
  finally show ?thesis using c len by simp
qed

lemma fetched_buffer:
  assumes "0 \<le> ft_start f" "t = window rows (ft_start f) e"
  shows "buffer_ok rows \<lparr>bf_viewId = v, bf_startRow = ft_start f, bf_endRow = ft_start f + int (length t),
    bf_startCol = a, bf_endCol = b, bf_table = t\<rparr>"
  using assms by (simp add: buffer_ok_def window_def min_def)

lemma ok_answer: "warehouse_ok rows w \<Longrightarrow> answer_ok rows (view, vp, a) \<Longrightarrow> warehouse_ok rows (answer_call view vp a w)"
  by (simp add: warehouse_ok_def answer_call_def)

lemma call_ok_more: "call_ok fs c \<Longrightarrow> call_ok (AList.update i f fs) c"
  by (simp add: call_ok_def update_conv')

lemma ok_start_fetch:
  assumes ok: "warehouse_ok rows w" and c: "first_row vp < end_row vp" "attempt < 4"
  shows "warehouse_ok rows
    (w\<lparr>inFlightFetches := AList.update view (started w) (inFlightFetches w),
       running := AList.update (started w) (viewport_fetch view vp) (running w),
       waiting := waiting w @ [\<lparr>ca_view = view, ca_viewport = vp, ca_attempt = attempt + 1,
                                ca_fetch = started w\<rparr>],
       started := started w + 1\<rparr>)"
proof -
  have "ft_view (viewport_fetch view vp) = view" "0 \<le> ft_start (viewport_fetch view vp)"
    by (simp_all add: viewport_fetch_def Let_def)
  then show ?thesis
    using ok c by (fastforce simp: warehouse_ok_def update_conv' call_ok_def)
qed

lemma ok_attempt:
  assumes ok: "warehouse_ok rows w" and c: "first_row vp < end_row vp"
  shows "warehouse_ok rows (attempt_call view vp attempt w)"
proof (cases "fromCache w view vp")
  case (Some t)
  then obtain b where "map_of (viewportBuffers w) view = Some b" "covers b vp" "t = fillSlice b vp"
    by (auto simp: fromCache_def split: option.splits if_splits)
  then have "answer_ok rows (view, vp, Served t)"
    using covered_slice [of "rows view" b vp] ok c by (simp add: answer_ok_def warehouse_ok_def)
  with Some ok show ?thesis by (simp add: attempt_call_def ok_answer)
next
  case None
  show ?thesis
  proof (cases "4 \<le> attempt")
    case True
    with None ok show ?thesis by (simp add: attempt_call_def ok_answer answer_ok_def)
  next
    case False
    show ?thesis
    proof (cases "map_of (inFlightFetches w) view")
      case (Some f)
      then obtain g where "map_of (running w) f = Some g" using ok unfolding warehouse_ok_def by blast
      with None False Some ok c show ?thesis
        by (auto simp: attempt_call_def Let_def warehouse_ok_def call_ok_def)
    next
      case none: None
      with None False ok_start_fetch [OF ok c, of attempt view] show ?thesis
        by (simp add: attempt_call_def Let_def)
    qed
  qed
qed

lemma running_attempt:
  "map_of (running w) i \<noteq> None \<Longrightarrow> map_of (running (attempt_call view vp a w)) i \<noteq> None"
  by (auto simp: attempt_call_def answer_call_def Let_def update_conv' split: option.splits)

lemma ok_settled_fetch:
  assumes ok: "warehouse_ok rows w" and run: "map_of (running w) i = Some f"
    and rows: "honest rows w (Settle i result)"
  shows "warehouse_ok rows (store_fetch f result
    (w\<lparr>running := map_del i (running w),
       inFlightFetches := (if map_of (inFlightFetches w) (ft_view f) = Some i
                           then map_del (ft_view f) (inFlightFetches w) else inFlightFetches w),
       waiting := filter (\<lambda>c. ca_fetch c \<noteq> i) (waiting w)\<rparr>))"
    (is "warehouse_ok rows (store_fetch f result ?w)")
proof -
  have "warehouse_ok rows ?w"
    using ok run by (fastforce simp: warehouse_ok_def map_del_conv call_ok_def)
  moreover have "t = window (rows (ft_view f)) (ft_start f) (ft_end f)" if "result = Inr (Some t)" for t
    using rows run that by simp
  moreover have "0 \<le> ft_start f" using ok run by (auto simp: warehouse_ok_def)
  ultimately show ?thesis
    by (auto simp: store_fetch_def warehouse_ok_def update_conv' fetched_buffer split: sum.split option.split)
qed

lemma ok_resume:
  assumes "warehouse_ok rows w" "first_row (ca_viewport c) < end_row (ca_viewport c)"
  shows "warehouse_ok rows (resume_call result w c)"
  using assms by (auto simp: resume_call_def ok_attempt ok_answer answer_ok_def split: sum.split)

lemma ok_settle:
  assumes "warehouse_ok rows w" "honest rows w (Settle i result)"
  shows "warehouse_ok rows (settle i result w)"
proof (cases "map_of (running w) i")
  case (Some f)
  have "\<forall>c \<in> set (filter (\<lambda>c. ca_fetch c = i) (waiting w)).
      first_row (ca_viewport c) < end_row (ca_viewport c)"
    using assms(1) by (auto simp: warehouse_ok_def call_ok_def)
  then show ?thesis
    unfolding settle_def Some option.case Let_def
    by (intro foldl_invariant [of "warehouse_ok rows"] ok_settled_fetch [OF assms(1) Some assms(2)] ok_resume)
      blast+
qed (simp add: settle_def assms(1))

lemma ok_handle:
  "warehouse_ok rows w \<Longrightarrow> honest rows w e \<Longrightarrow> warehouse_ok rows (warehouse_handle e w)"
proof (cases e)
  case (Ask view vp)
  then show "warehouse_ok rows w \<Longrightarrow> ?thesis"
    by (simp add: viewGetData_def ok_attempt ok_answer answer_ok_def)
next
  case (Drop view)
  then show "warehouse_ok rows w \<Longrightarrow> ?thesis"
    by (auto simp: viewDelete_def warehouse_ok_def map_del_conv)
next
  case (Question q name)
  then show "warehouse_ok rows w \<Longrightarrow> ?thesis"
    by (cases q) (simp_all add: tableSchema_def tableSize_def viewColumnSize_def Let_def warehouse_ok_def)
next
  case (Failed q name)
  then show "warehouse_ok rows w \<Longrightarrow> ?thesis"
    by (cases q) (simp_all add: warehouse_ok_def)
qed (simp add: ok_settle)

lemma ok_empty: "warehouse_ok rows warehouse_start"
  by (simp add: warehouse_start_def warehouse_ok_def)

lemma reach_ok: "warehouse_reach rows w \<Longrightarrow> warehouse_ok rows w"
  by (induction rule: warehouse_reach.induct) (auto intro: ok_handle ok_empty)

text \<open>
  C33. Scrolling through the buffers shows the view's own rows: in every run against a warehouse that
  answers fetches with the rows they asked for, whatever calls, settlements and deletions interleave,
  a call answered from a buffer gets exactly the rows of its viewport, and only when the view has all
  of them.
\<close>

theorem served_rows_exact:
  assumes "warehouse_reach rows w" and "(view, vp, Served t) \<in> set (answers w)"
  shows "0 \<le> first_row vp \<and> end_row vp \<le> int (length (rows view)) \<and>
    t = window (rows view) (first_row vp) (end_row vp)"
proof -
  have "answer_ok rows (view, vp, Served t)"
    using reach_ok [OF assms(1)] assms(2) by (simp add: warehouse_ok_def)
  then show ?thesis by (simp add: answer_ok_def)
qed

definition demo_viewport :: viewport where
  "demo_viewport = \<lparr>vp_start_row = Some 1, vp_end_row = Some 3, vp_start_col = None, vp_end_col = None\<rparr>"

definition demo_scroll :: "int warehouse" where
  "demo_scroll = settle 0 (Inr (Some [10, 20, 30, 40])) (viewGetData ''v'' demo_viewport warehouse_start)"

theorem served_rows_exact_witness:
  "(''v'', demo_viewport, Served [20, 30]) \<in> set (answers demo_scroll) \<and>
   [20, 30] = window [10, 20, 30, 40 :: int] (first_row demo_viewport) (end_row demo_viewport)"
proof -
  let ?rows = "\<lambda>_ :: string. [10, 20, 30, 40 :: int]"
  let ?ask = "viewGetData ''v'' demo_viewport warehouse_start :: int warehouse"
  have ask: "warehouse_reach ?rows ?ask" using event [OF empty, of ?rows "Ask ''v'' demo_viewport"] by simp
  have run: "map_of (running ?ask) 0 = Some (viewport_fetch ''v'' demo_viewport)"
    by (simp add: viewGetData_def attempt_call_def fromCache_def warehouse_start_def Let_def first_row_def
        end_row_def demo_viewport_def)
  have bounds: "ft_start (viewport_fetch ''v'' demo_viewport) = 0" "ft_end (viewport_fetch ''v'' demo_viewport) = 2000"
    by (simp_all add: viewport_fetch_def first_row_def end_row_def demo_viewport_def OVERSCAN_ROWS_def
        BUFFER_ROWS_def Let_def)
  have "honest ?rows ?ask (Settle 0 (Inr (Some [10, 20, 30, 40])))"
    by (simp add: run window_def bounds)
  from event [OF ask this] have reach: "warehouse_reach ?rows demo_scroll" by (simp add: demo_scroll_def)
  have mem: "(''v'', demo_viewport, Served [20, 30]) \<in> set (answers demo_scroll)"
    by (simp add: demo_scroll_def settle_def store_fetch_def resume_call_def answer_call_def covers_def fillSlice_def
        viewport_fetch_def viewGetData_def attempt_call_def fromCache_def warehouse_start_def Let_def first_row_def
        end_row_def demo_viewport_def OVERSCAN_ROWS_def map_del_def)
  from served_rows_exact [OF reach mem] mem show ?thesis by simp
qed

subsection \<open>Every call is answered\<close>

text \<open>The attempts the waiting calls have left.\<close>

definition attempts_left :: "call list \<Rightarrow> nat" where
  "attempts_left cs = sum_list (map (\<lambda>c. 5 - ca_attempt c) cs)"

lemma left_append [simp]: "attempts_left (xs @ ys) = attempts_left xs + attempts_left ys"
  by (simp add: attempts_left_def)

lemma left_attempt:
  "attempts_left (waiting (attempt_call view vp a w)) \<le> attempts_left (waiting w) + (4 - a)"
  by (auto simp: attempt_call_def answer_call_def Let_def attempts_left_def split: option.split)

lemma left_resume:
  "attempts_left (waiting (resume_call result w c)) \<le> attempts_left (waiting w) + (4 - ca_attempt c)"
  using left_attempt by (auto simp: resume_call_def answer_call_def split: sum.split)

lemma left_resume_all:
  "attempts_left (waiting (foldl (resume_call result) w cs)) \<le>
     attempts_left (waiting w) + sum_list (map (\<lambda>c. 4 - ca_attempt c) cs)"
proof (induction cs arbitrary: w)
  case (Cons c cs)
  show ?case using Cons [of "resume_call result w c"] left_resume [of result w c] by simp
qed simp

lemma left_filter:
  "attempts_left cs = attempts_left (filter P cs) + attempts_left (filter (\<lambda>c. \<not> P c) cs)"
  by (induction cs) (auto simp: attempts_left_def)

lemma left_strict:
  "cs \<noteq> [] \<Longrightarrow> \<forall>c \<in> set cs. ca_attempt c \<le> 4 \<Longrightarrow> sum_list (map (\<lambda>c. 4 - ca_attempt c) cs) < attempts_left cs"
proof (induction cs)
  case (Cons c cs)
  then show ?case by (cases "cs = []") (auto simp: attempts_left_def)
qed simp

lemma waiting_store [simp]: "waiting (store_fetch f result w) = waiting w"
  by (auto simp: store_fetch_def split: sum.split option.split)



subsection \<open>One request per question\<close>

lemma remember_known:
  "map_of (known (snd (remember_promise name m))) name = Some (fst (remember_promise name m))"
  by (auto simp: remember_promise_def update_conv' split: option.split)

lemma remember_keeps:
  "map_of (known m) name = Some p \<Longrightarrow> map_of (known (snd (remember_promise other m))) name = Some p"
  by (auto simp: remember_promise_def update_conv' split: option.split)

lemma asked_once:
  assumes "map_of (known m) name = Some p"
  shows "remember_promise name m = (p, m)"
  using assms by (simp add: remember_promise_def)

text \<open>
  Repeats of a question share one request: after a question on a table, whatever is asked next about
  other tables, asking again hands out the same promise and asks the warehouse nothing; once the
  promise failed, the question is asked anew.
\<close>

lemma repeated_question_shares_promise:
  "(let first = remember_promise name m; m' = foldl (\<lambda>m n. snd (remember_promise n m)) (snd first) others
    in remember_promise name m' = (fst first, m')) \<and>
   asked (snd (remember_promise name (forget name m))) = asked m + 1"
proof -
  have "map_of (known (foldl (\<lambda>m n. snd (remember_promise n m)) m' others)) name = Some p"
    if "map_of (known m') name = Some p" for m' p
    using that by (induction others arbitrary: m') (simp_all add: remember_keeps)
  then show ?thesis
    by (simp add: Let_def remember_known asked_once)
      (simp add: remember_promise_def forget_def map_del_conv)
qed

end
