(* ===== verification/HawkesTrace.thy ===== *)
theory HawkesTrace
  imports JsNumber
begin

text \<open>
  The intensity curve of the Hawkes panel (\<^verbatim>\<open>components/terminal/xray-hawkes-trace.ts\<close>): fitted
  events are sampled into points along the decay each event was published with. Times are bigints;
  \<^verbatim>\<open>Math.exp\<close>, which the language leaves to the implementation, is the parameter \<open>ex\<close>.
\<close>

subsection \<open>Levels\<close>

record HawkesTraceSample =
  hs_at :: int
  hs_intensity :: jsnum
  hs_postArrival :: jsnum
  hs_baseline :: jsnum
  hs_decay :: jsnum

record HawkesTracePoint =
  pt_at :: int
  pt_intensity :: jsnum

definition giga :: jsnum where "giga = Fin 1000000000"

text \<open>The test \<^verbatim>\<open>restBelowPeak && decay > 0\<close> and the exponential both functions use.\<close>

definition decays :: "HawkesTraceSample \<Rightarrow> bool" where
  "decays s = (num_lt (hs_baseline s) (hs_postArrival s) \<and> num_lt (Fin 0) (hs_decay s))"

definition decay_level :: "(jsnum \<Rightarrow> jsnum) \<Rightarrow> HawkesTraceSample \<Rightarrow> jsnum \<Rightarrow> jsnum" where
  "decay_level ex s seconds =
     num_add (hs_baseline s)
       (num_mul (num_sub (hs_postArrival s) (hs_baseline s))
          (ex (num_mul (num_neg (hs_decay s)) seconds)))"

definition seconds_since :: "HawkesTraceSample \<Rightarrow> int \<Rightarrow> jsnum" where
  "seconds_since s t = num_div (num_of_int (t - hs_at s)) giga"

definition hawkesLevelAt :: "(jsnum \<Rightarrow> jsnum) \<Rightarrow> HawkesTraceSample \<Rightarrow> int \<Rightarrow> jsnum" where
  "hawkesLevelAt ex sample t =
     (if t \<le> hs_at sample then hs_intensity sample
      else if decays sample then decay_level ex sample (seconds_since sample t)
      else hs_postArrival sample)"

definition segmentIntensity ::
    "(jsnum \<Rightarrow> jsnum) \<Rightarrow> HawkesTraceSample \<Rightarrow> HawkesTraceSample option \<Rightarrow> int \<Rightarrow> int \<Rightarrow> int \<Rightarrow> jsnum \<Rightarrow>
     bool \<Rightarrow> jsnum" where
  "segmentIntensity ex current nxt t start stop seconds final =
     (case nxt of
        Some n \<Rightarrow>
          if final then hs_intensity n
          else if decays current then decay_level ex current seconds
          else if start < stop
          then num_add (hs_postArrival current)
                 (num_mul (num_sub (hs_intensity n) (hs_postArrival current))
                    (num_div (num_of_int (t - start)) (num_of_int (stop - start))))
          else hs_postArrival current
      | None \<Rightarrow>
          if decays current then decay_level ex current seconds else hs_postArrival current)"

subsection \<open>The trace\<close>

text \<open>
  \<^verbatim>\<open>BigInt(x)\<close> raises a \<^verbatim>\<open>RangeError\<close> on a number that is not an integer; a loop bound that is
  infinite never ends.
\<close>

datatype trace_error = RangeError | Endless

fun big_int :: "jsnum \<Rightarrow> int option" where
  "big_int (Fin q) = (if q = of_int \<lfloor>q\<rfloor> then Some \<lfloor>q\<rfloor> else None)"
| "big_int _ = None"

fun num_ceil :: "jsnum \<Rightarrow> jsnum" where
  "num_ceil (Fin q) = Fin (of_int \<lceil>q\<rceil>)"
| "num_ceil x = x"

definition trace_steps :: "int \<Rightarrow> int \<Rightarrow> jsnum \<Rightarrow> jsnum" where
  "trace_steps gap width pixels =
     num_max (Fin 1) (num_ceil (num_mul (num_div (num_of_int gap) (num_of_int width)) pixels))"

definition step_offset :: "int \<Rightarrow> nat \<Rightarrow> jsnum \<Rightarrow> int option" where
  "step_offset gap k steps =
     big_int (num_round (num_div (num_mul (num_of_int gap) (num_of_nat k)) steps))"

definition step_point ::
    "(jsnum \<Rightarrow> jsnum) \<Rightarrow> HawkesTraceSample \<Rightarrow> HawkesTraceSample option \<Rightarrow> int \<Rightarrow> int \<Rightarrow> jsnum \<Rightarrow> nat \<Rightarrow>
     HawkesTracePoint option" where
  "step_point ex current nxt start stop steps k =
     map_option
       (\<lambda>offset. let t = start + offset
                 in \<lparr>pt_at = t,
                     pt_intensity = segmentIntensity ex current nxt t start stop (seconds_since current t)
                       (num_eq (num_of_nat k) steps)\<rparr>)
       (step_offset (stop - start) k steps)"

definition segment_steps ::
    "(jsnum \<Rightarrow> jsnum) \<Rightarrow> HawkesTraceSample \<Rightarrow> HawkesTraceSample option \<Rightarrow> int \<Rightarrow> int \<Rightarrow> jsnum \<Rightarrow>
     trace_error + HawkesTracePoint list" where
  "segment_steps ex current nxt start stop steps =
     (case steps of
        Fin q \<Rightarrow>
          (case those (map (step_point ex current nxt start stop steps) [0..<Suc (nat \<lfloor>q\<rfloor>)]) of
             Some ps \<Rightarrow> Inr ps
           | None \<Rightarrow> Inl RangeError)
      | PInf \<Rightarrow> Inl Endless
      | _ \<Rightarrow> Inr [])"

text \<open>The points of one event: its jump, then its decay up to the next event.\<close>

definition jump_points :: "HawkesTraceSample \<Rightarrow> HawkesTracePoint list" where
  "jump_points s =
     \<lparr>pt_at = hs_at s, pt_intensity = hs_intensity s\<rparr> #
     (if num_eq (hs_postArrival s) (hs_intensity s) then []
      else [\<lparr>pt_at = hs_at s, pt_intensity = hs_postArrival s\<rparr>])"

definition segment ::
    "(jsnum \<Rightarrow> jsnum) \<Rightarrow> jsnum \<Rightarrow> int \<Rightarrow> int \<Rightarrow> int \<Rightarrow> HawkesTraceSample \<Rightarrow> HawkesTraceSample option \<Rightarrow>
     trace_error + HawkesTracePoint list" where
  "segment ex pixels from through width current nxt =
     (let stop = (case nxt of Some n \<Rightarrow> hs_at n | None \<Rightarrow> through)
      in if stop < from \<or> through < hs_at current then Inr []
         else let jump = (if from \<le> hs_at current then jump_points current else []);
                  start = (if from < hs_at current then hs_at current else from);
                  gap = stop - start
              in if gap \<le> 0 then Inr jump
                 else map_sum (\<lambda>e. e) (\<lambda>ps. jump @ ps)
                        (segment_steps ex current nxt start stop (trace_steps gap width pixels)))"

fun segments_from ::
    "(jsnum \<Rightarrow> jsnum) \<Rightarrow> jsnum \<Rightarrow> int \<Rightarrow> int \<Rightarrow> int \<Rightarrow> HawkesTraceSample list \<Rightarrow>
     trace_error + HawkesTracePoint list" where
  "segments_from ex pixels from through width [] = Inr []"
| "segments_from ex pixels from through width (current # rest) =
     (case segment ex pixels from through width current (case rest of [] \<Rightarrow> None | n # _ \<Rightarrow> Some n) of
        Inl e \<Rightarrow> Inl e
      | Inr ps \<Rightarrow> map_sum (\<lambda>e. e) (\<lambda>qs. ps @ qs) (segments_from ex pixels from through width rest))"

record hawkes_plot =
  hp_points :: "HawkesTracePoint list"
  hp_from :: int
  hp_through :: int

definition hawkesTrace ::
    "(jsnum \<Rightarrow> jsnum) \<Rightarrow> HawkesTraceSample list \<Rightarrow> jsnum \<Rightarrow> int option \<Rightarrow> int option \<Rightarrow>
     trace_error + hawkes_plot" where
  "hawkesTrace ex samples pixels market viewport =
     (case samples of
        [] \<Rightarrow> (let t = (case market of Some t \<Rightarrow> t | None \<Rightarrow> 0)
               in Inr \<lparr>hp_points = [], hp_from = t, hp_through = t\<rparr>)
      | first # _ \<Rightarrow>
          (let final = last samples;
               marketAt = (case market of Some t \<Rightarrow> t | None \<Rightarrow> hs_at final);
               through = (if hs_at final < marketAt then marketAt else hs_at final);
               eventSpan = hs_at final - hs_at first
           in case big_int (num_ceil (num_div giga (hs_decay final))) of
                None \<Rightarrow> Inl RangeError
              | Some decaySpan \<Rightarrow>
                  (let width = (case viewport of Some v \<Rightarrow> v
                               | None \<Rightarrow> if decaySpan < eventSpan then eventSpan else decaySpan);
                       from = through - width
                   in map_sum (\<lambda>e. e)
                        (\<lambda>ps. \<lparr>hp_points = ps, hp_from = from, hp_through = through\<rparr>)
                        (segments_from ex pixels from through width samples))))"

subsection \<open>Ordering\<close>

text \<open>The loop both functions end with: of items at one time the last one stays.\<close>

definition keep_last :: "('a \<Rightarrow> int) \<Rightarrow> 'a list \<Rightarrow> 'a list" where
  "keep_last t xs =
     foldl (\<lambda>out x. if out \<noteq> [] \<and> t (last out) = t x then butlast out @ [x] else out @ [x]) [] xs"

definition MIN_EVENT_GAP_NS :: int where "MIN_EVENT_GAP_NS = 100000000"

definition samplesForTrace :: "HawkesTraceSample list \<Rightarrow> HawkesTraceSample list" where
  "samplesForTrace samples =
     (if length samples \<le> 1 then samples
      else let ordered = sort_by (\<lambda>a b. hs_at a \<le> hs_at b) samples;
               final = last ordered
           in if hs_at final - hs_at (hd ordered) < MIN_EVENT_GAP_NS then [final]
              else keep_last hs_at ordered)"

definition orderTracePoints :: "HawkesTracePoint list \<Rightarrow> HawkesTracePoint list" where
  "orderTracePoints points = keep_last pt_at (sort_by (\<lambda>a b. pt_at a \<le> pt_at b) points)"

subsection \<open>Last of each time\<close>

lemma time_order: "comparator (\<lambda>a b. t a \<le> (t b :: int))"
  by unfold_locales auto

lemma sorted_last: "sorted_wrt (\<lambda>a b. t a < (t b :: int)) xs \<Longrightarrow> x \<in> set xs \<Longrightarrow> t x \<le> t (last xs)"
  by (induction xs) (auto dest!: last_in_set intro: less_imp_le)

lemma keep_last_snoc:
  "keep_last t (xs @ [x]) =
     (if keep_last t xs \<noteq> [] \<and> t (last (keep_last t xs)) = t x then butlast (keep_last t xs) @ [x]
      else keep_last t xs @ [x])"
  by (simp add: keep_last_def)

lemma keep_last_Nil [simp]: "keep_last t [] = []"
  by (simp add: keep_last_def)

lemma last_keep_last: "xs \<noteq> [] \<Longrightarrow> keep_last t xs \<noteq> [] \<and> last (keep_last t xs) = last xs"
  by (induction xs rule: rev_induct) (auto simp: keep_last_snoc)

lemma butlast_strict:
  "sorted_wrt (\<lambda>a b. t a < (t b :: int)) xs \<Longrightarrow> x \<in> set (butlast xs) \<Longrightarrow> t x < t (last xs)"
  by (induction xs) (auto split: if_splits)

lemma keep_last_strict:
  "sorted_wrt (\<lambda>a b. t a \<le> t b) xs \<Longrightarrow> sorted_wrt (\<lambda>a b. t a < (t b :: int)) (keep_last t xs)"
proof (induction xs rule: rev_induct)
  case (snoc x xs)
  let ?k = "keep_last t xs"
  have sorted: "sorted_wrt (\<lambda>a b. t a < t b) ?k" using snoc by (simp add: sorted_wrt_append)
  show ?case
  proof (cases "xs = []")
    case False
    then have k: "?k \<noteq> []" "last ?k = last xs" using last_keep_last by blast+
    have le: "t (last xs) \<le> t x" using snoc.prems False by (auto simp: sorted_wrt_append)
    have "sorted_wrt (\<lambda>a b. t a < t b) (butlast ?k)"
      using sorted k(1) by (metis append_butlast_last_id sorted_wrt_append)
    then show ?thesis
      using k le sorted butlast_strict [OF sorted] sorted_last [OF sorted]
      by (fastforce simp: keep_last_snoc sorted_wrt_append)
  qed (simp add: keep_last_def)
qed simp

text \<open>What a list shows at each time: its last item there.\<close>

definition last_at :: "('a \<Rightarrow> int) \<Rightarrow> 'a list \<Rightarrow> int \<Rightarrow> 'a option" where
  "last_at t xs u = last_opt (filter (\<lambda>x. t x = u) xs)"

lemma last_at_snoc: "last_at t (xs @ [x]) u = (if t x = u then Some x else last_at t xs u)"
  by (simp add: last_at_def)

lemma last_at_single: "last_at t [x] u = (if t x = u then Some x else None)"
  using last_at_snoc [of t "[]" x u] by (simp add: last_at_def)

lemma last_at_butlast:
  "xs \<noteq> [] \<Longrightarrow> t (last xs) \<noteq> u \<Longrightarrow> last_at t (butlast xs) u = last_at t xs u"
  by (metis append_butlast_last_id last_at_snoc)

lemma keep_last_at: "last_at t (keep_last t xs) = last_at t xs"
proof (induction xs rule: rev_induct)
  case (snoc x xs)
  show ?case
  proof
    fix u
    show "last_at t (keep_last t (xs @ [x])) u = last_at t (xs @ [x]) u"
      using snoc last_at_butlast [of "keep_last t xs" t u]
      by (auto simp: keep_last_snoc last_at_snoc last_at_single)
  qed
qed simp

lemma filter_insert_time:
  "filter (\<lambda>x. t x = u) (insert_by (\<lambda>a b. t a \<le> (t b :: int)) x xs) = filter (\<lambda>x. t x = u) (x # xs)"
  by (induction xs) auto

lemma filter_sort_time: "filter (\<lambda>x. t x = u) (sort_by (\<lambda>a b. t a \<le> (t b :: int)) xs) = filter (\<lambda>x. t x = u) xs"
  unfolding sort_by_def by (induction xs) (simp_all only: foldr.simps o_apply id_apply filter_insert_time filter.simps)

text \<open>
  The drawn curve is single-valued and complete: the ordered points have strictly increasing
  times, they are exactly the times that were traced, and at each time the point traced last is
  the one drawn.
\<close>

theorem curve_single_valued:
  "sorted_wrt (\<lambda>a b. pt_at a < pt_at b) (orderTracePoints points) \<and>
   last_at pt_at (orderTracePoints points) = last_at pt_at points"
proof -
  let ?s = "sort_by (\<lambda>a b. pt_at a \<le> pt_at b) points"
  have "sorted_wrt (\<lambda>a b. pt_at a \<le> pt_at b) ?s" by (rule comparator.sorted_sort_by [OF time_order])
  then show ?thesis
    by (simp add: orderTracePoints_def keep_last_strict keep_last_at) (simp add: last_at_def fun_eq_iff filter_sort_time)
qed

subsection \<open>The viewport\<close>

lemma small_int: "0 \<le> n \<Longrightarrow> n \<le> 2 ^ 53 \<Longrightarrow> num_of_int n = Fin (of_int n)"
  unfolding num_of_int_def by (rule fl_int) simp

lemma fl_between:
  assumes "0 \<le> q" "q \<le> of_int n" "n \<le> 2 ^ 53"
  obtains r where "fl q = Fin r" "0 \<le> r" "r \<le> of_int n"
proof -
  have "0 \<le> n" using assms by linarith
  then have "fl (of_int n) = Fin (of_int n)" using assms(3) by (intro fl_int) simp
  moreover have "num_le (fl 0) (fl q)" "num_le (fl q) (fl (of_int n))" using assms fl_mono by blast+
  ultimately show ?thesis using that by (cases "fl q") auto
qed

lemma step_offset_within:
  assumes "0 < gap" "k \<le> n" "0 < n" "gap * int n \<le> 2 ^ 53"
  shows "\<exists>r. step_offset gap k (Fin (of_nat n)) = Some r \<and> 0 \<le> r \<and> r \<le> gap"
proof -
  have "gap * 1 \<le> gap * int n" "1 * int n \<le> gap * int n" using assms by (intro mult_mono; simp)+
  then have small: "gap \<le> 2 ^ 53" "int n \<le> 2 ^ 53" using assms(4) by linarith+
  have "gap * int k \<le> gap * int n" using assms by simp
  then have "gap * int k \<le> 2 ^ 53" using assms(4) by (rule order_trans)
  then have "\<bar>gap * int k\<bar> \<le> 2 ^ 53" using assms(1) by (simp add: abs_mult)
  then have "fl (of_int (gap * int k)) = Fin (of_int (gap * int k))" by (rule fl_int)
  moreover have "num_of_int gap = Fin (of_int gap)" "num_of_nat k = Fin (of_nat k)"
    using assms small by (simp_all add: small_int num_of_nat_def fl_of_nat)
  ultimately have mul: "num_mul (num_of_int gap) (num_of_nat k) = Fin (of_int gap * of_nat k)" by simp
  have "(of_int gap * of_nat k :: rat) \<le> of_int gap * of_nat n" using assms by simp
  then have "of_int gap * of_nat k / of_nat n \<le> (of_int gap :: rat)" using assms by (simp add: divide_le_eq)
  then obtain r where r: "fl (of_int gap * of_nat k / of_nat n) = Fin r" "0 \<le> r" "r \<le> of_int gap"
    using assms small by (auto intro: fl_between [of "of_int gap * of_nat k / of_nat n" gap])
  have "0 \<le> \<lfloor>r + 1 / 2\<rfloor>" "\<lfloor>r + 1 / 2\<rfloor> \<le> gap" using r by (linarith, linarith)
  then show ?thesis using assms by (simp add: step_offset_def mul r)
qed

lemma trace_steps_bounded:
  assumes "0 < gap" "gap \<le> width" "width \<le> 2 ^ 53" "0 < n" "n \<le> 2 ^ 53"
  shows "\<exists>m. trace_steps gap width (Fin (of_nat n)) = Fin (of_nat m) \<and> 0 < m \<and> m \<le> n"
proof -
  have nums: "num_of_int gap = Fin (of_int gap)" "num_of_int width = Fin (of_int width)"
    using assms by (simp_all add: small_int)
  have "of_int gap / of_int width \<le> (of_int 1 :: rat)" using assms by simp
  then obtain r where r: "fl (of_int gap / of_int width) = Fin r" "0 \<le> r" "r \<le> 1"
    using assms by (auto intro: fl_between [of "of_int gap / of_int width" 1])
  have "r * of_nat n \<le> (of_int (int n) :: rat)" using r by (simp add: mult_left_le_one_le)
  then obtain x where x: "fl (r * of_nat n) = Fin x" "0 \<le> x" "x \<le> of_nat n"
    using assms r by (auto intro: fl_between [of "r * of_nat n" "int n"])
  have eq: "trace_steps gap width (Fin (of_nat n)) = num_max (Fin 1) (Fin (of_int \<lceil>x\<rceil>))"
    using assms by (simp add: trace_steps_def nums r x)
  have c: "\<lceil>x\<rceil> \<le> int n" "0 \<le> \<lceil>x\<rceil>" using x by linarith+
  show ?thesis
  proof (cases "1 \<le> \<lceil>x\<rceil>")
    case True
    then show ?thesis using c by (intro exI [of _ "nat \<lceil>x\<rceil>"]) (auto simp: eq num_max_def)
  next
    case False
    then show ?thesis using assms by (intro exI [of _ 1]) (auto simp: eq num_max_def)
  qed
qed

text \<open>All points of a list lie in a time interval.\<close>

definition inside :: "int \<Rightarrow> int \<Rightarrow> HawkesTracePoint list \<Rightarrow> bool" where
  "inside a b ps \<longleftrightarrow> list_all (\<lambda>p. a \<le> pt_at p \<and> pt_at p \<le> b) ps"

lemma inside_simps [simp]:
  "inside a b []" "inside a b (p # ps) \<longleftrightarrow> a \<le> pt_at p \<and> pt_at p \<le> b \<and> inside a b ps"
  "inside a b (ps @ qs) \<longleftrightarrow> inside a b ps \<and> inside a b qs"
  by (auto simp: inside_def)

lemma those_all:
  "(\<And>x. x \<in> set xs \<Longrightarrow> \<exists>y. f x = Some y \<and> P y) \<Longrightarrow> \<exists>ys. those (map f xs) = Some ys \<and> list_all P ys \<and> length ys = length xs"
proof (induction xs)
  case (Cons x xs)
  then obtain y ys where "f x = Some y" "P y" "those (map f xs) = Some ys" "list_all P ys" "length ys = length xs"
    by (metis list.set_intros)
  then show ?case by simp
qed simp

lemma segment_steps_within:
  assumes "start < stop" "0 < m" "(stop - start) * int m \<le> 2 ^ 53"
  shows "\<exists>ps. segment_steps ex c nxt start stop (Fin (of_nat m)) = Inr ps \<and> inside start stop ps \<and>
    length ps = Suc m"
proof -
  have pt: "\<exists>p. step_point ex c nxt start stop (Fin (of_nat m)) k = Some p \<and> start \<le> pt_at p \<and> pt_at p \<le> stop"
    if k: "k \<in> set [0..<Suc m]" for k
  proof -
    have "k \<le> m" using k by (simp only: set_upt atLeastLessThan_iff) simp
    then obtain r where "step_offset (stop - start) k (Fin (of_nat m)) = Some r" "0 \<le> r" "r \<le> stop - start"
      using step_offset_within [of "stop - start" k m] assms by auto
    then show ?thesis by (auto simp: step_point_def Let_def)
  qed
  obtain ps
    where "those (map (step_point ex c nxt start stop (Fin (of_nat m))) [0..<Suc m]) = Some ps"
      "list_all (\<lambda>p. start \<le> pt_at p \<and> pt_at p \<le> stop) ps" "length ps = length [0..<Suc m]"
    using those_all [of "[0..<Suc m]" "step_point ex c nxt start stop (Fin (of_nat m))"
        "\<lambda>p. start \<le> pt_at p \<and> pt_at p \<le> stop", OF pt] by blast
  then show ?thesis by (simp add: segment_steps_def inside_def del: upt_Suc)
qed

lemma inside_mono: "inside a b ps \<Longrightarrow> a' \<le> a \<Longrightarrow> b \<le> b' \<Longrightarrow> inside a' b' ps"
  by (auto simp: inside_def list_all_iff)

lemma segment_within:
  assumes "0 < n" "0 < width" "width * int n \<le> 2 ^ 53" "from + width = through"
    and "\<And>s. nxt = Some s \<Longrightarrow> hs_at s \<le> through"
  shows "\<exists>ps. segment ex (Fin (of_nat n)) from through width c nxt = Inr ps \<and> inside from through ps \<and>
    length ps \<le> n + 3"
proof -
  define stop where "stop = (case nxt of Some s \<Rightarrow> hs_at s | None \<Rightarrow> through)"
  define start where "start = (if from < hs_at c then hs_at c else from)"
  have stop: "stop \<le> through" using assms(5) by (auto simp: stop_def split: option.split)
  have start: "from \<le> start" by (simp add: start_def)
  have "1 * int n \<le> width * int n" "width * 1 \<le> width * int n" using assms by (intro mult_mono; simp)+
  then have "int n \<le> 2 ^ 53" and small_width: "width \<le> 2 ^ 53" using assms(3) by linarith+
  then have small: "n \<le> 2 ^ 53" by simp
  have jump: "inside from through (jump_points c)" "length (jump_points c) \<le> 2"
    if "from \<le> hs_at c" "hs_at c \<le> through"
    using that by (simp_all add: jump_points_def)
  show ?thesis
  proof (cases "(stop < from \<or> through < hs_at c) \<or> stop - start \<le> 0")
    case True
    then show ?thesis
      using jump by (force simp: segment_def Let_def stop_def [symmetric] start_def [symmetric])
  next
    case False
    then have gap: "0 < stop - start" "stop - start \<le> width" using assms(4) stop start by auto
    then obtain m where m: "trace_steps (stop - start) width (Fin (of_nat n)) = Fin (of_nat m)" "0 < m" "m \<le> n"
      using trace_steps_bounded [of "stop - start" width n] assms(1) small small_width by auto
    have "(stop - start) * int m \<le> width * int n" using gap m by (intro mult_mono) auto
    then obtain ps where ps: "segment_steps ex c nxt start stop (Fin (of_nat m)) = Inr ps"
      "inside start stop ps" "length ps = Suc m"
      using segment_steps_within [of start stop m ex c nxt] assms(3) gap m by auto
    have "inside from through ps" using ps(2) start stop by (rule inside_mono)
    with False m ps jump show ?thesis
      by (auto simp: segment_def Let_def stop_def [symmetric] start_def [symmetric])
  qed
qed

lemma segments_within:
  assumes "0 < n" "0 < width" "width * int n \<le> 2 ^ 53" "from + width = through"
    and "\<forall>s \<in> set samples. hs_at s \<le> through"
  shows "\<exists>ps. segments_from ex (Fin (of_nat n)) from through width samples = Inr ps \<and>
    inside from through ps \<and> length ps \<le> length samples * (n + 3)"
  using assms(5)
proof (induction samples)
  case (Cons c rest)
  let ?nxt = "case rest of [] \<Rightarrow> None | s # _ \<Rightarrow> Some s"
  have "\<And>s. ?nxt = Some s \<Longrightarrow> hs_at s \<le> through" using Cons.prems by (auto split: list.splits)
  from segment_within [OF assms(1-4) this] obtain ps where
    ps: "segment ex (Fin (of_nat n)) from through width c ?nxt = Inr ps" "inside from through ps" "length ps \<le> n + 3"
    by blast
  obtain qs where "segments_from ex (Fin (of_nat n)) from through width rest = Inr qs" "inside from through qs"
    "length qs \<le> length rest * (n + 3)" using Cons by auto
  with ps show ?case by simp
qed simp

text \<open>
  The Hawkes panel always gets a bounded curve inside its viewport: for ordered events whose last
  decay is fitted (its reciprocal is finite), a positive viewport and a positive pixel width whose
  product stays within exact integers, the trace neither raises nor runs away, its right edge is the
  later of the market time and the last event, every point lies in the viewport, and there are at most
  pixels plus three points per event.
\<close>

theorem trace_in_viewport:
  assumes "samples \<noteq> []" "sorted_wrt (\<lambda>a b. hs_at a \<le> hs_at b) samples"
    and "is_finite (num_div giga (hs_decay (last samples)))"
    and "0 < n" "0 < width" "width * int n \<le> 2 ^ 53"
  shows "\<exists>plot. hawkesTrace ex samples (Fin (of_nat n)) (Some market) (Some width) = Inr plot \<and>
    hp_through plot = max market (hs_at (last samples)) \<and> hp_from plot = hp_through plot - width \<and>
    inside (hp_from plot) (hp_through plot) (hp_points plot) \<and>
    length (hp_points plot) \<le> length samples * (n + 3)"
proof -
  define through where "through = max market (hs_at (last samples))"
  have "hs_at s \<le> hs_at (last samples)" if "s \<in> set samples" for s
    using that assms(1,2) by (induction samples) auto
  then have "\<forall>s \<in> set samples. hs_at s \<le> through" by (fastforce simp: through_def)
  from segments_within [OF assms(4-6) _ this, of "through - width" ex] obtain ps where
    ps: "segments_from ex (Fin (of_nat n)) (through - width) through width samples = Inr ps"
    "inside (through - width) through ps" "length ps \<le> length samples * (n + 3)" by auto
  obtain q where "num_div giga (hs_decay (last samples)) = Fin q" using assms(3) by (auto simp: is_finite_iff)
  then have ceil: "big_int (num_ceil (num_div giga (hs_decay (last samples)))) = Some \<lceil>q\<rceil>" by simp
  have edge: "(if hs_at (last samples) < market then market else hs_at (last samples)) = through"
    by (simp add: through_def max_def)
  have "hawkesTrace ex samples (Fin (of_nat n)) (Some market) (Some width) =
      Inr \<lparr>hp_points = ps, hp_from = through - width, hp_through = through\<rparr>"
    unfolding hawkesTrace_def list.case_eq_if Let_def option.case edge ceil using assms(1) ps(1) by simp
  with ps show ?thesis by (simp add: through_def)
qed

theorem trace_in_viewport_witness:
  "let s = \<lparr>hs_at = 0, hs_intensity = Fin 1, hs_postArrival = Fin 2, hs_baseline = Fin 1, hs_decay = Fin 1\<rparr>
   in \<exists>plot. hawkesTrace (\<lambda>_. Fin 0) [s] (Fin 10) (Some 5) (Some 20) = Inr plot \<and>
        inside (hp_from plot) (hp_through plot) (hp_points plot)"
proof -
  let ?s = "\<lparr>hs_at = 0, hs_intensity = Fin 1, hs_postArrival = Fin 2, hs_baseline = Fin 1, hs_decay = Fin 1\<rparr>"
  have "fl (of_int 1000000000) = Fin (of_int 1000000000)" by (rule fl_int) simp
  then have "is_finite (num_div giga (hs_decay (last [?s])))" by (simp add: giga_def)
  from trace_in_viewport [OF _ _ this, of 10 20 "\<lambda>_. Fin 0" 5] show ?thesis by (auto simp: Let_def)
qed

text \<open>
  An unfitted event breaks the whole trace: when the last event's decay is zero, converting its
  infinite decay time raises a range error, whatever viewport and market time are given.
\<close>

theorem unfitted_decay_raises:
  assumes "samples \<noteq> []" and "hs_decay (last samples) = Fin 0"
  shows "hawkesTrace ex samples pixels market viewport = Inl RangeError"
  using assms by (cases samples) (simp_all add: hawkesTrace_def giga_def inf_signed_def Let_def)

theorem unfitted_decay_raises_witness:
  "hawkesTrace (\<lambda>_. Fin 0) [\<lparr>hs_at = 0, hs_intensity = Fin 1, hs_postArrival = Fin 2, hs_baseline = Fin 1,
     hs_decay = Fin 0\<rparr>] (Fin 10) None None = Inl RangeError"
  by (rule unfitted_decay_raises) simp_all

end
