(* ===== verification/ImpulseMap.thy ===== *)
theory ImpulseMap
  imports ValueFrame DeskRows
begin

text \<open>
  The impulse map of the learning page: which metrics are pinned to which region
  (\<^verbatim>\<open>components/learning/grid-pins.ts\<close>, \<^verbatim>\<open>REGIONS\<close> of \<^verbatim>\<open>position-health.tsx\<close>), the region maps of a
  training frame (\<^verbatim>\<open>training-regions.ts\<close>) and the map's own state (\<^verbatim>\<open>use-impulse-data.ts\<close>), which
  paints the grid of one symbol after another on successive animation frames. The references of the
  hook are fields of a record; the callbacks handed to \<^verbatim>\<open>requestAnimationFrame\<close> are a queue.
\<close>

subsection \<open>Regions\<close>

record RegionMeta =
  rm_id :: string
  rm_title :: string
  rm_subtitle :: string
  rm_role :: string
  rm_tone :: string
  rm_description :: string

definition right_quote :: string where
  "right_quote = [CHR 0xE2, CHR 0x80, CHR 0x99]"

definition REGIONS :: "(string \<times> RegionMeta) list" where
  "REGIONS =
     map (\<lambda>(i, t, s, r, c, d).
            (i, \<lparr>rm_id = i, rm_title = t, rm_subtitle = s, rm_role = r, rm_tone = c, rm_description = d\<rparr>))
       [(''R00'', ''Enter detector'', ''Coiled compression'', ''entry_detector'', ''up'',
         ''Quiet tape with rising participation '' @ em_dash @ '' volume rate over baseline while midpoint barely moves.''),
        (''R01'', ''Enter support'', ''Structural alignment'', ''entry_support'', ''up'',
         ''Board-wide peer reprices moving together; enter with the cohort, not a lone name.''),
        (''R02'', ''Enter opposition'', ''Starved tape'', ''entry_opposition'', ''info'',
         ''Participation collapsed vs this symbol'' @ right_quote @ ''s recent norm '' @ em_dash @ '' flat lines and fake tries.''),
        (''R03'', ''Exit detector'', ''Rejection tick'', ''exit_detector'', ''down'',
         ''Down bar on the volume clock '' @ em_dash @ '' midpoint rejected lower on the closed bar.''),
        (''R04'', ''Exit support'', ''Bid ladder release'', ''exit_support'', ''down'',
         ''Displayed bid depth peeling off between L3 snapshots '' @ em_dash @ '' sell while bids are still shown.''),
        (''R05'', ''Exit opposition'', ''Ask ladder release'', ''exit_opposition'', ''down'',
         ''Displayed ask depth peeling off between L3 snapshots '' @ em_dash @ '' thinning offers, precursor that the leg may still have room.''),
        (''R06'', ''Hold detector'', ''Supercritical cascade'', ''hold_detector'', ''neutral'',
         ''Hawkes branching at or above criticality '' @ em_dash @ '' self-exciting trade feedback on the tape.''),
        (''R07'', ''Hold support'', ''Bid ladder build'', ''hold_support'', ''acc'',
         ''Net bid size stacking in on the visible ladder '' @ em_dash @ '' book building under the mark.''),
        (''R08'', ''Hold opposition'', ''Blowoff dip'', ''hold_opposition'', ''warn'',
         ''Strong down bar after a remembered strong up bar '' @ em_dash @ '' blow-off pullback while still holding.''),
        (''R09'', ''Volume quote veto'', ''24h turnover floor'', ''oracle_veto'', ''warn'',
         ''Quote volume below the mover floor '' @ em_dash @ '' name is not tradable.''),
        (''R10'', ''Volume quote approve'', ''24h turnover clear'', ''oracle_approve'', ''up'',
         ''Enough quote turnover and a known instrument.''),
        (''R11'', ''Day move veto'', ''Flat open-to-last'', ''oracle_veto'', ''warn'',
         ''Open-to-last change below the mover floor '' @ em_dash @ '' liquid but idle.''),
        (''R12'', ''Day move approve'', ''Open-to-last clear'', ''oracle_approve'', ''up'',
         ''Day move clears the floor '' @ em_dash @ '' name is alive enough to touch.''),
        (''R13'', ''Spread veto'', ''Width / scarcity'', ''oracle_veto'', ''warn'',
         ''Touch spread above cap or liquidity scarcity extreme.''),
        (''R14'', ''Spread approve'', ''Tight / median depth'', ''oracle_approve'', ''up'',
         ''Executable width and compressed spread vs the board.''),
        (''R15'', ''Book integrity veto'', ''Cash / backing / tape'', ''oracle_veto'', ''warn'',
         ''Touch cash, backing, tape liveness, or open drag fails.''),
        (''R16'', ''Book integrity approve'', ''Backing / depth'', ''oracle_approve'', ''up'',
         ''Backing firm with toxicity support and depth score.''),
        (''R17'', ''Board confidence veto'', ''Board stress'', ''oracle_veto'', ''warn'',
         ''Board median stress, slump, or exhaustion.''),
        (''R18'', ''Board confidence approve'', ''Board story lit'', ''oracle_approve'', ''up'',
         ''Board median herd, compression, cascade, surge alignment.''),
        (''R19'', ''Contagion veto'', ''Lead break / stress'', ''oracle_veto'', ''warn'',
         ''Lead-lag decouple/stall or cohort stress/noise.''),
        (''R20'', ''Contagion approve'', ''Sync / herd'', ''oracle_approve'', ''up'',
         ''Lead structure intact '' @ em_dash @ '' sync, herd, alpha.''),
        (''R21'', ''Capacity veto'', ''Thin / vacuum'', ''oracle_veto'', ''warn'',
         ''Scarcity, vacuum, thin book, or exit impact too high.''),
        (''R22'', ''Capacity approve'', ''Depth clear'', ''oracle_approve'', ''up'',
         ''Depth and median liquidity can carry the desk lot.'')]"

definition REGION_KEYS :: "string list" where
  "REGION_KEYS = map_keys REGIONS"

definition REGION_COUNT :: nat where "REGION_COUNT = 23"

subsection \<open>Pins\<close>

definition REGION_METRIC_PINS :: "(string \<times> (string \<times> nat list) list) list" where
  "REGION_METRIC_PINS =
     [(''cvd'', [(''drive'', [0]), (''net_fraction'', [0]), (''balance'', [1]), (''starvation'', [2]),
         (''absorption'', [3]), (''net'', [3]), (''value'', [0])]),
      (''pumpdump'', [(''compression'', [0, 18]), (''precursor'', [0]), (''rvol'', [2]),
         (''exhaustion'', [3, 8, 17]), (''ignition'', [6]), (''trend'', [5]), (''spread'', [14]),
         (''value'', [0]), (''strength'', [0])]),
      (''correlation'', [(''herd_score'', [1, 18, 20]), (''strength'', [1]), (''peak_score'', [18]),
         (''alpha_score'', [20]), (''noise_score'', [19]), (''stress_score'', [17, 19]),
         (''correlation'', [1]), (''energy'', [1])]),
      (''leadlag'', [(''inefficient_score'', [1]), (''sync_score'', [1, 20]),
         (''decoupled_score'', [19]), (''stall_score'', [19]), (''strength'', [1])]),
      (''depthflow'', [(''loaded_score'', [2, 5, 7]), (''thin_score'', [4, 8, 18, 21]),
         (''spoof_score'', [4]), (''hypothesis_separation'', [6]), (''neutral_score'', [7]),
         (''value'', [7])]),
      (''toxicity'', [(''support_score'', [1, 7, 16, 22]), (''bluff_score'', [4]),
         (''vacuum_score'', [4, 18, 21]), (''value'', [4]), (''strength'', [4])]),
      (''morphology'', [(''bid_notional_lean'', [2]), (''ask_vacuum'', [5]), (''shape_stable'', [7]),
         (''value'', [7]), (''strength'', [7])]),
      (''hawkes'', [(''spectral_radius'', [6, 18]), (''branching_asymmetry'', [6]),
         (''total_buy_descendants'', [6]), (''total_sell_descendants'', [6]),
         (''buy_arrival_rate'', [7]), (''sell_arrival_rate'', [8]),
         (''immediate_buy_offspring'', [6]), (''immediate_sell_offspring'', [6]),
         (''maturity'', [18])]),
      (''sentiment'', [(''surge_score'', [7, 18]), (''breadth'', [7, 18]), (''slump_score'', [8, 17]),
         (''divergent_score'', [19]), (''change'', [12]), (''value'', [18]), (''strength'', [18])]),
      (''liquidity'', [(''scarcity_score'', [8, 13, 21]), (''median_score'', [14, 22]),
         (''depth_score'', [16, 22]), (''value'', [14]), (''strength'', [14])])]"

definition CATEGORY_NAMES :: "string list" where
  "CATEGORY_NAMES = [''ENTER'', ''EXIT'', ''HOLD'', ''ORACLE'']"

definition regionCategoryIndex :: "int \<Rightarrow> nat" where
  "regionCategoryIndex regionKey =
     (if regionKey \<le> 2 then 0 else if regionKey \<le> 5 then 1 else if regionKey \<le> 8 then 2 else 3)"

record anchor =
  an_x :: jsnum
  an_y :: jsnum

text \<open>A decimal literal of the source, rounded as the language rounds it.\<close>

definition lit :: "rat \<Rightarrow> jsnum" where "lit q = fl q"

definition sympathyAnchor :: "int \<Rightarrow> jsnum \<Rightarrow> jsnum \<Rightarrow> anchor" where
  "sympathyAnchor regionKey width height =
     (if regionKey \<le> 2
      then \<lparr>an_x = num_mul width (lit 0.38),
            an_y = num_mul height (num_add (lit 0.28) (num_mul (num_of_int regionKey) (lit 0.14)))\<rparr>
      else if regionKey \<le> 5
      then \<lparr>an_x = num_mul width (lit 0.78),
            an_y = num_mul height (num_add (lit 0.22) (num_mul (num_of_int (regionKey - 3)) (lit 0.16)))\<rparr>
      else if regionKey \<le> 8
      then \<lparr>an_x = num_mul width (num_add (lit 0.2) (num_mul (num_of_int (regionKey - 6)) (lit 0.24))),
            an_y = num_mul height (lit 0.62)\<rparr>
      else let slot = min (max (regionKey - 9) 0) 13
           in \<lparr>an_x = num_mul width (num_add (lit 0.08)
                        (num_mul (num_div (num_of_int slot) (Fin 13)) (lit 0.84))),
               an_y = num_mul height (lit 0.82)\<rparr>)"

record CanonicalPinDef =
  pin_id :: string
  pin_source :: string
  pin_metric :: string
  pin_cluster :: nat
  pin_regionId :: string
  pin_category :: nat
  pin_categoryName :: string

text \<open>\<^verbatim>\<open>`R${String(index).padStart(2, "0")}`\<close>.\<close>

definition regionKeyFromIndex :: "jsval \<Rightarrow> string" where
  "regionKeyFromIndex index = ''R'' @ pad_left 2 (js_text index)"

definition pin_def :: "nat \<Rightarrow> string \<Rightarrow> string \<Rightarrow> CanonicalPinDef" where
  "pin_def regionKey source named =
     (let regionId = regionKeyFromIndex (JNum (num_of_nat regionKey));
          category = regionCategoryIndex (int regionKey)
      in \<lparr>pin_id = source @ '':'' @ named @ '':'' @ regionId, pin_source = source, pin_metric = named,
          pin_cluster = regionKey, pin_regionId = regionId, pin_category = category,
          pin_categoryName = CATEGORY_NAMES ! category\<rparr>)"

text \<open>The three nested loops, in their order, and what their body pushes.\<close>

definition wired :: "(nat \<times> string \<times> string) list" where
  "wired =
     concat (map (\<lambda>regionKey.
       concat (map (\<lambda>(source, metricMap).
         List.map_filter (\<lambda>(named, targetRegions).
           if List.member targetRegions regionKey then Some (regionKey, source, named) else None)
           metricMap)
         REGION_METRIC_PINS))
       [0..<REGION_COUNT])"

definition getCanonicalPinDefs :: "CanonicalPinDef list" where
  "getCanonicalPinDefs = map (\<lambda>(regionKey, source, named). pin_def regionKey source named) wired"

text \<open>The fields of \<^verbatim>\<open>ImpulseNode\<close> the grid sets; the layout's own are drawing state.\<close>

record ImpulseNode =
  in_id :: string
  in_label :: string
  in_cluster :: nat
  in_snr :: jsnum
  in_activation :: jsnum

definition createCanonicalGridNodes :: "ImpulseNode list" where
  "createCanonicalGridNodes =
     map (\<lambda>pin. \<lparr>in_id = pin_id pin, in_label = pin_source pin @ '':'' @ pin_metric pin,
                 in_cluster = pin_cluster pin, in_snr = Fin 1, in_activation = Fin 0\<rparr>)
       getCanonicalPinDefs"

definition bump_count :: "(nat \<times> nat) list \<Rightarrow> nat \<Rightarrow> (nat \<times> nat) list" where
  "bump_count counts r = AList.update r ((case map_of counts r of Some n \<Rightarrow> n | None \<Rightarrow> 0) + 1) counts"

definition getCanonicalRegionCounts :: "(nat \<times> nat) list" where
  "getCanonicalRegionCounts =
     foldl bump_count (map (\<lambda>i. (i, 0)) [0..<REGION_COUNT])
       (concat (map (\<lambda>(_, metricMap). concat (map snd metricMap)) REGION_METRIC_PINS))"

subsection \<open>Region maps of a training frame\<close>

record TrainingRegionMaps =
  tr_brightness :: "(string \<times> jsnum) list"
  tr_members :: "(string \<times> jsnum) list"

text \<open>\<^term>\<open>None\<close> is the \<^verbatim>\<open>TypeError\<close> of a row that is \<^verbatim>\<open>null\<close> or of rows that cannot be iterated.\<close>

definition region_row_maps :: "TrainingRegionMaps \<Rightarrow> jsval \<Rightarrow> TrainingRegionMaps option" where
  "region_row_maps maps row =
     (if nullish row then None
      else case as_record row of
        None \<Rightarrow> Some maps
      | Some ob \<Rightarrow>
          if field ob ''key'' = JUndef then Some maps
          else case as_num (field ob ''brightness'') of
            None \<Rightarrow> Some maps
          | Some b \<Rightarrow>
              let key = regionKeyFromIndex (field ob ''key'');
                  maps' = (if map_of (tr_brightness maps) key = None
                           then maps\<lparr>tr_brightness := obj_set key b (tr_brightness maps)\<rparr> else maps)
              in Some (case as_num (field ob ''counts'') of
                   None \<Rightarrow> maps'
                 | Some c \<Rightarrow>
                     if map_of (tr_members maps') key = None
                     then maps'\<lparr>tr_members := obj_set key c (tr_members maps')\<rparr> else maps'))"

definition ingest_regions :: "jsval \<Rightarrow> TrainingRegionMaps \<Rightarrow> TrainingRegionMaps option" where
  "ingest_regions rows maps =
     (if \<not> truthy rows then Some maps
      else case rows of
        JArr rs \<Rightarrow> foldl (\<lambda>acc row. Option.bind acc (\<lambda>m. region_row_maps m row)) (Some maps) rs
      | JStr _ \<Rightarrow> Some maps
      | _ \<Rightarrow> None)"

definition metric_maps :: "TrainingRegionMaps \<Rightarrow> string \<times> jsnum \<Rightarrow> TrainingRegionMaps" where
  "metric_maps maps entry =
     (let (sfx, v) = entry;
          m1 = (if starts_with sfx ''region_brightness:''
                then maps\<lparr>tr_brightness :=
                       obj_set (slice_from (length ''region_brightness:'') sfx) v (tr_brightness maps)\<rparr>
                else maps)
      in if starts_with sfx ''region_members:''
         then m1\<lparr>tr_members := obj_set (slice_from (length ''region_members:'') sfx) v (tr_members m1)\<rparr>
         else m1)"

definition regionMapsFromTrainingFrame ::
    "(bytes \<Rightarrow> jsval option) \<Rightarrow> Value option \<Rightarrow> TrainingRegionMaps option" where
  "regionMapsFromTrainingFrame parse frame =
     (case frame of
        None \<Rightarrow> Some \<lparr>tr_brightness = [], tr_members = []\<rparr>
      | Some v \<Rightarrow>
          let m = foldl metric_maps \<lparr>tr_brightness = [], tr_members = []\<rparr> (metrics parse v)
          in Option.bind (ingest_regions (reading parse v ''lit'') m)
               (ingest_regions (reading parse v ''active'')))"

definition region_index :: "jsnum \<Rightarrow> nat option" where
  "region_index n =
     (case n of
        Fin q \<Rightarrow> if q = of_int \<lfloor>q\<rfloor> \<and> 0 \<le> q \<and> q < of_nat REGION_COUNT then Some (nat \<lfloor>q\<rfloor>) else None
      | _ \<Rightarrow> None)"

definition pinned_metrics :: "jsnum \<Rightarrow> nat" where
  "pinned_metrics n =
     (case region_index n of
        None \<Rightarrow> 0
      | Some i \<Rightarrow> (case map_of getCanonicalRegionCounts i of Some c \<Rightarrow> c | None \<Rightarrow> 0))"

definition regionPinLabel :: "string \<Rightarrow> TrainingRegionMaps \<Rightarrow> string" where
  "regionPinLabel regionKey maps =
     (let pinned = pinned_metrics (number_of_text (slice_from 1 regionKey));
          shown_pins = int_text (int pinned)
      in case map_of (tr_brightness maps) regionKey of
           None \<Rightarrow> if 0 < pinned then shown_pins @ '' metrics pinned'' else ''no tick yet''
         | Some _ \<Rightarrow>
             (case map_of (tr_members maps) regionKey of
                Some live \<Rightarrow>
                  if is_finite live then num_text (num_round live) @ ''/'' @ shown_pins @ '' reporting''
                  else shown_pins @ '' metrics pinned''
              | None \<Rightarrow> shown_pins @ '' metrics pinned''))"

subsection \<open>The map's state\<close>

record region_view =
  rv_id :: nat
  rv_strength :: jsnum
  rv_authority :: jsnum
  rv_members :: jsnum

record region_event =
  re_id :: nat
  re_label :: string
  re_activity :: jsnum
  re_members :: jsnum

record ImpulseDataState =
  im_data :: "ImpulseNode list"
  im_regions :: "region_view list"
  im_activeEvents :: "region_event list"
  im_gridCells :: nat
  im_gridRegions :: nat
  im_marketTick :: jsnum
  im_litSymbols :: "string list"

record held_pin =
  hp_activation :: jsnum
  hp_snr :: jsnum

text \<open>A callback waiting for an animation frame: its token, the symbols left to paint, its tick.\<close>

record paint_job =
  pj_token :: nat
  pj_frames :: "(string \<times> jsval list) list"
  pj_tick :: jsnum

record impulse =
  heldPins :: "(string \<times> held_pin) list"
  heldBrightness :: "jsnum list"
  heldMembers :: "jsnum list"
  heldLitSymbols :: "string list"
  paintToken :: nat
  lastPublishedTick :: jsnum
  im_paused :: bool
  im_queue :: "paint_job list"
  im_shown :: ImpulseDataState

definition snm :: "jsnum \<Rightarrow> jsnum" where
  "snm raw =
     (if \<not> is_finite raw \<or> raw = Fin 0 then Fin 0
      else num_div (num_abs raw) (num_add (Fin 1) (num_abs raw)))"

definition regionBrightness :: "jsobj \<Rightarrow> jsnum" where
  "regionBrightness region = (case finite_num (field region ''brightness'') of Some b \<Rightarrow> b | None \<Rightarrow> Fin 0)"

text \<open>The members every region starts with: its pinned metrics.\<close>

definition canonical_members :: "jsnum list" where
  "canonical_members =
     map (\<lambda>i. num_round (num_of_nat (case map_of getCanonicalRegionCounts i of Some c \<Rightarrow> c | None \<Rightarrow> 0)))
       [0..<length REGION_KEYS]"

definition symbolGridFrames :: "(string \<Rightarrow> string \<Rightarrow> int) \<Rightarrow> jsval \<Rightarrow> (string \<times> jsval list) list" where
  "symbolGridFrames lc state =
     (let entries = (case state of JObj ob \<Rightarrow> ob | _ \<Rightarrow> [])
      in sort_by (\<lambda>a b. lc (fst a) (fst b) \<le> 0)
           (List.map_filter (\<lambda>(symbol, rows).
              if symbol = [] then None else map_option (Pair symbol) (as_arr rows)) entries))"

text \<open>
  One row of \<^verbatim>\<open>paintRegions\<close>. A key in range that is not a whole number names no cell of the array
  and is never read back.
\<close>

definition paint_row :: "jsnum list \<times> jsnum list \<Rightarrow> jsval \<Rightarrow> jsnum list \<times> jsnum list" where
  "paint_row held row =
     (case as_record row of
        None \<Rightarrow> held
      | Some region \<Rightarrow>
          (case Option.bind (as_num (field region ''key'')) region_index of
             None \<Rightarrow> held
           | Some k \<Rightarrow>
               ((fst held)[k := regionBrightness region],
                (case as_num (field region ''counts'') of
                   Some c \<Rightarrow> (snd held)[k := num_round c]
                 | None \<Rightarrow> snd held))))"

definition paintRegions :: "jsval list \<Rightarrow> jsnum list \<times> jsnum list \<Rightarrow> jsnum list \<times> jsnum list" where
  "paintRegions rows held = foldl paint_row (replicate REGION_COUNT (Fin 0), snd held) rows"

definition pinMetric :: "jsobj \<Rightarrow> CanonicalPinDef \<Rightarrow> string \<Rightarrow> jsnum option" where
  "pinMetric signals pin symbol =
     (if symbol = [] then None
      else case map_of signals (pin_source pin) of
        None \<Rightarrow> None
      | Some store \<Rightarrow>
          let state = (case as_record store of Some ob \<Rightarrow> ob | None \<Rightarrow> []);
              found = orelse (field state symbol) (field state (replace_char CHR ''/'' CHR ''-'' symbol))
          in Option.bind (as_record found) (\<lambda>ob. finite_num (field ob (pin_metric pin))))"

definition node_of :: "impulse \<Rightarrow> CanonicalPinDef \<Rightarrow> ImpulseNode" where
  "node_of s pin =
     (let found = map_of (heldPins s) (pin_id pin);
          metricAct = (case found of Some r \<Rightarrow> hp_activation r | None \<Rightarrow> Fin 0);
          activation = num_max metricAct (heldBrightness s ! pin_cluster pin)
      in \<lparr>in_id = pin_id pin, in_label = pin_source pin @ '':'' @ pin_metric pin,
          in_cluster = pin_cluster pin,
          in_snr = (case found of
             Some r \<Rightarrow> hp_snr r
           | None \<Rightarrow> if num_le (Fin (1 / 2)) activation then Fin (5 / 2) else Fin 1),
          in_activation = activation\<rparr>)"

definition region_view_of :: "impulse \<Rightarrow> nat \<Rightarrow> region_view" where
  "region_view_of s i =
     (let strength = heldBrightness s ! i
      in \<lparr>rv_id = i, rv_strength = strength,
          rv_authority = (if num_le (Fin (1 / 2)) strength then Fin 1 else strength),
          rv_members = heldMembers s ! i\<rparr>)"

definition region_event_of :: "impulse \<Rightarrow> nat \<Rightarrow> region_event" where
  "region_event_of s i =
     \<lparr>re_id = i,
      re_label = (case map_of REGIONS (REGION_KEYS ! i) of
                    Some meta \<Rightarrow> rm_id meta @ '' '' @ rm_title meta
                  | None \<Rightarrow> REGION_KEYS ! i),
      re_activity = heldBrightness s ! i, re_members = heldMembers s ! i\<rparr>"

definition publish_map :: "jsnum \<Rightarrow> impulse \<Rightarrow> impulse" where
  "publish_map marketTick s =
     s\<lparr>lastPublishedTick := marketTick,
       im_shown := \<lparr>im_data = map (node_of s) getCanonicalPinDefs,
          im_regions = map (region_view_of s) [0..<length REGION_KEYS],
          im_activeEvents = map (region_event_of s) [0..<length REGION_KEYS],
          im_gridCells = length getCanonicalPinDefs, im_gridRegions = REGION_COUNT,
          im_marketTick = marketTick, im_litSymbols = heldLitSymbols s\<rparr>\<rparr>"

definition held_pin_of :: "jsnum option \<Rightarrow> held_pin" where
  "held_pin_of raw =
     (case raw of
        None \<Rightarrow> \<lparr>hp_activation = Fin 0, hp_snr = Fin 1\<rparr>
      | Some n \<Rightarrow> let act = snm n
                  in \<lparr>hp_activation = act, hp_snr = (if num_le (Fin (1 / 2)) act then Fin (5 / 2) else Fin 1)\<rparr>)"

definition hold_regions :: "jsval list \<Rightarrow> impulse \<Rightarrow> impulse" where
  "hold_regions rows s =
     (let held = paintRegions rows (heldBrightness s, heldMembers s)
      in s\<lparr>heldBrightness := fst held, heldMembers := snd held\<rparr>)"

definition paintSymbol :: "jsobj \<Rightarrow> string \<Rightarrow> jsval list \<Rightarrow> jsnum \<Rightarrow> impulse \<Rightarrow> impulse" where
  "paintSymbol signals symbol rows marketTick s =
     (let s' = (hold_regions rows s)\<lparr>heldLitSymbols := [symbol],
            heldPins := foldl (\<lambda>held pin. obj_set (pin_id pin) (held_pin_of (pinMetric signals pin symbol)) held)
              (heldPins s) getCanonicalPinDefs\<rparr>
      in publish_map marketTick s')"

text \<open>\<^verbatim>\<open>step\<close>: paint the next symbol unless a newer update took over, and queue the rest.\<close>

definition paint_step :: "jsobj \<Rightarrow> paint_job \<Rightarrow> impulse \<Rightarrow> impulse" where
  "paint_step signals job s =
     (if pj_token job \<noteq> paintToken s then s
      else case pj_frames job of
        [] \<Rightarrow> s
      | (symbol, rows) # rest \<Rightarrow>
          let s' = paintSymbol signals symbol rows (pj_tick job) s
          in if rest = [] then s' else s'\<lparr>im_queue := im_queue s' @ [job\<lparr>pj_frames := rest\<rparr>]\<rparr>)"

definition updateFromTelemetry ::
    "(string \<Rightarrow> string \<Rightarrow> int) \<Rightarrow> jsobj \<Rightarrow> jsnum \<Rightarrow> impulse \<Rightarrow> impulse" where
  "updateFromTelemetry lc signals tickCount s =
     (if im_paused s then s
      else let tick = (if tickCount = Fin 0 \<or> tickCount = NaN then lastPublishedTick s else tickCount);
               frames = symbolGridFrames lc (field signals ''regions'')
           in if frames = [] then publish_map tick ((hold_regions [] s)\<lparr>heldLitSymbols := []\<rparr>)
              else let token = paintToken s + 1
                   in paint_step signals \<lparr>pj_token = token, pj_frames = frames, pj_tick = tick\<rparr>
                        (s\<lparr>paintToken := token\<rparr>))"

text \<open>The hook's first state, the body of its effect, and the effect's cleanup.\<close>

definition impulse_start :: "bool \<Rightarrow> impulse" where
  "impulse_start paused =
     \<lparr>heldPins = [], heldBrightness = replicate REGION_COUNT (Fin 0), heldMembers = canonical_members,
      heldLitSymbols = [], paintToken = 0, lastPublishedTick = Fin 0, im_paused = paused, im_queue = [],
      im_shown = \<lparr>im_data = createCanonicalGridNodes,
         im_regions = map (\<lambda>i. \<lparr>rv_id = i, rv_strength = Fin 0, rv_authority = Fin 0,
           rv_members = num_of_nat (case map_of getCanonicalRegionCounts i of Some c \<Rightarrow> c | None \<Rightarrow> 0)\<rparr>)
           [0..<length REGION_KEYS],
         im_activeEvents = [], im_gridCells = length createCanonicalGridNodes,
         im_gridRegions = REGION_COUNT, im_marketTick = Fin 0, im_litSymbols = []\<rparr>\<rparr>"

definition impulse_effect ::
    "(string \<Rightarrow> string \<Rightarrow> int) \<Rightarrow> jsobj \<Rightarrow> jsnum \<Rightarrow> bool \<Rightarrow> impulse \<Rightarrow> impulse" where
  "impulse_effect lc signals tickCount paused s =
     (let s' = s\<lparr>heldPins := [], heldBrightness := replicate REGION_COUNT (Fin 0),
            heldMembers := canonical_members, heldLitSymbols := [], paintToken := paintToken s + 1,
            im_paused := paused\<rparr>
      in updateFromTelemetry lc signals tickCount (publish_map (lastPublishedTick s') s'))"

definition impulse_cleanup :: "impulse \<Rightarrow> impulse" where
  "impulse_cleanup s = s\<lparr>paintToken := paintToken s + 1\<rparr>"

text \<open>The browser runs the oldest queued callback.\<close>

definition animate :: "jsobj \<Rightarrow> impulse \<Rightarrow> impulse" where
  "animate signals s =
     (case im_queue s of [] \<Rightarrow> s | job # jobs \<Rightarrow> paint_step signals job (s\<lparr>im_queue := jobs\<rparr>))"

subsection \<open>The wiring table\<close>

lemma region_ids:
  "map (\<lambda>k. regionKeyFromIndex (JNum (num_of_nat k))) [0..<REGION_COUNT] = REGION_KEYS"
  by (simp add: REGION_COUNT_def REGION_KEYS_def map_keys_def REGIONS_def regionKeyFromIndex_def
      num_of_nat_def pad_left_def whole_text_simps upt_conv_Cons)

lemma region_id: "k < REGION_COUNT \<Longrightarrow> regionKeyFromIndex (JNum (num_of_nat k)) = REGION_KEYS ! k"
  using arg_cong [OF region_ids, of "\<lambda>xs. xs ! k"] by simp

lemma wired_bound: "list_all (\<lambda>(k, _). k < REGION_COUNT) wired"
  by code_simp

lemma wired_ids: "distinct (map (\<lambda>(k, s, m). s @ '':'' @ m @ '':'' @ REGION_KEYS ! k) wired)"
  by code_simp

lemma wired_counts:
  "map (map_of getCanonicalRegionCounts) [0..<REGION_COUNT] =
     map (\<lambda>i. Some (length (filter (\<lambda>w. fst w = i) wired))) [0..<REGION_COUNT]"
  by code_simp

lemma unwired_regions: "filter (\<lambda>i. map_of getCanonicalRegionCounts i = Some 0) [0..<REGION_COUNT] = [9, 10, 11, 15]"
  by code_simp

lemma pin_fields [simp]:
  "pin_cluster (pin_def k s m) = k" "pin_source (pin_def k s m) = s" "pin_metric (pin_def k s m) = m"
  "pin_regionId (pin_def k s m) = regionKeyFromIndex (JNum (num_of_nat k))"
  "pin_id (pin_def k s m) = s @ '':'' @ m @ '':'' @ regionKeyFromIndex (JNum (num_of_nat k))"
  "pin_category (pin_def k s m) = regionCategoryIndex (int k)"
  by (simp_all add: pin_def_def Let_def)

lemma pin_ids: "map pin_id getCanonicalPinDefs = map (\<lambda>(k, s, m). s @ '':'' @ m @ '':'' @ REGION_KEYS ! k) wired"
  using wired_bound by (auto simp: getCanonicalPinDefs_def list_all_iff region_id)

lemma pin_bound: "pin \<in> set getCanonicalPinDefs \<Longrightarrow> pin_cluster pin < REGION_COUNT"
  using wired_bound by (auto simp: getCanonicalPinDefs_def list_all_iff)

lemma distinct_pin_ids: "distinct (map pin_id getCanonicalPinDefs)"
  unfolding pin_ids by (rule wired_ids)

text \<open>
  The wiring table agrees with itself: no two pins share an id, every region's counter is the
  number of pins wired to it, every pin carries its region's own key and category, and the four
  regions 9, 10, 11 and 15 have no pin at all.
\<close>

theorem canonical_pins_consistent:
  "distinct (map pin_id getCanonicalPinDefs) \<and>
   map (map_of getCanonicalRegionCounts) [0..<REGION_COUNT] =
     map (\<lambda>i. Some (length (filter (\<lambda>pin. pin_cluster pin = i) getCanonicalPinDefs))) [0..<REGION_COUNT] \<and>
   list_all (\<lambda>pin. pin_regionId pin = REGION_KEYS ! pin_cluster pin \<and>
     pin_category pin = regionCategoryIndex (int (pin_cluster pin))) getCanonicalPinDefs \<and>
   filter (\<lambda>i. map_of getCanonicalRegionCounts i = Some 0) [0..<REGION_COUNT] = [9, 10, 11, 15]"
proof (intro conjI distinct_pin_ids unwired_regions)
  show "map (map_of getCanonicalRegionCounts) [0..<REGION_COUNT] =
     map (\<lambda>i. Some (length (filter (\<lambda>pin. pin_cluster pin = i) getCanonicalPinDefs))) [0..<REGION_COUNT]"
    by (simp add: wired_counts getCanonicalPinDefs_def filter_map o_def case_prod_beta)
  show "list_all (\<lambda>pin. pin_regionId pin = REGION_KEYS ! pin_cluster pin \<and>
     pin_category pin = regionCategoryIndex (int (pin_cluster pin))) getCanonicalPinDefs"
    using wired_bound by (auto simp: getCanonicalPinDefs_def list_all_iff region_id)
qed

subsection \<open>What a painted symbol shows\<close>

text \<open>The brightness a list of rows gives a region: that of its last row for it.\<close>

definition row_region :: "jsval \<Rightarrow> nat option" where
  "row_region row =
     Option.bind (as_record row) (\<lambda>region. Option.bind (as_num (field region ''key'')) region_index)"

definition strength_of :: "jsval list \<Rightarrow> nat \<Rightarrow> jsnum" where
  "strength_of rows i =
     (case Option.bind (last_opt (filter (\<lambda>row. row_region row = Some i) rows)) as_record of
        None \<Rightarrow> Fin 0
      | Some region \<Rightarrow> regionBrightness region)"

lemma region_index_bound: "region_index n = Some k \<Longrightarrow> k < REGION_COUNT"
  by (auto simp: region_index_def REGION_COUNT_def split: jsnum.splits if_splits)

lemma row_region_bound: "row_region row = Some k \<Longrightarrow> k < REGION_COUNT"
  by (auto simp: row_region_def bind_eq_Some_conv intro: region_index_bound)

lemma fst_paint_row:
  "fst (paint_row held row) =
     (case row_region row of
        None \<Rightarrow> fst held
      | Some k \<Rightarrow> (fst held)[k := (case as_record row of Some r \<Rightarrow> regionBrightness r | None \<Rightarrow> Fin 0)])"
  by (auto simp: paint_row_def row_region_def split: option.splits)

lemma length_paint_row [simp]:
  "length (fst (paint_row held row)) = length (fst held)" "length (snd (paint_row held row)) = length (snd held)"
  by (auto simp: paint_row_def split: option.splits)

lemma length_painted [simp]:
  "length (fst (paintRegions rows held)) = REGION_COUNT"
  "length (snd (paintRegions rows held)) = length (snd held)"
  by (induction rows rule: rev_induct) (simp_all add: paintRegions_def)

lemma fst_paint: "fst (paintRegions rows held) = map (strength_of rows) [0..<REGION_COUNT]"
proof (induction rows rule: rev_induct)
  case Nil
  show ?case by (simp add: paintRegions_def strength_of_def map_replicate_const)
next
  case (snoc row rows)
  have "fst (paintRegions (rows @ [row]) held) = fst (paint_row (paintRegions rows held) row)"
    by (simp add: paintRegions_def)
  also have "\<dots> = map (strength_of (rows @ [row])) [0..<REGION_COUNT]"
    using row_region_bound [of row]
    by (auto simp: fst_paint_row snoc.IH list_eq_iff_nth_eq nth_list_update strength_of_def row_region_def
        split: option.splits)
  finally show ?case .
qed

lemma map_of_obj_set_each:
  "map_of (foldl (\<lambda>held x. obj_set (f x) (g x) held) d xs) k =
     (case last_opt (filter (\<lambda>x. f x = k) xs) of Some x \<Rightarrow> Some (g x) | None \<Rightarrow> map_of d k)"
  by (induction xs rule: rev_induct) (auto simp: map_of_obj_set)

lemma filter_unique: "distinct (map f xs) \<Longrightarrow> x \<in> set xs \<Longrightarrow> filter (\<lambda>y. f y = f x) xs = [x]"
  by (induction xs) (auto simp: filter_empty_conv image_iff)

lemma held_pin_painted:
  assumes "pin \<in> set getCanonicalPinDefs"
  shows "map_of (foldl (\<lambda>held p. obj_set (pin_id p) (g p) held) d getCanonicalPinDefs) (pin_id pin) = Some (g pin)"
proof -
  have "filter (\<lambda>p. pin_id p = pin_id pin) getCanonicalPinDefs = [pin]"
    by (rule filter_unique [OF distinct_pin_ids assms])
  then show ?thesis by (simp add: map_of_obj_set_each last_opt_def)
qed

definition node_shown :: "jsobj \<Rightarrow> string \<Rightarrow> jsval list \<Rightarrow> CanonicalPinDef \<Rightarrow> ImpulseNode" where
  "node_shown signals symbol rows pin =
     (let r = held_pin_of (pinMetric signals pin symbol)
      in \<lparr>in_id = pin_id pin, in_label = pin_source pin @ '':'' @ pin_metric pin, in_cluster = pin_cluster pin,
          in_snr = hp_snr r, in_activation = num_max (hp_activation r) (strength_of rows (pin_cluster pin))\<rparr>)"

text \<open>
  The map shows one symbol's grid at a time: whatever was painted before, after a symbol is
  painted every region shows the brightness of that symbol's last row for it, or none, every node
  combines that brightness with that symbol's own metric, and the symbol alone is named as lit.
\<close>

theorem painted_symbol_alone:
  "(let shown = im_shown (paintSymbol signals symbol rows tick s)
    in im_litSymbols shown = [symbol] \<and> im_marketTick shown = tick \<and>
       map rv_strength (im_regions shown) = map (strength_of rows) [0..<REGION_COUNT] \<and>
       im_data shown = map (node_shown signals symbol rows) getCanonicalPinDefs)"
proof -
  have keys: "length REGION_KEYS = REGION_COUNT" using arg_cong [OF region_ids, of length] by simp
  show ?thesis
    by (auto simp: Let_def paintSymbol_def publish_map_def hold_regions_def keys region_view_of_def fst_paint
        node_of_def node_shown_def held_pin_painted pin_bound)
qed

subsection \<open>Runs of the map\<close>

inductive impulse_reach :: "impulse \<Rightarrow> bool" where
  mount: "impulse_reach (impulse_effect lc signals tick paused (impulse_start paused))"
| telemetry: "impulse_reach s \<Longrightarrow> impulse_reach (updateFromTelemetry lc signals tick s)"
| frame: "impulse_reach s \<Longrightarrow> impulse_reach (animate signals s)"
| pause: "impulse_reach s \<Longrightarrow> impulse_reach (impulse_effect lc signals tick paused (impulse_cleanup s))"

definition jobs_old :: "impulse \<Rightarrow> bool" where
  "jobs_old s = list_all (\<lambda>job. pj_token job \<le> paintToken s) (im_queue s)"

lemma publish_keeps [simp]:
  "im_queue (publish_map t s) = im_queue s" "paintToken (publish_map t s) = paintToken s"
  "im_paused (publish_map t s) = im_paused s"
  by (simp_all add: publish_map_def)

lemma hold_keeps [simp]:
  "im_queue (hold_regions rows s) = im_queue s" "paintToken (hold_regions rows s) = paintToken s"
  by (simp_all add: hold_regions_def Let_def)

lemma paint_keeps [simp]:
  "im_queue (paintSymbol signals symbol rows t s) = im_queue s"
  "paintToken (paintSymbol signals symbol rows t s) = paintToken s"
  by (simp_all add: paintSymbol_def Let_def)

lemma jobs_old_step:
  "jobs_old s \<Longrightarrow> pj_token job \<le> paintToken s \<Longrightarrow> jobs_old (paint_step signals job s)"
  by (auto simp: paint_step_def jobs_old_def Let_def split: list.split)

lemma jobs_old_frame [simp]:
  "jobs_old (publish_map t s) = jobs_old s" "jobs_old (hold_regions rows s) = jobs_old s"
  "jobs_old (s\<lparr>heldLitSymbols := l\<rparr>) = jobs_old s"
  by (simp_all add: jobs_old_def)

lemma jobs_old_token: "jobs_old s \<Longrightarrow> jobs_old (s\<lparr>paintToken := Suc (paintToken s)\<rparr>)"
  by (auto simp: jobs_old_def list_all_iff)

lemma jobs_old_update: "jobs_old s \<Longrightarrow> jobs_old (updateFromTelemetry lc signals tick s)"
  using jobs_old_step [OF jobs_old_token]
  by (simp add: updateFromTelemetry_def Let_def)

lemma jobs_old_effect: "jobs_old s \<Longrightarrow> jobs_old (impulse_effect lc signals tick paused s)"
  unfolding impulse_effect_def Let_def
  by (intro jobs_old_update) (auto simp: jobs_old_def list_all_iff)

lemma jobs_old_animate:
  assumes "jobs_old s"
  shows "jobs_old (animate signals s)"
proof (cases "im_queue s")
  case (Cons job jobs)
  then have "jobs_old (s\<lparr>im_queue := jobs\<rparr>)" and "pj_token job \<le> paintToken s"
    using assms by (auto simp: jobs_old_def)
  with Cons show ?thesis by (simp add: animate_def jobs_old_step)
qed (simp add: animate_def assms)

lemma reach_jobs_old: "impulse_reach s \<Longrightarrow> jobs_old s"
proof (induction rule: impulse_reach.induct)
  case (mount lc signals tick paused)
  have "jobs_old (impulse_start paused)" by (simp add: jobs_old_def impulse_start_def)
  then show ?case by (rule jobs_old_effect)
next
  case (pause s lc signals tick paused)
  then show ?case by (simp add: impulse_cleanup_def jobs_old_effect jobs_old_token)
qed (auto intro: jobs_old_update jobs_old_animate)

text \<open>Callbacks of an older update run out without effect; those of the current one paint to the end.\<close>

lemma in_set_tl: "x \<in> set (tl xs) \<Longrightarrow> x \<in> set xs"
  by (cases xs) auto

lemma stale_jobs_run_out:
  "\<forall>job \<in> set q. pj_token job \<noteq> paintToken s \<Longrightarrow>
     (animate signals ^^ length q) (s\<lparr>im_queue := q @ q'\<rparr>) = s\<lparr>im_queue := q'\<rparr>"
proof (induction q)
  case (Cons job q)
  have "animate signals (s\<lparr>im_queue := (job # q) @ q'\<rparr>) = s\<lparr>im_queue := q @ q'\<rparr>"
    using Cons.prems by (simp add: animate_def paint_step_def)
  with Cons show ?case by (simp add: funpow_swap1)
qed simp

lemma stale_frames_show_nothing:
  "\<forall>job \<in> set (im_queue s). pj_token job \<noteq> paintToken s \<Longrightarrow>
     im_shown ((animate signals ^^ n) s) = im_shown s"
proof (induction n arbitrary: s)
  case (Suc n)
  have "animate signals s = s\<lparr>im_queue := tl (im_queue s)\<rparr>"
    using Suc.prems by (cases "im_queue s") (auto simp: animate_def paint_step_def)
  with Suc.IH [of "s\<lparr>im_queue := tl (im_queue s)\<rparr>"] Suc.prems show ?case
    by (simp add: funpow_swap1 in_set_tl)
qed simp

definition shows_grid :: "string \<times> jsval list \<Rightarrow> impulse \<Rightarrow> bool" where
  "shows_grid frame s \<longleftrightarrow> im_queue s = [] \<and> im_litSymbols (im_shown s) = [fst frame] \<and>
     map rv_strength (im_regions (im_shown s)) = map (strength_of (snd frame)) [0..<REGION_COUNT]"

lemma shows_painted: "im_queue s = [] \<Longrightarrow> shows_grid (symbol, rows) (paintSymbol signals symbol rows t s)"
  using painted_symbol_alone [of signals symbol rows t s] by (simp add: shows_grid_def Let_def)

lemma live_job_paints:
  "frames \<noteq> [] \<Longrightarrow> im_queue s = [\<lparr>pj_token = paintToken s, pj_frames = frames, pj_tick = t\<rparr>] \<Longrightarrow>
     shows_grid (last frames) ((animate signals ^^ length frames) s)"
proof (induction frames arbitrary: s)
  case (Cons frame rest)
  obtain symbol rows where frame: "frame = (symbol, rows)" by force
  let ?p = "paintSymbol signals symbol rows t (s\<lparr>im_queue := []\<rparr>)"
  have one: "animate signals s = (if rest = [] then ?p else
      ?p\<lparr>im_queue := [\<lparr>pj_token = paintToken ?p, pj_frames = rest, pj_tick = t\<rparr>]\<rparr>)"
    using Cons.prems by (simp add: animate_def paint_step_def frame Let_def)
  show ?case
  proof (cases "rest = []")
    case True
    then show ?thesis by (simp add: one frame shows_painted)
  next
    case False
    with Cons.IH [of "animate signals s"] show ?thesis
      by (simp add: one funpow_swap1)
  qed
qed simp

lemma first_paint:
  assumes "\<not> im_paused s" and "symbolGridFrames lc (field signals ''regions'') = (symbol, rows) # rest"
  obtains p t where "im_queue p = im_queue s" and "paintToken p = paintToken s + 1"
    and "updateFromTelemetry lc signals tick s = (if rest = [] then p else
      p\<lparr>im_queue := im_queue s @ [\<lparr>pj_token = paintToken s + 1, pj_frames = rest, pj_tick = t\<rparr>]\<rparr>)"
    and "shows_grid (symbol, rows) (p\<lparr>im_queue := []\<rparr>)"
proof -
  let ?t = "if tick = Fin 0 \<or> tick = NaN then lastPublishedTick s else tick"
  let ?p = "paintSymbol signals symbol rows ?t (s\<lparr>paintToken := paintToken s + 1\<rparr>)"
  have "shows_grid (symbol, rows) (?p\<lparr>im_queue := []\<rparr>)"
    using painted_symbol_alone [of signals symbol rows ?t "s\<lparr>paintToken := paintToken s + 1\<rparr>"]
    by (simp add: shows_grid_def Let_def)
  with that [of ?p ?t] assms show thesis
    by (simp add: updateFromTelemetry_def Let_def paint_step_def)
qed

text \<open>
  Every update is painted to its last symbol: from any state the map can be in, if no newer
  update comes, the animation frames queued before run out without effect, each following one paints
  the next symbol, and the map comes to rest on the grid of the last symbol.
\<close>

theorem update_paints_last:
  assumes "impulse_reach s" and "\<not> im_paused s"
    and "symbolGridFrames lc (field signals ''regions'') = frame # rest"
  shows "shows_grid (last (frame # rest))
    ((animate signals ^^ (length (im_queue s) + length rest)) (updateFromTelemetry lc signals tick s))"
proof -
  obtain symbol rows where frame: "frame = (symbol, rows)" by force
  from assms(2) assms(3) [unfolded frame] obtain p t where p: "im_queue p = im_queue s"
    "paintToken p = paintToken s + 1"
    and upd: "updateFromTelemetry lc signals tick s = (if rest = [] then p else
      p\<lparr>im_queue := im_queue s @ [\<lparr>pj_token = paintToken s + 1, pj_frames = rest, pj_tick = t\<rparr>]\<rparr>)"
    and shown: "shows_grid (symbol, rows) (p\<lparr>im_queue := []\<rparr>)"
    by (rule first_paint [where tick = tick])
  have stale: "\<forall>job \<in> set (im_queue s). pj_token job \<noteq> paintToken p"
    using reach_jobs_old [OF assms(1)] by (auto simp: p(2) jobs_old_def list_all_iff)
  show ?thesis
  proof (cases "rest = []")
    case True
    have "p = p\<lparr>im_queue := im_queue s @ []\<rparr>" using p(1) by simp
    with stale_jobs_run_out [OF stale, of signals "[]"] shown True show ?thesis
      by (simp add: upd frame)
  next
    case False
    let ?q = "[\<lparr>pj_token = paintToken s + 1, pj_frames = rest, pj_tick = t\<rparr>]"
    have "shows_grid (last rest) ((animate signals ^^ length rest) (p\<lparr>im_queue := ?q\<rparr>))"
      using False by (intro live_job_paints) (simp_all add: p(2))
    with stale_jobs_run_out [OF stale, of signals ?q] False show ?thesis
      by (simp add: upd funpow_add add.commute [of "length (im_queue s)"])
  qed
qed

definition demo_signals :: jsobj where
  "demo_signals = [(''regions'', JObj [(''B'', JArr []), (''A'', JArr [])])]"

lemma demo_frames: "symbolGridFrames code_unit_compare (field demo_signals ''regions'') = [(''A'', []), (''B'', [])]"
  by code_simp

theorem update_paints_last_witness:
  "shows_grid (''B'', []) ((animate demo_signals ^^ 1)
     (updateFromTelemetry code_unit_compare demo_signals (Fin 1)
        (impulse_effect code_unit_compare [] (Fin 0) False (impulse_start False))))"
proof -
  let ?s = "impulse_effect code_unit_compare [] (Fin 0) False (impulse_start False)"
  have s: "im_queue ?s = [] \<and> \<not> im_paused ?s"
    by (simp add: impulse_effect_def impulse_start_def updateFromTelemetry_def Let_def symbolGridFrames_def
        sort_by_def field_def List.map_filter_def publish_map_def hold_regions_def)
  show ?thesis
    using update_paints_last [OF impulse_reach.mount _ demo_frames, of code_unit_compare "[]" "Fin 0" False "Fin 1"]
      s by simp
qed

text \<open>
  C35. A closed or frozen map paints nothing more: once the effect's cleanup ran, no animation frame
  still queued changes what is shown.
\<close>

theorem cleanup_stops_painting:
  assumes "impulse_reach s"
  shows "im_shown ((animate signals ^^ n) (impulse_cleanup s)) = im_shown s"
proof -
  have "\<forall>job \<in> set (im_queue (impulse_cleanup s)). pj_token job \<noteq> paintToken (impulse_cleanup s)"
    using reach_jobs_old [OF assms] by (auto simp: impulse_cleanup_def jobs_old_def list_all_iff)
  from stale_frames_show_nothing [OF this] show ?thesis by (simp add: impulse_cleanup_def)
qed

theorem cleanup_stops_painting_witness:
  "im_shown ((animate demo_signals ^^ 2) (impulse_cleanup
     (impulse_effect code_unit_compare demo_signals (Fin 1) False (impulse_start False)))) =
   im_shown (impulse_effect code_unit_compare demo_signals (Fin 1) False (impulse_start False))"
  by (rule cleanup_stops_painting [OF impulse_reach.mount])

subsection \<open>Readings of a training frame\<close>

lemma metric_maps_brightness:
  "map_of (tr_brightness (foldl metric_maps m es)) key =
     (case map_of (rev es) (''region_brightness:'' @ key) of
        Some b \<Rightarrow> Some b
      | None \<Rightarrow> map_of (tr_brightness m) key)"
proof (induction es rule: rev_induct)
  case (snoc e es)
  obtain sfx v where e: "e = (sfx, v)" by force
  show ?case
  proof (cases "starts_with sfx ''region_brightness:''")
    case True
    then obtain k where k: "sfx = ''region_brightness:'' @ k" using starts_with_split by blast
    then have "slice_from (length ''region_brightness:'') sfx = k" by (simp add: slice_from_def)
    then show ?thesis using snoc k True
      by (auto simp: e metric_maps_def Let_def map_of_obj_set slice_from_def)
  next
    case False
    then have "sfx \<noteq> ''region_brightness:'' @ key" by (metis starts_with_append)
    with False snoc show ?thesis by (auto simp: e metric_maps_def Let_def)
  qed
qed simp

lemma row_keeps_brightness:
  assumes "region_row_maps m row = Some m'" and "map_of (tr_brightness m) key = Some b"
  shows "map_of (tr_brightness m') key = Some b"
  using assms
  by (auto simp: region_row_maps_def Let_def map_of_obj_set split: if_splits option.splits)

lemma ingest_keeps_brightness:
  assumes "ingest_regions rows m = Some m'" and "map_of (tr_brightness m) key = Some b"
  shows "map_of (tr_brightness m') key = Some b"
proof (cases "\<exists>rs. rows = JArr rs")
  case True
  then obtain rs where rs: "rows = JArr rs" by blast
  have "foldl (\<lambda>acc row. Option.bind acc (\<lambda>m. region_row_maps m row)) (Some m) rs = Some m' \<Longrightarrow>
    map_of (tr_brightness m') key = Some b" for m'
    using assms(2)
    by (induction rs arbitrary: m' rule: rev_induct) (auto simp: bind_eq_Some_conv dest: row_keeps_brightness)
  with assms rs show ?thesis by (simp add: ingest_regions_def)
next
  case False
  with assms show ?thesis
    by (cases rows) (auto simp: ingest_regions_def split: if_splits)
qed

text \<open>
  An explicit brightness metric of a frame is the one shown: no row of the lit or active layers,
  whatever they hold, overrides it.
\<close>

theorem explicit_brightness_wins:
  assumes "regionMapsFromTrainingFrame parse (Some v) = Some maps"
    and "map_of (metrics parse v) (''region_brightness:'' @ key) = Some b"
  shows "map_of (tr_brightness maps) key = Some b"
proof -
  let ?m = "foldl metric_maps \<lparr>tr_brightness = [], tr_members = []\<rparr> (metrics parse v)"
  have "distinct (map fst (metrics parse v))" by (simp add: metrics_def distinct_obj_merge)
  then have "map_of (tr_brightness ?m) key = Some b"
    using assms(2) by (simp add: metric_maps_brightness map_of_rev_distinct)
  with assms(1) show ?thesis
    by (auto simp: regionMapsFromTrainingFrame_def Let_def bind_eq_Some_conv dest!: ingest_keeps_brightness)
qed

definition demo_parse :: "bytes \<Rightarrow> jsval option" where
  "demo_parse b = Some (if b = [] then JArr [JNum (Fin 1)] else JArr [JObj [(''key'', JNum (Fin 0)), (''brightness'', JNum (Fin 0))]])"

definition demo_training :: Value where
  "demo_training = \<lparr>v_id = [], v_epoch = 0, v_tick = 0, v_seqIdx = 0, v_timestamp = 0, v_origin = [], v_role = [],
     v_scope = [], v_prefix = ''p'', v_layers = [Some [], Some [0]],
     v_index = [''p/region_brightness:R00'', ''p/lit'']\<rparr>"

theorem explicit_brightness_wins_witness:
  "map_option (\<lambda>maps. map_of (tr_brightness maps) ''R00'')
     (regionMapsFromTrainingFrame demo_parse (Some demo_training)) = Some (Some (Fin 1))"
proof -
  have "regionMapsFromTrainingFrame demo_parse (Some demo_training) \<noteq> None" by code_simp
  then obtain maps where maps: "regionMapsFromTrainingFrame demo_parse (Some demo_training) = Some maps" by blast
  have "map_of (metrics demo_parse demo_training) (''region_brightness:'' @ ''R00'') = Some (Fin 1)" by code_simp
  from explicit_brightness_wins [OF maps this] maps show ?thesis by simp
qed

end
