(* ===== verification/Resonance.thy ===== *)
theory Resonance
  imports ValueFrame DeskRows
begin

text \<open>
  Readings of the resonance kernel: how the chart (\<^verbatim>\<open>components/charts/prediction.tsx\<close>) parses and
  merges them, the traces drawn from a history of frames (\<^verbatim>\<open>components/charts/prediction/series.ts\<close>)
  and the names and cells of the layers (\<^verbatim>\<open>components/terminal/xray-layers.tsx\<close>). An array written by
  index can have holes: it is a list of options whose \<open>None\<close> is a hole. \<^verbatim>\<open>Math.hypot\<close> is the
  parameter \<open>hyp\<close>.
\<close>

subsection \<open>Numbers at the front of a text\<close>

definition parse_int :: "string \<Rightarrow> int option" where
  "parse_int s =
     (case split_sign (dropWhile is_space s) of (neg, u) \<Rightarrow>
        let ds = takeWhile is_digit u
        in if ds = [] then None else Some (if neg then - int_of_digits ds else int_of_digits ds))"

definition parse_int_num :: "string \<Rightarrow> jsnum" where
  "parse_int_num s = (case parse_int s of Some i \<Rightarrow> num_of_int i | None \<Rightarrow> NaN)"

text \<open>\<^verbatim>\<open>Number.parseFloat\<close>: the longest decimal literal, or \<^verbatim>\<open>Infinity\<close>, the text begins with.\<close>

definition parse_float :: "string \<Rightarrow> jsnum" where
  "parse_float s =
     (let t = dropWhile is_space s; (neg, u) = split_sign t
      in if starts_with u ''Infinity'' then (if neg then NInf else PInf)
         else case find (\<lambda>k. decimal_value (take k t) \<noteq> None) (rev [0..<Suc (length t)]) of
           None \<Rightarrow> NaN
         | Some k \<Rightarrow> (case decimal_value (take k t) of Some q \<Rightarrow> fl q | None \<Rightarrow> NaN))"

subsection \<open>Arrays with holes\<close>

type_synonym 'a sparse = "'a option list"

text \<open>\<^verbatim>\<open>xs[i] = v\<close>; a key that is no array index is a property no loop over the array sees.\<close>

definition sparse_put :: "int \<Rightarrow> 'a \<Rightarrow> 'a sparse \<Rightarrow> 'a sparse" where
  "sparse_put i v xs =
     (if i < 0 \<or> 4294967295 \<le> i then xs
      else let k = nat i
           in if k < length xs then xs[k := Some v]
              else xs @ replicate (k - length xs) None @ [Some v])"

definition finite_or_zero :: "jsnum option \<Rightarrow> jsnum" where
  "finite_or_zero x = (case x of Some n \<Rightarrow> if is_finite n then n else Fin 0 | None \<Rightarrow> Fin 0)"

definition densify :: "jsnum sparse \<Rightarrow> jsnum sparse" where
  "densify xs = map (\<lambda>x. Some (finite_or_zero x)) xs"

definition numberArray :: "jsval \<Rightarrow> jsnum list" where
  "numberArray v = (case v of JArr vs \<Rightarrow> List.map_filter as_num vs | _ \<Rightarrow> [])"

subsection \<open>Readings\<close>

record LayerData =
  ld_state :: "jsnum sparse"
  ld_prediction :: "jsnum sparse"
  ld_errorNorm :: "jsnum option"

record ResonanceData =
  rd_taskRelativePrecision :: "jsnum option"
  rd_taskSkill :: "jsnum option"
  rd_supportedHorizon :: "jsnum option"
  rd_resolvedSteps :: "jsnum option"
  rd_surprise :: "jsnum option"
  rd_energy :: "jsnum option"
  rd_confidence :: "jsnum option"
  rd_calibrated :: "bool option"
  rd_taskCalibration :: "string option"
  rd_taskSkillStatus :: "string option"
  rd_taskSkillReady :: "bool option"
  rd_forwardCurve :: "jsnum sparse"
  rd_dynamics :: jsobj
  rd_latent :: "jsnum sparse"
  rd_layers :: "LayerData sparse"

definition emptyResonanceData :: ResonanceData where
  "emptyResonanceData =
     \<lparr>rd_taskRelativePrecision = None, rd_taskSkill = None, rd_supportedHorizon = None,
      rd_resolvedSteps = None, rd_surprise = None, rd_energy = None, rd_confidence = None,
      rd_calibrated = None, rd_taskCalibration = None, rd_taskSkillStatus = None,
      rd_taskSkillReady = None, rd_forwardCurve = [], rd_dynamics = [], rd_latent = [], rd_layers = []\<rparr>"

definition dense_layer :: "LayerData \<Rightarrow> LayerData" where
  "dense_layer l =
     \<lparr>ld_state = densify (ld_state l), ld_prediction = densify (ld_prediction l), ld_errorNorm = None\<rparr>"

definition finalizeResonanceData :: "ResonanceData \<Rightarrow> ResonanceData" where
  "finalizeResonanceData d =
     d\<lparr>rd_forwardCurve := densify (rd_forwardCurve d), rd_latent := densify (rd_latent d),
       rd_layers := map (\<lambda>l. Some (dense_layer l)) (List.map_filter (\<lambda>x. x) (rd_layers d))\<rparr>"

definition tiny :: jsnum where "tiny = fl (1 / 1000000000)"

definition has_signal :: "jsnum option \<Rightarrow> bool" where
  "has_signal x = (case x of Some v \<Rightarrow> is_finite v \<and> num_lt tiny (num_abs v) | None \<Rightarrow> False)"

definition vectorHasSignal :: "jsnum sparse \<Rightarrow> bool" where
  "vectorHasSignal xs = list_ex has_signal xs"

definition layer_signal :: "LayerData \<Rightarrow> bool" where
  "layer_signal l =
     (vectorHasSignal (ld_state l) \<or> vectorHasSignal (ld_prediction l) \<or>
      (case ld_errorNorm l of Some e \<Rightarrow> is_finite e \<and> num_lt (Fin 0) e | None \<Rightarrow> False))"

definition layersHaveSignal :: "LayerData sparse \<Rightarrow> bool" where
  "layersHaveSignal ls = list_ex (\<lambda>x. case x of Some l \<Rightarrow> layer_signal l | None \<Rightarrow> False) ls"

definition positive_opt :: "jsnum option \<Rightarrow> bool" where
  "positive_opt x = (case x of Some n \<Rightarrow> num_lt (Fin 0) n | None \<Rightarrow> False)"

definition finite_opt :: "jsnum option \<Rightarrow> bool" where
  "finite_opt x = (case x of Some n \<Rightarrow> is_finite n | None \<Rightarrow> False)"

definition resonanceHasContent :: "ResonanceData \<Rightarrow> bool" where
  "resonanceHasContent d =
     (layersHaveSignal (rd_layers d) \<or> vectorHasSignal (rd_latent d) \<or> vectorHasSignal (rd_forwardCurve d) \<or>
      rd_taskRelativePrecision d \<noteq> None \<or> rd_taskSkill d \<noteq> None \<or> rd_confidence d \<noteq> None \<or>
      finite_opt (rd_energy d) \<or> finite_opt (rd_surprise d) \<or>
      positive_opt (rd_supportedHorizon d) \<or> positive_opt (rd_resolvedSteps d))"

definition keepScalar :: "jsnum option \<Rightarrow> jsnum option \<Rightarrow> jsnum option" where
  "keepScalar new old =
     (case new of
        None \<Rightarrow> old
      | Some n \<Rightarrow> if n = Fin 0 \<and> has_signal old then old else new)"

definition keepOptional :: "'a option \<Rightarrow> 'a option \<Rightarrow> 'a option" where
  "keepOptional new old = (if new = None then old else new)"

datatype merge_mode = Full | Workspace

definition mergeResonanceData :: "ResonanceData \<Rightarrow> ResonanceData \<Rightarrow> merge_mode \<Rightarrow> ResonanceData" where
  "mergeResonanceData prior patch mode =
     finalizeResonanceData
       \<lparr>rd_taskRelativePrecision = keepScalar (rd_taskRelativePrecision patch) (rd_taskRelativePrecision prior),
        rd_taskSkill = keepScalar (rd_taskSkill patch) (rd_taskSkill prior),
        rd_supportedHorizon = keepOptional (rd_supportedHorizon patch) (rd_supportedHorizon prior),
        rd_resolvedSteps = keepOptional (rd_resolvedSteps patch) (rd_resolvedSteps prior),
        rd_surprise = (if mode = Workspace then keepScalar (rd_surprise patch) (rd_surprise prior)
                       else keepOptional (rd_surprise patch) (rd_surprise prior)),
        rd_energy = (if mode = Workspace then keepScalar (rd_energy patch) (rd_energy prior)
                     else keepOptional (rd_energy patch) (rd_energy prior)),
        rd_confidence = keepOptional (rd_confidence patch) (rd_confidence prior),
        rd_calibrated = keepOptional (rd_calibrated patch) (rd_calibrated prior),
        rd_taskCalibration = keepOptional (rd_taskCalibration patch) (rd_taskCalibration prior),
        rd_taskSkillStatus = keepOptional (rd_taskSkillStatus patch) (rd_taskSkillStatus prior),
        rd_taskSkillReady = keepOptional (rd_taskSkillReady patch) (rd_taskSkillReady prior),
        rd_forwardCurve = (if vectorHasSignal (rd_forwardCurve patch) then rd_forwardCurve patch
                           else rd_forwardCurve prior),
        rd_dynamics = (if rd_dynamics patch \<noteq> [] then rd_dynamics patch else rd_dynamics prior),
        rd_latent = (if vectorHasSignal (rd_latent patch) then rd_latent patch else rd_latent prior),
        rd_layers = (if layersHaveSignal (rd_layers patch) then rd_layers patch else rd_layers prior)\<rparr>"

subsection \<open>One entry of a reading\<close>

definition put_vector :: "string \<Rightarrow> jsnum \<Rightarrow> jsnum sparse \<Rightarrow> jsnum sparse" where
  "put_vector index v xs = (case parse_int index of Some i \<Rightarrow> sparse_put i v xs | None \<Rightarrow> xs)"

definition text_part :: "string list \<Rightarrow> nat \<Rightarrow> string" where
  "text_part parts i = (case nth_opt parts i of Some p \<Rightarrow> p | None \<Rightarrow> [])"

definition put_layer_value :: "string list \<Rightarrow> jsnum \<Rightarrow> LayerData \<Rightarrow> LayerData" where
  "put_layer_value parts v l =
     (let prop = nth_opt parts 2
      in if prop = Some ''error'' \<or> prop = Some ''errorNorm'' then l\<lparr>ld_errorNorm := Some v\<rparr>
         else if prop = Some ''state'' then l\<lparr>ld_state := put_vector (text_part parts 3) v (ld_state l)\<rparr>
         else if prop = Some ''prediction''
         then l\<lparr>ld_prediction := put_vector (text_part parts 3) v (ld_prediction l)\<rparr>
         else l)"

definition put_layer :: "string \<Rightarrow> jsnum \<Rightarrow> LayerData sparse \<Rightarrow> LayerData sparse" where
  "put_layer sfx v ls =
     (let parts = split_on CHR ''_'' sfx
      in case parse_int (text_part parts 1) of
           None \<Rightarrow> ls
         | Some i \<Rightarrow>
             let held = (if i < 0 then None else Option.bind (nth_opt ls (nat i)) (\<lambda>x. x));
                 l = (case held of Some l \<Rightarrow> l
                      | None \<Rightarrow> \<lparr>ld_state = [], ld_prediction = [], ld_errorNorm = None\<rparr>)
             in sparse_put i (put_layer_value parts v l) ls)"

definition apply_number :: "string \<Rightarrow> jsnum \<Rightarrow> ResonanceData \<Rightarrow> ResonanceData" where
  "apply_number sfx v d =
     (if sfx = ''task_relative_precision'' then d\<lparr>rd_taskRelativePrecision := Some v, rd_confidence := Some v\<rparr>
      else if sfx = ''task_skill'' then d\<lparr>rd_taskSkill := Some v, rd_taskSkillReady := Some True\<rparr>
      else if sfx = ''surprise'' then d\<lparr>rd_surprise := Some v\<rparr>
      else if sfx = ''energy'' then d\<lparr>rd_energy := Some v\<rparr>
      else if sfx = ''supported_horizon'' then d\<lparr>rd_supportedHorizon := Some (num_trunc v)\<rparr>
      else if sfx = ''resolved_steps'' then d\<lparr>rd_resolvedSteps := Some (num_trunc v)\<rparr>
      else if sfx = ''confidence'' then d\<lparr>rd_confidence := Some v\<rparr>
      else if sfx = ''calibrated'' then d\<lparr>rd_calibrated := Some (num_le (Fin 1) v)\<rparr>
      else if starts_with sfx ''forward_curve_''
      then d\<lparr>rd_forwardCurve := put_vector (slice_from (length ''forward_curve_'') sfx) v (rd_forwardCurve d)\<rparr>
      else if starts_with sfx ''dynamics_''
      then d\<lparr>rd_dynamics := obj_set (slice_from (length ''dynamics_'') sfx) (JNum v) (rd_dynamics d)\<rparr>
      else if starts_with sfx ''latent_''
      then d\<lparr>rd_latent := put_vector (slice_from (length ''latent_'') sfx) v (rd_latent d)\<rparr>
      else if starts_with sfx ''layer_'' then d\<lparr>rd_layers := put_layer sfx v (rd_layers d)\<rparr>
      else d)"

definition apply_text :: "string \<Rightarrow> string \<Rightarrow> ResonanceData \<Rightarrow> ResonanceData" where
  "apply_text sfx s d =
     (if sfx = ''supported_horizon'' then d\<lparr>rd_supportedHorizon := Some (parse_int_num s)\<rparr>
      else if sfx = ''resolved_steps'' then d\<lparr>rd_resolvedSteps := Some (parse_int_num s)\<rparr>
      else if sfx = ''confidence'' then d\<lparr>rd_confidence := Some (parse_float s)\<rparr>
      else if sfx = ''calibrated'' then d\<lparr>rd_calibrated := Some (s = ''true'')\<rparr>
      else d)"

definition applyResonanceSuffix :: "ResonanceData \<Rightarrow> string \<times> jsval \<Rightarrow> ResonanceData" where
  "applyResonanceSuffix d entry =
     (case entry of (sfx, payload) \<Rightarrow>
        if sfx = [] then d
        else let first = first_of payload
             in case finite_num first of
                  Some v \<Rightarrow> apply_number sfx v d
                | None \<Rightarrow> (case first of JStr s \<Rightarrow> apply_text sfx s d | _ \<Rightarrow> d))"

subsection \<open>Rows and frames\<close>

definition with_content :: "ResonanceData \<Rightarrow> ResonanceData option" where
  "with_content d =
     (let finalized = finalizeResonanceData d in if resonanceHasContent finalized then Some finalized else None)"

definition folded :: "(string \<times> jsval) list \<Rightarrow> ResonanceData option" where
  "folded entries = with_content (foldl applyResonanceSuffix emptyResonanceData entries)"

definition named_entry :: "jsval \<Rightarrow> (string \<times> jsval) option" where
  "named_entry entry =
     (case as_record entry of
        None \<Rightarrow> None
      | Some ob \<Rightarrow> map_option (\<lambda>name. (name, field ob ''raw'')) (nonempty_str (field ob ''name'')))"

definition flat_key :: "string \<Rightarrow> bool" where
  "flat_key key =
     (includes_str key ''_'' \<or> key = ''surprise'' \<or> key = ''energy'' \<or> key = ''alpha'' \<or> key = ''calibrated'')"

definition telling_key :: "string \<Rightarrow> bool" where
  "telling_key key =
     (starts_with key ''forward_curve_'' \<or> starts_with key ''latent_'' \<or> starts_with key ''layer_'' \<or>
      key = ''task_relative_precision'' \<or> key = ''task_skill'' \<or> key = ''supported_horizon'')"

definition looksFlat :: "jsobj \<Rightarrow> bool" where
  "looksFlat row = list_ex telling_key (filter flat_key (map_keys row))"

definition hasRetained :: "jsobj \<Rightarrow> bool" where
  "hasRetained row =
     (list_ex (\<lambda>k. map_of row k \<noteq> None) [''layers'', ''forwardCurve'', ''latent'', ''embedding''] \<or>
      as_num (field row ''energy'') \<noteq> None \<or> as_num (field row ''surprise'') \<noteq> None)"

definition retained_layer :: "jsval \<Rightarrow> LayerData option" where
  "retained_layer v =
     map_option (\<lambda>ob. \<lparr>ld_state = map Some (numberArray (field ob ''state'')),
                       ld_prediction = map Some (numberArray (field ob ''prediction'')), ld_errorNorm = None\<rparr>)
       (as_record v)"

definition retained_row :: "jsobj \<Rightarrow> ResonanceData" where
  "retained_row row =
     finalizeResonanceData
       \<lparr>rd_taskRelativePrecision = as_num (field row ''taskRelativePrecision''),
        rd_taskSkill = as_num (field row ''taskSkill''),
        rd_supportedHorizon = as_num (field row ''supportedHorizon''),
        rd_resolvedSteps = as_num (field row ''resolvedSteps''),
        rd_surprise = as_num (field row ''surprise''),
        rd_energy = as_num (field row ''energy''),
        rd_confidence = as_num (field row ''confidence''),
        rd_calibrated = (case field row ''calibrated'' of
           JBool b \<Rightarrow> Some b | JNum n \<Rightarrow> Some (num_le (Fin 1) n) | _ \<Rightarrow> None),
        rd_taskCalibration = None, rd_taskSkillStatus = None, rd_taskSkillReady = None,
        rd_forwardCurve = map Some (numberArray (field row ''forwardCurve'')),
        rd_dynamics = (case as_plain (field row ''dynamics'') of Some ob \<Rightarrow> ob | None \<Rightarrow> []),
        rd_latent = map Some (numberArray (orelse (field row ''latent'') (field row ''embedding''))),
        rd_layers = (case field row ''layers'' of
           JArr vs \<Rightarrow> map Some (List.map_filter retained_layer vs) | _ \<Rightarrow> [])\<rparr>"

definition parseResonanceFromRow :: "jsobj \<Rightarrow> ResonanceData option" where
  "parseResonanceFromRow row =
     (case field row ''metrics'' of
        JArr entries \<Rightarrow> folded (List.map_filter named_entry entries)
      | _ \<Rightarrow>
          if looksFlat row then folded row
          else if hasRetained row then Some (retained_row row) else None)"

text \<open>
  What the panels are given: a frame of the wire or a plain row. The layers of a plain row are JSON
  data, which the decoder of byte arrays reads as nothing, so a row that is no reading parses to
  nothing even when it has an index and layers.
\<close>

datatype carrier = Wire Value | Row jsobj

definition parseResonanceData :: "(bytes \<Rightarrow> jsval option) \<Rightarrow> carrier \<Rightarrow> ResonanceData option" where
  "parseResonanceData parse m =
     (case m of Wire v \<Rightarrow> folded (readings parse v) | Row row \<Rightarrow> parseResonanceFromRow row)"

text \<open>\<^verbatim>\<open>index.indexOf(needle, from)\<close>, where a negative \<^verbatim>\<open>from\<close> is 0.\<close>

definition index_of_from :: "string \<Rightarrow> nat \<Rightarrow> string \<Rightarrow> nat option" where
  "index_of_from needle from s =
     (if from \<le> length s then map_option (\<lambda>i. i + from) (index_of needle (drop from s)) else None)"

definition resonanceLayers :: "(bytes \<Rightarrow> jsval option) \<Rightarrow> Value \<Rightarrow> string \<Rightarrow> (string \<times> jsval) list" where
  "resonanceLayers parse frame symbol =
     (let address = ''resonance/'' @ replace_char CHR ''/'' CHR ''-'' symbol @ ''/''
      in List.map_filter
           (\<lambda>(index, layer).
              if \<not> starts_with index (v_prefix frame) then None
              else case index_of_from (''/'' @ address) (length (v_prefix frame) - 1) index of
                None \<Rightarrow> None
              | Some pos \<Rightarrow>
                  let payload = tryDecodeJsonBytes parse layer
                  in if payload = JUndef then None
                     else Some (slice_from (pos + length address + 1) index, payload))
           (indexed frame))"

definition parseResonanceFromWorkspace ::
    "(bytes \<Rightarrow> jsval option) \<Rightarrow> string \<Rightarrow> Value option \<Rightarrow> ResonanceData option" where
  "parseResonanceFromWorkspace parse symbol frame =
     (case frame of
        None \<Rightarrow> None
      | Some v \<Rightarrow> if symbol = [] then None else folded (resonanceLayers parse v symbol))"

definition fmt :: "jsnum option \<Rightarrow> nat \<Rightarrow> string" where
  "fmt v digits = (case v of Some n \<Rightarrow> if is_finite n then to_fixed digits n else em_dash | None \<Rightarrow> em_dash)"

definition status_text :: "string option \<Rightarrow> string \<Rightarrow> string" where
  "status_text given otherwise = (case given of Some (c # cs) \<Rightarrow> c # cs | _ \<Rightarrow> otherwise)"

definition taskCalibration :: "ResonanceData option \<Rightarrow> string" where
  "taskCalibration res =
     (case res of
        None \<Rightarrow> em_dash
      | Some d \<Rightarrow> status_text (rd_taskCalibration d)
          (if rd_calibrated d = Some True then ''CALIBRATED'' else ''CALIBRATING''))"

definition taskSkillStatus :: "ResonanceData option \<Rightarrow> string" where
  "taskSkillStatus res =
     (case res of
        None \<Rightarrow> em_dash
      | Some d \<Rightarrow> status_text (rd_taskSkillStatus d)
          (if rd_taskSkillReady d = Some True then ''READY'' else ''CALIBRATING''))"

subsection \<open>Layer names\<close>

definition LAYER_NAMES :: "string list" where
  "LAYER_NAMES = [''sensory'', ''micro'', ''meso'', ''macro'']"

definition semanticLayerName :: "int \<Rightarrow> int \<Rightarrow> string" where
  "semanticLayerName index layers =
     (if index \<le> 0 then ''sensory''
      else if layers - 1 \<le> index then ''macro''
      else if layers = 3 then ''micro''
      else case nth_opt LAYER_NAMES (nat index) of Some n \<Rightarrow> n | None \<Rightarrow> ''latent'')"

definition layer_label :: "nat \<Rightarrow> nat \<Rightarrow> string" where
  "layer_label index layers =
     ''L'' @ int_text (int index) @ '' '' @ mid_dot @ '' '' @ semanticLayerName (int index) (int layers)"

subsection \<open>Traces\<close>

definition finiteNumber :: "jsval \<Rightarrow> jsnum option" where
  "finiteNumber v = finite_num v"

text \<open>\<^verbatim>\<open>every\<close> skips holes.\<close>

definition finiteVector :: "jsnum sparse \<Rightarrow> jsnum sparse" where
  "finiteVector xs =
     (if xs \<noteq> [] \<and> list_all (\<lambda>x. case x of Some n \<Rightarrow> is_finite n | None \<Rightarrow> True) xs then xs else [])"

text \<open>An argument list spread from an array: a hole is \<^verbatim>\<open>undefined\<close>, which is not a number.\<close>

definition spread :: "jsnum sparse \<Rightarrow> jsnum list" where
  "spread xs = map (\<lambda>x. case x of Some n \<Rightarrow> n | None \<Rightarrow> NaN) xs"

definition vectorNorm :: "(jsnum list \<Rightarrow> jsnum) \<Rightarrow> jsnum sparse \<Rightarrow> jsnum option" where
  "vectorNorm hyp xs = (if xs = [] then None else Some (hyp (spread xs)))"

definition residual :: "jsnum sparse \<Rightarrow> jsnum sparse \<Rightarrow> jsnum sparse" where
  "residual state prediction =
     map (\<lambda>(x, y). map_option (\<lambda>n. case y of Some p \<Rightarrow> num_sub n p | None \<Rightarrow> NaN) x) (zip state prediction)"

definition reconstructionError :: "(jsnum list \<Rightarrow> jsnum) \<Rightarrow> jsnum sparse \<Rightarrow> jsnum sparse \<Rightarrow> jsnum option" where
  "reconstructionError hyp stateValue predictionValue =
     (let state = finiteVector stateValue; prediction = finiteVector predictionValue
      in if state = [] \<or> length state \<noteq> length prediction then None
         else Some (hyp (spread (residual state prediction))))"

definition profile_step :: "string \<Rightarrow> jsnum sparse \<Rightarrow> string \<times> jsnum \<Rightarrow> jsnum sparse" where
  "profile_step pre values entry =
     (if starts_with (fst entry) pre then put_vector (slice_from (length pre) (fst entry)) (snd entry) values
      else values)"

definition layerProfile :: "(string \<times> jsnum) list \<Rightarrow> nat \<Rightarrow> string \<Rightarrow> jsnum sparse" where
  "layerProfile ms index kind =
     map (map_option (\<lambda>v. if is_finite v then v else Fin 0))
       (foldl (profile_step (''layer_'' @ int_text (int index) @ ''_'' @ kind @ ''_'')) [] ms)"

text \<open>The group of \<^verbatim>\<open>/^layer_(\d+)_state_\d+$/\<close>.\<close>

definition state_layer :: "string \<Rightarrow> int option" where
  "state_layer key =
     (if \<not> starts_with key ''layer_'' then None
      else let r = drop 6 key; ds = takeWhile is_digit r; t = dropWhile is_digit r
           in if ds \<noteq> [] \<and> starts_with t ''_state_'' \<and> drop 7 t \<noteq> [] \<and> list_all is_digit (drop 7 t)
              then Some (int_of_digits ds) else None)"

definition layerCount :: "(string \<times> jsnum) list \<Rightarrow> int" where
  "layerCount ms =
     foldl (\<lambda>layers key. case state_layer key of Some i \<Rightarrow> max layers (i + 1) | None \<Rightarrow> layers) 0 (map_keys ms)"

datatype trace_kind = Reconstruction | Context

record HierarchyTrace =
  ht_index :: nat
  ht_label :: string
  ht_kind :: trace_kind
  ht_values :: "jsnum option list"
  ht_state :: "jsnum sparse"
  ht_prediction :: "jsnum sparse option"

definition trace_sample ::
    "(jsnum list \<Rightarrow> jsnum) \<Rightarrow> nat \<Rightarrow> bool \<Rightarrow> (string \<times> jsnum) list \<Rightarrow> jsnum option" where
  "trace_sample hyp index reconstructs ms =
     (let state = layerProfile ms index ''state''
      in if state = [] then None
         else if reconstructs then reconstructionError hyp state (layerProfile ms index ''prediction'')
         else vectorNorm hyp state)"

definition hierarchyTrace ::
    "(jsnum list \<Rightarrow> jsnum) \<Rightarrow> (string \<times> jsnum) list list \<Rightarrow> nat \<Rightarrow> nat \<Rightarrow> HierarchyTrace" where
  "hierarchyTrace hyp frames index layers =
     (let reconstructs = (int index < int layers - 1);
          latest = (case last_opt frames of Some ms \<Rightarrow> ms | None \<Rightarrow> [])
      in \<lparr>ht_index = index, ht_label = layer_label index layers,
          ht_kind = (if reconstructs then Reconstruction else Context),
          ht_values = map (trace_sample hyp index reconstructs) frames,
          ht_state = layerProfile latest index ''state'',
          ht_prediction = (if reconstructs then Some (layerProfile latest index ''prediction'') else None)\<rparr>)"

record ReturnHeadTrace =
  rh_expected :: "jsnum option list"
  rh_upper :: "jsnum option list"
  rh_lower :: "jsnum option list"
  rh_latestExpected :: "jsnum option"
  rh_latestUncertainty :: "jsnum option"
  rh_taskRelativePrecision :: "jsnum option"
  rh_horizon :: "jsnum option"
  rh_reach :: "jsnum option"
  rh_samples :: "jsnum option"
  rh_ready :: bool

definition metric_named :: "string \<Rightarrow> (string \<times> jsnum) list \<Rightarrow> jsnum option" where
  "metric_named k ms =
     finiteNumber (case map_of ms k of Some n \<Rightarrow> JNum n | None \<Rightarrow> JUndef)"

definition returnHeadTrace :: "(string \<times> jsnum) list list \<Rightarrow> ReturnHeadTrace" where
  "returnHeadTrace frames =
     (let latest = (case last_opt frames of Some ms \<Rightarrow> ms | None \<Rightarrow> []);
          expected = map (metric_named ''forward_curve_0'') frames;
          precision = metric_named ''task_relative_precision'' latest
      in \<lparr>rh_expected = expected, rh_upper = expected, rh_lower = expected,
          rh_latestExpected = metric_named ''forward_curve_0'' latest, rh_latestUncertainty = None,
          rh_taskRelativePrecision = precision, rh_horizon = None, rh_reach = None, rh_samples = None,
          rh_ready = (precision \<noteq> None)\<rparr>)"

record PredictiveCodingSeries =
  pc_layers :: "HierarchyTrace list"
  pc_returnHead :: ReturnHeadTrace

text \<open>
  The frames are given by their \<^verbatim>\<open>metrics()\<close>. \<^term>\<open>None\<close> is the \<^verbatim>\<open>RangeError\<close> of \<^verbatim>\<open>Array.from\<close> on a
  length no array can have.
\<close>

definition predictive_series ::
    "(jsnum list \<Rightarrow> jsnum) \<Rightarrow> (string \<times> jsnum) list list \<Rightarrow> PredictiveCodingSeries option" where
  "predictive_series hyp frames =
     (let layers = (case last_opt frames of Some ms \<Rightarrow> layerCount ms | None \<Rightarrow> 0)
      in if 4294967295 < layers then None
         else Some \<lparr>pc_layers = map (\<lambda>index. hierarchyTrace hyp frames index (nat layers)) [0..<nat layers],
                    pc_returnHead = returnHeadTrace frames\<rparr>)"

definition predictiveCodingSeries ::
    "(jsnum list \<Rightarrow> jsnum) \<Rightarrow> (bytes \<Rightarrow> jsval option) \<Rightarrow> Value list \<Rightarrow> PredictiveCodingSeries option" where
  "predictiveCodingSeries hyp parse frames = predictive_series hyp (map (metrics parse) frames)"

subsection \<open>Decimal indexes\<close>

lemma not_space_digit: "is_digit c \<Longrightarrow> \<not> is_space c \<and> c \<noteq> CHR ''-'' \<and> c \<noteq> CHR ''+'' \<and> c \<noteq> CHR ''_''"
  by (auto simp: is_digit_def is_space_def)

lemma parse_int_text:
  assumes "0 \<le> n"
  shows "parse_int (int_text n) = Some n"
proof -
  have d: "digits_of n \<noteq> []" "list_all is_digit (digits_of n)" "int_of_digits (digits_of n) = n"
    using digits_roundtrip [OF assms] by auto
  then obtain c cs where c: "digits_of n = c # cs" "is_digit c" by (cases "digits_of n") auto
  have tw: "takeWhile is_digit cs = cs"
    using d(2) by (simp add: c(1) takeWhile_eq_all_conv list_all_iff)
  with assms d c not_space_digit [OF c(2)] show ?thesis
    by (simp add: parse_int_def int_text_def split_sign_def Let_def tw)
qed

lemma no_bar_text: "0 \<le> n \<Longrightarrow> CHR ''_'' \<notin> set (int_text n)"
  using digits_roundtrip [of n] not_space_digit by (fastforce simp: int_text_def list_all_iff)

subsection \<open>Dense readings\<close>

lemma dense_idem [simp]: "densify (densify xs) = densify xs"
  by (auto simp: densify_def finite_or_zero_def split: option.splits)

lemma dense_finite: "densify (map Some vs) = map Some vs" if "list_all is_finite vs"
  using that by (auto simp: densify_def finite_or_zero_def list_all_iff)

lemma map_filter_Some [simp]: "List.map_filter (\<lambda>x. x) (map (\<lambda>l. Some (f l)) ls) = map f ls"
  by (induction ls) (simp_all add: map_filter_Cons)

lemma dense_layer_idem [simp]: "dense_layer (dense_layer l) = dense_layer l"
  by (simp add: dense_layer_def)

lemma finalize_fields [simp]:
  "rd_forwardCurve (finalizeResonanceData d) = densify (rd_forwardCurve d)"
  "rd_latent (finalizeResonanceData d) = densify (rd_latent d)"
  "rd_layers (finalizeResonanceData d) =
     map (\<lambda>l. Some (dense_layer l)) (List.map_filter (\<lambda>x. x) (rd_layers d))"
  by (simp_all add: finalizeResonanceData_def)

lemma finalize_idem: "finalizeResonanceData (finalizeResonanceData d) = finalizeResonanceData d"
  unfolding finalizeResonanceData_def [of "finalizeResonanceData d"] finalize_fields map_filter_Some dense_idem
  by (simp add: finalizeResonanceData_def o_def)

lemma folded_final: "folded es = Some d \<Longrightarrow> finalizeResonanceData d = d"
  by (auto simp: folded_def with_content_def Let_def finalize_idem split: if_splits)

lemma retained_final: "finalizeResonanceData (retained_row row) = retained_row row"
  unfolding retained_row_def by (rule finalize_idem)

lemma row_final: "parseResonanceFromRow row = Some d \<Longrightarrow> finalizeResonanceData d = d"
  by (cases "field row ''metrics''")
    (auto simp: parseResonanceFromRow_def retained_final folded_final split: if_splits)

lemma parsed_final: "parseResonanceData parse m = Some d \<Longrightarrow> finalizeResonanceData d = d"
  by (cases m) (auto simp: parseResonanceData_def row_final folded_final)

definition dense :: "jsnum sparse \<Rightarrow> bool" where
  "dense xs = list_all (\<lambda>x. case x of Some n \<Rightarrow> is_finite n | None \<Rightarrow> False) xs"

lemma dense_densify: "dense (densify xs)"
  by (auto simp: dense_def densify_def finite_or_zero_def list_all_iff split: option.splits)

text \<open>
  C38. A parsed reading is free of holes: every component of its curve, its latent vector and its
  layers' states and predictions is a finite number, and no layer is missing. Nor does any layer carry
  the error norm the network reported: what was parsed of it is dropped when the reading is completed.
\<close>

theorem parsed_reading_dense:
  assumes "parseResonanceData parse m = Some d"
  shows "dense (rd_forwardCurve d) \<and> dense (rd_latent d) \<and>
    list_all (\<lambda>x. case x of Some l \<Rightarrow> dense (ld_state l) \<and> dense (ld_prediction l) \<and> ld_errorNorm l = None
                | None \<Rightarrow> False) (rd_layers d)"
proof -
  have fin: "finalizeResonanceData d = d" by (rule parsed_final [OF assms])
  have layers: "rd_layers d = map (\<lambda>l. Some (dense_layer l)) (List.map_filter (\<lambda>x. x) (rd_layers d))"
    using arg_cong [OF fin, of rd_layers] by simp
  have "list_all (\<lambda>x. case x of Some l \<Rightarrow> dense (ld_state l) \<and> dense (ld_prediction l) \<and> ld_errorNorm l = None
                | None \<Rightarrow> False) (rd_layers d)"
    by (subst layers) (simp add: list_all_iff dense_layer_def dense_densify)
  moreover have "dense (rd_forwardCurve d)" "dense (rd_latent d)"
    using arg_cong [OF fin, of rd_forwardCurve] arg_cong [OF fin, of rd_latent] dense_densify
    by (metis finalize_fields(1,2))+
  ultimately show ?thesis by blast
qed

theorem parsed_reading_dense_witness:
  "map_option (\<lambda>d. dense (rd_latent d))
     (parseResonanceData (\<lambda>_. None) (Row [(''energy'', JNum (Fin 1)), (''latent'', JArr [JNum (Fin 2), JNum NaN])])) =
     Some True"
proof -
  let ?m = "Row [(''energy'', JNum (Fin 1)), (''latent'', JArr [JNum (Fin 2), JNum NaN])]"
  have "parseResonanceData (\<lambda>_. None) ?m \<noteq> None"
    by (auto simp: parseResonanceData_def parseResonanceFromRow_def looksFlat_def list_ex_iff map_keys_def
        telling_key_def starts_with_def hasRetained_def)
  then obtain d where d: "parseResonanceData (\<lambda>_. None) ?m = Some d" by blast
  from parsed_reading_dense [OF d] d show ?thesis by simp
qed

subsection \<open>Merging keeps signals\<close>

lemma tiny_nonneg [simp]: "\<not> num_lt tiny (Fin 0)"
proof -
  have "num_le (Fin 0) tiny" by (simp add: tiny_def b64.rnd_nonneg)
  then show ?thesis by (metis num_le_antisym num_lt_iff)
qed

lemma no_signal_zero [simp]: "\<not> has_signal (Some (Fin 0))"
  by (simp add: has_signal_def)

lemma signal_densify [simp]: "vectorHasSignal (densify xs) = vectorHasSignal xs"
proof -
  have "has_signal (Some (finite_or_zero x)) = has_signal x" for x
  proof (cases x)
    case (Some n)
    then show ?thesis by (cases "is_finite n") (auto simp: finite_or_zero_def has_signal_def split: option.splits)
  qed (simp add: finite_or_zero_def has_signal_def [of None])
  then show ?thesis by (simp add: vectorHasSignal_def densify_def list_ex_iff)
qed

lemma signal_dense_layer: "ld_errorNorm l = None \<Longrightarrow> layer_signal (dense_layer l) = layer_signal l"
  by (simp add: layer_signal_def dense_layer_def)

definition completed :: "ResonanceData \<Rightarrow> bool" where
  "completed d \<longleftrightarrow> finalizeResonanceData d = d"

lemma completed_layers:
  "completed d \<Longrightarrow> x \<in> set (rd_layers d) \<Longrightarrow> \<exists>l. x = Some l \<and> ld_errorNorm l = None"
proof -
  assume "completed d"
  then have "rd_layers d = map (\<lambda>l. Some (dense_layer l)) (List.map_filter (\<lambda>x. x) (rd_layers d))"
    using finalize_fields(3) [of d] by (simp add: completed_def)
  moreover assume "x \<in> set (rd_layers d)"
  ultimately have "x \<in> (\<lambda>l. Some (dense_layer l)) ` set (List.map_filter (\<lambda>x. x) (rd_layers d))"
    by (metis list.set_map)
  then show ?thesis by (auto simp: dense_layer_def)
qed

lemma signal_final_layers:
  assumes "\<And>x. x \<in> set ls \<Longrightarrow> \<exists>l. x = Some l \<and> ld_errorNorm l = None"
  shows "layersHaveSignal (map (\<lambda>l. Some (dense_layer l)) (List.map_filter (\<lambda>x. x) ls)) = layersHaveSignal ls"
  using assms
proof (induction ls)
  case (Cons x ls)
  then obtain l where "x = Some l" "ld_errorNorm l = None" by auto
  with Cons show ?case by (simp add: layersHaveSignal_def map_filter_Cons signal_dense_layer)
qed (simp add: layersHaveSignal_def List.map_filter_def)

lemma keepScalar_None [simp]: "keepScalar a b = None \<longleftrightarrow> a = None \<and> b = None"
  by (cases a; cases b) (auto simp: keepScalar_def has_signal_def)

lemma keepOptional_None [simp]: "keepOptional a b = None \<longleftrightarrow> a = None \<and> b = None"
  by (cases a) (simp_all add: keepOptional_def)


lemma completed_empty: "completed emptyResonanceData"
  by (simp add: completed_def finalizeResonanceData_def emptyResonanceData_def densify_def List.map_filter_def)


subsection \<open>Reading back what was written\<close>

text \<open>The entries of a vector, of a layer and of a whole reading, as the solver addresses them.\<close>

definition vector_entries :: "string \<Rightarrow> jsnum list \<Rightarrow> (string \<times> jsval) list" where
  "vector_entries name vs = map (\<lambda>i. (name @ int_text (int i), JArr [JNum (vs ! i)])) [0..<length vs]"

definition layer_entries :: "nat \<times> jsnum list \<times> jsnum list \<Rightarrow> (string \<times> jsval) list" where
  "layer_entries l = (case l of (k, state, prediction) \<Rightarrow>
     vector_entries (''layer_'' @ int_text (int k) @ ''_state_'') state @
     vector_entries (''layer_'' @ int_text (int k) @ ''_prediction_'') prediction)"

definition reading_entries ::
    "jsnum list \<Rightarrow> jsnum list \<Rightarrow> (jsnum list \<times> jsnum list) list \<Rightarrow> (string \<times> jsval) list" where
  "reading_entries latent curve layers =
     vector_entries ''latent_'' latent @ vector_entries ''forward_curve_'' curve @
     concat (map layer_entries (enumerate 0 layers))"

definition good_vector :: "jsnum list \<Rightarrow> bool" where
  "good_vector vs \<longleftrightarrow> list_all is_finite vs \<and> length vs < 4294967295"

abbreviation put_all_at :: "jsnum list \<Rightarrow> nat \<Rightarrow> jsnum sparse" where
  "put_all_at vs n \<equiv> foldl (\<lambda>xs i. put_vector (int_text (int i)) (vs ! i) xs) [] [0..<n]"

lemma put_vector_end:
  "length xs < 4294967295 \<Longrightarrow> put_vector (int_text (int (length xs))) v xs = xs @ [Some v]"
  by (simp add: put_vector_def parse_int_text sparse_put_def)

lemma put_vector_prefix: "n \<le> length vs \<Longrightarrow> length vs < 4294967295 \<Longrightarrow> put_all_at vs n = map Some (take n vs)"
proof (induction n)
  case (Suc n)
  then have "put_all_at vs n = map Some (take n vs)" by simp
  with Suc.prems put_vector_end [of "map Some (take n vs)" "vs ! n"] show ?case
    by (simp add: take_Suc_conv_app_nth)
qed simp

lemma apply_latent:
  "is_finite v \<Longrightarrow> applyResonanceSuffix d (''latent_'' @ s, JArr [JNum v]) =
     d\<lparr>rd_latent := put_vector s v (rd_latent d)\<rparr>"
  by (simp add: applyResonanceSuffix_def first_of_def finite_num_def apply_number_def starts_with_def slice_from_def)

lemma apply_curve:
  "is_finite v \<Longrightarrow> applyResonanceSuffix d (''forward_curve_'' @ s, JArr [JNum v]) =
     d\<lparr>rd_forwardCurve := put_vector s v (rd_forwardCurve d)\<rparr>"
  by (simp add: applyResonanceSuffix_def first_of_def finite_num_def apply_number_def starts_with_def slice_from_def)

lemma apply_layer:
  "is_finite v \<Longrightarrow> applyResonanceSuffix d (''layer_'' @ s, JArr [JNum v]) =
     d\<lparr>rd_layers := put_layer (''layer_'' @ s) v (rd_layers d)\<rparr>"
  by (simp add: applyResonanceSuffix_def first_of_def finite_num_def apply_number_def starts_with_def)

lemma fold_latent:
  "list_all is_finite vs \<Longrightarrow> n \<le> length vs \<Longrightarrow>
   foldl applyResonanceSuffix d (map (\<lambda>i. (''latent_'' @ int_text (int i), JArr [JNum (vs ! i)])) [0..<n]) =
     d\<lparr>rd_latent := foldl (\<lambda>xs i. put_vector (int_text (int i)) (vs ! i) xs) (rd_latent d) [0..<n]\<rparr>"
  by (induction n) (simp_all add: apply_latent [simplified] list_all_length)

lemma fold_curve:
  "list_all is_finite vs \<Longrightarrow> n \<le> length vs \<Longrightarrow>
   foldl applyResonanceSuffix d (map (\<lambda>i. (''forward_curve_'' @ int_text (int i), JArr [JNum (vs ! i)])) [0..<n]) =
     d\<lparr>rd_forwardCurve := foldl (\<lambda>xs i. put_vector (int_text (int i)) (vs ! i) xs) (rd_forwardCurve d) [0..<n]\<rparr>"
  by (induction n) (simp_all add: apply_curve [simplified] list_all_length)

text \<open>A layer's entry: its parts, and the layer it writes to.\<close>

lemma layer_parts:
  assumes "0 \<le> k" "CHR ''_'' \<notin> set kind" "0 \<le> i"
  shows "split_on CHR ''_'' (''layer_'' @ int_text k @ ''_'' @ kind @ ''_'' @ int_text i) =
    [''layer'', int_text k, kind, int_text i]"
proof -
  have "''layer_'' @ int_text k @ ''_'' @ kind @ ''_'' @ int_text i =
      join_with [CHR ''_''] [''layer'', int_text k, kind, int_text i]"
    by simp
  then show ?thesis using assms no_bar_text by (simp only:) (rule split_on_join, simp_all)
qed

definition blank_layer :: LayerData where
  "blank_layer = \<lparr>ld_state = [], ld_prediction = [], ld_errorNorm = None\<rparr>"

lemma put_layer_new:
  assumes "length ls < 4294967295" "CHR ''_'' \<notin> set kind"
  shows "put_layer (''layer_'' @ int_text (int (length ls)) @ ''_'' @ kind @ ''_'' @ int_text (int i)) v ls =
    ls @ [Some (put_layer_value [''layer'', int_text (int (length ls)), kind, int_text (int i)] v blank_layer)]"
  using assms layer_parts [of "int (length ls)" kind "int i"]
  by (simp add: put_layer_def Let_def text_part_def nth_opt_def parse_int_text sparse_put_def blank_layer_def
      del: append_Cons)

lemma put_layer_last:
  assumes "length ls < 4294967295" "CHR ''_'' \<notin> set kind"
  shows "put_layer (''layer_'' @ int_text (int (length ls)) @ ''_'' @ kind @ ''_'' @ int_text (int i)) v (ls @ [Some l]) =
    ls @ [Some (put_layer_value [''layer'', int_text (int (length ls)), kind, int_text (int i)] v l)]"
  using assms layer_parts [of "int (length ls)" kind "int i"]
  by (simp add: put_layer_def Let_def text_part_def nth_opt_def parse_int_text sparse_put_def
      del: append_Cons)

lemma put_state: "put_layer_value [a, b, ''state'', s] v l = l\<lparr>ld_state := put_vector s v (ld_state l)\<rparr>"
  and put_prediction:
    "put_layer_value [a, b, ''prediction'', s] v l = l\<lparr>ld_prediction := put_vector s v (ld_prediction l)\<rparr>"
  by (simp_all add: put_layer_value_def text_part_def nth_opt_def)

lemma fold_layer_entries:
  assumes "list_all is_finite vs" "n \<le> length vs"
  shows "foldl applyResonanceSuffix d
     (map (\<lambda>i. ((''layer_'' @ int_text k @ ''_'' @ kind @ ''_'') @ int_text (int i), JArr [JNum (vs ! i)])) [0..<n]) =
   d\<lparr>rd_layers := foldl (\<lambda>ls i. put_layer (''layer_'' @ int_text k @ ''_'' @ kind @ ''_'' @ int_text (int i)) (vs ! i) ls)
     (rd_layers d) [0..<n]\<rparr>"
  using assms(2)
proof (induction n)
  case (Suc n)
  then have "is_finite (vs ! n)" using assms(1) by (simp add: list_all_length)
  with Suc apply_layer [of "vs ! n" _ "int_text k @ ''_'' @ kind @ ''_'' @ int_text (int n)"] show ?case by simp
qed simp

lemma put_states:
  assumes "length ls < 4294967295" "length vs < 4294967295" "Suc n \<le> length vs"
  shows "foldl (\<lambda>ls' i. put_layer (''layer_'' @ int_text (int (length ls)) @ ''_'' @ ''state'' @ ''_'' @ int_text (int i))
       (vs ! i) ls') ls [0..<Suc n] = ls @ [Some (blank_layer\<lparr>ld_state := map Some (take (Suc n) vs)\<rparr>)]"
  using assms(3)
proof (induction n)
  case 0
  have "put_vector (int_text 0) (vs ! 0) [] = [Some (vs ! 0)]" using put_vector_end [of "[]"] by simp
  with 0 assms(1) put_layer_new [of ls "''state''" 0 "vs ! 0"] show ?case
    by (cases vs) (simp_all add: put_state blank_layer_def del: append_Cons)
next
  case (Suc n)
  let ?l = "blank_layer\<lparr>ld_state := map Some (take (Suc n) vs)\<rparr>"
  have "put_vector (int_text (int (Suc n))) (vs ! Suc n) (map Some (take (Suc n) vs)) = map Some (take (Suc (Suc n)) vs)"
    using put_vector_end [of "map Some (take (Suc n) vs)"] Suc.prems assms(2)
    by (simp add: take_Suc_conv_app_nth [of "Suc n"])
  with Suc assms(1) put_layer_last [of ls "''state''" "Suc n" "vs ! Suc n" ?l] show ?case
    by (simp add: put_state del: append_Cons)
qed

lemma put_predictions:
  assumes "length ls < 4294967295" "length vs < 4294967295" "n \<le> length vs" "ld_prediction l = []"
  shows "foldl (\<lambda>ls' i. put_layer (''layer_'' @ int_text (int (length ls)) @ ''_'' @ ''prediction'' @ ''_'' @ int_text (int i))
       (vs ! i) ls') (ls @ [Some l]) [0..<n] = ls @ [Some (l\<lparr>ld_prediction := map Some (take n vs)\<rparr>)]"
  using assms(3)
proof (induction n)
  case 0
  show ?case using assms(4) by simp
next
  case (Suc n)
  let ?l = "l\<lparr>ld_prediction := map Some (take n vs)\<rparr>"
  have "put_vector (int_text (int n)) (vs ! n) (map Some (take n vs)) = map Some (take (Suc n) vs)"
    using put_vector_end [of "map Some (take n vs)"] Suc.prems assms(2) by (simp add: take_Suc_conv_app_nth)
  with Suc assms(1) put_layer_last [of ls "''prediction''" n "vs ! n" ?l] show ?case
    by (simp add: put_prediction del: append_Cons)
qed

definition full_layer :: "jsnum list \<times> jsnum list \<Rightarrow> LayerData" where
  "full_layer l = \<lparr>ld_state = map Some (fst l), ld_prediction = map Some (snd l), ld_errorNorm = None\<rparr>"

definition good_layer :: "jsnum list \<times> jsnum list \<Rightarrow> bool" where
  "good_layer l \<longleftrightarrow> fst l \<noteq> [] \<and> good_vector (fst l) \<and> good_vector (snd l)"

lemma fold_layer:
  assumes "good_layer l" "length (rd_layers d) < 4294967295"
  shows "foldl applyResonanceSuffix d (layer_entries (length (rd_layers d), l)) =
    d\<lparr>rd_layers := rd_layers d @ [Some (full_layer l)]\<rparr>"
proof -
  obtain st pr where l: "l = (st, pr)" by force
  let ?k = "int (length (rd_layers d))"
  have ok: "list_all is_finite st" "list_all is_finite pr" "length st < 4294967295" "length pr < 4294967295"
    and ne: "st \<noteq> []" using assms(1) by (auto simp: good_layer_def good_vector_def l)
  then obtain n where n: "length st = Suc n" by (cases st) auto
  let ?d = "d\<lparr>rd_layers := rd_layers d @ [Some (blank_layer\<lparr>ld_state := map Some st\<rparr>)]\<rparr>"
  have "foldl applyResonanceSuffix d (vector_entries (''layer_'' @ int_text ?k @ ''_'' @ ''state'' @ ''_'') st) = ?d"
    unfolding vector_entries_def
    using fold_layer_entries [OF ok(1) order_refl, of d ?k "''state''"] put_states [OF assms(2) ok(3), of n] n
    by (simp only: append_assoc le_refl take_all)
  moreover have "foldl applyResonanceSuffix ?d
      (vector_entries (''layer_'' @ int_text ?k @ ''_'' @ ''prediction'' @ ''_'') pr) =
      d\<lparr>rd_layers := rd_layers d @ [Some (full_layer l)]\<rparr>"
    unfolding vector_entries_def
    using fold_layer_entries [OF ok(2) order_refl, of ?d ?k "''prediction''"]
      put_predictions [OF assms(2) ok(4) order_refl, of "blank_layer\<lparr>ld_state := map Some st\<rparr>"]
    by (simp add: blank_layer_def full_layer_def l del: append_Cons)
  ultimately show ?thesis by (simp add: layer_entries_def l)
qed

lemma fold_layers:
  assumes "list_all good_layer ls" "length (rd_layers d) + length ls < 4294967295"
  shows "foldl applyResonanceSuffix d (concat (map layer_entries (enumerate (length (rd_layers d)) ls))) =
    d\<lparr>rd_layers := rd_layers d @ map (\<lambda>l. Some (full_layer l)) ls\<rparr>"
  using assms
proof (induction ls arbitrary: d)
  case (Cons l ls)
  let ?d = "d\<lparr>rd_layers := rd_layers d @ [Some (full_layer l)]\<rparr>"
  have "foldl applyResonanceSuffix ?d (concat (map layer_entries (enumerate (Suc (length (rd_layers d))) ls))) =
      ?d\<lparr>rd_layers := rd_layers ?d @ map (\<lambda>l. Some (full_layer l)) ls\<rparr>"
    using Cons.IH [of ?d] Cons.prems by simp
  with Cons.prems fold_layer [of l d] show ?case by simp
qed simp



end
