(* ===== verification/DeskControls.thy ===== *)
theory DeskControls
  imports DeskRows
begin

text \<open>
  The small stores and labels behind the desk's controls: the gate laboratory
  (\<^verbatim>\<open>collections/gate-lab.ts\<close>), the terminal's palette (\<^verbatim>\<open>collections/terminal.ts\<close>), the decision
  rail (\<^verbatim>\<open>components/terminal/decision-side.ts\<close>), numeric guards (\<^verbatim>\<open>lib/domain.ts\<close>), the gate badge
  (\<^verbatim>\<open>components/learning/gate-labels.ts\<close>) and exit labels (\<^verbatim>\<open>lib/trigger-labels.ts\<close>).
\<close>

subsection \<open>Gate laboratory\<close>

datatype OracleOverride = Auto | Veto | Approve

record OracleGate =
  og_id :: string
  og_label :: string
  og_veto :: nat
  og_approve :: nat
  og_hint :: string

definition ORACLE_GATES :: "OracleGate list" where
  "ORACLE_GATES =
     map (\<lambda>(i, l, v, a, h). \<lparr>og_id = i, og_label = l, og_veto = v, og_approve = a, og_hint = h\<rparr>)
       [(''vol'', ''Volume quote'', 9, 10,
         ''Is 24h quote turnover big enough to bother? Veto = too quiet; approve = liquid enough.''),
        (''day'', ''Day move'', 11, 12,
         ''Did price actually move today? Veto = flat/open-to-last too small; approve = alive.''),
        (''spr'', ''Spread'', 13, 14,
         ''Is the touch spread tradable? Veto = too wide / scarce; approve = tight enough to enter.''),
        (''bok'', ''Book integrity'', 15, 16,
         ''Can the book carry a lot? Cash, backing, tape liveness, open drag. Veto = thin/fake; approve = firm.''),
        (''brd'', ''Board confidence'', 17, 18,
         ''Does the whole board agree with this story? Veto = stress/slump; approve = herd/cascade/surge.''),
        (''ctg'', ''Contagion'', 19, 20,
         ''Is lead structure breaking? Veto = decouple/stall/stress; approve = sync/herd still intact.''),
        (''cap'', ''Capacity'', 21, 22,
         ''Can we exit without blowing impact? Veto = thin/vacuum; approve = depth can carry the size.'')]"

record RiskDraft =
  min_mover_volume_usd :: jsnum
  min_mover_change_pct :: jsnum
  max_entry_spread_pct :: jsnum
  min_touch_bid_cash :: jsnum
  min_backing_ratio :: jsnum
  min_tape_trades :: jsnum
  max_entry_open_drag_pct :: jsnum

definition RISK_DEFAULTS :: RiskDraft where
  "RISK_DEFAULTS = \<lparr>min_mover_volume_usd = Fin 100000, min_mover_change_pct = fl (5 / 10),
     max_entry_spread_pct = Fin 2, min_touch_bid_cash = Fin 100, min_backing_ratio = fl (6 / 10),
     min_tape_trades = Fin 8, max_entry_open_drag_pct = Fin 2\<rparr>"

record ResonanceDraft =
  bypass :: bool
  min_task_relative_precision :: jsnum
  min_surprise :: jsnum
  min_supported_horizon :: jsnum
  min_enter_z :: jsnum

definition RESONANCE_DEFAULTS :: ResonanceDraft where
  "RESONANCE_DEFAULTS = \<lparr>bypass = False, min_task_relative_precision = fl (5 / 10),
     min_surprise = fl (5 / 10), min_supported_horizon = Fin 2, min_enter_z = fl (35 / 100)\<rparr>"

record GateLabState =
  gl_open :: bool
  gl_overrides :: "(string \<times> OracleOverride) list"
  gl_risk :: RiskDraft
  gl_resonance :: ResonanceDraft

definition emptyOverrides :: "(string \<times> OracleOverride) list" where
  "emptyOverrides = foldl (\<lambda>out gate. obj_set (og_id gate) Auto out) [] ORACLE_GATES"

definition gate_lab_start :: GateLabState where
  "gate_lab_start = \<lparr>gl_open = False, gl_overrides = emptyOverrides, gl_risk = RISK_DEFAULTS,
     gl_resonance = RESONANCE_DEFAULTS\<rparr>"

definition toggleGateLab :: "GateLabState \<Rightarrow> GateLabState" where
  "toggleGateLab s = s\<lparr>gl_open := \<not> gl_open s\<rparr>"

definition setOracleOverride :: "string \<Rightarrow> OracleOverride \<Rightarrow> GateLabState \<Rightarrow> GateLabState" where
  "setOracleOverride ident v s = s\<lparr>gl_overrides := obj_set ident v (gl_overrides s)\<rparr>"

primrec next_override :: "OracleOverride \<Rightarrow> OracleOverride" where
  "next_override Auto = Veto"
| "next_override Veto = Approve"
| "next_override Approve = Auto"

definition override_of :: "string \<Rightarrow> GateLabState \<Rightarrow> OracleOverride" where
  "override_of ident s = (case map_of (gl_overrides s) ident of Some v \<Rightarrow> v | None \<Rightarrow> Auto)"

definition cycleOracleOverride :: "string \<Rightarrow> GateLabState \<Rightarrow> GateLabState" where
  "cycleOracleOverride ident s = setOracleOverride ident (next_override (override_of ident s)) s"

text \<open>\<^verbatim>\<open>keyof RiskDraft\<close> and \<^verbatim>\<open>keyof ResonanceDraft\<close> with the value's type.\<close>

datatype risk_key =
    Volume | Change | Spread | TouchCash | Backing | TapeTrades | OpenDrag

primrec put_risk :: "risk_key \<Rightarrow> jsnum \<Rightarrow> RiskDraft \<Rightarrow> RiskDraft" where
  "put_risk Volume v r = r\<lparr>min_mover_volume_usd := v\<rparr>"
| "put_risk Change v r = r\<lparr>min_mover_change_pct := v\<rparr>"
| "put_risk Spread v r = r\<lparr>max_entry_spread_pct := v\<rparr>"
| "put_risk TouchCash v r = r\<lparr>min_touch_bid_cash := v\<rparr>"
| "put_risk Backing v r = r\<lparr>min_backing_ratio := v\<rparr>"
| "put_risk TapeTrades v r = r\<lparr>min_tape_trades := v\<rparr>"
| "put_risk OpenDrag v r = r\<lparr>max_entry_open_drag_pct := v\<rparr>"

definition setRiskField :: "risk_key \<Rightarrow> jsnum \<Rightarrow> GateLabState \<Rightarrow> GateLabState" where
  "setRiskField k v s = (if \<not> is_finite v then s else s\<lparr>gl_risk := put_risk k v (gl_risk s)\<rparr>)"

datatype resonance_field =
    Bypass bool | Precision jsnum | Surprise jsnum | Horizon jsnum | EnterZ jsnum

primrec put_resonance :: "resonance_field \<Rightarrow> ResonanceDraft \<Rightarrow> ResonanceDraft" where
  "put_resonance (Bypass b) r = r\<lparr>bypass := b\<rparr>"
| "put_resonance (Precision v) r = r\<lparr>min_task_relative_precision := v\<rparr>"
| "put_resonance (Surprise v) r = r\<lparr>min_surprise := v\<rparr>"
| "put_resonance (Horizon v) r = r\<lparr>min_supported_horizon := v\<rparr>"
| "put_resonance (EnterZ v) r = r\<lparr>min_enter_z := v\<rparr>"

definition setResonanceField :: "resonance_field \<Rightarrow> GateLabState \<Rightarrow> GateLabState" where
  "setResonanceField x s = s\<lparr>gl_resonance := put_resonance x (gl_resonance s)\<rparr>"

definition toggleResonanceBypass :: "GateLabState \<Rightarrow> GateLabState" where
  "toggleResonanceBypass s = setResonanceField (Bypass (\<not> bypass (gl_resonance s))) s"

definition resetGateLab :: "GateLabState \<Rightarrow> GateLabState" where
  "resetGateLab s = s\<lparr>gl_overrides := emptyOverrides, gl_risk := RISK_DEFAULTS,
     gl_resonance := RESONANCE_DEFAULTS\<rparr>"

subsection \<open>Terminal\<close>

record terminal =
  scanlines :: bool
  selectedSource :: string
  inspectorSource :: "string option"
  paletteOpen :: bool
  paletteMode :: string
  paletteQuery :: string
  paletteIndex :: jsnum
  focusSymbol :: string

definition terminal_start :: terminal where
  "terminal_start = \<lparr>scanlines = True, selectedSource = [], inspectorSource = None, paletteOpen = False,
     paletteMode = ''all'', paletteQuery = [], paletteIndex = Fin 0, focusSymbol = ''BTC/USD''\<rparr>"

definition toggleScanlines :: "terminal \<Rightarrow> terminal" where
  "toggleScanlines s = s\<lparr>scanlines := \<not> scanlines s\<rparr>"

definition selectSource :: "string \<Rightarrow> terminal \<Rightarrow> terminal" where
  "selectSource source s = s\<lparr>selectedSource := source\<rparr>"

definition inspectSource :: "string \<Rightarrow> terminal \<Rightarrow> terminal" where
  "inspectSource source s = s\<lparr>selectedSource := source, inspectorSource := Some source\<rparr>"

definition closeInspect :: "terminal \<Rightarrow> terminal" where
  "closeInspect s = s\<lparr>inspectorSource := None\<rparr>"

definition open_palette :: "string \<Rightarrow> terminal \<Rightarrow> terminal" where
  "open_palette mode s = s\<lparr>paletteOpen := True, paletteMode := mode, paletteQuery := [], paletteIndex := Fin 0\<rparr>"

definition openPalette :: "terminal \<Rightarrow> terminal" where "openPalette = open_palette ''all''"

definition openSymbolPalette :: "terminal \<Rightarrow> terminal" where "openSymbolPalette = open_palette ''symbols''"

definition closePalette :: "terminal \<Rightarrow> terminal" where
  "closePalette s = s\<lparr>paletteOpen := False\<rparr>"

definition setPaletteQuery :: "string \<Rightarrow> terminal \<Rightarrow> terminal" where
  "setPaletteQuery query s = s\<lparr>paletteQuery := query, paletteIndex := Fin 0\<rparr>"

definition bumpPaletteIndex :: "jsnum \<Rightarrow> terminal \<Rightarrow> terminal" where
  "bumpPaletteIndex delta s = s\<lparr>paletteIndex := num_add (paletteIndex s) delta\<rparr>"

definition selectFocusSymbol :: "string \<Rightarrow> terminal \<Rightarrow> terminal" where
  "selectFocusSymbol symbol s = s\<lparr>focusSymbol := symbol\<rparr>"

subsection \<open>Decision rail\<close>

record decision_side =
  pendingFocusSymbol :: "string option"
  scopeSymbol :: "string option"
  side_writes :: nat

definition setDecisionsScopeSymbol :: "string option \<Rightarrow> decision_side \<Rightarrow> decision_side" where
  "setDecisionsScopeSymbol symbol s =
     (if scopeSymbol s = symbol then s else s\<lparr>scopeSymbol := symbol, side_writes := side_writes s + 1\<rparr>)"

definition setDecisionsPendingFocus :: "string \<Rightarrow> decision_side \<Rightarrow> decision_side" where
  "setDecisionsPendingFocus symbol s = s\<lparr>pendingFocusSymbol := Some symbol, side_writes := side_writes s + 1\<rparr>"

definition consumeDecisionsPendingFocus :: "string \<Rightarrow> decision_side \<Rightarrow> bool \<times> decision_side" where
  "consumeDecisionsPendingFocus symbol s =
     (if pendingFocusSymbol s \<noteq> Some symbol then (False, s)
      else (True, s\<lparr>pendingFocusSymbol := None, side_writes := side_writes s + 1\<rparr>))"

subsection \<open>Numeric guards\<close>

datatype DomainErrorCode = EmptySample | InsufficientSample | ZeroDenominator | NonPositiveBase

record DomainError =
  de_code :: DomainErrorCode
  de_message :: string

definition domain_error :: "DomainErrorCode \<Rightarrow> string \<Rightarrow> string \<Rightarrow> DomainError" where
  "domain_error c label what = \<lparr>de_code = c, de_message = label @ '': '' @ what\<rparr>"

definition requirePositiveLength :: "jsnum \<Rightarrow> string \<Rightarrow> DomainError + unit" where
  "requirePositiveLength n label =
     (if num_lt n (Fin 1) then Inl (domain_error EmptySample label ''sample length must be at least 1'')
      else Inr ())"

definition requireSampleSize :: "jsnum \<Rightarrow> jsnum \<Rightarrow> string \<Rightarrow> DomainError + unit" where
  "requireSampleSize n minimum label =
     (if num_lt n minimum
      then Inl (domain_error InsufficientSample label
             (''sample length must be at least '' @ num_text minimum))
      else Inr ())"

definition requireNonZero :: "jsnum \<Rightarrow> string \<Rightarrow> DomainError + jsnum" where
  "requireNonZero v label =
     (if num_eq v (Fin 0) \<or> \<not> is_finite v
      then Inl (domain_error ZeroDenominator label ''denominator must be finite and nonzero'')
      else Inr v)"

definition requirePositive :: "jsnum \<Rightarrow> string \<Rightarrow> DomainError + jsnum" where
  "requirePositive v label =
     (if \<not> num_lt (Fin 0) v \<or> \<not> is_finite v
      then Inl (domain_error NonPositiveBase label ''value must be finite and strictly positive'')
      else Inr v)"

subsection \<open>Gate badge\<close>

record GateForces =
  gf_phase :: "string option"
  gf_passed :: "bool option"
  gf_virtual :: "bool option"
  gf_reason :: "string option"
  gf_ignitionHurdle :: "jsnum option"
  gf_riskTolerance :: "jsnum option"
  gf_rejectionHurdle :: "jsnum option"
  gf_netSpark :: "jsnum option"
  gf_netHold :: "jsnum option"
  gf_netRejection :: "jsnum option"
  gf_exitForce :: "jsnum option"
  gf_risk :: "jsnum option"
  gf_treeAction :: "string option"
  gf_treeVirtual :: "bool option"
  gf_treeImpulse :: "jsnum option"
  gf_treeResistance :: "jsnum option"

datatype GateBadgeTone = Muted | UpTone | WarnTone | AccTone

record GateBadge =
  gb_label :: string
  gb_tone :: GateBadgeTone
  gb_hint :: string

datatype ExecutionBook = Blocked | OnBook Book

definition resolveEnterExecutionBook :: "GateForces \<Rightarrow> bool \<Rightarrow> ExecutionBook" where
  "resolveEnterExecutionBook gate blocked =
     (if blocked then Blocked
      else if gf_virtual gate = Some True \<or> gf_treeVirtual gate = Some True then OnBook Virtual
      else if gf_passed gate = Some True then OnBook Paper
      else Blocked)"

record badge_input =
  bi_gateLive :: bool
  bi_phase :: string
  bi_gate :: GateForces
  bi_blocked :: bool
  bi_positionBook :: Book

definition ellipsis :: string where "ellipsis = [CHR 0xE2, CHR 0x80, CHR 0xA6]"

definition hold_badge :: "Book \<Rightarrow> GateBadge" where
  "hold_badge book =
     \<lparr>gb_label = (case book of Virtual \<Rightarrow> ''Virtual'' | Real \<Rightarrow> ''Real'' | Paper \<Rightarrow> ''Paper'') @
        '' book '' @ mid_dot @ '' open'',
      gb_tone = (case book of Virtual \<Rightarrow> AccTone | Real \<Rightarrow> WarnTone | Paper \<Rightarrow> UpTone),
      gb_hint = ''You already hold this lot. Hold-phase gate bars are environmental context for exit pressure, not a new enter approval.''\<rparr>"

definition exit_badge :: "bool \<Rightarrow> GateBadge" where
  "exit_badge stopped =
     (if stopped
      then \<lparr>gb_label = ''Cognitive exit blocked'', gb_tone = WarnTone,
            gb_hint = ''Profit exit needs exit trie, in-profit mark, and gate clearance.''\<rparr>
      else \<lparr>gb_label = ''Cognitive exit allowed'', gb_tone = UpTone,
            gb_hint = ''Gate would allow a cognitive harvest exit on this tick.''\<rparr>)"

definition enter_badge :: "ExecutionBook \<Rightarrow> GateBadge" where
  "enter_badge book =
     (case book of
        Blocked \<Rightarrow> \<lparr>gb_label = ''Enter blocked'', gb_tone = WarnTone,
                     gb_hint = ''Gate or invariants veto a new lot on this tick.''\<rparr>
      | OnBook Virtual \<Rightarrow>
          \<lparr>gb_label = ''Enter '' @ mid_dot @ '' virtual explore'', gb_tone = AccTone,
           gb_hint = ''Resistance still above the paper floor '' @ em_dash @
             '' exploring on the virtual ledger.''\<rparr>
      | OnBook Real \<Rightarrow>
          \<lparr>gb_label = ''Enter '' @ mid_dot @ '' real armed'', gb_tone = WarnTone,
           gb_hint = ''Paper edge is armed '' @ em_dash @
             '' live wallet may open on this validated path.''\<rparr>
      | OnBook Paper \<Rightarrow>
          \<lparr>gb_label = ''Enter '' @ mid_dot @ '' paper eligible'', gb_tone = UpTone,
           gb_hint = ''Path resistance is at or below the paper floor '' @ em_dash @
             '' validated paper enter.''\<rparr>)"

definition formatGateBadge :: "badge_input \<Rightarrow> GateBadge" where
  "formatGateBadge i =
     (if \<not> bi_gateLive i
      then \<lparr>gb_label = ellipsis, gb_tone = Muted,
            gb_hint = ''Waiting for the next training step on this symbol.''\<rparr>
      else let phase = (if bi_phase i = [] then ''hold'' else bi_phase i)
           in if phase = ''hold'' then hold_badge (bi_positionBook i)
              else if phase = ''exit'' then exit_badge (bi_blocked i \<or> gf_passed (bi_gate i) = Some False)
              else enter_badge (resolveEnterExecutionBook (bi_gate i) (bi_blocked i)))"

definition formatTrieLine :: "GateForces \<Rightarrow> string \<Rightarrow> string" where
  "formatTrieLine gate phase =
     (let action = (case gf_treeAction gate of Some a \<Rightarrow> a | None \<Rightarrow> em_dash);
          impulse = (case gf_treeImpulse gate of Some n \<Rightarrow> n | None \<Rightarrow> Fin 0);
          resistance = (case gf_treeResistance gate of Some n \<Rightarrow> n | None \<Rightarrow> Fin 1);
          label = (if phase = [] then ''hold'' else phase);
          line = '' trie '' @ mid_dot @ '' '' @ action @ '' '' @ mid_dot @ '' impulse '' @ to_fixed 2 impulse @
            '' vs resistance '' @ to_fixed 2 resistance
      in if label = ''enter''
         then ''Enter'' @ line @ '' ('' @ (if num_le resistance impulse then ''clears'' else ''below'') @
              '' book '' @ right_arrow @ '' '' @
              (if gf_treeVirtual gate = Some True then ''virtual explore'' else ''paper-eligible'') @ '')''
         else label @ line)"

primrec gateBadgeClassName :: "GateBadgeTone \<Rightarrow> string" where
  "gateBadgeClassName UpTone = ''text-(--up)''"
| "gateBadgeClassName WarnTone = ''text-(--warn)''"
| "gateBadgeClassName AccTone = ''text-(--acc)''"
| "gateBadgeClassName Muted = ''text-(--f4)''"

subsection \<open>Exit labels\<close>

definition EXIT_TRIGGER_LABEL :: "(string \<times> string) list" where
  "EXIT_TRIGGER_LABEL =
     [(''learned_exit'', ''EXIT''),
      (''capacity_trim'', ''TRIM''),
      (''capacity_exit'', ''CAP-EXIT''),
      (''manual'', ''MANUAL''),
      (''emergency_support_evaporation'', ''EMERGENCY EVAC''),
      (''timeout_stall'', ''TIMEOUT STALL''),
      (''thin_book_fallback'', ''THIN BOOK''),
      (''desk exit'', ''DESK EXIT''),
      (''book'', ''BOOK HURDLE''),
      (''cleared friction'', ''PROFIT HURDLE''),
      (''friction dip'', ''STOP HURDLE''),
      (''exit branch'', ''EXIT BRANCH''),
      (''volatility floor breached'', ''VOL FLOOR''),
      (''pct profit floor'', ''PCT FLOOR''),
      (''profit stagnation'', ''PROFIT STALL''),
      (''bid floor evaporated'', ''BID PULL''),
      (''spike retrace'', ''SPIKE RETRACE''),
      (''statistical invalidation stop'', ''STAT STOP''),
      (''entry drag exceeded'', ''DRAG STOP''),
      (''invalidation stop'', ''STOP''),
      (''liquidity evaporation'', ''EVAP''),
      (''trailing take-profit'', ''TRAIL''),
      (''ratcheted trailing stop'', ''TRAIL''),
      (''damaged recovery ratcheted stop'', ''TRAIL''),
      (''move expired'', ''EXPIRE''),
      (''maximum loss reached'', ''MAX LOSS''),
      (''maximum holding time reached'', ''MAX HOLD''),
      (''dynamic floor reached'', ''FLOOR''),
      (''seller cascade'', ''CASCADE''),
      (''tempo exhaustion'', ''TEMPO''),
      (''policy exit match'', ''EXIT'')]"

definition formatExitTrigger :: "string \<Rightarrow> string" where
  "formatExitTrigger trigger =
     (case map_of EXIT_TRIGGER_LABEL trigger of
        Some label \<Rightarrow> label
      | None \<Rightarrow>
          (case find (\<lambda>(key, _). starts_with (lower trigger) key) EXIT_TRIGGER_LABEL of
             Some (_, label) \<Rightarrow> label
           | None \<Rightarrow> replace_char CHR ''_'' CHR '' '' trigger))"

definition triggerTone :: "string \<Rightarrow> Tone" where
  "triggerTone trigger =
     (let label = lower trigger; has = includes_str label
      in if has ''invalidation'' \<or> has ''evaporation'' \<or> has ''maximum loss'' \<or> has ''seller cascade'' \<or>
            has ''tempo exhaustion'' \<or>
            (has ''stop'' \<and> \<not> has ''trailing'' \<and> \<not> has ''dynamic floor'') then Bad
         else if has ''trailing'' \<or> has ''harvest'' \<or> has ''dynamic floor'' \<or> has ''profit'' then Good
         else if has ''expired'' \<or> has ''expire'' \<or> has ''holding time'' \<or> has ''stalled'' then Warn
         else Neutral)"

definition BLOCKED_REASON_LABEL :: "(string \<times> string) list" where
  "BLOCKED_REASON_LABEL =
     [(''ignition_sell_side'', ''R07 blocked (sell-side / bearish flow)''),
      (''enter_vetoed'', ''Enter vetoed (opposition)''),
      (''exit_vetoed'', ''Exit vetoed''),
      (''no_side'', ''No enter/exit vote''),
      (''capacity_risk'', ''Capacity risk (R14)''),
      (''hurdle'', ''Below hurdle'')]"

definition formatBlockedReason :: "string \<Rightarrow> string" where
  "formatBlockedReason reason =
     (case map_of BLOCKED_REASON_LABEL reason of
        Some label \<Rightarrow> label
      | None \<Rightarrow> replace_char CHR ''_'' CHR '' '' reason)"

subsection \<open>The laboratory's invariant\<close>

text \<open>
  A risk draft is well formed when each of its thresholds is a finite number; the laboratory is
  when its draft is and every gate has one override.
\<close>

definition risk_ok :: "RiskDraft \<Rightarrow> bool" where
  "risk_ok r = (is_finite (min_mover_volume_usd r) \<and> is_finite (min_mover_change_pct r) \<and>
     is_finite (max_entry_spread_pct r) \<and> is_finite (min_touch_bid_cash r) \<and>
     is_finite (min_backing_ratio r) \<and> is_finite (min_tape_trades r) \<and>
     is_finite (max_entry_open_drag_pct r))"

definition overrides_ok :: "(string \<times> OracleOverride) list \<Rightarrow> bool" where
  "overrides_ok ovs = (distinct (map fst ovs) \<and> set (map og_id ORACLE_GATES) \<subseteq> fst ` set ovs)"

inductive gate_lab_reach :: "GateLabState \<Rightarrow> bool" where
  start: "gate_lab_reach gate_lab_start"
| toggle: "gate_lab_reach s \<Longrightarrow> gate_lab_reach (toggleGateLab s)"
| cycle: "gate_lab_reach s \<Longrightarrow> gate_lab_reach (cycleOracleOverride ident s)"
| risk: "gate_lab_reach s \<Longrightarrow> gate_lab_reach (setRiskField k v s)"
| resonance: "gate_lab_reach s \<Longrightarrow> gate_lab_reach (setResonanceField x s)"
| toggle_bypass: "gate_lab_reach s \<Longrightarrow> gate_lab_reach (toggleResonanceBypass s)"
| reset: "gate_lab_reach s \<Longrightarrow> gate_lab_reach (resetGateLab s)"

lemma risk_ok_defaults: "risk_ok RISK_DEFAULTS"
  by code_simp

lemma overrides_ok_empty: "overrides_ok emptyOverrides"
  by code_simp

lemma risk_ok_put: "risk_ok r \<Longrightarrow> is_finite v \<Longrightarrow> risk_ok (put_risk k v r)"
  by (cases k) (simp_all add: risk_ok_def)

lemma keys_obj_set: "fst ` set (obj_set k v ob) = insert k (fst ` set ob)"
  using map_of_obj_set [of k v ob] by (metis dom_fun_upd dom_map_of_conv_image_fst option.distinct(1))

lemma overrides_ok_set: "overrides_ok ovs \<Longrightarrow> overrides_ok (obj_set ident v ovs)"
  by (auto simp: overrides_ok_def distinct_obj_set keys_obj_set)

lemma override_of_set:
  "override_of i (setOracleOverride j v s) = (if i = j then v else override_of i s)"
  by (simp add: override_of_def setOracleOverride_def map_of_obj_set)

text \<open>
  The gate laboratory can never send a threshold that is not a number: whatever the trader
  toggles, cycles, types or resets, every risk threshold of the draft is finite and every gate
  has exactly one override. Cycling a gate three times brings back its override and leaves the
  other gates alone.
\<close>

theorem gate_lab_invariant:
  assumes "gate_lab_reach s"
  shows "risk_ok (gl_risk s) \<and> overrides_ok (gl_overrides s) \<and>
    override_of i ((cycleOracleOverride j ^^ 3) s) = override_of i s"
proof (intro conjI)
  show "risk_ok (gl_risk s)" and "overrides_ok (gl_overrides s)"
    using assms by (induction rule: gate_lab_reach.induct)
      (simp_all add: gate_lab_start_def toggleGateLab_def cycleOracleOverride_def setOracleOverride_def
        setRiskField_def setResonanceField_def toggleResonanceBypass_def resetGateLab_def
        risk_ok_defaults overrides_ok_empty risk_ok_put overrides_ok_set)
  have "next_override (next_override (next_override v)) = v" for v
    by (cases v) simp_all
  then show "override_of i ((cycleOracleOverride j ^^ 3) s) = override_of i s"
    by (simp add: eval_nat_numeral cycleOracleOverride_def override_of_set)
qed

theorem gate_lab_invariant_witness:
  "override_of ''vol'' ((cycleOracleOverride ''vol'' ^^ 3) (setRiskField Volume PInf gate_lab_start)) = Auto \<and>
   risk_ok (gl_risk (setRiskField Volume PInf gate_lab_start))"
  using gate_lab_invariant [OF gate_lab_reach.risk [OF gate_lab_reach.start], of Volume PInf "''vol''" "''vol''"]
  by (simp add: setRiskField_def override_of_def gate_lab_start_def emptyOverrides_def ORACLE_GATES_def
      map_of_obj_set)

subsection \<open>The badge of an entry\<close>

text \<open>
  The badge of a live gate that is neither holding nor exiting is green exactly when the
  entry is not vetoed, the gate passed it, and neither the gate nor the tree sends it to the
  virtual ledger; and no input at all is shown as armed for the real wallet, since the resolver
  has no path to that ledger.
\<close>

theorem enter_badge_green_iff:
  assumes "bi_gateLive i" and "bi_phase i \<notin> {[], ''hold'', ''exit''}"
  shows "(gb_tone (formatGateBadge i) = UpTone \<longleftrightarrow>
      \<not> bi_blocked i \<and> gf_passed (bi_gate i) = Some True \<and> gf_virtual (bi_gate i) \<noteq> Some True \<and>
      gf_treeVirtual (bi_gate i) \<noteq> Some True)
    \<and> gb_label (formatGateBadge j) \<noteq> ''Enter '' @ mid_dot @ '' real armed''"
  using assms
  by (auto simp: formatGateBadge_def enter_badge_def hold_badge_def exit_badge_def
      resolveEnterExecutionBook_def Let_def mid_dot_def ellipsis_def split: Book.splits)

definition demo_forces :: GateForces where
  "demo_forces = \<lparr>gf_phase = None, gf_passed = Some True, gf_virtual = None, gf_reason = None,
     gf_ignitionHurdle = None, gf_riskTolerance = None, gf_rejectionHurdle = None, gf_netSpark = None,
     gf_netHold = None, gf_netRejection = None, gf_exitForce = None, gf_risk = None,
     gf_treeAction = None, gf_treeVirtual = Some False, gf_treeImpulse = None, gf_treeResistance = None\<rparr>"

theorem enter_badge_green_iff_witness:
  "gb_tone (formatGateBadge \<lparr>bi_gateLive = True, bi_phase = ''enter'', bi_gate = demo_forces,
     bi_blocked = False, bi_positionBook = Paper\<rparr>) = UpTone"
  using enter_badge_green_iff [of "\<lparr>bi_gateLive = True, bi_phase = ''enter'', bi_gate = demo_forces,
     bi_blocked = False, bi_positionBook = Paper\<rparr>"]
  by (simp add: demo_forces_def)

subsection \<open>Exit labels are stable\<close>

text \<open>
  The table's keys are lower case, and none begins another, so the order in which the loop
  tries them cannot matter.
\<close>

lemma trigger_table_prefix_free:
  "list_all (\<lambda>(k, l). lower k = k \<and> list_all (\<lambda>(k', l'). starts_with k' k \<longrightarrow> k' = k \<and> l' = l)
     EXIT_TRIGGER_LABEL) EXIT_TRIGGER_LABEL"
  by code_simp

lemma trigger_key_lower: "(k, l) \<in> set EXIT_TRIGGER_LABEL \<Longrightarrow> lower k = k"
  using trigger_table_prefix_free by (auto simp: list_all_iff)

lemma trigger_prefix_unique:
  assumes "(k, l) \<in> set EXIT_TRIGGER_LABEL" and "(k', l') \<in> set EXIT_TRIGGER_LABEL"
    and "starts_with t k" and "starts_with t k'"
  shows "l' = l"
proof -
  have free: "starts_with b a \<Longrightarrow> lb = la"
    if "(a, la) \<in> set EXIT_TRIGGER_LABEL" and "(b, lb) \<in> set EXIT_TRIGGER_LABEL" for a la b lb
    using trigger_table_prefix_free that by (fastforce simp: list_all_iff)
  from assms(3,4) have "starts_with k k' \<or> starts_with k' k"
    unfolding starts_with_def using prefix_same_cases by blast
  then show ?thesis
    using free [OF assms(1,2)] free [OF assms(2,1)] by auto
qed

text \<open>
  A trigger keeps its label when the engine appends detail to it or changes its case: any
  text that begins, up to case, with a key of the table is shown under that key's label.
\<close>

theorem exit_label_stable:
  assumes "(k, l) \<in> set EXIT_TRIGGER_LABEL" and "starts_with (lower t) k"
  shows "formatExitTrigger t = l"
proof (cases "map_of EXIT_TRIGGER_LABEL t")
  case (Some l')
  then have row: "(t, l') \<in> set EXIT_TRIGGER_LABEL" by (rule map_of_SomeD)
  then have "starts_with (lower t) t" by (simp add: trigger_key_lower starts_with_def)
  with assms row Some show ?thesis
    by (simp add: formatExitTrigger_def trigger_prefix_unique [of k l t l' "lower t"])
next
  case None
  obtain row where found: "find (\<lambda>(key, _). starts_with (lower t) key) EXIT_TRIGGER_LABEL = Some row"
    using assms by (cases "find (\<lambda>(key, _). starts_with (lower t) key) EXIT_TRIGGER_LABEL")
      (auto simp: find_None_iff)
  then have "row \<in> set EXIT_TRIGGER_LABEL" and "starts_with (lower t) (fst row)"
    by (auto simp: find_Some_iff in_set_conv_nth)
  then have "snd row = l"
    using assms trigger_prefix_unique [of k l "fst row" "snd row" "lower t"] by simp
  with None found show ?thesis
    by (simp add: formatExitTrigger_def case_prod_beta)
qed

theorem exit_label_stable_witness:
  "formatExitTrigger ''Invalidation stop at 1.2'' = ''STOP''"
  by (rule exit_label_stable [of "''invalidation stop''"]) code_simp+

end
