(* ===== verification/Xray.thy ===== *)
theory Xray
  imports Resonance DeskControls
begin

text \<open>
  What the x-ray page reads from the wire (\<^verbatim>\<open>components/terminal/xray-view.ts\<close>): hierarchy layers,
  Hawkes metrics, the latent scatter, labels, and the rows retained across sparse updates. A frame is
  a \<open>carrier\<close>: a frame of the wire or a plain row.
\<close>

subsection \<open>Small readings\<close>

definition symbolScopeAliases :: "string \<Rightarrow> string list" where
  "symbolScopeAliases symbol =
     (if symbol = [] then []
      else if CHR ''/'' \<in> set symbol then [symbol, replace_char CHR ''/'' CHR ''-'' symbol]
      else case index_of ''-'' symbol of
        Some dash \<Rightarrow> if 0 < dash then [symbol, take dash symbol @ ''/'' @ drop (dash + 1) symbol] else [symbol]
      | None \<Rightarrow> [symbol])"

definition stringValue :: "jsval \<Rightarrow> string" where
  "stringValue v = (case v of JStr s \<Rightarrow> trim s | _ \<Rightarrow> [])"

text \<open>\<^verbatim>\<open>valueEpochs\<close>: the values of each timestamp, in the order the timestamps first occur.\<close>

definition add_epoch :: "(int \<times> Value list) list \<Rightarrow> Value \<Rightarrow> (int \<times> Value list) list" where
  "add_epoch epochs v =
     (let held = (case map_of epochs (v_timestamp v) of Some vs \<Rightarrow> vs | None \<Rightarrow> [])
      in AList.update (v_timestamp v) (held @ [v]) epochs)"

definition valueEpochs :: "Value list \<Rightarrow> Value list list" where
  "valueEpochs vs = map_values (foldl add_epoch [] vs)"

definition valueRaw :: "(bytes \<Rightarrow> jsval option) \<Rightarrow> Value list \<Rightarrow> string \<Rightarrow> string \<Rightarrow> jsnum option" where
  "valueRaw parse epoch name side =
     (let key = (if side = [] then name else name @ '':'' @ side)
      in case List.map_filter (\<lambda>v. finite_num (metric parse v key)) (rev epoch) of
           [] \<Rightarrow> None
         | raw # _ \<Rightarrow> Some raw)"

subsection \<open>Hierarchy layers\<close>

datatype xray_error = PropertyOfNull | Domain DomainError

fun map_result :: "('a \<Rightarrow> 'e + 'b) \<Rightarrow> 'a list \<Rightarrow> 'e + 'b list" where
  "map_result f [] = Inr []"
| "map_result f (x # xs) =
     (case f x of
        Inl e \<Rightarrow> Inl e
      | Inr y \<Rightarrow> (case map_result f xs of Inl e \<Rightarrow> Inl e | Inr ys \<Rightarrow> Inr (y # ys)))"

record XrayLayer =
  xl_index :: nat
  xl_label :: string
  xl_state :: "jsnum list"
  xl_prediction :: "jsnum list"
  xl_error_norm :: "jsnum option"

definition layerError :: "jsnum list \<Rightarrow> jsnum list \<Rightarrow> DomainError + jsnum option" where
  "layerError state prediction =
     (if state \<noteq> [] \<and> length prediction = length state
      then case requirePositiveLength (num_of_nat (length state)) ''xray mean absolute error'' of
             Inl e \<Rightarrow> Inl e
           | Inr _ \<Rightarrow>
               Inr (Some (num_div
                 (foldl (\<lambda>acc (x, y). num_add acc (num_abs (num_sub x y))) (Fin 0) (zip state prediction))
                 (num_of_nat (length state))))
      else Inr None)"

definition xray_layer :: "nat \<Rightarrow> nat \<times> jsobj \<Rightarrow> xray_error + XrayLayer" where
  "xray_layer total_layers indexed_layer =
     (let (index, layer) = indexed_layer;
          state = numberArray (field layer ''state''); prediction = numberArray (field layer ''prediction'');
          row = (\<lambda>e. \<lparr>xl_index = index, xl_label = layer_label index total_layers, xl_state = state,
                       xl_prediction = prediction, xl_error_norm = e\<rparr>)
      in case finite_num (orelse (field layer ''errorNorm'') (field layer ''error_norm'')) of
           Some reported \<Rightarrow> Inr (row (Some reported))
         | None \<Rightarrow> (case layerError state prediction of Inl e \<Rightarrow> Inl (Domain e) | Inr e \<Rightarrow> Inr (row e)))"

definition nums :: "jsnum sparse \<Rightarrow> jsval" where
  "nums xs = JArr (map (\<lambda>x. case x of Some n \<Rightarrow> JNum n | None \<Rightarrow> JUndef) xs)"

definition num_or_undef :: "jsnum option \<Rightarrow> jsval" where
  "num_or_undef x = (case x of Some n \<Rightarrow> JNum n | None \<Rightarrow> JUndef)"

definition layer_value :: "LayerData \<Rightarrow> jsobj" where
  "layer_value l = [(''state'', nums (ld_state l)), (''prediction'', nums (ld_prediction l))]"

definition layer_values :: "ResonanceData \<Rightarrow> jsobj list" where
  "layer_values d = map layer_value (List.map_filter (\<lambda>x. x) (rd_layers d))"

text \<open>
  The rows the fallback reads, where \<^term>\<open>None\<close> is the \<^verbatim>\<open>TypeError\<close> of a missing layer or of layers
  that are no array. On a frame of the wire the property \<^verbatim>\<open>layers\<close> is the list of its byte arrays,
  none of which has a state.
\<close>

definition raw_layer :: "jsval \<Rightarrow> jsobj option" where
  "raw_layer v = (if nullish v then None else Some (case as_record v of Some ob \<Rightarrow> ob | None \<Rightarrow> []))"

definition raw_layers :: "carrier \<Rightarrow> jsobj list option" where
  "raw_layers frame =
     (case frame of
        Wire v \<Rightarrow> if None \<in> set (v_layers v) then None else Some (map (\<lambda>_. []) (v_layers v))
      | Row row \<Rightarrow>
          (case orelse (field row ''layers'') (JArr []) of
             JArr vs \<Rightarrow> those (map raw_layer vs)
           | _ \<Rightarrow> None))"

definition xrayLayersFromResonance ::
    "(bytes \<Rightarrow> jsval option) \<Rightarrow> carrier option \<Rightarrow> xray_error + XrayLayer list" where
  "xrayLayersFromResonance parse frame =
     (case frame of
        None \<Rightarrow> Inr []
      | Some f \<Rightarrow>
          (case (case parseResonanceData parse f of Some d \<Rightarrow> Some (layer_values d) | None \<Rightarrow> raw_layers f) of
             None \<Rightarrow> Inl PropertyOfNull
           | Some layers \<Rightarrow> map_result (xray_layer (length layers)) (enumerate 0 layers)))"

subsection \<open>Hawkes metrics\<close>

record HawkesMetrics =
  hm_intensity :: "jsnum option"
  hm_branching :: "jsnum option"
  hm_radius :: "jsnum option"
  hm_asymmetry :: "jsnum option"
  hm_buyIntensity :: "jsnum option"
  hm_sellIntensity :: "jsnum option"
  hm_exo :: "jsnum option"

text \<open>The aggregate reading, else the sum of both sides, else the side there is.\<close>

definition both_sides :: "jsnum option \<Rightarrow> jsnum option \<Rightarrow> jsnum option \<Rightarrow> jsnum option" where
  "both_sides aggregate buy sell =
     coalesce aggregate
       (case (buy, sell) of (Some b, Some s) \<Rightarrow> Some (num_add b s) | _ \<Rightarrow> coalesce buy sell)"

definition hawkesMetrics :: "(bytes \<Rightarrow> jsval option) \<Rightarrow> Value list \<Rightarrow> HawkesMetrics" where
  "hawkesMetrics parse epoch =
     (let raw = valueRaw parse epoch;
          rate = (\<lambda>side. coalesce (raw ''conditional_intensity'' side) (raw ''arrival_rate'' side));
          radius = coalesce (raw ''branching_spectral_radius'' []) (raw ''spectral_radius'' []);
          bg = raw ''background_rate''
      in \<lparr>hm_intensity = both_sides (rate []) (rate ''buy'') (rate ''sell''), hm_branching = radius,
          hm_radius = radius, hm_asymmetry = None, hm_buyIntensity = rate ''buy'', hm_sellIntensity = rate ''sell'',
          hm_exo = both_sides (bg []) (bg ''buy'') (bg ''sell'')\<rparr>)"

definition no_metrics :: HawkesMetrics where
  "no_metrics = \<lparr>hm_intensity = None, hm_branching = None, hm_radius = None, hm_asymmetry = None,
     hm_buyIntensity = None, hm_sellIntensity = None, hm_exo = None\<rparr>"

definition epoch_stamp :: "Value list \<Rightarrow> int" where
  "epoch_stamp epoch = (case epoch of v # _ \<Rightarrow> v_timestamp v | [] \<Rightarrow> 0)"

definition hawkesMetricsFromFrames :: "(bytes \<Rightarrow> jsval option) \<Rightarrow> Value list \<Rightarrow> HawkesMetrics" where
  "hawkesMetricsFromFrames parse frames =
     (case last_opt (sort_by (\<lambda>a b. epoch_stamp a \<le> epoch_stamp b) (valueEpochs frames)) of
        None \<Rightarrow> no_metrics
      | Some epoch \<Rightarrow> hawkesMetrics parse epoch)"

definition hawkesMetricsFromBuffer :: "(bytes \<Rightarrow> jsval option) \<Rightarrow> Value list option \<Rightarrow> HawkesMetrics" where
  "hawkesMetricsFromBuffer parse frames =
     hawkesMetricsFromFrames parse (case frames of Some vs \<Rightarrow> vs | None \<Rightarrow> [])"

definition hawkesEventCount :: "Value list option \<Rightarrow> nat" where
  "hawkesEventCount frames = (case frames of Some vs \<Rightarrow> length vs | None \<Rightarrow> 0)"

definition intensitySeriesFromRingRows :: "(int \<times> jsnum) list \<Rightarrow> jsnum list" where
  "intensitySeriesFromRingRows rows =
     map snd (sort_by (\<lambda>a b. fst a \<le> fst b) (foldl (\<lambda>m (t, raw). AList.update t raw m) [] rows))"

subsection \<open>The latent scatter\<close>

record LatentPoint =
  lp_key :: string
  lp_symbol :: string
  lp_x :: jsnum
  lp_y :: jsnum
  lp_category :: string

definition frame_symbol :: "carrier \<Rightarrow> string" where
  "frame_symbol frame =
     (case frame of Wire v \<Rightarrow> trim (v_scope v) | Row row \<Rightarrow> stringValue (field row ''symbol''))"

definition latent_position :: "(bytes \<Rightarrow> jsval option) \<Rightarrow> carrier \<Rightarrow> jsnum list" where
  "latent_position parse frame =
     (case frame of
        Wire v \<Rightarrow> (case parseResonanceData parse frame of
            Some d \<Rightarrow> take 2 (spread (rd_latent d)) | None \<Rightarrow> [])
      | Row row \<Rightarrow> numberArray (orelse (field row ''latent'') (field row ''embedding'')))"

definition latent_point :: "(bytes \<Rightarrow> jsval option) \<Rightarrow> string \<times> carrier \<Rightarrow> LatentPoint option" where
  "latent_point parse entry =
     (let (symbol, frame) = entry; position = latent_position parse frame
      in case position of
           x # y # _ \<Rightarrow>
             Some \<lparr>lp_key = symbol @ '':'' @ (case frame of
                     Wire v \<Rightarrow> int_text (v_tick v)
                   | Row row \<Rightarrow> stringValue (orelse (field row ''at'') (field row ''tick''))),
                   lp_symbol = symbol, lp_x = x, lp_y = y,
                   lp_category = (case frame of Wire v \<Rightarrow> [] | Row row \<Rightarrow> stringValue (field row ''category''))\<rparr>
         | _ \<Rightarrow> None)"

definition latest_frames :: "carrier list \<Rightarrow> (string \<times> carrier) list" where
  "latest_frames frames =
     foldl (\<lambda>m f. if frame_symbol f = [] then m else AList.update (frame_symbol f) f m) [] frames"

definition latentPointsFromFrames :: "(bytes \<Rightarrow> jsval option) \<Rightarrow> carrier list \<Rightarrow> LatentPoint list" where
  "latentPointsFromFrames parse frames = List.map_filter (latent_point parse) (latest_frames frames)"

subsection \<open>Labels\<close>

definition cascadeLabel :: "jsnum option \<Rightarrow> string \<times> string" where
  "cascadeLabel branching =
     (case branching of
        None \<Rightarrow> (em_dash, ''var(--f4)'')
      | Some b \<Rightarrow>
          if num_lt (fl (85 / 100)) b then (''critical'', ''var(--down)'')
          else if num_lt (fl (6 / 10)) b then (''elevated'', ''var(--warn)'')
          else (''stable'', ''var(--up)''))"

definition formatMetric :: "jsnum option \<Rightarrow> nat \<Rightarrow> string" where
  "formatMetric v digits = (case v of None \<Rightarrow> em_dash | Some n \<Rightarrow> to_fixed digits n)"

definition true_minus :: string where "true_minus = [CHR 0xE2, CHR 0x88, CHR 0x92]"

definition signedMetric :: "jsnum option \<Rightarrow> nat \<Rightarrow> string" where
  "signedMetric v digits =
     (case v of
        None \<Rightarrow> em_dash
      | Some n \<Rightarrow> (if num_le (Fin 0) n then ''+'' else true_minus) @ to_fixed digits (num_abs n))"

definition manifoldReading :: "jsobj option \<Rightarrow> jsobj option" where
  "manifoldReading frame =
     (case frame of
        None \<Rightarrow> None
      | Some ob \<Rightarrow> (case as_plain (field ob ''reading'') of Some r \<Rightarrow> Some r | None \<Rightarrow> Some ob))"

subsection \<open>Retained rows\<close>

record xray =
  retainedResonance :: "(string \<times> jsobj) list"
  retainedHawkes :: "(string \<times> (string \<times> jsnum) list) list"

definition xray_start :: xray where
  "xray_start = \<lparr>retainedResonance = [], retainedHawkes = []\<rparr>"

definition keep_value :: "jsval \<Rightarrow> jsval \<Rightarrow> jsval" where
  "keep_value new old =
     (if new = JUndef then old
      else if new = JNum (Fin 0) \<and> has_signal (as_num old) then old else new)"

definition carrierScope :: "carrier \<Rightarrow> string" where
  "carrierScope frame =
     (case frame of
        Wire v \<Rightarrow> v_scope v
      | Row row \<Rightarrow> stringValue (orelse (field row ''symbol'') (field row ''scope'')))"

definition has_layers :: "(bytes \<Rightarrow> jsval option) \<Rightarrow> carrier \<Rightarrow> xray_error + bool" where
  "has_layers parse frame =
     map_sum (\<lambda>e. e) (\<lambda>ls. ls \<noteq> []) (xrayLayersFromResonance parse (Some frame))"

fun first_with_layers :: "(bytes \<Rightarrow> jsval option) \<Rightarrow> carrier list \<Rightarrow> xray_error + carrier option" where
  "first_with_layers parse [] = Inr None"
| "first_with_layers parse (f # fs) =
     (case has_layers parse f of
        Inl e \<Rightarrow> Inl e
      | Inr b \<Rightarrow> if b then Inr (Some f) else first_with_layers parse fs)"

definition resolveXrayCarrier ::
    "(bytes \<Rightarrow> jsval option) \<Rightarrow> carrier list \<Rightarrow> string \<Rightarrow> xray_error + carrier option" where
  "resolveXrayCarrier parse frames focus =
     (case frames of
        [] \<Rightarrow> Inr None
      | f0 # _ \<Rightarrow>
          (let direct = find (\<lambda>f. carrierScope f \<in> set (symbolScopeAliases focus)) frames;
               rest = (case first_with_layers parse frames of
                   Inl e \<Rightarrow> Inl e
                 | Inr (Some f) \<Rightarrow> Inr (Some f)
                 | Inr None \<Rightarrow> Inr (Some (case direct of Some d \<Rightarrow> d | None \<Rightarrow> f0)))
           in case direct of
                None \<Rightarrow> rest
              | Some d \<Rightarrow>
                  (case has_layers parse d of
                     Inl e \<Rightarrow> Inl e
                   | Inr b \<Rightarrow> if b then Inr (Some d) else rest)))"

text \<open>
  \<^verbatim>\<open>valueFromRetainedRow\<close>: a wire frame with one layer per finite scalar of the row; \<open>enc\<close> is the byte
  encoding of a one-element JSON array.
\<close>

definition empty_value :: Value where
  "empty_value = \<lparr>v_id = [], v_epoch = 0, v_tick = 0, v_seqIdx = 0, v_timestamp = 0, v_origin = [], v_role = [],
     v_scope = [], v_prefix = [], v_layers = [], v_index = []\<rparr>"

definition retained_prefix :: "string \<Rightarrow> string" where
  "retained_prefix symbol = ''resonance/reading/'' @ replace_char CHR ''/'' CHR ''-'' symbol"

text \<open>The scalars of a row that are pushed, with the names they are pushed under.\<close>

definition retained_scalars :: "jsobj \<Rightarrow> (string \<times> jsval) list" where
  "retained_scalars ob =
     [(''energy'', field ob ''energy''), (''surprise'', field ob ''surprise''),
      (''confidence'', field ob ''confidence''), (''supported_horizon'', field ob ''supportedHorizon''),
      (''resolved_steps'', field ob ''resolvedSteps''), (''maturity'', field ob ''maturity'')]"

definition push_scalar :: "(jsnum \<Rightarrow> bytes) \<Rightarrow> string \<Rightarrow> Value \<Rightarrow> string \<times> jsval \<Rightarrow> Value" where
  "push_scalar enc pre v entry =
     (if nullish (snd entry) then v
      else case finite_num (first_of (snd entry)) of
        None \<Rightarrow> v
      | Some n \<Rightarrow> v\<lparr>v_index := v_index v @ [pre @ ''/'' @ fst entry], v_layers := v_layers v @ [Some (enc n)]\<rparr>)"

definition valueFromRetainedRow :: "(jsnum \<Rightarrow> bytes) \<Rightarrow> string \<Rightarrow> jsobj option \<Rightarrow> Value option" where
  "valueFromRetainedRow enc symbol row =
     (case row of
        None \<Rightarrow> None
      | Some ob \<Rightarrow>
          (let pre = retained_prefix symbol;
               v0 = empty_value\<lparr>v_scope := symbol, v_prefix := pre, v_origin := ''resonance'', v_role := ''reading''\<rparr>;
               v = foldl (push_scalar enc pre) v0 (retained_scalars ob)
           in if v_index v = [] then None else Some v))"

definition parsed_row :: "ResonanceData \<Rightarrow> jsobj" where
  "parsed_row d =
     [(''latent'', nums (rd_latent d)), (''embedding'', nums (take 2 (rd_latent d))),
      (''layers'', JArr (map JObj (layer_values d))), (''surprise'', num_or_undef (rd_surprise d)),
      (''energy'', num_or_undef (rd_energy d)), (''confidence'', num_or_undef (rd_confidence d)),
      (''forwardCurve'', nums (rd_forwardCurve d)), (''dynamics'', JObj (rd_dynamics d)),
      (''supportedHorizon'', num_or_undef (rd_supportedHorizon d)),
      (''resolvedSteps'', num_or_undef (rd_resolvedSteps d)), (''taskSkill'', num_or_undef (rd_taskSkill d)),
      (''taskRelativePrecision'', num_or_undef (rd_taskRelativePrecision d))]"

definition plain_row :: "carrier \<Rightarrow> jsobj" where
  "plain_row row = (case row of Wire v \<Rightarrow> [] | Row ob \<Rightarrow> ob)"

definition decodable :: "carrier \<Rightarrow> bool" where
  "decodable row = (case row of Wire v \<Rightarrow> True | Row ob \<Rightarrow> as_arr (field ob ''metrics'') \<noteq> None)"

definition parsed_data :: "(bytes \<Rightarrow> jsval option) \<Rightarrow> carrier \<Rightarrow> jsobj" where
  "parsed_data parse row =
     (if decodable row
      then case parseResonanceData parse row of Some d \<Rightarrow> parsed_row d | None \<Rightarrow> []
      else [])"

definition pair_array :: "jsval \<Rightarrow> bool" where
  "pair_array v = (case v of JArr vs \<Rightarrow> 2 \<le> length vs | _ \<Rightarrow> False)"

text \<open>Layers count when some element is an object: the others are dropped by the parser.\<close>

definition layers_shown :: "jsval \<Rightarrow> bool" where
  "layers_shown v = (case v of JArr vs \<Rightarrow> list_ex (\<lambda>x. as_record x \<noteq> None) vs | _ \<Rightarrow> False)"

definition nonempty_array :: "jsval \<Rightarrow> bool" where
  "nonempty_array v = (case v of JArr vs \<Rightarrow> vs \<noteq> [] | JStr s \<Rightarrow> s \<noteq> [] | JObj ob \<Rightarrow> positive_opt (as_num (field ob ''length'')) | _ \<Rightarrow> False)"

definition retained_value :: "(bytes \<Rightarrow> jsval option) \<Rightarrow> string \<Rightarrow> carrier \<Rightarrow> jsobj \<Rightarrow> jsobj" where
  "retained_value parse symbol row existing =
     (let parsed = parsed_data parse row; plain = plain_row row;
          pick = (\<lambda>k. orelse (field parsed k) (field plain k));
          embedding = (if pair_array (field plain ''embedding'') then field plain ''embedding''
                       else if pair_array (field parsed ''embedding'') then field parsed ''embedding''
                       else orelse (field existing ''embedding'') (orelse (field existing ''latent'') (JArr [])));
          layers = (if layers_shown (pick ''layers'') then pick ''layers'' else field existing ''layers'');
          latent = (if nonempty_array (pick ''latent'') then pick ''latent'' else field existing ''latent'')
      in foldl (\<lambda>ob (k, v). obj_set k v ob) (obj_merge (obj_merge existing plain) parsed)
           [(''layers'', layers), (''latent'', latent),
            (''surprise'', keep_value (pick ''surprise'') (field existing ''surprise'')),
            (''energy'', keep_value (pick ''energy'') (field existing ''energy'')),
            (''embedding'', embedding), (''symbol'', JStr symbol)])"

definition retainResonanceRow :: "(bytes \<Rightarrow> jsval option) \<Rightarrow> string \<Rightarrow> carrier \<Rightarrow> xray \<Rightarrow> xray" where
  "retainResonanceRow parse symbol row s =
     (if symbol = [] then s
      else let existing = (case map_of (retainedResonance s) symbol of Some ob \<Rightarrow> ob | None \<Rightarrow> [])
           in s\<lparr>retainedResonance :=
                  AList.update symbol (retained_value parse symbol row existing) (retainedResonance s)\<rparr>)"

definition getRetainedResonance :: "string option \<Rightarrow> xray \<Rightarrow> jsobj option" where
  "getRetainedResonance symbol s =
     (case symbol of Some (c # cs) \<Rightarrow> map_of (retainedResonance s) (c # cs) | _ \<Rightarrow> None)"

definition getAllRetainedResonance :: "xray \<Rightarrow> jsobj list" where
  "getAllRetainedResonance s = map_values (retainedResonance s)"

definition retainHawkesMetric :: "string \<Rightarrow> string \<Rightarrow> jsnum \<Rightarrow> xray \<Rightarrow> xray" where
  "retainHawkesMetric symbol name raw s =
     (if symbol = [] \<or> name = [] \<or> \<not> is_finite raw then s
      else let current = (case map_of (retainedHawkes s) symbol of Some m \<Rightarrow> m | None \<Rightarrow> [])
           in s\<lparr>retainedHawkes := AList.update symbol (obj_set name raw current) (retainedHawkes s)\<rparr>)"

definition getRetainedHawkes :: "string option \<Rightarrow> xray \<Rightarrow> (string \<times> jsnum) list" where
  "getRetainedHawkes symbol s =
     (case symbol of
        Some (c # cs) \<Rightarrow> (case map_of (retainedHawkes s) (c # cs) of Some m \<Rightarrow> m | None \<Rightarrow> [])
      | _ \<Rightarrow> [])"

definition clearRetainedTelemetry :: "xray \<Rightarrow> xray" where
  "clearRetainedTelemetry s = xray_start"

subsection \<open>Hierarchy rows\<close>

lemma one_or_more: "xs \<noteq> [] \<Longrightarrow> \<not> num_lt (num_of_nat (length xs)) (Fin 1)"
proof -
  assume "xs \<noteq> []"
  then have "(1 :: rat) \<le> of_nat (length xs)" by (cases xs) simp_all
  then have "num_le (Fin 1) (num_of_nat (length xs))" using fl_mono [of 1 "of_nat (length xs)"] by (simp add: num_of_nat_def)
  then show ?thesis by (metis num_le_antisym num_lt_iff)
qed

lemma layerError_total: "layerError state prediction = Inr e \<or> (\<exists>e'. layerError state prediction = Inr e')"
  by (auto simp: layerError_def requirePositiveLength_def one_or_more)

lemma xray_layer_total: "\<exists>row. xray_layer n l = Inr row"
  using layerError_total
  by (auto simp: xray_layer_def Let_def split: option.splits sum.splits prod.splits) (metis sum.distinct(1))+

lemma map_result_total:
  "(\<And>x. x \<in> set xs \<Longrightarrow> \<exists>y. f x = Inr y) \<Longrightarrow> \<exists>ys. map_result f xs = Inr ys \<and> length ys = length xs"
proof (induction xs)
  case (Cons x xs)
  then obtain y ys where "f x = Inr y" "map_result f xs = Inr ys" "length ys = length xs"
    by (metis list.set_intros)
  then show ?case by simp
qed simp


subsection \<open>The newest epoch\<close>

definition epoch_of :: "Value list \<Rightarrow> int \<Rightarrow> Value list" where
  "epoch_of vs t = filter (\<lambda>v. v_timestamp v = t) vs"

lemma epochs_map:
  "map_of (foldl add_epoch [] vs) t = (if epoch_of vs t = [] then None else Some (epoch_of vs t)) \<and>
   distinct (map fst (foldl add_epoch [] vs))"
  by (induction vs rule: rev_induct)
    (auto simp: add_epoch_def epoch_of_def Let_def update_conv' distinct_update split: option.splits if_splits)

lemma epochs_set: "set (valueEpochs vs) = {epoch_of vs t | t. epoch_of vs t \<noteq> []}"
proof -
  let ?es = "foldl add_epoch [] vs"
  have d: "distinct (map fst ?es)" and m: "map_of ?es t = (if epoch_of vs t = [] then None else Some (epoch_of vs t))" for t
    using epochs_map by blast+
  have mem: "(t, e) \<in> set ?es \<longleftrightarrow> epoch_of vs t \<noteq> [] \<and> e = epoch_of vs t" for t e
    using map_of_eq_Some_iff [OF d, of t e] m [of t] by (auto split: if_splits)
  have "set (valueEpochs vs) = snd ` set ?es" by (simp add: valueEpochs_def map_values_def)
  also have "\<dots> = {e. \<exists>t. (t, e) \<in> set ?es}" by force
  finally show ?thesis unfolding mem by auto
qed

lemma sorted_le_last:
  "sorted_wrt (\<lambda>a b. f a \<le> (f b :: int)) xs \<Longrightarrow> x \<in> set xs \<Longrightarrow> f x \<le> f (last xs)"
  by (induction xs) (auto dest: last_in_set)

lemma epoch_stamp_of: "epoch_of vs t \<noteq> [] \<Longrightarrow> epoch_stamp (epoch_of vs t) = t"
  by (cases "epoch_of vs t") (auto simp: epoch_stamp_def epoch_of_def dest: filter_eq_ConsD)

text \<open>
  The Hawkes panel reads the newest instant: however the frames are ordered, its metrics are those
  of all frames that carry the latest timestamp, in their order of arrival, and of no other.
\<close>

theorem hawkes_newest_epoch:
  "hawkesMetricsFromFrames parse frames =
     (if frames = [] then no_metrics
      else hawkesMetrics parse (epoch_of frames (Max (v_timestamp ` set frames))))"
proof (cases "frames = []")
  case True
  then show ?thesis by (simp add: hawkesMetricsFromFrames_def valueEpochs_def map_values_def sort_by_def)
next
  case False
  let ?top = "Max (v_timestamp ` set frames)" and ?le = "\<lambda>a b. epoch_stamp a \<le> epoch_stamp b"
  let ?sorted = "sort_by ?le (valueEpochs frames)"
  have "?top \<in> v_timestamp ` set frames" using False by (intro Max_in) auto
  then have top: "epoch_of frames ?top \<noteq> []" by (auto simp: epoch_of_def filter_empty_conv)
  then have mem: "epoch_of frames ?top \<in> set ?sorted" by (auto simp: epochs_set)
  then have ne: "?sorted \<noteq> []" by (metis empty_iff list.set(1))
  have "comparator ?le" by unfold_locales auto
  then have "sorted_wrt ?le ?sorted" by (rule comparator.sorted_sort_by)
  then have "epoch_stamp (epoch_of frames ?top) \<le> epoch_stamp (last ?sorted)"
    using mem by (rule sorted_le_last)
  moreover obtain t where t: "last ?sorted = epoch_of frames t" "epoch_of frames t \<noteq> []"
    using last_in_set [OF ne] by (auto simp: epochs_set)
  moreover have "t \<le> ?top" using t(2) by (auto simp: epoch_of_def filter_empty_conv)
  ultimately have "t = ?top" using top by (simp add: epoch_stamp_of)
  with t ne False show ?thesis
    by (simp add: hawkesMetricsFromFrames_def last_opt_def)
qed

subsection \<open>Retained rows as frames\<close>

text \<open>What a list of scalars leaves in the frame: the finite ones, in order.\<close>

definition kept_scalars :: "(string \<times> jsval) list \<Rightarrow> (string \<times> jsnum) list" where
  "kept_scalars es =
     List.map_filter (\<lambda>(k, raw). if nullish raw then None else map_option (Pair k) (finite_num (first_of raw))) es"

lemma push_scalars:
  "foldl (push_scalar enc pre) v es =
     v\<lparr>v_index := v_index v @ map (\<lambda>(k, _). pre @ ''/'' @ k) (kept_scalars es),
       v_layers := v_layers v @ map (\<lambda>(_, n). Some (enc n)) (kept_scalars es)\<rparr>"
proof (induction es arbitrary: v)
  case (Cons e es)
  then show ?case
    by (cases e) (auto simp: push_scalar_def kept_scalars_def map_filter_Cons split: option.splits)
qed (simp add: kept_scalars_def List.map_filter_def)

lemma indexed_frame:
  assumes "v_index v = map (\<lambda>(k, _). pre @ ''/'' @ k) ks" "v_layers v = map (\<lambda>(_, n). Some (enc n)) ks"
  shows "indexed v = map (\<lambda>(k, n). (pre @ ''/'' @ k, Some (enc n))) ks"
  unfolding indexed_def assms
  by (rule nth_equalityI) (auto simp: layer_nth_def nth_opt_def assms case_prod_beta)

lemma find_scalar:
  "find (\<lambda>(index, _). index = pre @ CHR ''/'' # k) (map (\<lambda>(k, n). (pre @ CHR ''/'' # k, f n)) ks) =
     map_option (\<lambda>n. (pre @ CHR ''/'' # k, f n)) (map_of ks k)"
  by (induction ks) auto

lemma kept_lookup:
  "distinct (map fst es) \<Longrightarrow> (k, raw) \<in> set es \<Longrightarrow>
     map_of (kept_scalars es) k = (if nullish raw then None else finite_num (first_of raw))"
proof (induction es)
  case (Cons e es)
  obtain k' raw' where e: "e = (k', raw')" by force
  have "k \<notin> fst ` set es \<Longrightarrow> map_of (kept_scalars es) k = None" for k
    by (force simp: kept_scalars_def map_of_eq_None_iff set_map_filter_iff split: if_splits)
  moreover have "(k', raw'') \<notin> set es" for raw'' using Cons.prems(1) by (force simp: e)
  ultimately show ?case using Cons
    by (auto simp: e kept_scalars_def map_filter_Cons split: option.split)
qed simp

text \<open>
  C39. A retained row survives the trip through a wire frame: given that decoding undoes the encoding
  of a one-element array, each scalar of the row is read back from the frame as it was, and one that
  is missing or not finite is read as absent.
\<close>

theorem retained_row_roundtrip:
  assumes "\<And>n. is_finite n \<Longrightarrow> parse (enc n) = Some (JArr [JNum n])"
    and "valueFromRetainedRow enc symbol (Some ob) = Some v"
    and "(k, raw) \<in> set (retained_scalars ob)"
  shows "v_scope v = symbol \<and>
    metric parse v k = (case if nullish raw then None else finite_num (first_of raw) of
      Some n \<Rightarrow> JNum n | None \<Rightarrow> JUndef)"
proof -
  let ?pre = "retained_prefix symbol" and ?ks = "kept_scalars (retained_scalars ob)"
  have v: "v_index v = map (\<lambda>(k, _). ?pre @ ''/'' @ k) ?ks" "v_layers v = map (\<lambda>(_, n). Some (enc n)) ?ks"
    "v_prefix v = ?pre" "v_scope v = symbol"
    using assms(2) by (auto simp: valueFromRetainedRow_def Let_def push_scalars empty_value_def split: if_splits)
  have "distinct (map fst (retained_scalars ob))" by (simp add: retained_scalars_def)
  then have look: "map_of ?ks k = (if nullish raw then None else finite_num (first_of raw))"
    using assms(3) by (rule kept_lookup)
  have "reading parse v k =
      (case map_of ?ks k of None \<Rightarrow> JUndef | Some n \<Rightarrow> tryDecodeJsonBytes parse (Some (enc n)))"
    by (simp add: reading_def indexed_frame [OF v(1,2)] find_scalar root_of_def v(3) split: option.split)
  moreover have "is_finite n" if "map_of ?ks k = Some n" for n
    using that by (auto simp: look finite_num_Some split: if_splits)
  ultimately show ?thesis
    by (auto simp: metric_def first_of_def [of JUndef] first_of_def [of "JArr _"] tryDecodeJsonBytes_def look assms(1) v(4)
        split: option.split)
qed

definition demo_enc :: "jsnum \<Rightarrow> bytes" where
  "demo_enc n = (case n of Fin q \<Rightarrow> (case quotient_of q of (a, b) \<Rightarrow>
     (if a < 0 then [1] else [0]) @ replicate (nat \<bar>a\<bar>) 2 @ [3] @ replicate (nat b) 2) | _ \<Rightarrow> [])"

definition demo_dec :: "bytes \<Rightarrow> jsval option" where
  "demo_dec b = (case b of
     s # r \<Rightarrow> let a = int (length (takeWhile (\<lambda>x. x = 2) r)); d = int (length (dropWhile (\<lambda>x. x = 2) r)) - 1
             in Some (JArr [JNum (Fin (Fract (if s = 1 then - a else a) d))])
   | [] \<Rightarrow> None)"

lemma demo_codec: "is_finite n \<Longrightarrow> demo_dec (demo_enc n) = Some (JArr [JNum n])"
proof -
  assume "is_finite n"
  then obtain q where q: "n = Fin q" by (auto simp: is_finite_iff)
  obtain a b where ab: "quotient_of q = (a, b)" by force
  then have "Fract a b = q" "0 < b"
    using quotient_of_div [OF ab] by (simp_all add: Fract_of_int_quotient quotient_of_denom_pos)
  moreover have "takeWhile (\<lambda>x. x = 2) (replicate k 2 @ 3 # r) = replicate k (2 :: 8 word)"
    "dropWhile (\<lambda>x. x = 2) (replicate k 2 @ 3 # r) = 3 # (r :: 8 word list)" for k r
    by (induction k) simp_all
  ultimately show ?thesis by (auto simp: demo_enc_def demo_dec_def q ab Let_def)
qed

theorem retained_row_roundtrip_witness:
  "(case valueFromRetainedRow demo_enc ''BTC/USD'' (Some [(''energy'', JNum (Fin 2))]) of
      Some v \<Rightarrow> metric demo_dec v ''energy'' = JNum (Fin 2)
    | None \<Rightarrow> False)"
proof -
  let ?ob = "[(''energy'', JNum (Fin 2))]"
  have "valueFromRetainedRow demo_enc ''BTC/USD'' (Some ?ob) \<noteq> None"
    by (simp add: valueFromRetainedRow_def Let_def push_scalars)
      (simp add: kept_scalars_def retained_scalars_def map_filter_Cons nullish_def first_of_def finite_num_def)
  then obtain v where v: "valueFromRetainedRow demo_enc ''BTC/USD'' (Some ?ob) = Some v" by blast
  have "(''energy'', JNum (Fin 2)) \<in> set (retained_scalars ?ob)" by (simp add: retained_scalars_def)
  from retained_row_roundtrip [OF demo_codec v this] v show ?thesis
    by (simp add: nullish_def first_of_def finite_num_def)
qed

end
