(* ===== verification/OpenChoice.thy ===== *)
theory OpenChoice
  imports BookReadout Stoploss "HOL-Library.Word"
begin

unbundle bit_operations_syntax

text \<open>
  The chart of open lots (\<^verbatim>\<open>components/learning/open-choice-draw.ts\<close>). A publish of the positions
  store is one \<^verbatim>\<open>sync\<close>: it appends one mark per charted lot, draws or moves the tips and drops the
  lots that are no longer held. What the code hands to the chart library is kept as it was handed
  over: a series is the list of points appended to it, in order, the surface its list of series and
  its list of annotations. How many of those points the library retains (\<^verbatim>\<open>fifoCapacity\<close>) is the
  library's. The \<^verbatim>\<open>id\<close> of a position is a string by its type.
\<close>

subsection \<open>Colours and texts\<close>

definition CHOICE_TRAIL_LENGTH :: nat where "CHOICE_TRAIL_LENGTH = 90"

definition ZERO_LINE_ID :: string where "ZERO_LINE_ID = ''pnl-zero''"

definition tipId :: "string \<Rightarrow> string" where
  "tipId lotId = ''tip:'' @ lotId"

definition STROKES :: "string list" where
  "STROKES = [''#7eb6ff'', ''#f0b429'', ''#5eead4'', ''#c4b5fd'', ''#e07a7a'', ''#86efac'', ''#f9a8d4'']"

text \<open>\<^verbatim>\<open>(hash * 31 + code) >>> 0\<close>: the sum stays below \<open>2^37\<close>, so it is exact and the shift keeps
  its low 32 bits.\<close>

definition hash_char :: "32 word \<Rightarrow> char \<Rightarrow> 32 word" where
  "hash_char hash c = hash * 31 + of_char c"

definition strokeFor :: "string \<Rightarrow> string" where
  "strokeFor ident = STROKES ! (unat (foldl hash_char 0 ident) mod length STROKES)"

definition is_hex :: "char \<Rightarrow> bool" where
  "is_hex c \<longleftrightarrow> radix_digit c < 16"

definition hex_value :: "string \<Rightarrow> int" where
  "hex_value ds = foldl (\<lambda>n c. 16 * n + radix_digit c) 0 ds"

definition withAlpha :: "string \<Rightarrow> jsnum \<Rightarrow> string" where
  "withAlpha hex alpha =
     (if length hex = 7 \<and> hd hex = CHR ''#'' \<and> list_all is_hex (tl hex)
      then ''rgba('' @ int_text (hex_value (take 2 (drop 1 hex))) @ '','' @
           int_text (hex_value (take 2 (drop 3 hex))) @ '','' @
           int_text (hex_value (take 2 (drop 5 hex))) @ '','' @ num_text alpha @ '')''
      else hex)"

definition moneyText :: "jsnum \<Rightarrow> string" where
  "moneyText value =
     (let a = num_abs value;
          digits = (if num_le (Fin 100) a then 0 else if num_le (Fin 10) a then 1 else 2)
      in if num_le (Fin 0) value then ''$+'' @ to_fixed digits a else ''$-'' @ to_fixed digits a)"

definition asFinite :: "jsval \<Rightarrow> jsnum option" where
  "asFinite raw =
     (case raw of
        JNum n \<Rightarrow> if is_finite n then Some n else None
      | JStr s \<Rightarrow>
          if s \<noteq> [] then (let n = number_of_text s in if is_finite n then Some n else None) else None
      | _ \<Rightarrow> None)"

subsection \<open>What a lot contributes\<close>

definition chartHeld :: "(string \<Rightarrow> int option) \<Rightarrow> jsobj \<Rightarrow> Book \<Rightarrow> bool" where
  "chartHeld dp pos book = (if \<not> onBook pos book then False else \<not> ro_closed (positionReadout dp pos))"

definition markY :: "(string \<Rightarrow> int option) \<Rightarrow> jsobj \<Rightarrow> jsnum option" where
  "markY dp pos = coalesce (closeNowReturnPct dp pos) (asFinite (field pos ''pnl_pct''))"

definition markFloor :: "jsobj \<Rightarrow> jsnum option" where
  "markFloor pos =
     (case normalizeStoploss (field pos ''stoploss'') of
        None \<Rightarrow> None
      | Some stop \<Rightarrow> if st_has_floor stop then asFinite (JNum (st_floor_pnl stop)) else None)"

definition of_stop :: "(DynamicStoploss \<Rightarrow> jsnum) \<Rightarrow> DynamicStoploss option \<Rightarrow> jsval" where
  "of_stop get stop = (case stop of None \<Rightarrow> JUndef | Some s \<Rightarrow> JNum (get s))"

definition markStamp :: "jsobj \<Rightarrow> string" where
  "markStamp pos =
     (let stop = normalizeStoploss (field pos ''stoploss'')
      in join_with ''|'' (map js_item
           [field pos ''pnl_pct'', field pos ''pnl'', field pos ''mark'',
            of_stop st_floor_pnl stop, of_stop st_proximity stop, of_stop st_room_pct stop]))"

definition pos_id :: "jsobj \<Rightarrow> string" where
  "pos_id pos = js_text (field pos ''id'')"

definition tip_hint :: "DynamicStoploss option \<Rightarrow> string" where
  "tip_hint stop =
     (case stop of
        None \<Rightarrow> []
      | Some s \<Rightarrow>
          if num_le (Fin 1) (st_proximity s) then ''STOP''
          else (if num_le (Fin 10) (num_abs (st_room_pct s)) then to_fixed 0 (st_room_pct s)
                else to_fixed 1 (st_room_pct s)) @ ''pp'')"

definition tip_text :: "jsobj \<Rightarrow> string" where
  "tip_text pos =
     (let hint = tip_hint (normalizeStoploss (field pos ''stoploss''))
      in case asFinite (field pos ''pnl'') of
           Some pnl \<Rightarrow> if hint \<noteq> [] then moneyText pnl @ ''  '' @ hint else moneyText pnl
         | None \<Rightarrow> hint)"

subsection \<open>The surface\<close>

datatype series =
    LineSeries (lot_of: string) (stroke_of: string)
  | BandSeries (lot_of: string) (stroke_of: string) (fill_of: string)

record annotation =
  an_id :: string
  an_x1 :: "nat option"
  an_y1 :: jsnum
  an_text :: string
  an_textColor :: string

record LotBind =
  lb_stroke :: string
  lb_data :: "(nat \<times> jsnum) list"
  lb_band :: "(nat \<times> jsnum \<times> jsnum) list option"
  lb_stamp :: string

record choice_chart =
  cc_lots :: "(string \<times> LotBind) list"
  cc_nextX :: nat
  cc_series :: "series list"
  cc_notes :: "annotation list"

definition zero_line :: annotation where
  "zero_line = \<lparr>an_id = ZERO_LINE_ID, an_x1 = None, an_y1 = Fin 0, an_text = ''0'',
     an_textColor = ''#5f584e''\<rparr>"

definition drawOpenChoiceChart :: choice_chart where
  "drawOpenChoiceChart = \<lparr>cc_lots = [], cc_nextX = 0, cc_series = [], cc_notes = [zero_line]\<rparr>"

definition band_of :: "string \<Rightarrow> string \<Rightarrow> series" where
  "band_of ident stroke = BandSeries ident (withAlpha stroke (fl (1 / 2))) (withAlpha stroke (fl (8 / 100)))"

text \<open>\<^verbatim>\<open>asArray().find\<close> with the removal or the update of what it finds.\<close>

fun remove_note :: "string \<Rightarrow> annotation list \<Rightarrow> annotation list" where
  "remove_note i [] = []"
| "remove_note i (a # as) = (if an_id a = i then as else a # remove_note i as)"

fun update_note :: "string \<Rightarrow> (annotation \<Rightarrow> annotation) \<Rightarrow> annotation list \<Rightarrow> annotation list" where
  "update_note i f [] = []"
| "update_note i f (a # as) = (if an_id a = i then f a # as else a # update_note i f as)"

definition dropLot :: "string \<Rightarrow> choice_chart \<Rightarrow> choice_chart" where
  "dropLot ident c =
     (case map_of (cc_lots c) ident of
        None \<Rightarrow> c
      | Some b \<Rightarrow>
          (let lines = remove1 (LineSeries ident (lb_stroke b)) (cc_series c);
               rest = (case lb_band b of
                 None \<Rightarrow> lines | Some _ \<Rightarrow> remove1 (band_of ident (lb_stroke b)) lines)
           in c\<lparr>cc_series := rest, cc_notes := remove_note (tipId ident) (cc_notes c),
                cc_lots := map_del ident (cc_lots c)\<rparr>))"

definition ensureLot :: "string \<Rightarrow> string \<Rightarrow> choice_chart \<Rightarrow> choice_chart" where
  "ensureLot ident stroke c =
     (case map_of (cc_lots c) ident of
        Some _ \<Rightarrow> c
      | None \<Rightarrow>
          c\<lparr>cc_series := cc_series c @ [LineSeries ident stroke],
            cc_lots := AList.update ident
              \<lparr>lb_stroke = stroke, lb_data = [], lb_band = None, lb_stamp = []\<rparr> (cc_lots c)\<rparr>)"

text \<open>A bind is an object shared by the map and the rows: an assignment to it is an update of the
  map at its id.\<close>

definition on_bind :: "string \<Rightarrow> (LotBind \<Rightarrow> LotBind) \<Rightarrow> choice_chart \<Rightarrow> choice_chart" where
  "on_bind ident f c =
     (case map_of (cc_lots c) ident of
        None \<Rightarrow> c | Some b \<Rightarrow> c\<lparr>cc_lots := AList.update ident (f b) (cc_lots c)\<rparr>)"

definition ensureBand :: "string \<Rightarrow> string \<Rightarrow> choice_chart \<Rightarrow> choice_chart" where
  "ensureBand ident stroke c =
     (case map_of (cc_lots c) ident of
        None \<Rightarrow> c
      | Some b \<Rightarrow>
          if lb_band b \<noteq> None then c
          else on_bind ident (\<lambda>b. b\<lparr>lb_band := Some []\<rparr>)
                 (c\<lparr>cc_series := band_of ident stroke # cc_series c\<rparr>))"

definition syncTip :: "jsobj \<Rightarrow> string \<Rightarrow> nat \<Rightarrow> jsnum \<Rightarrow> annotation list \<Rightarrow> annotation list" where
  "syncTip pos stroke x y notes =
     (let ident = tipId (pos_id pos); txt = tip_text pos
      in if \<exists>a \<in> set notes. an_id a = ident
         then update_note ident
                (\<lambda>a. a\<lparr>an_x1 := Some x, an_y1 := y, an_text := txt, an_textColor := stroke\<rparr>) notes
         else notes @ [\<lparr>an_id = ident, an_x1 = Some x, an_y1 = y, an_text = txt,
                        an_textColor = stroke\<rparr>])"

subsection \<open>One publish of the store\<close>

record OpenChoiceLegendItem =
  li_id :: string
  li_name :: jsval
  li_stroke :: string
  li_pnlMoney :: "jsnum option"
  li_pnlPct :: "jsnum option"
  li_stopRoomPct :: "jsnum option"
  li_stopProximity :: "jsnum option"

record choice_row =
  cr_pos :: jsobj
  cr_stroke :: string
  cr_y :: jsnum
  cr_floor :: "jsnum option"

record sync_acc =
  sa_chart :: choice_chart
  sa_live :: "string list"
  sa_legend :: "OpenChoiceLegendItem list"
  sa_rows :: "choice_row list"
  sa_stepped :: bool

definition legend_item :: "jsobj \<Rightarrow> OpenChoiceLegendItem" where
  "legend_item pos =
     (let stop = normalizeStoploss (field pos ''stoploss'')
      in \<lparr>li_id = pos_id pos, li_name = field pos ''symbol'', li_stroke = strokeFor (pos_id pos),
          li_pnlMoney = asFinite (field pos ''pnl''), li_pnlPct = asFinite (field pos ''pnl_pct''),
          li_stopRoomPct = map_option st_room_pct stop,
          li_stopProximity = map_option st_proximity stop\<rparr>)"

definition set_stamp :: "string \<Rightarrow> string \<Rightarrow> choice_chart \<Rightarrow> choice_chart" where
  "set_stamp ident stamp = on_bind ident (\<lambda>b. b\<lparr>lb_stamp := stamp\<rparr>)"

definition stamp_of :: "string \<Rightarrow> choice_chart \<Rightarrow> string" where
  "stamp_of ident c = (case map_of (cc_lots c) ident of None \<Rightarrow> [] | Some b \<Rightarrow> lb_stamp b)"

text \<open>One turn of the first loop, for a lot that is held and has a mark.\<close>

definition chart_lot :: "jsobj \<Rightarrow> jsnum \<Rightarrow> sync_acc \<Rightarrow> sync_acc" where
  "chart_lot pos y acc =
     (let ident = pos_id pos; stamp = markStamp pos; stroke = strokeFor ident;
          chart = ensureLot ident stroke (sa_chart acc);
          floor_pnl = markFloor pos;
          banded = (if floor_pnl \<noteq> None then ensureBand ident stroke chart else chart);
          moved = (stamp \<noteq> stamp_of ident banded)
      in acc\<lparr>sa_chart := (if moved then set_stamp ident stamp banded else banded),
             sa_stepped := (sa_stepped acc \<or> moved),
             sa_rows := sa_rows acc @
               [\<lparr>cr_pos = pos, cr_stroke = stroke, cr_y = y, cr_floor = floor_pnl\<rparr>],
             sa_legend := sa_legend acc @ [legend_item pos]\<rparr>)"

definition collect_lot ::
    "(string \<Rightarrow> int option) \<Rightarrow> Book \<Rightarrow> sync_acc \<Rightarrow> jsobj \<Rightarrow> sync_acc" where
  "collect_lot dp book acc pos =
     (if \<not> chartHeld dp pos book then acc
      else let acc = acc\<lparr>sa_live := sa_live acc @ [pos_id pos]\<rparr>
           in case markY dp pos of None \<Rightarrow> acc | Some y \<Rightarrow> chart_lot pos y acc)"

definition add_mark :: "nat \<Rightarrow> jsnum \<Rightarrow> jsnum option \<Rightarrow> LotBind \<Rightarrow> LotBind" where
  "add_mark x y floor_pnl b =
     b\<lparr>lb_data := lb_data b @ [(x, y)],
       lb_band := map_option (\<lambda>pts. pts @ [(x, y, num_default floor_pnl y)]) (lb_band b)\<rparr>"

definition append_row :: "nat \<Rightarrow> choice_chart \<Rightarrow> choice_row \<Rightarrow> choice_chart" where
  "append_row x c r =
     (let marked = on_bind (pos_id (cr_pos r)) (add_mark x (cr_y r) (cr_floor r)) c
      in marked\<lparr>cc_notes := syncTip (cr_pos r) (cr_stroke r) x (cr_y r) (cc_notes marked)\<rparr>)"

definition step_rows :: "sync_acc \<Rightarrow> choice_chart" where
  "step_rows acc =
     (let c = sa_chart acc
      in if sa_stepped acc \<and> sa_rows acc \<noteq> []
         then foldl (append_row (cc_nextX c)) (c\<lparr>cc_nextX := cc_nextX c + 1\<rparr>) (sa_rows acc)
         else c)"

definition drop_dead :: "string list \<Rightarrow> choice_chart \<Rightarrow> choice_chart" where
  "drop_dead live c =
     foldl (\<lambda>c ident. if ident \<in> set live then c else dropLot ident c) c (map_keys (cc_lots c))"

definition legend_le :: "OpenChoiceLegendItem \<Rightarrow> OpenChoiceLegendItem \<Rightarrow> bool" where
  "legend_le a b \<longleftrightarrow>
     \<not> num_lt (Fin 0) (num_sub (num_abs (num_default (li_pnlPct b) (Fin 0)))
                               (num_abs (num_default (li_pnlPct a) (Fin 0))))"

definition collected ::
    "(string \<Rightarrow> int option) \<Rightarrow> (string \<times> jsobj) list \<Rightarrow> Book \<Rightarrow> choice_chart \<Rightarrow> sync_acc" where
  "collected dp state book c =
     foldl (collect_lot dp book)
       \<lparr>sa_chart = c, sa_live = [], sa_legend = [], sa_rows = [], sa_stepped = False\<rparr>
       (map_values state)"

definition sync ::
    "(string \<Rightarrow> int option) \<Rightarrow> (string \<times> jsobj) list \<Rightarrow> Book \<Rightarrow> choice_chart \<Rightarrow>
     choice_chart \<times> OpenChoiceLegendItem list" where
  "sync dp state book c =
     (let acc = collected dp state book c
      in (drop_dead (sa_live acc) (step_rows acc), sort_by legend_le (sa_legend acc)))"

subsection \<open>What the operations do to a lot\<close>

abbreviation lot :: "choice_chart \<Rightarrow> string \<Rightarrow> LotBind option" where
  "lot c i \<equiv> map_of (cc_lots c) i"

abbreviation lot_keys :: "choice_chart \<Rightarrow> string list" where
  "lot_keys c \<equiv> map_keys (cc_lots c)"

lemma tipId_inj [simp]: "tipId a = tipId b \<longleftrightarrow> a = b"
  by (simp add: tipId_def)

lemma tipId_zero [simp]: "tipId a \<noteq> ZERO_LINE_ID"
  by (simp add: tipId_def ZERO_LINE_ID_def)

lemma zero_tipId [simp]: "ZERO_LINE_ID \<noteq> tipId a"
  by (simp add: tipId_def ZERO_LINE_ID_def)

lemma key_iff_lot: "i \<in> set (lot_keys c) \<longleftrightarrow> lot c i \<noteq> None"
  by (auto simp: map_keys_def map_of_eq_None_iff)

lemma keys_update_known [simp]:
  "map_of m i = Some b \<Longrightarrow> map_keys (AList.update i b' m) = map_keys m"
  by (simp add: js_map.put_known js_map.keys_get dom_def)

lemma on_bind_other [simp]:
  "cc_nextX (on_bind i f c) = cc_nextX c" "cc_series (on_bind i f c) = cc_series c"
  "cc_notes (on_bind i f c) = cc_notes c" "map_keys (cc_lots (on_bind i f c)) = map_keys (cc_lots c)"
  by (simp_all add: on_bind_def split: option.split)

lemma lot_on_bind: "lot (on_bind i f c) j = (if j = i then map_option f (lot c i) else lot c j)"
  by (simp add: on_bind_def update_conv' split: option.split)

lemma lot_ensureLot:
  "lot (ensureLot i s c) j =
     (if j = i \<and> lot c i = None then Some \<lparr>lb_stroke = s, lb_data = [], lb_band = None, lb_stamp = []\<rparr>
      else lot c j)"
  by (auto simp: ensureLot_def update_conv' split: option.split)

lemma keys_ensureLot:
  "lot_keys (ensureLot i s c) = (if lot c i = None then lot_keys c @ [i] else lot_keys c)"
proof (cases "lot c i")
  case None
  then have "i \<notin> set (map fst (cc_lots c))" by (simp add: map_of_eq_None_iff)
  with None show ?thesis by (simp add: ensureLot_def map_keys_def map_set_fresh)
qed (simp add: ensureLot_def)

lemma ensureLot_other [simp]:
  "cc_nextX (ensureLot i s c) = cc_nextX c" "cc_notes (ensureLot i s c) = cc_notes c"
  by (simp_all add: ensureLot_def split: option.split)

lemma series_ensureLot:
  "cc_series (ensureLot i s c) =
     (if lot c i = None then cc_series c @ [LineSeries i s] else cc_series c)"
  by (simp add: ensureLot_def split: option.split)

definition give_band :: "LotBind \<Rightarrow> LotBind" where
  "give_band b = (if lb_band b = None then b\<lparr>lb_band := Some []\<rparr> else b)"

lemma give_band_simps [simp]:
  "lb_data (give_band b) = lb_data b" "lb_stroke (give_band b) = lb_stroke b"
  "\<exists>pts. lb_band (give_band b) = Some pts" "lb_band (give_band b) \<noteq> None"
  "lb_band (give_band b) = (case lb_band b of None \<Rightarrow> Some [] | Some pts \<Rightarrow> Some pts)"
  by (simp_all add: give_band_def split: option.split)

lemma lot_ensureBand:
  "lot (ensureBand i s c) j = (if j = i then map_option give_band (lot c i) else lot c j)"
  by (auto simp: ensureBand_def lot_on_bind give_band_def split: option.split)

lemma ensureBand_other [simp]:
  "cc_nextX (ensureBand i s c) = cc_nextX c" "cc_notes (ensureBand i s c) = cc_notes c"
  "map_keys (cc_lots (ensureBand i s c)) = map_keys (cc_lots c)"
  by (simp_all add: ensureBand_def split: option.split)

lemma series_ensureBand:
  "cc_series (ensureBand i s c) =
     (if \<exists>b. lot c i = Some b \<and> lb_band b = None then band_of i s # cc_series c else cc_series c)"
  by (auto simp: ensureBand_def split: option.split)

lemma lot_dropLot: "lot (dropLot i c) j = (if j = i then None else lot c j)"
  by (auto simp: dropLot_def map_del_conv Let_def split: option.split)

lemma keys_dropLot: "lot_keys (dropLot i c) = filter (\<lambda>k. k \<noteq> i) (lot_keys c)"
proof (cases "lot c i")
  case None
  then have "i \<notin> set (lot_keys c)" by (simp add: key_iff_lot)
  then have "filter (\<lambda>k. k \<noteq> i) (lot_keys c) = lot_keys c" by (auto intro: filter_True)
  with None show ?thesis by (simp add: dropLot_def)
qed (simp add: dropLot_def js_map.keys_del Let_def)

lemma nextX_dropLot [simp]: "cc_nextX (dropLot i c) = cc_nextX c"
  by (simp add: dropLot_def Let_def split: option.split)

subsection \<open>The invariant of the chart\<close>

definition lot_ok :: "nat \<Rightarrow> string \<Rightarrow> LotBind \<Rightarrow> bool" where
  "lot_ok n i b \<longleftrightarrow>
     lb_stroke b = strokeFor i \<and> sorted_wrt (<) (map fst (lb_data b)) \<and>
     (\<forall>p \<in> set (lb_data b). fst p < n) \<and>
     (\<forall>pts. lb_band b = Some pts \<longrightarrow> (\<exists>k. map (\<lambda>(x, y, _). (x, y)) pts = drop k (lb_data b)))"

definition line_of :: "string \<Rightarrow> series" where
  "line_of i = LineSeries i (strokeFor i)"

definition banded :: "choice_chart \<Rightarrow> string set" where
  "banded c = {i. \<exists>b. lot c i = Some b \<and> lb_band b \<noteq> None}"

definition marked :: "choice_chart \<Rightarrow> string set" where
  "marked c = {i. \<exists>b. lot c i = Some b \<and> lb_data b \<noteq> []}"

definition series_ok :: "choice_chart \<Rightarrow> bool" where
  "series_ok c \<longleftrightarrow>
     (\<exists>B. cc_series c = B @ map line_of (lot_keys c) \<and> distinct B \<and>
          set B = (\<lambda>i. band_of i (strokeFor i)) ` banded c)"

definition tip_ok :: "choice_chart \<Rightarrow> annotation \<Rightarrow> bool" where
  "tip_ok c a \<longleftrightarrow>
     (\<exists>i b. an_id a = tipId i \<and> lot c i = Some b \<and> lb_data b \<noteq> [] \<and>
        an_x1 a = Some (fst (last (lb_data b))) \<and> an_y1 a = snd (last (lb_data b)))"

definition notes_ok :: "choice_chart \<Rightarrow> bool" where
  "notes_ok c \<longleftrightarrow>
     (\<exists>T. cc_notes c = zero_line # T \<and> distinct (map an_id T) \<and> (\<forall>a \<in> set T. tip_ok c a) \<and>
          (\<forall>i \<in> marked c. tipId i \<in> an_id ` set T))"

definition chart_ok :: "choice_chart \<Rightarrow> bool" where
  "chart_ok c \<longleftrightarrow>
     distinct (lot_keys c) \<and> (\<forall>i b. lot c i = Some b \<longrightarrow> lot_ok (cc_nextX c) i b) \<and>
     series_ok c \<and> notes_ok c"

lemma band_of_inj [simp]: "band_of i s = band_of j t \<Longrightarrow> i = j"
  by (simp add: band_of_def)

lemma lot_ok_mono: "lot_ok n i b \<Longrightarrow> n \<le> m \<Longrightarrow> lot_ok m i b"
  unfolding lot_ok_def by fastforce

lemma lot_ok_give_band: "lot_ok n i b \<Longrightarrow> lot_ok n i (give_band b)"
  unfolding lot_ok_def by (auto split: option.splits intro: exI [of _ "length (lb_data b)"])

lemma lot_ok_stamp: "lot_ok n i b \<Longrightarrow> lot_ok n i (b\<lparr>lb_stamp := t\<rparr>)"
  by (simp add: lot_ok_def)

lemma notes_okD: "notes_ok c \<Longrightarrow> cc_notes c' = cc_notes c \<Longrightarrow>
    (\<And>i. map_option lb_data (lot c' i) = map_option lb_data (lot c i) \<or>
          lot c i = None \<and> map_option lb_data (lot c' i) = Some []) \<Longrightarrow> notes_ok c'"
proof -
  assume ok: "notes_ok c" and same_notes: "cc_notes c' = cc_notes c" and same: "\<And>i. map_option lb_data (lot c' i) = map_option lb_data (lot c i) \<or>
          lot c i = None \<and> map_option lb_data (lot c' i) = Some []"
  have lots: "\<exists>b'. lot c' i = Some b' \<and> lb_data b' = lb_data b" if "lot c i = Some b" for i b
    using same [of i] that by auto
  have mback: "i \<in> marked c" if "i \<in> marked c'" for i
    using same [of i] that by (cases "lot c i") (auto simp: marked_def)
  have tips: "tip_ok c' a" if ok_a: "tip_ok c a" for a
  proof -
    obtain i b where ib: "an_id a = tipId i" "lot c i = Some b" "lb_data b \<noteq> []"
        "an_x1 a = Some (fst (last (lb_data b)))" "an_y1 a = snd (last (lb_data b))"
      using ok_a unfolding tip_ok_def by blast
    moreover obtain b' where "lot c' i = Some b'" "lb_data b' = lb_data b" using lots ib(2) by blast
    ultimately show ?thesis unfolding tip_ok_def by metis
  qed
  show ?thesis
    using ok same_notes tips mback unfolding notes_ok_def by fastforce
qed

lemma series_okD: "series_ok c \<Longrightarrow> cc_series c' = cc_series c \<Longrightarrow> lot_keys c' = lot_keys c \<Longrightarrow>
    banded c' = banded c \<Longrightarrow> series_ok c'"
  by (simp add: series_ok_def)

lemma chart_ok_lot: "chart_ok c \<Longrightarrow> lot c i = Some b \<Longrightarrow> lot_ok (cc_nextX c) i b"
  by (simp add: chart_ok_def)

lemma start_ok: "chart_ok drawOpenChoiceChart"
  by (simp add: chart_ok_def drawOpenChoiceChart_def series_ok_def notes_ok_def banded_def marked_def
      map_keys_def)

lemma ensureLot_ok:
  assumes "chart_ok c"
  shows "chart_ok (ensureLot i (strokeFor i) c)"
proof (cases "lot c i")
  case None
  let ?c = "ensureLot i (strokeFor i) c"
  from assms obtain B where B: "cc_series c = B @ map line_of (lot_keys c)" "distinct B"
      "set B = (\<lambda>i. band_of i (strokeFor i)) ` banded c"
    unfolding chart_ok_def series_ok_def by blast
  have banded: "banded ?c = banded c"
    using None by (auto simp: banded_def lot_ensureLot split: if_splits)
  have series: "series_ok ?c"
    unfolding series_ok_def banded
    using B None by (intro exI [of _ B]) (simp add: series_ensureLot keys_ensureLot line_of_def)
  have noted: "notes_ok ?c"
    by (rule notes_okD [of c]) (use assms None in \<open>auto simp: chart_ok_def lot_ensureLot\<close>)
  have "distinct (lot_keys ?c)"
    using assms None by (simp add: chart_ok_def keys_ensureLot key_iff_lot)
  moreover have "lot_ok (cc_nextX ?c) j b" if "lot ?c j = Some b" for j b
    using that assms by (auto simp: lot_ensureLot chart_ok_def lot_ok_def split: if_splits)
  ultimately show ?thesis using series noted by (simp add: chart_ok_def)
qed (use assms in \<open>simp add: ensureLot_def\<close>)

lemma ensureBand_ok:
  assumes "chart_ok c"
  shows "chart_ok (ensureBand i (strokeFor i) c)"
proof (cases "\<exists>b. lot c i = Some b \<and> lb_band b = None")
  case True
  let ?c = "ensureBand i (strokeFor i) c"
  from assms obtain B where B: "cc_series c = B @ map line_of (lot_keys c)" "distinct B"
      "set B = (\<lambda>i. band_of i (strokeFor i)) ` banded c"
    unfolding chart_ok_def series_ok_def by blast
  have banded: "banded ?c = insert i (banded c)" and fresh: "i \<notin> banded c"
    using True by (auto simp: banded_def lot_ensureBand give_band_simps split: if_splits)
  have "series_ok ?c"
    unfolding series_ok_def banded
    using B True fresh by (intro exI [of _ "band_of i (strokeFor i) # B"])
      (auto simp: series_ensureBand dest: band_of_inj)
  moreover have "notes_ok ?c"
    by (rule notes_okD [of c])
      (use assms in \<open>auto simp: chart_ok_def lot_ensureBand option.map_comp
        comp_def\<close>)
  moreover have "lot_ok (cc_nextX ?c) j b" if "lot ?c j = Some b" for j b
  proof (cases "j = i")
    case False
    with that assms show ?thesis by (simp add: lot_ensureBand chart_ok_def)
  next
    case True
    with that obtain b0 where b0: "lot c i = Some b0" "b = give_band b0"
      by (auto simp: lot_ensureBand)
    have "lot_ok (cc_nextX c) i b0" using assms b0(1) by (simp add: chart_ok_def)
    with True b0(2) show ?thesis by (simp add: lot_ok_give_band)
  qed
  ultimately show ?thesis using assms by (simp add: chart_ok_def)
next
  case False
  then have "ensureBand i (strokeFor i) c = c"
    by (auto simp: ensureBand_def split: option.split)
  with assms show ?thesis by simp
qed

lemma set_stamp_ok:
  assumes "chart_ok c"
  shows "chart_ok (set_stamp i t c)"
proof -
  let ?c = "set_stamp i t c"
  have lots: "lot ?c j = (if j = i then map_option (\<lambda>b. b\<lparr>lb_stamp := t\<rparr>) (lot c i) else lot c j)" for j
    by (simp add: set_stamp_def lot_on_bind)
  have "notes_ok ?c"
    by (rule notes_okD [of c])
      (use assms in \<open>auto simp: chart_ok_def lots option.map_comp comp_def\<close>, simp add: set_stamp_def)
  moreover have "series_ok ?c"
    by (rule series_okD [of c])
      (use assms in \<open>auto simp: chart_ok_def banded_def lots\<close>, simp_all add: set_stamp_def)
  moreover have "lot_ok (cc_nextX c) j b" if "lot ?c j = Some b" for j b
    using that assms by (auto simp: lots chart_ok_def lot_ok_stamp split: if_splits)
  ultimately show ?thesis using assms by (simp add: chart_ok_def set_stamp_def)
qed

subsection \<open>Marks and drops keep it\<close>

lemma distinct_head: "distinct (map f (x # xs)) \<Longrightarrow> y \<in> set xs \<Longrightarrow> f y \<noteq> f x"
  by (metis distinct.simps(2) image_eqI list.set_map list.simps(9))

lemma update_note_map:
  "distinct (map an_id T) \<Longrightarrow> update_note i f T = map (\<lambda>a. if an_id a = i then f a else a) T"
proof (induction T)
  case (Cons a T)
  have fresh: "an_id x \<noteq> an_id a" if "x \<in> set T" for x
    using Cons.prems that by (rule distinct_head)
  show ?case
  proof (cases "an_id a = i")
    case True
    then have "map (\<lambda>a. if an_id a = i then f a else a) T = T"
      using fresh by (intro map_idI) auto
    with True show ?thesis by simp
  qed (use Cons in simp)
qed simp

lemma remove_note_filter:
  "distinct (map an_id T) \<Longrightarrow> remove_note i T = filter (\<lambda>a. an_id a \<noteq> i) T"
proof (induction T)
  case (Cons a T)
  have fresh: "an_id x \<noteq> an_id a" if "x \<in> set T" for x
    using Cons.prems that by (rule distinct_head)
  show ?case
  proof (cases "an_id a = i")
    case True
    then have "filter (\<lambda>a. an_id a \<noteq> i) T = T"
      using fresh by (intro filter_True) auto
    with True show ?thesis by simp
  qed (use Cons in simp)
qed simp

lemma lot_ok_add_mark:
  assumes "lot_ok n i b" and "\<forall>p \<in> set (lb_data b). fst p < x" and "n \<le> Suc x"
  shows "lot_ok (Suc x) i (add_mark x y f b)"
proof -
  have below: "fst p < Suc x" if "p \<in> set (lb_data b)" for p
    using assms(2) that by (auto intro: less_SucI)
  have "\<exists>k. map (\<lambda>(x, y, _). (x, y)) (pts @ [(x, y, z)]) = drop k (lb_data b @ [(x, y)])"
    if pts: "lb_band b = Some pts" for pts z
  proof -
    obtain k where k: "map (\<lambda>(x, y, _). (x, y)) pts = drop k (lb_data b)"
      using assms(1) pts unfolding lot_ok_def by blast
    then show ?thesis
      by (intro exI [of _ "min k (length (lb_data b))"]) (simp add: min_def)
  qed
  then show ?thesis
    using assms below
    by (auto simp: lot_ok_def add_mark_def sorted_wrt_append less_SucI)
qed

lemma lot_append_row:
  "lot (append_row x c r) j =
     (if j = pos_id (cr_pos r) then map_option (add_mark x (cr_y r) (cr_floor r)) (lot c j) else lot c j)"
  by (simp add: append_row_def lot_on_bind Let_def)

lemma append_row_other [simp]:
  "cc_nextX (append_row x c r) = cc_nextX c" "cc_series (append_row x c r) = cc_series c"
  "map_keys (cc_lots (append_row x c r)) = map_keys (cc_lots c)"
  by (simp_all add: append_row_def Let_def)

lemma notes_append_row:
  "cc_notes (append_row x c r) = syncTip (cr_pos r) (cr_stroke r) x (cr_y r) (cc_notes c)"
  by (simp add: append_row_def Let_def)

lemma tip_ok_frame:
  assumes "tip_ok c a" and same: "\<And>j. an_id a = tipId j \<Longrightarrow> lot c' j = lot c j"
  shows "tip_ok c' a"
proof -
  obtain j d where j: "an_id a = tipId j" "lot c j = Some d" "lb_data d \<noteq> []"
      "an_x1 a = Some (fst (last (lb_data d)))" "an_y1 a = snd (last (lb_data d))"
    using assms(1) unfolding tip_ok_def by blast
  with same [OF j(1)] have "lot c' j = Some d" by simp
  with j show ?thesis unfolding tip_ok_def by blast
qed

lemma append_notes_ok:
  assumes "notes_ok c" and known: "lot c (pos_id (cr_pos r)) = Some b"
  shows "notes_ok (append_row x c r)"
proof -
  let ?i = "pos_id (cr_pos r)" and ?c = "append_row x c r"
  obtain T where T: "cc_notes c = zero_line # T" "distinct (map an_id T)"
      "\<forall>a \<in> set T. tip_ok c a" "\<forall>i \<in> marked c. tipId i \<in> an_id ` set T"
    using assms(1) unfolding notes_ok_def by blast
  have marked: "marked ?c = insert ?i (marked c)"
    using known by (auto simp: marked_def lot_append_row add_mark_def split: if_splits)
  have old: "tip_ok ?c a" if "a \<in> set T" "an_id a \<noteq> tipId ?i" for a
    by (rule tip_ok_frame [of c]) (use T(3) that in \<open>auto simp: lot_append_row\<close>)
  have new: "tip_ok ?c a" if "an_id a = tipId ?i" "an_x1 a = Some x" "an_y1 a = cr_y r" for a
    using known that by (auto simp: tip_ok_def lot_append_row add_mark_def)
  have zero [simp]: "an_id zero_line \<noteq> tipId ?i"
    using tipId_zero by (simp add: zero_line_def eq_commute)
  show ?thesis
  proof (cases "\<exists>a \<in> set T. an_id a = tipId ?i")
    case True
    define f where "f = (\<lambda>a :: annotation. a\<lparr>an_x1 := Some x, an_y1 := cr_y r, an_text := tip_text (cr_pos r),
      an_textColor := cr_stroke r\<rparr>)"
    define T' where "T' = map (\<lambda>a. if an_id a = tipId ?i then f a else a) T"
    have f: "an_id (f a) = an_id a" "an_x1 (f a) = Some x" "an_y1 (f a) = cr_y r" for a
      by (simp_all add: f_def)
    have "cc_notes ?c = zero_line # T'"
      using True T(1,2) by (simp add: notes_append_row syncTip_def Let_def update_note_map T'_def f_def)
    moreover have ids: "map an_id T' = map an_id T" by (simp add: T'_def f)
    moreover have "tip_ok ?c a" if "a \<in> set T'" for a
      using that old new f by (auto simp: T'_def)
    moreover have "an_id ` set T' = an_id ` set T" using ids by (metis list.set_map)
    ultimately show ?thesis
      using T(2,4) True unfolding notes_ok_def marked
      by (intro exI [of _ T']) (auto intro: rev_image_eqI)
  next
    case False
    define a where "a = \<lparr>an_id = tipId ?i, an_x1 = Some x, an_y1 = cr_y r,
      an_text = tip_text (cr_pos r), an_textColor = cr_stroke r\<rparr>"
    have "cc_notes ?c = zero_line # (T @ [a])"
      using False T(1) by (simp add: notes_append_row syncTip_def Let_def a_def)
    moreover have "distinct (map an_id (T @ [a]))"
      using T(2) False by (auto simp: a_def)
    moreover have "tip_ok ?c a" by (rule new) (simp_all add: a_def)
    moreover have "tip_ok ?c t" if "t \<in> set T" for t using old that False by blast
    ultimately show ?thesis
      using T(4) unfolding notes_ok_def marked by (intro exI [of _ "T @ [a]"]) (auto simp: a_def)
  qed
qed

lemma append_row_ok:
  assumes "chart_ok c" and "cc_nextX c = Suc x" and "lot c (pos_id (cr_pos r)) = Some b"
    and "\<forall>p \<in> set (lb_data b). fst p < x"
  shows "chart_ok (append_row x c r)"
proof -
  have "lot_ok (Suc x) j b'" if "lot (append_row x c r) j = Some b'" for j b'
    using that assms lot_ok_add_mark [of "Suc x"]
    by (auto simp: lot_append_row chart_ok_def split: if_splits)
  moreover have "series_ok (append_row x c r)"
    by (rule series_okD [of c])
      (use assms in \<open>auto simp: chart_ok_def banded_def lot_append_row add_mark_def\<close>)
  moreover have "notes_ok (append_row x c r)"
    using assms by (intro append_notes_ok) (auto simp: chart_ok_def)
  ultimately show ?thesis using assms by (simp add: chart_ok_def)
qed

lemma dropLot_ok:
  assumes "chart_ok c"
  shows "chart_ok (dropLot i c)"
proof (cases "lot c i")
  case (Some b)
  let ?c = "dropLot i c"
  obtain B where B: "cc_series c = B @ map line_of (lot_keys c)" "distinct B"
      "set B = (\<lambda>i. band_of i (strokeFor i)) ` banded c"
    using assms unfolding chart_ok_def series_ok_def by blast
  obtain T where T: "cc_notes c = zero_line # T" "distinct (map an_id T)"
      "\<forall>a \<in> set T. tip_ok c a" "\<forall>i \<in> marked c. tipId i \<in> an_id ` set T"
    using assms unfolding chart_ok_def notes_ok_def by blast
  have keys: "distinct (lot_keys c)" and stroke: "lb_stroke b = strokeFor i"
    using assms Some by (auto simp: chart_ok_def lot_ok_def)
  have noline: "LineSeries i s \<notin> set B" for s using B(3) by (auto simp: band_of_def)
  have "remove1 (line_of i) (map line_of ks) = map line_of (filter (\<lambda>k. k \<noteq> i) ks)"
    if "distinct ks" for ks
    using that by (simp add: distinct_remove1_removeAll distinct_map inj_on_def line_of_def
        removeAll_filter_not_eq filter_map comp_def eq_commute)
  then have lines: "remove1 (line_of i) (map line_of (lot_keys c)) = map line_of (lot_keys ?c)"
    using keys by (simp add: keys_dropLot)
  have banded: "banded ?c = banded c - {i}" by (auto simp: banded_def lot_dropLot)
  have band: "band_of i (strokeFor i) \<in> set B \<longleftrightarrow> lb_band b \<noteq> None"
    using B(3) Some by (auto simp: banded_def dest: band_of_inj)
  define B' where "B' = (if lb_band b = None then B else remove1 (band_of i (strokeFor i)) B)"
  have "cc_series ?c = B' @ map line_of (lot_keys ?c)"
    using B(1) Some noline band lines [symmetric]
    by (auto simp: dropLot_def B'_def stroke line_of_def remove1_append Let_def split: option.split)
  moreover have "distinct B'" using B(2) by (simp add: B'_def)
  moreover have "set B' = (\<lambda>i. band_of i (strokeFor i)) ` banded ?c"
    using B(2,3) band by (auto simp: B'_def banded dest: band_of_inj)
  ultimately have "series_ok ?c" unfolding series_ok_def by blast
  moreover have "notes_ok ?c"
  proof -
    have "cc_notes ?c = zero_line # filter (\<lambda>a. an_id a \<noteq> tipId i) T"
      using Some T(1,2) tipId_zero [of i]
      by (auto simp: dropLot_def Let_def remove_note_filter zero_line_def)
    moreover have "tip_ok ?c a" if "a \<in> set T" "an_id a \<noteq> tipId i" for a
      by (rule tip_ok_frame [of c]) (use T(3) that in \<open>auto simp: lot_dropLot\<close>)
    moreover have "tipId j \<in> an_id ` set (filter (\<lambda>a. an_id a \<noteq> tipId i) T)" if "j \<in> marked ?c" for j
    proof -
      from that have j: "j \<in> marked c" "j \<noteq> i" by (auto simp: marked_def lot_dropLot split: if_splits)
      then obtain a where "a \<in> set T" "an_id a = tipId j" using T(4) by force
      with j(2) show ?thesis by (auto intro!: rev_image_eqI [of a])
    qed
    ultimately show ?thesis
      using T(2) unfolding notes_ok_def
      by (intro exI [of _ "filter (\<lambda>a. an_id a \<noteq> tipId i) T"]) (auto simp: distinct_map_filter)
  qed
  ultimately show ?thesis
    using assms by (auto simp: chart_ok_def keys_dropLot lot_dropLot)
qed (use assms in \<open>simp add: dropLot_def\<close>)

subsection \<open>A publish keeps it\<close>

text \<open>What the first loop establishes, whatever the chart it starts from.\<close>

definition acc_ok :: "sync_acc \<Rightarrow> bool" where
  "acc_ok acc \<longleftrightarrow>
     (\<forall>r \<in> set (sa_rows acc). lot (sa_chart acc) (pos_id (cr_pos r)) \<noteq> None) \<and>
     (\<forall>i b. lot (sa_chart acc) i = Some b \<and> lb_data b = [] \<longrightarrow>
        sa_stepped acc \<and> i \<in> (pos_id \<circ> cr_pos) ` set (sa_rows acc))"

lemma stamp_not_empty: "markStamp pos \<noteq> []"
  by (simp add: markStamp_def Let_def)

lemma lot_set_stamp:
  "lot (set_stamp i t c) j =
     (if j = i then map_option (\<lambda>b. b\<lparr>lb_stamp := t\<rparr>) (lot c i) else lot c j)"
  by (simp add: set_stamp_def lot_on_bind)

lemma set_stamp_other [simp]:
  "cc_nextX (set_stamp i t c) = cc_nextX c" "cc_series (set_stamp i t c) = cc_series c"
  "cc_notes (set_stamp i t c) = cc_notes c"
  "map_keys (cc_lots (set_stamp i t c)) = map_keys (cc_lots c)"
  by (simp_all add: set_stamp_def)

text \<open>The chart one turn of the loop leaves, and its lots.\<close>

definition lot_chart :: "jsobj \<Rightarrow> choice_chart \<Rightarrow> choice_chart" where
  "lot_chart pos c =
     (let chart = ensureLot (pos_id pos) (strokeFor (pos_id pos)) c
      in if markFloor pos \<noteq> None then ensureBand (pos_id pos) (strokeFor (pos_id pos)) chart else chart)"

definition lot_moved :: "jsobj \<Rightarrow> choice_chart \<Rightarrow> bool" where
  "lot_moved pos c \<longleftrightarrow> markStamp pos \<noteq> stamp_of (pos_id pos) (lot_chart pos c)"

definition fresh_bind :: "string \<Rightarrow> LotBind" where
  "fresh_bind i = \<lparr>lb_stroke = strokeFor i, lb_data = [], lb_band = None, lb_stamp = []\<rparr>"

definition prior_bind :: "jsobj \<Rightarrow> choice_chart \<Rightarrow> LotBind" where
  "prior_bind pos c =
     (case lot c (pos_id pos) of None \<Rightarrow> fresh_bind (pos_id pos) | Some b \<Rightarrow> b)"

definition charted_bind :: "jsobj \<Rightarrow> choice_chart \<Rightarrow> LotBind" where
  "charted_bind pos c =
     (if markFloor pos \<noteq> None then give_band (prior_bind pos c) else prior_bind pos c)"

lemma chart_lot_conv:
  "sa_chart (chart_lot pos y acc) =
     (if lot_moved pos (sa_chart acc)
      then set_stamp (pos_id pos) (markStamp pos) (lot_chart pos (sa_chart acc))
      else lot_chart pos (sa_chart acc))"
  "sa_stepped (chart_lot pos y acc) = (sa_stepped acc \<or> lot_moved pos (sa_chart acc))"
  "sa_live (chart_lot pos y acc) = sa_live acc"
  "sa_legend (chart_lot pos y acc) = sa_legend acc @ [legend_item pos]"
  "sa_rows (chart_lot pos y acc) = sa_rows acc @
     [\<lparr>cr_pos = pos, cr_stroke = strokeFor (pos_id pos), cr_y = y, cr_floor = markFloor pos\<rparr>]"
  by (simp_all add: chart_lot_def lot_chart_def lot_moved_def Let_def)

lemma lot_lot_chart:
  "lot (lot_chart pos c) j = (if j = pos_id pos then Some (charted_bind pos c) else lot c j)"
  by (auto simp: lot_chart_def lot_ensureBand lot_ensureLot charted_bind_def prior_bind_def
      fresh_bind_def Let_def split: option.split)

lemma lot_moved_conv: "lot_moved pos c \<longleftrightarrow> markStamp pos \<noteq> lb_stamp (prior_bind pos c)"
  by (simp add: lot_moved_def stamp_of_def lot_lot_chart charted_bind_def give_band_def)

lemma lot_chart_lot:
  "lot (sa_chart (chart_lot pos y acc)) j =
     (if j = pos_id pos
      then Some ((charted_bind pos (sa_chart acc))\<lparr>lb_stamp := markStamp pos\<rparr>)
      else lot (sa_chart acc) j)"
  by (auto simp: chart_lot_conv lot_set_stamp lot_lot_chart lot_moved_conv charted_bind_def
      give_band_def)

lemma data_chart_lot:
  "lb_data (charted_bind pos c) = (case lot c (pos_id pos) of None \<Rightarrow> [] | Some b \<Rightarrow> lb_data b)"
  by (simp add: charted_bind_def prior_bind_def fresh_bind_def split: option.split)

lemma chart_lot_ok: "chart_ok (sa_chart acc) \<Longrightarrow> chart_ok (sa_chart (chart_lot pos y acc))"
  by (simp add: chart_lot_conv lot_chart_def Let_def ensureLot_ok ensureBand_ok set_stamp_ok)

lemma chart_lot_acc_ok:
  assumes "acc_ok acc"
  shows "acc_ok (chart_lot pos y acc)"
proof -
  have new: "lot_moved pos (sa_chart acc)" if "lot (sa_chart acc) (pos_id pos) = None"
    using that stamp_not_empty by (simp add: lot_moved_conv prior_bind_def fresh_bind_def)
  show ?thesis
    using assms new
    by (auto simp: acc_ok_def chart_lot_conv(2,5) lot_chart_lot data_chart_lot split: option.splits if_splits)
qed

lemma collect_cases:
  obtains "collect_lot dp book acc pos = acc" "\<not> chartHeld dp pos book"
  | "collect_lot dp book acc pos = acc\<lparr>sa_live := sa_live acc @ [pos_id pos]\<rparr>"
      "chartHeld dp pos book" "markY dp pos = None"
  | y where "collect_lot dp book acc pos = chart_lot pos y (acc\<lparr>sa_live := sa_live acc @ [pos_id pos]\<rparr>)"
      "chartHeld dp pos book" "markY dp pos = Some y"
  by (cases "chartHeld dp pos book"; cases "markY dp pos") (auto simp: collect_lot_def Let_def)

text \<open>The lots a publish charts, and the loop over all rows.\<close>

definition charted :: "(string \<Rightarrow> int option) \<Rightarrow> Book \<Rightarrow> jsobj list \<Rightarrow> jsobj list" where
  "charted dp book poss = filter (\<lambda>pos. chartHeld dp pos book \<and> markY dp pos \<noteq> None) poss"

definition row_of :: "(string \<Rightarrow> int option) \<Rightarrow> jsobj \<Rightarrow> choice_row" where
  "row_of dp pos = \<lparr>cr_pos = pos, cr_stroke = strokeFor (pos_id pos), cr_y = the (markY dp pos),
     cr_floor = markFloor pos\<rparr>"

abbreviation by_id :: "string \<Rightarrow> jsobj list \<Rightarrow> jsobj option" where
  "by_id j \<equiv> find (\<lambda>pos. pos_id pos = j)"

lemma charted_Cons:
  "charted dp book (pos # poss) =
     (if chartHeld dp pos book \<and> markY dp pos \<noteq> None then pos # charted dp book poss
      else charted dp book poss)"
  by (simp add: charted_def)

lemma collect_lists:
  "sa_rows (foldl (collect_lot dp book) acc poss) = sa_rows acc @ map (row_of dp) (charted dp book poss)"
  "sa_live (foldl (collect_lot dp book) acc poss) =
     sa_live acc @ map pos_id (filter (\<lambda>pos. chartHeld dp pos book) poss)"
  "sa_legend (foldl (collect_lot dp book) acc poss) =
     sa_legend acc @ map legend_item (charted dp book poss)"
proof (induction poss arbitrary: acc)
  case (Cons pos poss)
  { case 1 show ?case
      by (cases rule: collect_cases [of dp book acc pos])
        (simp_all add: Cons.IH charted_Cons chart_lot_conv row_of_def) }
  { case 2 show ?case
      by (cases rule: collect_cases [of dp book acc pos])
        (simp_all add: Cons.IH chart_lot_conv) }
  { case 3 show ?case
      by (cases rule: collect_cases [of dp book acc pos])
        (simp_all add: Cons.IH charted_Cons chart_lot_conv) }
qed (simp_all add: charted_def)

lemma collect_ok:
  assumes "chart_ok (sa_chart acc)" "acc_ok acc"
  shows "chart_ok (sa_chart (foldl (collect_lot dp book) acc poss)) \<and>
         acc_ok (foldl (collect_lot dp book) acc poss)"
proof (rule foldl_invariant [where P = "\<lambda>acc. chart_ok (sa_chart acc) \<and> acc_ok acc"])
  fix acc pos assume ok: "chart_ok (sa_chart acc) \<and> acc_ok acc"
  then have live: "acc_ok (acc\<lparr>sa_live := l\<rparr>)" for l by (simp add: acc_ok_def)
  show "chart_ok (sa_chart (collect_lot dp book acc pos)) \<and> acc_ok (collect_lot dp book acc pos)"
    by (cases rule: collect_cases [of dp book acc pos])
      (use ok live in \<open>simp_all add: chart_lot_ok chart_lot_acc_ok\<close>)
qed (use assms in simp)

lemma nextX_collect:
  "cc_nextX (sa_chart (foldl (collect_lot dp book) acc poss)) = cc_nextX (sa_chart acc)"
proof (rule foldl_frame [where g = "\<lambda>acc. cc_nextX (sa_chart acc)"])
  show "cc_nextX (sa_chart (collect_lot dp book acc pos)) = cc_nextX (sa_chart acc)" for acc pos
    by (cases rule: collect_cases [of dp book acc pos])
      (simp_all add: chart_lot_conv lot_chart_def Let_def)
qed

lemma by_id_None: "j \<notin> pos_id ` set poss \<Longrightarrow> by_id j poss = None"
  by (auto simp: find_None_iff)

lemma set_charted: "set (charted dp book poss) \<subseteq> set poss"
  by (auto simp: charted_def)

lemma prior_bind_frame:
  "lot c (pos_id pos) = lot c' (pos_id pos) \<Longrightarrow> charted_bind pos c = charted_bind pos c'"
  by (simp add: charted_bind_def prior_bind_def)

lemma lot_collect:
  assumes "distinct (map pos_id poss)"
  shows "lot (sa_chart (foldl (collect_lot dp book) acc poss)) j =
    (case by_id j (charted dp book poss) of
       None \<Rightarrow> lot (sa_chart acc) j
     | Some pos \<Rightarrow> Some ((charted_bind pos (sa_chart acc))\<lparr>lb_stamp := markStamp pos\<rparr>))"
  using assms
proof (induction poss arbitrary: acc)
  case (Cons pos poss)
  show ?case
  proof (cases rule: collect_cases [of dp book acc pos])
    case (3 y)
    let ?acc = "chart_lot pos y (acc\<lparr>sa_live := sa_live acc @ [pos_id pos]\<rparr>)"
    have other: "lot (sa_chart ?acc) i = lot (sa_chart acc) i" if "i \<noteq> pos_id pos" for i
      using that by (simp add: lot_chart_lot)
    have ih: "lot (sa_chart (foldl (collect_lot dp book) ?acc poss)) j =
        (case by_id j (charted dp book poss) of
           None \<Rightarrow> lot (sa_chart ?acc) j
         | Some p \<Rightarrow> Some ((charted_bind p (sa_chart ?acc))\<lparr>lb_stamp := markStamp p\<rparr>))"
      using Cons by simp
    show ?thesis
    proof (cases "pos_id pos = j")
      case True
      have "by_id j (charted dp book poss) = None"
        using Cons.prems True set_charted by (intro by_id_None) fastforce
      with True 3 ih show ?thesis by (simp add: charted_Cons lot_chart_lot)
    next
      case False
      have "charted_bind p (sa_chart ?acc) = charted_bind p (sa_chart acc)"
        if "by_id j (charted dp book poss) = Some p" for p
        using False that by (intro prior_bind_frame other) (auto simp: find_Some_iff)
      with False 3 ih other show ?thesis by (simp add: charted_Cons split: option.split)
    qed
  qed (use Cons in \<open>simp_all add: charted_Cons split: option.split\<close>)
qed (simp add: charted_def)

lemma stepped_collect:
  assumes "distinct (map pos_id poss)"
  shows "sa_stepped (foldl (collect_lot dp book) acc poss) \<longleftrightarrow>
    sa_stepped acc \<or>
    (\<exists>pos \<in> set (charted dp book poss). markStamp pos \<noteq> lb_stamp (prior_bind pos (sa_chart acc)))"
  using assms
proof (induction poss arbitrary: acc)
  case (Cons pos poss)
  show ?case
  proof (cases rule: collect_cases [of dp book acc pos])
    case (3 y)
    let ?acc = "chart_lot pos y (acc\<lparr>sa_live := sa_live acc @ [pos_id pos]\<rparr>)"
    have "prior_bind p (sa_chart ?acc) = prior_bind p (sa_chart acc)"
      if "p \<in> set (charted dp book poss)" for p
    proof -
      have "p \<in> set poss" using that by (simp add: charted_def)
      with Cons.prems have "pos_id p \<noteq> pos_id pos" by (rule distinct_head)
      then show ?thesis by (simp add: prior_bind_def lot_chart_lot)
    qed
    with 3 Cons show ?thesis by (auto simp: charted_Cons chart_lot_conv(2) lot_moved_conv)
  qed (use Cons in \<open>simp_all add: charted_Cons\<close>)
qed (simp add: charted_def)

lemma lot_append_rows:
  assumes "distinct (map pos_id poss)"
  shows "lot (foldl (append_row x) c (map (row_of dp) poss)) j =
    (case by_id j poss of
       None \<Rightarrow> lot c j
     | Some pos \<Rightarrow> map_option (add_mark x (the (markY dp pos)) (markFloor pos)) (lot c j))"
  using assms
proof (induction poss arbitrary: c)
  case (Cons pos poss)
  have "by_id (pos_id pos) poss = None" using Cons.prems by (intro by_id_None) simp
  with Cons show ?case by (auto simp: lot_append_row row_of_def split: option.split)
qed simp

lemma append_rows_ok:
  assumes "distinct (map pos_id poss)" and "chart_ok c" and "cc_nextX c = Suc x"
    and "\<And>pos. pos \<in> set poss \<Longrightarrow> \<exists>b. lot c (pos_id pos) = Some b \<and> (\<forall>p \<in> set (lb_data b). fst p < x)"
  shows "chart_ok (foldl (append_row x) c (map (row_of dp) poss))"
  using assms
proof (induction poss arbitrary: c)
  case (Cons pos poss)
  obtain b where b: "lot c (pos_id pos) = Some b" "\<forall>p \<in> set (lb_data b). fst p < x"
    using Cons.prems(4) [of pos] by auto
  have "chart_ok (append_row x c (row_of dp pos))"
    by (rule append_row_ok [OF Cons.prems(2,3)]) (use b in \<open>simp_all add: row_of_def\<close>)
  moreover have "\<exists>b. lot (append_row x c (row_of dp pos)) (pos_id p) = Some b \<and> (\<forall>q \<in> set (lb_data b). fst q < x)"
    if "p \<in> set poss" for p
  proof -
    have "pos_id p \<noteq> pos_id pos" using Cons.prems(1) that by (rule distinct_head)
    with Cons.prems(4) [of p] that show ?thesis by (simp add: lot_append_row row_of_def)
  qed
  ultimately show ?case using Cons by simp
qed simp

lemma nextX_append_rows: "cc_nextX (foldl (append_row x) c rows) = cc_nextX c"
  by (rule foldl_frame) simp

lemma keys_append_rows: "lot_keys (foldl (append_row x) c rows) = lot_keys c"
  by (rule foldl_frame) simp

lemma drop_dead_ok: "chart_ok c \<Longrightarrow> chart_ok (drop_dead live c)"
  unfolding drop_dead_def by (rule foldl_invariant) (auto simp: dropLot_ok)

lemma lot_drop_keys:
  "lot (foldl (\<lambda>c i. if i \<in> set live then c else dropLot i c) c ks) j =
     (if j \<in> set ks \<and> j \<notin> set live then None else lot c j)"
  by (induction ks arbitrary: c) (auto simp: lot_dropLot)

lemma lot_drop_dead: "lot (drop_dead live c) j = (if j \<in> set live then lot c j else None)"
  using key_iff_lot [of j c] by (auto simp: drop_dead_def lot_drop_keys)

lemma nextX_drop_dead [simp]: "cc_nextX (drop_dead live c) = cc_nextX c"
  unfolding drop_dead_def by (rule foldl_frame) simp

lemma drop_dead_none: "set (lot_keys c) \<subseteq> set live \<Longrightarrow> drop_dead live c = c"
proof -
  assume sub: "set (lot_keys c) \<subseteq> set live"
  have "drop_dead live c = c \<and> True"
    unfolding drop_dead_def using sub
    by (intro conjI foldl_invariant [where P = "\<lambda>d. d = c"]) auto
  then show ?thesis by simp
qed

text \<open>The rows of one publish that the chart is concerned with.\<close>

definition held_ids :: "(string \<Rightarrow> int option) \<Rightarrow> (string \<times> jsobj) list \<Rightarrow> Book \<Rightarrow> string set" where
  "held_ids dp state book = pos_id ` {pos \<in> set (map_values state). chartHeld dp pos book}"

definition shown_lots :: "(string \<Rightarrow> int option) \<Rightarrow> (string \<times> jsobj) list \<Rightarrow> Book \<Rightarrow> jsobj list" where
  "shown_lots dp state book = charted dp book (map_values state)"

definition one_row_each :: "(string \<times> jsobj) list \<Rightarrow> bool" where
  "one_row_each state \<longleftrightarrow> distinct (map pos_id (map_values state))"

definition publish_moves :: "(string \<Rightarrow> int option) \<Rightarrow> (string \<times> jsobj) list \<Rightarrow> Book \<Rightarrow> choice_chart \<Rightarrow> bool" where
  "publish_moves dp state book c \<longleftrightarrow>
     (\<exists>pos \<in> set (shown_lots dp state book). markStamp pos \<noteq> lb_stamp (prior_bind pos c))"

lemma distinct_shown: "one_row_each state \<Longrightarrow> distinct (map pos_id (shown_lots dp state book))"
  by (simp add: one_row_each_def shown_lots_def charted_def distinct_map_filter)

lemma collected_conv:
  assumes "one_row_each state"
  shows "sa_rows (collected dp state book c) = map (row_of dp) (shown_lots dp state book)"
    and "set (sa_live (collected dp state book c)) = held_ids dp state book"
    and "sa_legend (collected dp state book c) = map legend_item (shown_lots dp state book)"
    and "sa_stepped (collected dp state book c) \<longleftrightarrow> publish_moves dp state book c"
    and "cc_nextX (sa_chart (collected dp state book c)) = cc_nextX c"
    and "lot (sa_chart (collected dp state book c)) j =
      (case by_id j (shown_lots dp state book) of
         None \<Rightarrow> lot c j
       | Some pos \<Rightarrow> Some ((charted_bind pos c)\<lparr>lb_stamp := markStamp pos\<rparr>))"
  using assms
  by (simp_all add: collected_def collect_lists nextX_collect lot_collect stepped_collect
      one_row_each_def shown_lots_def held_ids_def publish_moves_def split: option.split)

lemma lot_sync:
  assumes "one_row_each state"
  shows "lot (fst (sync dp state book c)) j =
    (if j \<notin> held_ids dp state book then None
     else case by_id j (shown_lots dp state book) of
       None \<Rightarrow> lot c j
     | Some pos \<Rightarrow>
         (let b = (charted_bind pos c)\<lparr>lb_stamp := markStamp pos\<rparr>
          in Some (if publish_moves dp state book c
                   then add_mark (cc_nextX c) (the (markY dp pos)) (markFloor pos) b else b)))"
proof -
  let ?acc = "collected dp state book c" and ?s = "shown_lots dp state book"
  have rows: "sa_rows ?acc = map (row_of dp) ?s" by (rule collected_conv(1) [OF assms])
  have empty: "?s \<noteq> []" if "publish_moves dp state book c"
    using that by (auto simp: publish_moves_def)
  have "lot (step_rows ?acc) j =
    (case by_id j ?s of
       None \<Rightarrow> lot c j
     | Some pos \<Rightarrow>
         (let b = (charted_bind pos c)\<lparr>lb_stamp := markStamp pos\<rparr>
          in Some (if publish_moves dp state book c
                   then add_mark (cc_nextX c) (the (markY dp pos)) (markFloor pos) b else b)))"
    using empty distinct_shown [OF assms, of dp book]
    by (auto simp: step_rows_def Let_def rows lot_append_rows collected_conv(4-6) [OF assms] split: option.split)
  then show ?thesis
    by (simp add: sync_def Let_def lot_drop_dead collected_conv(2) [OF assms])
qed

lemma bump_ok: "chart_ok c \<Longrightarrow> chart_ok (c\<lparr>cc_nextX := Suc (cc_nextX c)\<rparr>)"
  using lot_ok_mono [of "cc_nextX c" _ _ "Suc (cc_nextX c)"]
  by (simp add: chart_ok_def series_ok_def notes_ok_def banded_def marked_def tip_ok_def)

lemma sync_ok:
  assumes one: "one_row_each state" and ok: "chart_ok c" and data: "\<forall>i b. lot c i = Some b \<longrightarrow> lb_data b \<noteq> []"
  shows "chart_ok (fst (sync dp state book c))"
proof -
  let ?acc = "collected dp state book c" and ?s = "shown_lots dp state book"
  have acc: "chart_ok (sa_chart ?acc)" "acc_ok ?acc"
    using collect_ok [of "\<lparr>sa_chart = c, sa_live = [], sa_legend = [], sa_rows = [], sa_stepped = False\<rparr>"
        dp book "map_values state"] ok data
    by (simp_all add: collected_def acc_ok_def)
  let ?c = "sa_chart ?acc"
  have nx: "cc_nextX ?c = cc_nextX c" by (rule collected_conv(5) [OF one])
  have bump: "chart_ok (?c\<lparr>cc_nextX := Suc (cc_nextX c)\<rparr>)"
    using bump_ok [OF acc(1)] nx by simp
  have "chart_ok (step_rows ?acc)"
  proof (cases "sa_stepped ?acc \<and> sa_rows ?acc \<noteq> []")
    case True
    have "chart_ok (foldl (append_row (cc_nextX c)) (?c\<lparr>cc_nextX := Suc (cc_nextX c)\<rparr>) (map (row_of dp) ?s))"
    proof (rule append_rows_ok [OF distinct_shown [OF one] bump])
      fix pos assume "pos \<in> set ?s"
      then have "row_of dp pos \<in> set (sa_rows ?acc)"
        by (simp add: collected_conv(1) [OF one])
      then obtain b where "lot ?c (pos_id pos) = Some b"
        using acc(2) unfolding acc_ok_def by (force simp: row_of_def)
      with acc(1) nx show "\<exists>b. lot (?c\<lparr>cc_nextX := Suc (cc_nextX c)\<rparr>) (pos_id pos) = Some b \<and>
          (\<forall>p \<in> set (lb_data b). fst p < cc_nextX c)"
        by (auto simp: chart_ok_def lot_ok_def)
    qed simp
    with True nx show ?thesis
      by (simp add: step_rows_def collected_conv(1) [OF one] Let_def)
  qed (use acc in \<open>auto simp: step_rows_def Let_def\<close>)
  then show ?thesis by (simp add: sync_def Let_def drop_dead_ok)
qed

lemma nextX_sync:
  assumes "one_row_each state"
  shows "cc_nextX (fst (sync dp state book c)) =
     (if publish_moves dp state book c then Suc (cc_nextX c) else cc_nextX c)"
proof -
  have "shown_lots dp state book \<noteq> []" if "publish_moves dp state book c"
    using that by (auto simp: publish_moves_def)
  then show ?thesis
    by (auto simp: sync_def step_rows_def Let_def nextX_append_rows collected_conv [OF assms])
qed

lemma unmoved_known:
  assumes "\<not> publish_moves dp state book c" and "pos \<in> set (shown_lots dp state book)"
  shows "\<exists>b. lot c (pos_id pos) = Some b \<and> lb_stamp b = markStamp pos"
  using assms stamp_not_empty
  by (auto simp: publish_moves_def prior_bind_def fresh_bind_def split: option.splits)

lemma by_id_Some: "by_id j poss = Some pos \<Longrightarrow> pos \<in> set poss \<and> pos_id pos = j"
  by (auto simp: find_Some_iff)

lemma sync_marked:
  assumes one: "one_row_each state" and data: "\<forall>i b. lot c i = Some b \<longrightarrow> lb_data b \<noteq> []"
    and b: "lot (fst (sync dp state book c)) j = Some b"
  shows "lb_data b \<noteq> []"
proof (cases "by_id j (shown_lots dp state book)")
  case None
  with b data show ?thesis by (auto simp: lot_sync [OF one] split: if_splits)
next
  case (Some pos)
  show ?thesis
  proof (cases "publish_moves dp state book c")
    case True
    with Some b show ?thesis by (auto simp: lot_sync [OF one] add_mark_def Let_def split: if_splits)
  next
    case False
    then obtain b0 where "lot c (pos_id pos) = Some b0"
      using unmoved_known by_id_Some [OF Some] by blast
    with False Some b data show ?thesis
      by (auto simp: lot_sync [OF one] data_chart_lot Let_def split: if_splits)
  qed
qed

subsection \<open>Every chart the page reaches\<close>

inductive chart_reach :: "(string \<Rightarrow> int option) \<Rightarrow> choice_chart \<Rightarrow> bool" for dp where
  drawn: "chart_reach dp drawOpenChoiceChart"
| published: "chart_reach dp c \<Longrightarrow> one_row_each state \<Longrightarrow> chart_reach dp (fst (sync dp state book c))"

lemma chart_reach_ok:
  "chart_reach dp c \<Longrightarrow> chart_ok c \<and> (\<forall>i b. lot c i = Some b \<longrightarrow> lb_data b \<noteq> [])"
proof (induction rule: chart_reach.induct)
  case drawn
  show ?case using start_ok by (simp add: drawOpenChoiceChart_def)
next
  case (published c state book)
  then show ?case using sync_ok sync_marked by blast
qed

lemma chart_reach_tips:
  assumes "chart_reach dp c"
  shows "\<exists>T. cc_notes c = zero_line # T \<and> distinct (map an_id T) \<and> (\<forall>a \<in> set T. tip_ok c a) \<and>
    an_id ` set T = tipId ` set (lot_keys c)"
proof -
  have ok: "chart_ok c" "\<And>i b. lot c i = Some b \<Longrightarrow> lb_data b \<noteq> []"
    using chart_reach_ok [OF assms] by auto
  then obtain T where T: "cc_notes c = zero_line # T" "distinct (map an_id T)"
      "\<forall>a \<in> set T. tip_ok c a" "\<forall>i \<in> marked c. tipId i \<in> an_id ` set T"
    unfolding chart_ok_def notes_ok_def by blast
  have "set (lot_keys c) = marked c"
    using ok(2) key_iff_lot by (fastforce simp: marked_def)
  moreover have "an_id a \<in> tipId ` marked c" if "a \<in> set T" for a
    using T(3) that by (force simp: tip_ok_def marked_def)
  ultimately have "an_id ` set T = tipId ` set (lot_keys c)" using T(4) by auto
  with T show ?thesis by blast
qed

lemma by_id_distinct:
  "distinct (map pos_id poss) \<Longrightarrow> pos \<in> set poss \<Longrightarrow> by_id (pos_id pos) poss = Some pos"
proof (induction poss)
  case (Cons p poss)
  then show ?case using distinct_head [OF Cons.prems(1)] by (cases "pos = p") auto
qed simp

lemma shown_held: "pos \<in> set (shown_lots dp state book) \<Longrightarrow> pos_id pos \<in> held_ids dp state book"
  by (auto simp: shown_lots_def held_ids_def charted_def)

lemma lot_chart_known:
  assumes "lot c (pos_id pos) = Some b" and "markFloor pos \<noteq> None \<Longrightarrow> lb_band b \<noteq> None"
    and "lb_stamp b = markStamp pos"
  shows "lot_chart pos c = c" and "\<not> lot_moved pos c"
  using assms by (auto simp: lot_chart_def ensureLot_def ensureBand_def lot_moved_conv prior_bind_def Let_def)

lemma sync_settled:
  assumes one: "one_row_each state"
    and known: "\<And>pos. pos \<in> set (shown_lots dp state book) \<Longrightarrow>
      \<exists>b. lot c (pos_id pos) = Some b \<and> (markFloor pos \<noteq> None \<longrightarrow> lb_band b \<noteq> None) \<and> lb_stamp b = markStamp pos"
    and live: "set (lot_keys c) \<subseteq> held_ids dp state book"
  shows "fst (sync dp state book c) = c"
proof -
  let ?acc = "collected dp state book c"
  have "sa_chart ?acc = c \<and> \<not> sa_stepped ?acc"
    unfolding collected_def
  proof (rule foldl_invariant [where P = "\<lambda>acc. sa_chart acc = c \<and> \<not> sa_stepped acc"])
    fix acc :: sync_acc and pos
    assume acc: "sa_chart acc = c \<and> \<not> sa_stepped acc" and pos: "pos \<in> set (map_values state)"
    show "sa_chart (collect_lot dp book acc pos) = c \<and> \<not> sa_stepped (collect_lot dp book acc pos)"
    proof (cases rule: collect_cases [of dp book acc pos])
      case (3 y)
      then have "pos \<in> set (shown_lots dp state book)"
        using pos by (simp add: shown_lots_def charted_def)
      from known [OF this] obtain b where "lot c (pos_id pos) = Some b"
          "markFloor pos \<noteq> None \<longrightarrow> lb_band b \<noteq> None" "lb_stamp b = markStamp pos" by blast
      with lot_chart_known [of c pos b] acc 3(1) show ?thesis by (simp add: chart_lot_conv)
    qed (use acc in simp_all)
  qed simp
  then show ?thesis
    using live by (simp add: sync_def Let_def step_rows_def drop_dead_none collected_conv(2) [OF one])
qed

subsection \<open>Properties\<close>

text \<open>
  C16. In every chart reached by publishes with one row per lot, the surface shows the lots and
  nothing else: each lot has one line, in the order the lots were opened and above all bands; each lot
  with a stop floor has one band; besides the zero line there is one tip per lot.
\<close>

theorem chart_surface_exact:
  assumes "chart_reach dp c"
  shows "distinct (lot_keys c) \<and>
    (\<exists>B. cc_series c = B @ map (\<lambda>i. LineSeries i (strokeFor i)) (lot_keys c) \<and> distinct B \<and>
         set B = {band_of i (strokeFor i) | i b. lot c i = Some b \<and> lb_band b \<noteq> None}) \<and>
    (\<exists>T. cc_notes c = zero_line # T \<and> distinct (map an_id T) \<and>
         an_id ` set T = tipId ` set (lot_keys c))"
proof -
  have "chart_ok c" using chart_reach_ok [OF assms] by simp
  then have "distinct (lot_keys c)" "series_ok c" by (simp_all add: chart_ok_def)
  moreover from this(2) obtain B where "cc_series c = B @ map line_of (lot_keys c)" "distinct B"
      "set B = (\<lambda>i. band_of i (strokeFor i)) ` banded c"
    unfolding series_ok_def by blast
  moreover have "(\<lambda>i. band_of i (strokeFor i)) ` banded c =
      {band_of i (strokeFor i) | i b. lot c i = Some b \<and> lb_band b \<noteq> None}"
    by (auto simp: banded_def)
  moreover have "line_of = (\<lambda>i. LineSeries i (strokeFor i))" by (simp add: fun_eq_iff line_of_def)
  ultimately show ?thesis using chart_reach_tips [OF assms] by metis
qed

definition one_lot :: "(string \<times> jsobj) list" where
  "one_lot = [(''a'', [(''id'', JStr ''a''), (''pnl_pct'', JNum (Fin 1))])]"

lemma one_lot_each: "one_row_each one_lot"
  by (simp add: one_row_each_def one_lot_def map_values_def)

lemma chart_surface_exact_witness:
  "distinct (lot_keys (fst (sync Map.empty one_lot Paper drawOpenChoiceChart)))"
  using chart_surface_exact [OF published [OF drawn one_lot_each]] by blast

text \<open>
  C17. In every reachable chart the marks of a lot stand at strictly increasing places below the next
  one to be given out, its band repeats the latest of them, and its tip stands at its last mark.
\<close>

theorem chart_trails_ordered:
  assumes "chart_reach dp c" and "lot c i = Some b"
  shows "lb_data b \<noteq> [] \<and> sorted_wrt (<) (map fst (lb_data b)) \<and>
    fst (last (lb_data b)) < cc_nextX c \<and>
    (\<forall>pts. lb_band b = Some pts \<longrightarrow> (\<exists>k. map (\<lambda>(x, y, _). (x, y)) pts = drop k (lb_data b))) \<and>
    (\<exists>a \<in> set (cc_notes c). an_id a = tipId i \<and> an_x1 a = Some (fst (last (lb_data b))) \<and>
       an_y1 a = snd (last (lb_data b)))"
proof -
  have ok: "lot_ok (cc_nextX c) i b" and data: "lb_data b \<noteq> []"
    using chart_reach_ok [OF assms(1)] assms(2) by (auto simp: chart_ok_def)
  obtain T where T: "cc_notes c = zero_line # T" "\<forall>a \<in> set T. tip_ok c a"
      "an_id ` set T = tipId ` set (lot_keys c)"
    using chart_reach_tips [OF assms(1)] by blast
  have "i \<in> set (lot_keys c)" using assms(2) by (simp add: key_iff_lot)
  then obtain a where a: "a \<in> set T" "an_id a = tipId i" using T(3) by (metis image_iff)
  with T(2) assms(2) have "an_x1 a = Some (fst (last (lb_data b))) \<and> an_y1 a = snd (last (lb_data b))"
    by (auto simp: tip_ok_def)
  with a T(1) have "\<exists>a \<in> set (cc_notes c). an_id a = tipId i \<and>
      an_x1 a = Some (fst (last (lb_data b))) \<and> an_y1 a = snd (last (lb_data b))" by auto
  with ok data show ?thesis by (simp add: lot_ok_def)
qed

lemma one_lot_shown: "shown_lots Map.empty one_lot Paper = map snd one_lot"
  by (simp add: shown_lots_def charted_def one_lot_def map_values_def chartHeld_def onBook_def
      markY_def closeNowReturnPct_def positionReadout_def dateText_def executionTotals_def
      fills_of_def totals_of_def fill_start_def nonempty_str_def returnFraction_def decimal_def Let_def)

lemma one_lot_moves: "publish_moves Map.empty one_lot Paper drawOpenChoiceChart"
  using stamp_not_empty
  by (simp add: publish_moves_def one_lot_shown) (simp add: one_lot_def prior_bind_def
      drawOpenChoiceChart_def fresh_bind_def)

text \<open>
  C18. A publish that moves the stamp of some shown lot takes one place and gives every shown lot exactly
  one mark there, its own return; a publish that moves none appends nothing. A lot that is held and
  shows no mark keeps its trail as it is, so that its next mark leaves a gap; a lot that is no longer held
  is gone.
\<close>

theorem publish_marks_each_lot:
  fixes state :: "(string \<times> jsobj) list" and c :: choice_chart
    and dp :: "string \<Rightarrow> int option" and book :: Book
  assumes "one_row_each state"
  defines "c' \<equiv> fst (sync dp state book c)" and "moves \<equiv> publish_moves dp state book c"
  shows "cc_nextX c' = (if moves then Suc (cc_nextX c) else cc_nextX c) \<and>
    (\<forall>pos \<in> set (shown_lots dp state book). \<exists>b'. lot c' (pos_id pos) = Some b' \<and>
       lb_stamp b' = markStamp pos \<and>
       lb_data b' = (case lot c (pos_id pos) of None \<Rightarrow> [] | Some b \<Rightarrow> lb_data b) @
         (if moves then [(cc_nextX c, the (markY dp pos))] else [])) \<and>
    (\<forall>i \<in> held_ids dp state book - pos_id ` set (shown_lots dp state book). lot c' i = lot c i) \<and>
    (\<forall>i. i \<notin> held_ids dp state book \<longrightarrow> lot c' i = None)"
proof (intro conjI ballI allI impI)
  show "cc_nextX c' = (if moves then Suc (cc_nextX c) else cc_nextX c)"
    by (simp add: c'_def moves_def nextX_sync [OF assms(1)])
  show "lot c' i = None" if "i \<notin> held_ids dp state book" for i
    using that by (simp add: c'_def lot_sync [OF assms(1)])
  show "lot c' i = lot c i"
    if "i \<in> held_ids dp state book - pos_id ` set (shown_lots dp state book)" for i
    using that by (simp add: c'_def lot_sync [OF assms(1)] by_id_None)
  fix pos assume pos: "pos \<in> set (shown_lots dp state book)"
  then have "by_id (pos_id pos) (shown_lots dp state book) = Some pos"
    by (rule by_id_distinct [OF distinct_shown [OF assms(1)]])
  with shown_held [OF pos]
  show "\<exists>b'. lot c' (pos_id pos) = Some b' \<and> lb_stamp b' = markStamp pos \<and>
       lb_data b' = (case lot c (pos_id pos) of None \<Rightarrow> [] | Some b \<Rightarrow> lb_data b) @
         (if moves then [(cc_nextX c, the (markY dp pos))] else [])"
    by (simp add: c'_def moves_def lot_sync [OF assms(1)] data_chart_lot add_mark_def Let_def
        split: option.split)
qed

lemma publish_marks_each_lot_witness:
  "cc_nextX (fst (sync Map.empty one_lot Paper drawOpenChoiceChart)) = 1"
  using publish_marks_each_lot [OF one_lot_each, of Map.empty Paper drawOpenChoiceChart] one_lot_moves
  by (simp add: drawOpenChoiceChart_def)

lemma one_lot_bind: "\<exists>b. lot (fst (sync Map.empty one_lot Paper drawOpenChoiceChart)) ''a'' = Some b"
proof -
  define pos where "pos = snd (hd one_lot)"
  have ident: "pos_id pos = ''a''" by (simp add: pos_def one_lot_def pos_id_def)
  have shown: "pos \<in> set (shown_lots Map.empty one_lot Paper)"
    by (simp add: one_lot_shown) (simp add: one_lot_def pos_def)
  show ?thesis
    using by_id_distinct [OF distinct_shown [OF one_lot_each] shown] shown_held [OF shown]
    by (simp add: lot_sync [OF one_lot_each] ident Let_def)
qed

lemma chart_trails_ordered_witness:
  "\<exists>b. lot (fst (sync Map.empty one_lot Paper drawOpenChoiceChart)) ''a'' = Some b \<and> lb_data b \<noteq> []"
  using chart_trails_ordered [OF published [OF drawn one_lot_each]] one_lot_bind by blast

text \<open>
  Publishing the same positions again changes nothing on the chart.
\<close>

theorem republish_changes_nothing:
  assumes "one_row_each state"
  shows "fst (sync dp state book (fst (sync dp state book c))) = fst (sync dp state book c)"
proof (rule sync_settled [OF assms])
  fix pos assume pos: "pos \<in> set (shown_lots dp state book)"
  then have "by_id (pos_id pos) (shown_lots dp state book) = Some pos"
    by (rule by_id_distinct [OF distinct_shown [OF assms]])
  then show "\<exists>b. lot (fst (sync dp state book c)) (pos_id pos) = Some b \<and>
      (markFloor pos \<noteq> None \<longrightarrow> lb_band b \<noteq> None) \<and> lb_stamp b = markStamp pos"
    using shown_held [OF pos]
    by (auto simp: lot_sync [OF assms] add_mark_def charted_bind_def Let_def split: option.splits)
next
  show "set (lot_keys (fst (sync dp state book c))) \<subseteq> held_ids dp state book"
    by (auto simp: key_iff_lot lot_sync [OF assms] split: if_splits)
qed

lemma republish_changes_nothing_witness:
  "fst (sync Map.empty one_lot Paper (fst (sync Map.empty one_lot Paper drawOpenChoiceChart))) =
   fst (sync Map.empty one_lot Paper drawOpenChoiceChart)"
  by (rule republish_changes_nothing [OF one_lot_each])

lemma strokeFor_palette: "strokeFor i \<in> set STROKES"
proof -
  have "length STROKES = 7" by (simp add: STROKES_def)
  then show ?thesis unfolding strokeFor_def by (intro nth_mem) simp
qed

end
