(* ===== verification/ChoiceGrid.thy ===== *)
theory ChoiceGrid
  imports OpenChoice
begin

text \<open>
  The grid of the open-choice chart (\<^verbatim>\<open>components/learning/open-choice-grid-layout.ts\<close>): a switch
  between one chart with every lot and a grid with one panel per lot. A panel borrows the series and
  the tip of its lot and hides the originals; leaving the grid shrinks the panels in animations, and
  each restores its lot when it completes. A completion is an event of its own: other switches may come
  before it. What the library draws into a panel is not modelled.
\<close>

subsection \<open>State\<close>

record grid_series =
  gs_name :: string
  gs_visible :: bool

record panel =
  pn_made :: nat
  pn_title :: string
  pn_position :: "jsnum \<times> jsnum \<times> jsnum \<times> jsnum"

text \<open>\<^verbatim>\<open>gr_tips\<close> holds the annotations' ids with \<^verbatim>\<open>isHidden\<close>, \<^verbatim>\<open>gr_collapsing\<close> the panels captured
  by the animations that have not completed; \<^verbatim>\<open>gr_made\<close> numbers the panels as they are created.\<close>

record grid =
  gr_isGrid :: bool
  gr_series :: "grid_series list"
  gr_tips :: "(string \<times> bool) list"
  gr_axes :: bool
  gr_panels :: "panel list"
  gr_collapsing :: "panel list"
  gr_made :: nat

definition columns :: nat where "columns = 2"

definition band_suffix :: string where "band_suffix = ''::stop-band''"

text \<open>The \<^verbatim>\<open>dataSeriesName\<close> of a series of the chart.\<close>

fun seriesName :: "series \<Rightarrow> string" where
  "seriesName (LineSeries i _) = i"
| "seriesName (BandSeries i _ _) = i @ band_suffix"

definition lotIdFromSeriesName :: "string \<Rightarrow> string" where
  "lotIdFromSeriesName name =
     (if ends_with name band_suffix then take (length name - length band_suffix) name else name)"

definition isCompanion :: "grid_series \<Rightarrow> bool" where
  "isCompanion rs \<longleftrightarrow> includes_str (gs_name rs) band_suffix"

subsection \<open>Into the grid\<close>

definition hide :: "grid_series \<Rightarrow> grid_series" where
  "hide rs = rs\<lparr>gs_visible := False\<rparr>"

fun hide_named :: "string \<Rightarrow> grid_series list \<Rightarrow> grid_series list" where
  "hide_named name [] = []"
| "hide_named name (rs # rest) =
     (if gs_name rs = name then hide rs # rest else rs # hide_named name rest)"

fun set_hidden :: "string \<Rightarrow> bool \<Rightarrow> (string \<times> bool) list \<Rightarrow> (string \<times> bool) list" where
  "set_hidden ident h [] = []"
| "set_hidden ident h ((i, hidden) # rest) =
     (if i = ident then (i, h) # rest else (i, hidden) # set_hidden ident h rest)"

definition makeSubChart :: "nat \<Rightarrow> nat \<Rightarrow> jsnum \<Rightarrow> jsnum \<Rightarrow> grid \<Rightarrow> grid" where
  "makeSubChart rsIndex panelIndex width height g =
     (let rs = gr_series g ! rsIndex;
          row = panelIndex div columns; col = panelIndex mod columns;
          position = (num_mul (num_of_nat col) width, num_mul (num_of_nat row) height, width, height);
          lotId = lotIdFromSeriesName (gs_name rs)
      in g\<lparr>gr_panels := gr_panels g @ [\<lparr>pn_made = gr_made g, pn_title = lotId, pn_position = position\<rparr>],
           gr_made := gr_made g + 1,
           gr_series := hide_named (lotId @ band_suffix) ((gr_series g)[rsIndex := hide rs]),
           gr_tips := set_hidden (tipId lotId) True (gr_tips g)\<rparr>)"

definition primaryIndexes :: "grid_series list \<Rightarrow> nat list" where
  "primaryIndexes sers = filter (\<lambda>index. \<not> isCompanion (sers ! index)) [0..<length sers]"

definition panel_rows :: "nat \<Rightarrow> nat" where
  "panel_rows chartCount = (chartCount + columns - 1) div columns"

definition makeGridLayout :: "grid \<Rightarrow> grid" where
  "makeGridLayout g =
     (let primaries = primaryIndexes (gr_series g); chartCount = length primaries
      in if chartCount = 0 then g
         else
           let width = num_div (Fin 1) (num_of_nat columns);
               height = num_div (Fin 1) (num_of_nat (panel_rows chartCount));
               made = foldl (\<lambda>g (panel, rsIndex). makeSubChart rsIndex panel width height g) g
                        (enumerate 0 primaries)
           in made\<lparr>gr_series := map (\<lambda>rs. if isCompanion rs then hide rs else rs) (gr_series made),
                   gr_axes := False\<rparr>)"

subsection \<open>Out of the grid\<close>

definition belongs :: "string \<Rightarrow> string \<Rightarrow> bool" where
  "belongs lotId name \<longleftrightarrow> name = lotId \<or> starts_with name (lotId @ ''::'')"

definition restoreLot :: "string \<Rightarrow> grid \<Rightarrow> grid" where
  "restoreLot lotId g =
     g\<lparr>gr_series := map (\<lambda>rs. if belongs lotId (gs_name rs) then rs\<lparr>gs_visible := True\<rparr> else rs) (gr_series g),
       gr_tips := set_hidden (tipId lotId) False (gr_tips g)\<rparr>"

definition makeSingleChart :: "grid \<Rightarrow> grid" where
  "makeSingleChart g = g\<lparr>gr_collapsing := gr_collapsing g @ gr_panels g, gr_axes := True\<rparr>"

text \<open>The \<^verbatim>\<open>onCompleted\<close> of one collapse animation.\<close>

definition collapsed :: "panel \<Rightarrow> grid \<Rightarrow> grid" where
  "collapsed p g =
     (let gone = g\<lparr>gr_collapsing := remove1 p (gr_collapsing g),
                   gr_panels := filter (\<lambda>q. pn_made q \<noteq> pn_made p) (gr_panels g)\<rparr>
      in if pn_title p \<noteq> [] then restoreLot (pn_title p) gone else gone)"

text \<open>The setter behind \<^verbatim>\<open>setIsGridLayoutMode\<close>.\<close>

definition setIsGrid :: "bool \<Rightarrow> grid \<Rightarrow> grid" where
  "setIsGrid v g =
     (if gr_isGrid g = v then g
      else let g = g\<lparr>gr_isGrid := v\<rparr> in if v then makeGridLayout g else makeSingleChart g)"

definition collapse_panel :: "grid \<Rightarrow> panel \<Rightarrow> grid" where
  "collapse_panel g p =
     (let gone = g\<lparr>gr_panels := filter (\<lambda>q. pn_made q \<noteq> pn_made p) (gr_panels g)\<rparr>
      in if pn_title p \<noteq> [] then restoreLot (pn_title p) gone else gone)"

definition collapseNow :: "grid \<Rightarrow> grid" where
  "collapseNow g =
     (foldl collapse_panel (g\<lparr>gr_isGrid := False\<rparr>) (gr_panels g))\<lparr>gr_axes := True\<rparr>"

text \<open>The chart as the switch first finds it.\<close>

definition grid_of :: "choice_chart \<Rightarrow> grid" where
  "grid_of c = \<lparr>gr_isGrid = False,
     gr_series = map (\<lambda>s. \<lparr>gs_name = seriesName s, gs_visible = True\<rparr>) (cc_series c),
     gr_tips = map (\<lambda>a. (an_id a, False)) (cc_notes c), gr_axes = True, gr_panels = [],
     gr_collapsing = [], gr_made = 0\<rparr>"

subsection \<open>What a switch leaves alone\<close>

lemma names_hide_named [simp]: "map gs_name (hide_named n sers) = map gs_name sers"
  by (induction n sers rule: hide_named.induct) (auto simp: hide_def)

lemma ids_set_hidden [simp]: "map fst (set_hidden i h tips) = map fst tips"
  by (induction i h tips rule: set_hidden.induct) auto

lemma set_hidden_mem:
  "(j, b) \<in> set (set_hidden i h tips) \<Longrightarrow> (j, b) \<in> set tips \<or> (j = i \<and> b = h)"
  by (induction i h tips rule: set_hidden.induct) (auto split: if_splits)

lemma set_hidden_done: "distinct (map fst tips) \<Longrightarrow> (i, b) \<in> set (set_hidden i h tips) \<Longrightarrow> b = h"
  by (induction i h tips rule: set_hidden.induct) (auto simp: rev_image_eqI split: if_splits)

lemma names_hide_at: "map gs_name (sers[i := hide (sers ! i)]) = map gs_name sers"
proof (cases "i < length sers")
  case True
  then have "map gs_name (sers[i := hide (sers ! i)]) = (map gs_name sers)[i := map gs_name sers ! i]"
    by (simp add: map_update hide_def)
  then show ?thesis by simp
qed (simp add: list_update_beyond)

lemma names_makeSubChart:
  "map gs_name (gr_series (makeSubChart i p w h g)) = map gs_name (gr_series g)"
  by (simp add: makeSubChart_def Let_def names_hide_at)

lemma makeSubChart_other [simp]:
  "gr_isGrid (makeSubChart i p w h g) = gr_isGrid g"
  "gr_axes (makeSubChart i p w h g) = gr_axes g"
  "gr_collapsing (makeSubChart i p w h g) = gr_collapsing g"
  "gr_made (makeSubChart i p w h g) = Suc (gr_made g)"
  "map fst (gr_tips (makeSubChart i p w h g)) = map fst (gr_tips g)"
  by (simp_all add: makeSubChart_def Let_def)

definition hidden_tips :: "grid \<Rightarrow> string set" where
  "hidden_tips g = {j. (j, True) \<in> set (gr_tips g)}"

definition title_of :: "grid \<Rightarrow> nat \<Rightarrow> string" where
  "title_of g i = lotIdFromSeriesName (map gs_name (gr_series g) ! i)"

lemma panels_makeSubChart:
  "i < length (gr_series g) \<Longrightarrow>
   gr_panels (makeSubChart i p w h g) = gr_panels g @
     [\<lparr>pn_made = gr_made g, pn_title = title_of g i,
       pn_position = (num_mul (num_of_nat (p mod columns)) w, num_mul (num_of_nat (p div columns)) h, w, h)\<rparr>]"
  by (simp add: makeSubChart_def Let_def title_of_def)

lemma tips_makeSubChart:
  "i < length (gr_series g) \<Longrightarrow>
   gr_tips (makeSubChart i p w h g) = set_hidden (tipId (title_of g i)) True (gr_tips g)"
  by (simp add: makeSubChart_def Let_def title_of_def)

lemma title_of_makeSubChart [simp]: "title_of (makeSubChart i p w h g) = title_of g"
  by (simp add: title_of_def fun_eq_iff names_makeSubChart)

lemma length_makeSubChart [simp]:
  "length (gr_series (makeSubChart i p w h g)) = length (gr_series g)"
  using arg_cong [OF names_makeSubChart, of length] by simp

text \<open>The loop over the panels, over any list of panel numbers and indices in range.\<close>

definition make_panels :: "jsnum \<Rightarrow> jsnum \<Rightarrow> grid \<Rightarrow> (nat \<times> nat) list \<Rightarrow> grid" where
  "make_panels w h = foldl (\<lambda>g (panel, rsIndex). makeSubChart rsIndex panel w h g)"

lemma make_panels_Cons: "make_panels w h g ((p, i) # ps) = make_panels w h (makeSubChart i p w h g) ps"
  by (simp add: make_panels_def)

lemma make_panels_frame:
  "map gs_name (gr_series (make_panels w h g ps)) = map gs_name (gr_series g) \<and>
   gr_isGrid (make_panels w h g ps) = gr_isGrid g \<and> gr_axes (make_panels w h g ps) = gr_axes g \<and>
   gr_collapsing (make_panels w h g ps) = gr_collapsing g \<and>
   map fst (gr_tips (make_panels w h g ps)) = map fst (gr_tips g) \<and>
   gr_made (make_panels w h g ps) = gr_made g + length ps"
proof (induction ps arbitrary: g)
  case (Cons pi ps)
  obtain p i where "pi = (p, i)" by fastforce
  with Cons show ?case by (simp add: make_panels_Cons names_makeSubChart)
qed (simp add: make_panels_def)

lemma hidden_makeSubChart:
  "i < length (gr_series g) \<Longrightarrow>
   hidden_tips (makeSubChart i p w h g) \<subseteq> insert (tipId (title_of g i)) (hidden_tips g)"
  using set_hidden_mem [of _ True "tipId (title_of g i)" True "gr_tips g"]
  by (auto simp: hidden_tips_def tips_makeSubChart)

lemma make_panels_titles:
  "\<forall>i \<in> snd ` set ps. i < length (gr_series g) \<Longrightarrow>
   map pn_title (gr_panels (make_panels w h g ps)) =
     map pn_title (gr_panels g) @ map (title_of g \<circ> snd) ps"
proof (induction ps arbitrary: g)
  case (Cons pi ps)
  obtain p i where pi: "pi = (p, i)" by fastforce
  with Cons show ?case by (simp add: make_panels_Cons panels_makeSubChart)
qed (simp add: make_panels_def)

lemma make_panels_hidden:
  "\<forall>i \<in> snd ` set ps. i < length (gr_series g) \<Longrightarrow>
   hidden_tips (make_panels w h g ps) \<subseteq> tipId ` (title_of g \<circ> snd) ` set ps \<union> hidden_tips g"
proof (induction ps arbitrary: g)
  case (Cons pi ps)
  obtain p i where pi: "pi = (p, i)" by fastforce
  with Cons.prems have i: "i < length (gr_series g)" by simp
  have "hidden_tips (make_panels w h (makeSubChart i p w h g) ps) \<subseteq>
      tipId ` (title_of g \<circ> snd) ` set ps \<union> hidden_tips (makeSubChart i p w h g)"
    using Cons.IH [of "makeSubChart i p w h g"] Cons.prems by simp
  with hidden_makeSubChart [OF i, of p w h] show ?case
    by (fastforce simp: pi make_panels_Cons)
qed (simp add: make_panels_def)

subsection \<open>What the grid looks like\<close>

lemma primary_in_range: "i \<in> set (primaryIndexes sers) \<Longrightarrow> i < length sers"
  by (simp add: primaryIndexes_def)

lemma primary_names:
  assumes "map gs_name a = map gs_name b"
  shows "primaryIndexes a = primaryIndexes b"
proof -
  have len: "length a = length b" using assms by (metis length_map)
  have "gs_name (a ! i) = gs_name (b ! i)" if "i < length a" for i
    using assms len that by (metis nth_map)
  with len show ?thesis by (auto simp: primaryIndexes_def isCompanion_def intro: filter_cong)
qed

lemma makeGridLayout_conv:
  assumes "primaryIndexes (gr_series g) \<noteq> []"
  shows "makeGridLayout g =
    (let made = make_panels (num_div (Fin 1) (num_of_nat columns))
           (num_div (Fin 1) (num_of_nat (panel_rows (length (primaryIndexes (gr_series g)))))) g
           (enumerate 0 (primaryIndexes (gr_series g)))
     in made\<lparr>gr_series := map (\<lambda>rs. if isCompanion rs then hide rs else rs) (gr_series made),
             gr_axes := False\<rparr>)"
  using assms by (simp add: makeGridLayout_def make_panels_def Let_def)

definition lot_titles :: "grid \<Rightarrow> string list" where
  "lot_titles g = map (title_of g) (primaryIndexes (gr_series g))"

lemma makeGridLayout_facts:
  assumes "primaryIndexes (gr_series g) \<noteq> []"
  shows "map gs_name (gr_series (makeGridLayout g)) = map gs_name (gr_series g)"
    and "gr_isGrid (makeGridLayout g) = gr_isGrid g"
    and "\<not> gr_axes (makeGridLayout g)"
    and "gr_collapsing (makeGridLayout g) = gr_collapsing g"
    and "map fst (gr_tips (makeGridLayout g)) = map fst (gr_tips g)"
    and "gr_made (makeGridLayout g) = gr_made g + length (primaryIndexes (gr_series g))"
    and "map pn_title (gr_panels (makeGridLayout g)) = map pn_title (gr_panels g) @ lot_titles g"
    and "hidden_tips (makeGridLayout g) \<subseteq> tipId ` set (lot_titles g) \<union> hidden_tips g"
proof -
  let ?ps = "enumerate 0 (primaryIndexes (gr_series g))"
  let ?made = "make_panels (num_div (Fin 1) (num_of_nat columns))
    (num_div (Fin 1) (num_of_nat (panel_rows (length (primaryIndexes (gr_series g)))))) g ?ps"
  have conv: "makeGridLayout g = ?made\<lparr>gr_series := map (\<lambda>rs. if isCompanion rs then hide rs else rs)
      (gr_series ?made), gr_axes := False\<rparr>"
    using makeGridLayout_conv [OF assms] by (simp add: Let_def)
  have snds: "map snd ?ps = primaryIndexes (gr_series g)" by simp
  then have snd_set: "snd ` set ?ps = set (primaryIndexes (gr_series g))" by (metis list.set_map)
  have range: "\<forall>i \<in> snd ` set ?ps. i < length (gr_series g)"
    unfolding snd_set using primary_in_range by blast
  have name: "gs_name \<circ> (\<lambda>rs. if isCompanion rs then hide rs else rs) = gs_name"
    by (auto simp: fun_eq_iff hide_def)
  show "map gs_name (gr_series (makeGridLayout g)) = map gs_name (gr_series g)"
    using make_panels_frame [of _ _ g ?ps] by (simp add: conv name)
  show "gr_isGrid (makeGridLayout g) = gr_isGrid g" "\<not> gr_axes (makeGridLayout g)"
    "gr_collapsing (makeGridLayout g) = gr_collapsing g"
    "map fst (gr_tips (makeGridLayout g)) = map fst (gr_tips g)"
    "gr_made (makeGridLayout g) = gr_made g + length (primaryIndexes (gr_series g))"
    using make_panels_frame [of _ _ g ?ps] by (simp_all add: conv)
  have titles: "map (title_of g \<circ> snd) ?ps = lot_titles g"
    unfolding lot_titles_def by (metis snds map_map)
  show "map pn_title (gr_panels (makeGridLayout g)) = map pn_title (gr_panels g) @ lot_titles g"
    using make_panels_titles [OF range] titles by (simp add: conv)
  have "(title_of g \<circ> snd) ` set ?ps = set (lot_titles g)"
    using titles by (metis list.set_map)
  then show "hidden_tips (makeGridLayout g) \<subseteq> tipId ` set (lot_titles g) \<union> hidden_tips g"
    using make_panels_hidden [OF range] by (simp add: conv hidden_tips_def)
qed

lemma visible_hide_named: "j < length sers \<Longrightarrow> gs_visible (hide_named n sers ! j) \<Longrightarrow> gs_visible (sers ! j)"
  by (induction n sers arbitrary: j rule: hide_named.induct)
    (auto simp: hide_def nth_Cons' split: if_splits)

lemma visible_makeSubChart:
  assumes "j < length (gr_series g)" and "gs_visible (gr_series (makeSubChart i p w h g) ! j)"
  shows "gs_visible (gr_series g ! j) \<and> j \<noteq> i"
proof -
  have "gs_visible ((gr_series g)[i := hide (gr_series g ! i)] ! j)"
    using assms visible_hide_named [of j "(gr_series g)[i := hide (gr_series g ! i)]"]
    by (simp add: makeSubChart_def Let_def)
  then show ?thesis using assms(1) by (cases "j = i") (auto simp: hide_def)
qed

lemma visible_make_panels:
  "j < length (gr_series g) \<Longrightarrow> gs_visible (gr_series (make_panels w h g ps) ! j) \<Longrightarrow>
   gs_visible (gr_series g ! j) \<and> j \<notin> snd ` set ps"
proof (induction ps arbitrary: g)
  case (Cons pi ps)
  obtain p i where pi: "pi = (p, i)" by fastforce
  have "gs_visible (gr_series (makeSubChart i p w h g) ! j) \<and> j \<notin> snd ` set ps"
    using Cons.IH [of "makeSubChart i p w h g"] Cons.prems by (simp add: pi make_panels_Cons)
  with visible_makeSubChart [OF Cons.prems(1)] show ?case by (auto simp: pi)
qed (simp add: make_panels_def)

definition panel_cell :: "jsnum \<Rightarrow> jsnum \<Rightarrow> nat \<Rightarrow> jsnum \<times> jsnum \<times> jsnum \<times> jsnum" where
  "panel_cell w h p =
     (num_mul (num_of_nat (p mod columns)) w, num_mul (num_of_nat (p div columns)) h, w, h)"

lemma make_panels_cells:
  "\<forall>i \<in> snd ` set ps. i < length (gr_series g) \<Longrightarrow>
   map pn_position (gr_panels (make_panels w h g ps)) =
     map pn_position (gr_panels g) @ map (panel_cell w h \<circ> fst) ps"
proof (induction ps arbitrary: g)
  case (Cons pi ps)
  obtain p i where pi: "pi = (p, i)" by fastforce
  with Cons show ?case by (simp add: make_panels_Cons panels_makeSubChart panel_cell_def)
qed (simp add: make_panels_def)

lemma grid_all_hidden:
  assumes "primaryIndexes (gr_series g) \<noteq> []" and "rs \<in> set (gr_series (makeGridLayout g))"
  shows "\<not> gs_visible rs"
proof
  assume vis: "gs_visible rs"
  let ?ps = "enumerate 0 (primaryIndexes (gr_series g))"
  let ?made = "make_panels (num_div (Fin 1) (num_of_nat columns))
    (num_div (Fin 1) (num_of_nat (panel_rows (length (primaryIndexes (gr_series g)))))) g ?ps"
  have names: "map gs_name (gr_series ?made) = map gs_name (gr_series g)"
    using make_panels_frame by blast
  have len: "length (gr_series ?made) = length (gr_series g)"
    using arg_cong [OF names, of length] by simp
  have "rs \<in> (\<lambda>rs. if isCompanion rs then hide rs else rs) ` set (gr_series ?made)"
    using assms by (simp add: makeGridLayout_conv Let_def)
  then have mem: "rs \<in> set (gr_series ?made)" "\<not> isCompanion rs"
    using vis by (auto simp: hide_def split: if_splits)
  then obtain j where j: "j < length (gr_series g)" "rs = gr_series ?made ! j"
    by (metis in_set_conv_nth len)
  have "gs_name rs = gs_name (gr_series g ! j)"
    using j len names by (metis nth_map)
  then have "j \<in> set (primaryIndexes (gr_series g))"
    using mem(2) j(1) by (simp add: primaryIndexes_def isCompanion_def)
  moreover have "snd ` set ?ps = set (primaryIndexes (gr_series g))"
    by (metis list.set_map map_snd_enumerate)
  ultimately show False
    using visible_make_panels [of j g _ _ ?ps] j vis by blast
qed

lemma grid_cells:
  assumes "primaryIndexes (gr_series g) \<noteq> []" and "gr_panels g = []"
  shows "map pn_position (gr_panels (makeGridLayout g)) =
    map (panel_cell (num_div (Fin 1) (num_of_nat columns))
          (num_div (Fin 1) (num_of_nat (panel_rows (length (primaryIndexes (gr_series g)))))))
      [0..<length (primaryIndexes (gr_series g))]"
proof -
  let ?ps = "enumerate 0 (primaryIndexes (gr_series g))"
  have "snd ` set ?ps = set (primaryIndexes (gr_series g))"
    by (metis list.set_map map_snd_enumerate)
  then have range: "\<forall>i \<in> snd ` set ?ps. i < length (gr_series g)"
    using primary_in_range by blast
  have fsts: "map (f \<circ> fst) ?ps = map f [0..<length (primaryIndexes (gr_series g))]"
    for f :: "nat \<Rightarrow> jsnum \<times> jsnum \<times> jsnum \<times> jsnum"
    by (simp flip: map_map)
  show ?thesis
    using assms make_panels_cells [OF range] by (simp add: makeGridLayout_conv Let_def fsts)
qed

subsection \<open>Completions\<close>

definition complete_all :: "grid \<Rightarrow> panel list \<Rightarrow> grid" where
  "complete_all = foldl (\<lambda>g p. collapsed p g)"

lemma complete_all_simps [simp]:
  "complete_all g [] = g" "complete_all g (p # ps) = complete_all (collapsed p g) ps"
  by (simp_all add: complete_all_def)

lemma collapsed_other [simp]:
  "gr_isGrid (collapsed p g) = gr_isGrid g" "gr_axes (collapsed p g) = gr_axes g"
  "gr_made (collapsed p g) = gr_made g" "gr_collapsing (collapsed p g) = remove1 p (gr_collapsing g)"
  "gr_panels (collapsed p g) = filter (\<lambda>q. pn_made q \<noteq> pn_made p) (gr_panels g)"
  "map gs_name (gr_series (collapsed p g)) = map gs_name (gr_series g)"
  "map fst (gr_tips (collapsed p g)) = map fst (gr_tips g)"
  by (auto simp: collapsed_def restoreLot_def Let_def)

lemma complete_all_frame:
  "gr_isGrid (complete_all g ps) = gr_isGrid g \<and> gr_axes (complete_all g ps) = gr_axes g \<and>
   gr_made (complete_all g ps) = gr_made g \<and>
   mset (gr_collapsing (complete_all g ps)) = mset (gr_collapsing g) - mset ps \<and>
   gr_panels (complete_all g ps) = filter (\<lambda>q. pn_made q \<notin> pn_made ` set ps) (gr_panels g) \<and>
   map gs_name (gr_series (complete_all g ps)) = map gs_name (gr_series g) \<and>
   map fst (gr_tips (complete_all g ps)) = map fst (gr_tips g)"
proof (induction ps arbitrary: g)
  case (Cons p ps)
  have "filter (\<lambda>q. pn_made q \<notin> pn_made ` set ps) (filter (\<lambda>q. pn_made q \<noteq> pn_made p) (gr_panels g)) =
      filter (\<lambda>q. pn_made q \<notin> pn_made ` set (p # ps)) (gr_panels g)"
    by (auto intro: filter_cong)
  with Cons.IH [of "collapsed p g"] show ?case by (simp add: diff_diff_eq)
qed simp

lemma collapsed_shows:
  assumes "\<not> gs_visible rs'" and "rs' \<in> set (gr_series (collapsed p g))" and "pn_title p \<noteq> []"
  shows "rs' \<in> set (gr_series g) \<and> \<not> belongs (pn_title p) (gs_name rs')"
  using assms by (auto simp: collapsed_def restoreLot_def Let_def split: if_splits)

lemma collapsed_restores:
  assumes "rs \<in> set (gr_series g)" and "gs_name rs = pn_title p" and "pn_title p \<noteq> []"
  shows "\<exists>rs \<in> set (gr_series (collapsed p g)). gs_name rs = pn_title p \<and> gs_visible rs"
proof (rule bexI)
  have "belongs (pn_title p) (gs_name rs)" using assms(2) by (simp add: belongs_def)
  with assms(1,3) show "rs\<lparr>gs_visible := True\<rparr> \<in> set (gr_series (collapsed p g))"
    by (auto simp: collapsed_def restoreLot_def Let_def)
qed (use assms(2) in simp)

lemma complete_all_shows:
  "\<not> gs_visible rs \<Longrightarrow> rs \<in> set (gr_series (complete_all g ps)) \<Longrightarrow>
   \<forall>p \<in> set ps. pn_title p \<noteq> [] \<Longrightarrow>
   rs \<in> set (gr_series g) \<and> (\<forall>p \<in> set ps. \<not> belongs (pn_title p) (gs_name rs))"
proof (induction ps arbitrary: g)
  case (Cons p ps)
  then have "rs \<in> set (gr_series (collapsed p g))" "\<forall>p \<in> set ps. \<not> belongs (pn_title p) (gs_name rs)"
    by auto
  with collapsed_shows [of rs p g] Cons.prems show ?case by simp
qed simp

lemma collapsed_tips:
  assumes "distinct (map fst (gr_tips g))" and "pn_title p \<noteq> []"
  shows "hidden_tips (collapsed p g) \<subseteq> hidden_tips g - {tipId (pn_title p)}"
  using assms set_hidden_mem [of _ True "tipId (pn_title p)" False "gr_tips g"]
    set_hidden_done [of "gr_tips g" "tipId (pn_title p)" True False]
  by (auto simp: hidden_tips_def collapsed_def restoreLot_def Let_def)

lemma complete_all_tips:
  "distinct (map fst (gr_tips g)) \<Longrightarrow> \<forall>p \<in> set ps. pn_title p \<noteq> [] \<Longrightarrow>
   hidden_tips (complete_all g ps) \<subseteq> hidden_tips g - tipId ` pn_title ` set ps"
proof (induction ps arbitrary: g)
  case (Cons p ps)
  have "hidden_tips (complete_all (collapsed p g) ps) \<subseteq>
      hidden_tips (collapsed p g) - tipId ` pn_title ` set ps"
    using Cons by simp
  with collapsed_tips [of g p] Cons.prems show ?case by fastforce
qed simp

subsection \<open>The grid of a chart\<close>

definition plain_ids :: "choice_chart \<Rightarrow> bool" where
  "plain_ids c \<longleftrightarrow> list_all (\<lambda>i. i \<noteq> [] \<and> \<not> includes_str i band_suffix) (lot_keys c)"

lemma nth_filter: "map (nth xs) (filter (\<lambda>i. P (xs ! i)) [0..<length xs]) = filter P xs"
proof -
  have "filter P (map (nth xs) [0..<length xs]) = map (nth xs) (filter (\<lambda>i. P (xs ! i)) [0..<length xs])"
    by (simp add: filter_map comp_def)
  then show ?thesis by (simp add: map_nth)
qed

lemma lot_titles_conv:
  "lot_titles g = map (lotIdFromSeriesName \<circ> gs_name) (filter (\<lambda>rs. \<not> isCompanion rs) (gr_series g))"
proof -
  have "lot_titles g = map (\<lambda>i. lotIdFromSeriesName (gs_name (gr_series g ! i))) (primaryIndexes (gr_series g))"
    by (simp add: lot_titles_def title_of_def primaryIndexes_def)
  also have "\<dots> = map (lotIdFromSeriesName \<circ> gs_name) (map (nth (gr_series g)) (primaryIndexes (gr_series g)))"
    by simp
  also have "map (nth (gr_series g)) (primaryIndexes (gr_series g)) = filter (\<lambda>rs. \<not> isCompanion rs) (gr_series g)"
    unfolding primaryIndexes_def by (rule nth_filter)
  finally show ?thesis .
qed

lemma plain_title: "\<not> includes_str i band_suffix \<Longrightarrow> lotIdFromSeriesName i = i"
  by (auto simp: lotIdFromSeriesName_def ends_with_def includes_str_def dest: suffix_imp_sublist)

lemma chart_titles:
  assumes "chart_ok c" and "plain_ids c"
  shows "lot_titles (grid_of c) = lot_keys c"
proof -
  obtain B where B: "cc_series c = B @ map line_of (lot_keys c)"
      "set B = (\<lambda>i. band_of i (strokeFor i)) ` banded c"
    using assms(1) unfolding chart_ok_def series_ok_def by blast
  let ?s = "\<lambda>s. \<lparr>gs_name = seriesName s, gs_visible = True\<rparr>"
  have bands: "isCompanion (?s b)" if "b \<in> set B" for b
    using that B(2) by (auto simp: isCompanion_def band_of_def includes_str_def)
  have lines: "\<not> isCompanion (?s (line_of i))" "lotIdFromSeriesName (seriesName (line_of i)) = i"
    if "i \<in> set (lot_keys c)" for i
    using that assms(2) by (auto simp: plain_ids_def list_all_iff isCompanion_def line_of_def plain_title)
  have "filter (\<lambda>rs. \<not> isCompanion rs) (gr_series (grid_of c)) = map (?s \<circ> line_of) (lot_keys c)"
    using bands lines by (simp add: grid_of_def B(1) filter_map comp_def filter_empty_conv)
  then show ?thesis using lines by (simp add: lot_titles_conv map_idI)
qed

lemma no_lots_no_panels: "primaryIndexes (gr_series g) = [] \<longleftrightarrow> lot_titles g = []"
  by (simp add: lot_titles_def)

lemma series_owned:
  assumes "chart_ok c" and "s \<in> set (cc_series c)"
  shows "\<exists>i \<in> set (lot_keys c). belongs i (seriesName s)"
proof -
  obtain B where B: "cc_series c = B @ map line_of (lot_keys c)"
      "set B = (\<lambda>i. band_of i (strokeFor i)) ` banded c"
    using assms(1) unfolding chart_ok_def series_ok_def by blast
  have line: "belongs i (seriesName (line_of i))" and band: "belongs i (seriesName (band_of i t))" for i t
    by (simp_all add: belongs_def line_of_def band_of_def band_suffix_def starts_with_def)
  have "banded c \<subseteq> set (lot_keys c)" by (auto simp: banded_def key_iff_lot)
  moreover have "s \<in> set B \<or> s \<in> line_of ` set (lot_keys c)" using assms(2) B(1) by simp
  ultimately obtain i where "i \<in> set (lot_keys c)" "s = line_of i \<or> s = band_of i (strokeFor i)"
    unfolding B(2) by (elim disjE imageE) blast+
  with line band show ?thesis by auto
qed

lemma grid_series_eq:
  assumes "map gs_name a = map gs_name b" and "\<forall>r \<in> set a. gs_visible r" and "\<forall>r \<in> set b. gs_visible r"
  shows "(a :: grid_series list) = b"
proof (rule nth_equalityI)
  show len: "length a = length b" using assms(1) by (metis length_map)
  fix i assume i: "i < length a"
  then have "gs_name (a ! i) = gs_name (b ! i)" using assms(1) len by (metis nth_map)
  moreover have "gs_visible (a ! i) = gs_visible (b ! i)" using assms(2,3) i len by simp
  ultimately show "a ! i = b ! i" by (cases "a ! i"; cases "b ! i") simp
qed

lemma tips_eq:
  assumes "map fst a = map fst b" and "\<forall>j. (j, True) \<notin> set a" and "\<forall>j. (j, True) \<notin> set b"
  shows "a = (b :: (string \<times> bool) list)"
proof (rule nth_equalityI)
  show len: "length a = length b" using assms(1) by (metis length_map)
  fix i assume i: "i < length a"
  have "fst (a ! i) = fst (b ! i)" using assms(1) i len by (metis nth_map)
  moreover have "\<not> snd (a ! i)" "\<not> snd (b ! i)"
  proof -
    have "a ! i \<in> set a" "b ! i \<in> set b" using i len by simp_all
    with assms(2,3) show "\<not> snd (a ! i)" "\<not> snd (b ! i)"
      by (cases "a ! i"; cases "b ! i"; force)+
  qed
  ultimately show "a ! i = b ! i" by (simp add: prod_eq_iff)
qed

lemma tips_of_chart:
  assumes "chart_reach dp c"
  shows "distinct (map fst (gr_tips (grid_of c)))" and "hidden_tips (grid_of c) = {}"
proof -
  obtain T where T: "cc_notes c = zero_line # T" "distinct (map an_id T)"
      "an_id ` set T = tipId ` set (lot_keys c)"
    using chart_reach_tips [OF assms] by blast
  have "an_id zero_line \<notin> an_id ` set T" by (auto simp: T(3) zero_line_def)
  with T(1,2) show "distinct (map fst (gr_tips (grid_of c)))" by (simp add: grid_of_def comp_def)
  show "hidden_tips (grid_of c) = {}" by (auto simp: hidden_tips_def grid_of_def)
qed

definition one_chart :: choice_chart where
  "one_chart = fst (sync Map.empty one_lot Paper drawOpenChoiceChart)"

lemma one_chart_reach: "chart_reach Map.empty one_chart"
  unfolding one_chart_def by (rule published [OF drawn one_lot_each])

lemma one_chart_keys: "lot_keys one_chart = [''a'']"
proof -
  have held: "held_ids Map.empty one_lot Paper \<subseteq> {''a''}"
    by (auto simp: held_ids_def one_lot_def map_values_def pos_id_def)
  have "set (lot_keys one_chart) = {''a''}"
    using held one_lot_bind
    by (auto simp: key_iff_lot one_chart_def lot_sync [OF one_lot_each] split: if_splits)
  moreover have "distinct (lot_keys one_chart)"
    using chart_reach_ok [OF one_chart_reach] by (simp add: chart_ok_def)
  ultimately show ?thesis
    by (cases "lot_keys one_chart"; cases "tl (lot_keys one_chart)") auto
qed

lemma one_chart_plain: "plain_ids one_chart"
  using sublist_length_le [of band_suffix "''a''"]
  by (auto simp: plain_ids_def one_chart_keys includes_str_def band_suffix_def)

subsection \<open>Properties\<close>

text \<open>
  In the grid every lot of the chart has exactly one panel, in the order of the lots, two panels to
  a row; the original lines, bands and axes are hidden.
\<close>

theorem grid_one_panel_per_lot:
  assumes reach: "chart_reach dp c" and plain: "plain_ids c" and some: "lot_keys c \<noteq> []"
  defines "g \<equiv> setIsGrid True (grid_of c)"
  shows "map pn_title (gr_panels g) = lot_keys c \<and>
    map pn_position (gr_panels g) =
      map (panel_cell (num_div (Fin 1) (num_of_nat 2)) (num_div (Fin 1) (num_of_nat ((length (lot_keys c) + 1) div 2))))
        [0..<length (lot_keys c)] \<and>
    (\<forall>rs \<in> set (gr_series g). \<not> gs_visible rs) \<and> \<not> gr_axes g"
proof -
  let ?g = "grid_of c\<lparr>gr_isGrid := True\<rparr>"
  have g: "g = makeGridLayout ?g" by (simp add: g_def setIsGrid_def grid_of_def)
  have titles: "lot_titles ?g = lot_keys c"
    using chart_titles [of c] chart_reach_ok [OF reach] plain by (simp add: lot_titles_conv)
  then have prim: "primaryIndexes (gr_series ?g) \<noteq> []" using some no_lots_no_panels by metis
  have "length (lot_titles ?g) = length (primaryIndexes (gr_series ?g))" by (simp add: lot_titles_def)
  then have len: "length (primaryIndexes (gr_series ?g)) = length (lot_keys c)" by (simp add: titles)
  have none: "gr_panels ?g = []" by (simp add: grid_of_def)
  show ?thesis
    using makeGridLayout_facts(3,7) [OF prim] grid_all_hidden [OF prim] grid_cells [OF prim none]
    by (simp only: g titles none len panel_rows_def columns_def) (simp del: upt_Suc)
qed

lemma grid_one_panel_per_lot_witness:
  "map pn_title (gr_panels (setIsGrid True (grid_of one_chart))) = [''a'']"
  using grid_one_panel_per_lot [OF one_chart_reach one_chart_plain] by (simp add: one_chart_keys)

text \<open>The grid of a chart with lots, left again: every panel is collapsing, nothing else is lost.\<close>

definition left_grid :: "choice_chart \<Rightarrow> grid" where
  "left_grid c = makeSingleChart ((makeGridLayout ((grid_of c)\<lparr>gr_isGrid := True\<rparr>))\<lparr>gr_isGrid := False\<rparr>)"

lemma left_grid_facts:
  assumes reach: "chart_reach dp c" and plain: "plain_ids c" and some: "lot_keys c \<noteq> []"
  shows "setIsGrid False (setIsGrid True (grid_of c)) = left_grid c"
    and "map gs_name (gr_series (left_grid c)) = map gs_name (gr_series (grid_of c))"
    and "map fst (gr_tips (left_grid c)) = map fst (gr_tips (grid_of c))"
    and "hidden_tips (left_grid c) \<subseteq> tipId ` set (lot_keys c)"
    and "gr_panels (left_grid c) = gr_collapsing (left_grid c)"
    and "map pn_title (gr_collapsing (left_grid c)) = lot_keys c"
    and "gr_made (left_grid c) = length (lot_keys c)"
    and "\<not> gr_isGrid (left_grid c) \<and> gr_axes (left_grid c)"
proof -
  let ?g = "(grid_of c)\<lparr>gr_isGrid := True\<rparr>"
  have titles: "lot_titles ?g = lot_keys c"
    using chart_titles [OF _ plain] chart_reach_ok [OF reach] by (simp add: lot_titles_conv)
  then have prim: "primaryIndexes (gr_series ?g) \<noteq> []" using some no_lots_no_panels by metis
  note facts = makeGridLayout_facts [OF prim]
  show "setIsGrid False (setIsGrid True (grid_of c)) = left_grid c"
    using facts(2) by (simp add: setIsGrid_def left_grid_def) (simp add: grid_of_def)
  show "map gs_name (gr_series (left_grid c)) = map gs_name (gr_series (grid_of c))"
    and "map fst (gr_tips (left_grid c)) = map fst (gr_tips (grid_of c))"
    using facts(1,5) by (simp_all add: left_grid_def makeSingleChart_def)
  show "hidden_tips (left_grid c) \<subseteq> tipId ` set (lot_keys c)"
    using facts(8) tips_of_chart(2) [OF reach]
    by (simp add: left_grid_def makeSingleChart_def hidden_tips_def titles)
  show "gr_panels (left_grid c) = gr_collapsing (left_grid c)"
    and "map pn_title (gr_collapsing (left_grid c)) = lot_keys c"
    using facts(4,7) titles by (simp_all add: left_grid_def makeSingleChart_def grid_of_def)
  have "length (primaryIndexes (gr_series ?g)) = length (lot_keys c)"
    using titles by (metis length_map lot_titles_def)
  then show "gr_made (left_grid c) = length (lot_keys c)"
    using facts(6) by (simp add: left_grid_def makeSingleChart_def) (simp add: grid_of_def)
  show "\<not> gr_isGrid (left_grid c) \<and> gr_axes (left_grid c)"
    by (simp add: left_grid_def makeSingleChart_def)
qed

text \<open>Once panels for all lots have collapsed, each line and each tip is back.\<close>

lemma left_series_back:
  assumes "chart_reach dp c" "map gs_name (gr_series g) = map gs_name (gr_series (grid_of c))"
    and set_ps: "pn_title ` set ps = set (lot_keys c)" and named: "\<forall>p \<in> set ps. pn_title p \<noteq> []"
  shows "gr_series (complete_all g ps) = gr_series (grid_of c)"
proof (rule grid_series_eq)
  show names: "map gs_name (gr_series (complete_all g ps)) = map gs_name (gr_series (grid_of c))"
    using complete_all_frame [of g ps] assms(2) by simp
  show "\<forall>r \<in> set (gr_series (complete_all g ps)). gs_visible r"
  proof (rule ballI, rule ccontr)
    fix r assume r: "r \<in> set (gr_series (complete_all g ps))" "\<not> gs_visible r"
    then have "gs_name r \<in> set (map gs_name (gr_series (grid_of c)))"
      using names by (metis image_eqI list.set_map)
    then obtain sr where "sr \<in> set (cc_series c)" "gs_name r = seriesName sr"
      by (auto simp: grid_of_def)
    with series_owned chart_reach_ok [OF assms(1)]
    obtain i where "i \<in> set (lot_keys c)" "belongs i (gs_name r)" by metis
    with set_ps obtain p where "p \<in> set ps" "belongs (pn_title p) (gs_name r)"
      by (metis image_iff)
    with complete_all_shows [OF r(2,1) named] show False by blast
  qed
qed (auto simp: grid_of_def)

lemma left_tips_back:
  assumes "chart_reach dp c" "map fst (gr_tips g) = map fst (gr_tips (grid_of c))"
    and hid: "hidden_tips g \<subseteq> tipId ` set (lot_keys c)"
    and set_ps: "pn_title ` set ps = set (lot_keys c)" and named: "\<forall>p \<in> set ps. pn_title p \<noteq> []"
  shows "gr_tips (complete_all g ps) = gr_tips (grid_of c)"
proof (rule tips_eq)
  show "map fst (gr_tips (complete_all g ps)) = map fst (gr_tips (grid_of c))"
    using complete_all_frame [of g ps] assms(2) by simp
  have "distinct (map fst (gr_tips g))" using assms(2) tips_of_chart(1) [OF assms(1)] by simp
  from complete_all_tips [OF this named]
  have "hidden_tips (complete_all g ps) \<subseteq> hidden_tips g - tipId ` set (lot_keys c)"
    by (simp add: set_ps image_image)
  with hid show "\<forall>j. (j, True) \<notin> set (gr_tips (complete_all g ps))"
    by (auto simp: hidden_tips_def)
  show "\<forall>j. (j, True) \<notin> set (gr_tips (grid_of c))"
    using tips_of_chart(2) [OF assms(1)] by (auto simp: hidden_tips_def)
qed

lemma left_grid_restored:
  assumes reach: "chart_reach dp c" and plain: "plain_ids c" and some: "lot_keys c \<noteq> []"
    and mps: "mset ps = mset (gr_collapsing (left_grid c))"
  shows "complete_all (left_grid c) ps = (grid_of c)\<lparr>gr_made := length (lot_keys c)\<rparr>"
proof -
  note facts = left_grid_facts [OF reach plain some] and frame = complete_all_frame [of "left_grid c" ps]
  have set_ps: "pn_title ` set ps = set (lot_keys c)"
    using facts(6) mps by (metis list.set_map set_mset_mset)
  then have named: "\<forall>p \<in> set ps. pn_title p \<noteq> []"
    using plain by (force simp: plain_ids_def list_all_iff)
  have "gr_collapsing (complete_all (left_grid c) ps) = []"
    using frame mps by (metis diff_cancel mset_zero_iff)
  moreover have "gr_panels (complete_all (left_grid c) ps) = []"
    using frame facts(5) mps by (metis (mono_tags, lifting) filter_False image_eqI set_mset_mset)
  ultimately show ?thesis
    using frame facts(7,8) left_series_back [OF reach facts(2) set_ps named]
      left_tips_back [OF reach facts(3,4) set_ps named]
    by (intro grid.equality) (simp_all add: grid_of_def)
qed

text \<open>
  C32. Entering the grid and leaving it restores the chart once the animations of the panels have
  completed, in whatever order they do.
\<close>

theorem grid_round_trip:
  assumes reach: "chart_reach dp c" and plain: "plain_ids c"
    and all: "mset ps = mset (gr_collapsing (setIsGrid False (setIsGrid True (grid_of c))))"
  shows "complete_all (setIsGrid False (setIsGrid True (grid_of c))) ps =
    (grid_of c)\<lparr>gr_made := length (lot_keys c)\<rparr>"
proof (cases "lot_keys c = []")
  case True
  then have "lot_titles ((grid_of c)\<lparr>gr_isGrid := True\<rparr>) = []"
    using chart_titles [OF _ plain] chart_reach_ok [OF reach] by (simp add: lot_titles_conv)
  then have "primaryIndexes (gr_series ((grid_of c)\<lparr>gr_isGrid := True\<rparr>)) = []"
    using no_lots_no_panels by metis
  with True all show ?thesis
    by (simp add: setIsGrid_def makeGridLayout_def Let_def makeSingleChart_def grid_of_def)
next
  case False
  then show ?thesis using left_grid_restored [OF reach plain False] all left_grid_facts(1) [OF reach plain False] by simp
qed

lemma grid_round_trip_witness:
  "complete_all (setIsGrid False (setIsGrid True (grid_of one_chart)))
     (gr_collapsing (setIsGrid False (setIsGrid True (grid_of one_chart)))) =
   (grid_of one_chart)\<lparr>gr_made := 1\<rparr>"
  using grid_round_trip [OF one_chart_reach one_chart_plain refl] by (simp add: one_chart_keys)

lemma regrid_facts:
  assumes ok: "chart_ok c" and plain: "plain_ids c" and some: "lot_keys c \<noteq> []"
  defines "g \<equiv> setIsGrid True (setIsGrid False (setIsGrid True (grid_of c)))"
  shows "gr_collapsing g = gr_panels (setIsGrid True (grid_of c))"
    and "map gs_name (gr_series g) = map gs_name (gr_series (grid_of c))"
    and "gr_isGrid g" and "\<not> gr_axes g"
    and "map pn_title (gr_panels (setIsGrid True (grid_of c))) = lot_keys c"
proof -
  let ?g = "grid_of c\<lparr>gr_isGrid := True\<rparr>"
  have titles: "lot_titles ?g = lot_keys c"
    using chart_titles [OF ok plain] by (simp add: lot_titles_conv)
  have single: "\<not> gr_isGrid (grid_of c)" by (simp add: grid_of_def)
  then have on: "setIsGrid True (grid_of c) = makeGridLayout ?g" by (simp add: setIsGrid_def)
  have bare: "gr_collapsing (grid_of c) = []" "gr_panels (grid_of c) = []" by (simp_all add: grid_of_def)
  have prim: "primaryIndexes (gr_series ?g) \<noteq> []" using some titles no_lots_no_panels by metis
  note facts = makeGridLayout_facts [OF prim]
  define g2 where "g2 = makeSingleChart ((makeGridLayout ?g)\<lparr>gr_isGrid := False\<rparr>)\<lparr>gr_isGrid := True\<rparr>"
  have g: "g = makeGridLayout g2"
    using facts(2) single by (simp add: g_def on setIsGrid_def g2_def makeSingleChart_def)
  have names2: "map gs_name (gr_series g2) = map gs_name (gr_series ?g)"
    using facts(1) by (simp add: g2_def makeSingleChart_def)
  then have "primaryIndexes (gr_series g2) \<noteq> []" using prim primary_names by metis
  note facts2 = makeGridLayout_facts [OF this]
  show "gr_collapsing g = gr_panels (setIsGrid True (grid_of c))"
    using facts2(4) facts(4) bare by (simp add: g on g2_def makeSingleChart_def)
  show "map gs_name (gr_series g) = map gs_name (gr_series (grid_of c))"
    using facts2(1) names2 by (simp add: g)
  show "gr_isGrid g" using facts2(2) by (simp add: g) (simp add: g2_def)
  show "\<not> gr_axes g" using facts2(3) by (simp add: g)
  show "map pn_title (gr_panels (setIsGrid True (grid_of c))) = lot_keys c"
    using facts(7) titles bare by (simp add: on)
qed

text \<open>
  Entering the grid again before the animations of the last one have completed: the first completion
  brings the lot's own line back under the grid, although its panel is shown and the axes are hidden.
\<close>

theorem quick_toggle_shows_lot:
  assumes reach: "chart_reach dp c" and plain: "plain_ids c"
  defines "g \<equiv> setIsGrid True (setIsGrid False (setIsGrid True (grid_of c)))"
  assumes p: "p \<in> set (gr_collapsing g)"
  shows "gr_isGrid (collapsed p g) \<and> \<not> gr_axes (collapsed p g) \<and> pn_title p \<in> set (lot_keys c) \<and>
    (\<exists>rs \<in> set (gr_series (collapsed p g)). gs_name rs = pn_title p \<and> gs_visible rs)"
proof -
  have ok: "chart_ok c" using chart_reach_ok [OF reach] by simp
  have some: "lot_keys c \<noteq> []"
  proof
    assume none: "lot_keys c = []"
    have "lot_titles (grid_of c\<lparr>gr_isGrid := True\<rparr>) = []"
      using chart_titles [OF ok plain] none by (simp add: lot_titles_conv)
    then have "primaryIndexes (gr_series (grid_of c)) = []" using no_lots_no_panels
      by (metis grid.select_convs(2) grid.surjective grid.update_convs(1))
    with p show False
      by (simp add: g_def setIsGrid_def makeSingleChart_def makeGridLayout_def grid_of_def Let_def)
  qed
  note facts = regrid_facts [OF ok plain some, folded g_def]
  have "pn_title p \<in> set (map pn_title (gr_panels (setIsGrid True (grid_of c))))" using p facts(1) by simp
  then have title: "pn_title p \<in> set (lot_keys c)" by (simp only: facts(5))
  then have named: "pn_title p \<noteq> []" using plain by (auto simp: plain_ids_def list_all_iff)
  obtain B where "cc_series c = B @ map line_of (lot_keys c)"
    using ok unfolding chart_ok_def series_ok_def by blast
  with title have "pn_title p \<in> set (map gs_name (gr_series (grid_of c)))"
    by (auto simp: grid_of_def line_of_def image_iff)
  then obtain rs where "rs \<in> set (gr_series g)" "gs_name rs = pn_title p"
    unfolding facts(2) [symmetric] by auto
  with collapsed_restores [of rs g p] named
  have "\<exists>rs \<in> set (gr_series (collapsed p g)). gs_name rs = pn_title p \<and> gs_visible rs" by blast
  then show ?thesis using title facts(3,4) by simp
qed

lemma quick_toggle_shows_lot_witness:
  "\<exists>p. \<exists>rs \<in> set (gr_series (collapsed p (setIsGrid True (setIsGrid False (setIsGrid True (grid_of one_chart)))))).
     gs_name rs = ''a'' \<and> gs_visible rs"
proof -
  have ok: "chart_ok one_chart" using chart_reach_ok [OF one_chart_reach] by simp
  note facts = regrid_facts [OF ok one_chart_plain]
  have "map pn_title (gr_panels (setIsGrid True (grid_of one_chart))) = [''a'']"
    using facts(5) by (simp add: one_chart_keys)
  then obtain p where "p \<in> set (gr_panels (setIsGrid True (grid_of one_chart)))" "pn_title p = ''a''"
    by (cases "gr_panels (setIsGrid True (grid_of one_chart))") auto
  with facts(1) have "p \<in> set (gr_collapsing (setIsGrid True (setIsGrid False (setIsGrid True (grid_of one_chart)))))"
    by (simp add: one_chart_keys)
  from quick_toggle_shows_lot [OF one_chart_reach one_chart_plain this] \<open>pn_title p = ''a''\<close>
  show ?thesis by auto
qed

end
