(* ===== verification/KernelMeta.thy ===== *)
theory KernelMeta
  imports DeskRows
begin

text \<open>
  The signal kernels as the terminal names them (\<^verbatim>\<open>components/terminal/kernel-meta.ts\<close>): their order,
  the metrics they lead with, what is said of them, how their health is coloured and the sparkline of
  their history. Sources are the names the engine sends; a thrown \<^verbatim>\<open>Error\<close> is its message on the left.
\<close>

subsection \<open>Tables\<close>

definition TERMINAL_KERNEL_ORDER :: "string list" where
  "TERMINAL_KERNEL_ORDER =
     [
      ''prediction'', ''resonance'', ''hawkes'', ''cognitive'', ''causal'', ''manifold'', ''regime'',
      ''correlation'', ''pumpdump'', ''depthflow'', ''liquidity'', ''training'']"

definition SOURCE_HEADLINE :: "(string \<times> string) list" where
  "SOURCE_HEADLINE =
     [
      (''correlation'', ''herd_score''), (''cvd'', ''drive''), (''depthflow'', ''loaded_score''),
      (''hawkes'', ''spectral_radius''), (''leadlag'', ''sync_score''),
      (''liquidity'', ''scarcity_score''), (''morphology'', ''shape_stable''),
      (''pumpdump'', ''compression''), (''sentiment'', ''surge_score''),
      (''toxicity'', ''support_score''), (''training'', ''confidence'')]"

definition SOURCE_METRICS :: "(string \<times> string list) list" where
  "SOURCE_METRICS =
     [(''correlation'',
        [''herd_score'', ''peak_score'', ''alpha_score'', ''noise_score'', ''stress_score'',
         ''correlation'', ''energy'', ''strength'']),
      (''cvd'',
        [''drive'', ''net_fraction'', ''balance'', ''starvation'', ''absorption'', ''net'', ''value'']),
      (''depthflow'',
        [''loaded_score'', ''thin_score'', ''spoof_score'', ''hypothesis_separation'',
         ''neutral_score'', ''value'']),
      (''hawkes'',
        [''spectral_radius'', ''maturity'', ''branching_asymmetry'', ''total_buy_descendants'',
         ''total_sell_descendants'', ''buy_arrival_rate'', ''sell_arrival_rate'']),
      (''leadlag'',
        [''sync_score'', ''inefficient_score'', ''decoupled_score'', ''stall_score'', ''strength'']),
      (''liquidity'',
        [''scarcity_score'', ''median_score'', ''depth_score'', ''value'', ''strength'']),
      (''morphology'',
        [''shape_stable'', ''ask_vacuum'', ''bid_notional_lean'', ''value'', ''strength'']),
      (''pumpdump'',
        [''compression'', ''precursor'', ''rvol'', ''exhaustion'', ''ignition'', ''trend'', ''spread'',
         ''value'', ''strength'']),
      (''sentiment'',
        [''surge_score'', ''breadth'', ''slump_score'', ''divergent_score'', ''change'', ''value'',
         ''strength'']),
      (''toxicity'',
        [''support_score'', ''bluff_score'', ''vacuum_score'', ''value'', ''strength'']),
      (''training'',
        [''steps'', ''decisions'', ''resolved'', ''confidence'', ''contrast'', ''surprisal'',
         ''ambiguity'', ''action'', ''win_rate'', ''edge'', ''progress'', ''accuracy'', ''support'',
         ''quality''])]"

record KernelCopy =
  kc_name :: string
  kc_sub :: string
  kc_blurb :: string

definition KERNEL_COPY :: "(string \<times> KernelCopy) list" where
  "KERNEL_COPY =
     [(''hawkes'', \<lparr>kc_name = ''Hawkes process'',
        kc_sub = ''hawkes '' @ [CHR 0xC2, CHR 0xB7] @ '' branching '' @ [CHR 0xCE, CHR 0xB7],
        kc_blurb = ''Self-exciting point process over order-flow events. Branching ratio '' @ [CHR 0xCE, CHR 0xB7] @
          '' near 1 means the book is reflexive and primed to cascade.''\<rparr>),
      (''prediction'', \<lparr>kc_name = ''Predictive coding'',
        kc_sub = ''predict '' @ [CHR 0xC2, CHR 0xB7] @ '' 8-step horizon'',
        kc_blurb = ''Hierarchical generative model. Each layer predicts the one below; the residual '' @
          ''error norm is the tradeable surprise.''\<rparr>),
      (''resonance'', \<lparr>kc_name = ''Resonance'',
        kc_sub = ''resonance '' @ [CHR 0xC2, CHR 0xB7] @ '' laminar/turbulent'',
        kc_blurb = ''Latent-state x-ray of coupled oscillators. Laminar phase locks ride trends; '' @
          ''turbulent decoherence precedes reversals.''\<rparr>),
      (''cognitive'', \<lparr>kc_name = ''Cognitive memory'',
        kc_sub = ''cognitive '' @ [CHR 0xC2, CHR 0xB7] @ '' entropy gate'',
        kc_blurb = ''Discrete DMT sequence sealed through an entropy gate, then a beam search '' @
          ''lookahead picks the winning regime class.''\<rparr>),
      (''causal'', \<lparr>kc_name = ''Causal ladder'',
        kc_sub = ''causal '' @ [CHR 0xC2, CHR 0xB7] @ '' assoc'' @ [CHR 0xE2, CHR 0x86, CHR 0x92] @ ''interv'' @
          [CHR 0xE2, CHR 0x86, CHR 0x92] @ ''cf'',
        kc_blurb = ''Pearl do-calculus. Climbs association '' @ [CHR 0xE2, CHR 0x86, CHR 0x92] @
          '' intervention '' @ [CHR 0xE2, CHR 0x86, CHR 0x92] @
          '' counterfactual to estimate the effect of acting, not merely observing.''\<rparr>),
      (''manifold'', \<lparr>kc_name = ''Manifold'',
        kc_sub = ''manifold '' @ [CHR 0xC2, CHR 0xB7] @ '' |'' @ [CHR 0xCF, CHR 0x88] @ ''|'' @
          [CHR 0xC2, CHR 0xB2] @ '' '' @ [CHR 0xC2, CHR 0xB7] @ '' particles'',
        kc_blurb = ''Pilot-wave projection of the coherence field. |'' @ [CHR 0xCF, CHR 0x88] @ ''|'' @
          [CHR 0xC2, CHR 0xB2] @
          '' paints the cloud, guidance current is the stream, and particles surf that stream.''\<rparr>),
      (''regime'', \<lparr>kc_name = ''Regime radar'',
        kc_sub = ''regime '' @ [CHR 0xC2, CHR 0xB7] @ '' 5-axis'',
        kc_blurb = ''Cross-section mean of volatility, trend, bullish, bearish and choppiness '' @
          [CHR 0xE2, CHR 0x80, CHR 0x94] @ '' the coarse weather of the tape.''\<rparr>),
      (''correlation'', \<lparr>kc_name = ''Correlation'',
        kc_sub = ''correlation '' @ [CHR 0xC2, CHR 0xB7] @ '' cross-section'',
        kc_blurb = ''Cross-symbol correlation pressure from backend measurements.''\<rparr>),
      (''cvd'', \<lparr>kc_name = ''CVD flow'',
        kc_sub = ''cvd '' @ [CHR 0xC2, CHR 0xB7] @ '' aggressor backing'',
        kc_blurb = ''Volume-clock signed flow and divergence: who is pressing, whether price agrees, '' @
          ''and when flow locks before the move.''\<rparr>),
      (''pumpdump'', \<lparr>kc_name = ''Pumpdump'',
        kc_sub = ''pumpdump '' @ [CHR 0xC2, CHR 0xB7] @ '' ignition'',
        kc_blurb = ''Pump impulse measurement from raw market frames projected into the terminal '' @ ''signal surface.''\<rparr>),
      (''liquidity'', \<lparr>kc_name = ''Liquidity'',
        kc_sub = ''liquidity '' @ [CHR 0xC2, CHR 0xB7] @ '' touch scarcity'',
        kc_blurb = ''Current executable touch depth relative to the market cross-section, with '' @
          ''reported-volume turnover shown separately as context.''\<rparr>),
      (''depthflow'', \<lparr>kc_name = ''Depthflow'',
        kc_sub = ''depthflow '' @ [CHR 0xC2, CHR 0xB7] @ '' ladder'',
        kc_blurb = ''Depth flow measurement from backend frames.''\<rparr>),
      (''leadlag'', \<lparr>kc_name = ''Lead'' @ [CHR 0xE2, CHR 0x80, CHR 0x93] @ ''lag'',
        kc_sub = ''leadlag '' @ [CHR 0xC2, CHR 0xB7] @ '' peer leadership'',
        kc_blurb = ''Cross-symbol temporal lead scores, cohort direction lift, anchor stress, and '' @ ''dispersion of leadership.''\<rparr>),
      (''morphology'', \<lparr>kc_name = ''Book morphology'',
        kc_sub = ''morphology '' @ [CHR 0xC2, CHR 0xB7] @ '' shape & lean'',
        kc_blurb = ''Normalized depth-curve stability, offer vacuum, and bid/ask notional lean at '' @ ''the touch.''\<rparr>),
      (''sentiment'', \<lparr>kc_name = ''Sentiment cohort'',
        kc_sub = ''sentiment '' @ [CHR 0xC2, CHR 0xB7] @ '' alignment'',
        kc_blurb = ''How many peers still share the focal symbol'' @ [CHR 0xE2, CHR 0x80, CHR 0x99] @
          ''s recent direction; board median is the hold oracle.''\<rparr>),
      (''toxicity'', \<lparr>kc_name = ''Toxicity'',
        kc_sub = ''toxicity '' @ [CHR 0xC2, CHR 0xB7] @ '' touch retreat'',
        kc_blurb = ''Bid retreat when the touch steps down and board-wide touch withdrawal rate.''\<rparr>),
      (''training'', \<lparr>kc_name = ''Cognitive Training'',
        kc_sub = ''training '' @ [CHR 0xC2, CHR 0xB7] @ '' precursor radix'',
        kc_blurb = ''Precursor associative learning model compiling excursions into radix basins.''\<rparr>)]"

subsection \<open>Sources\<close>

text \<open>\<^verbatim>\<open>indexOf\<close>, with the length of the list for a source that is not in it.\<close>

definition kernelOrderIndex :: "string \<Rightarrow> nat" where
  "kernelOrderIndex source = length (takeWhile (\<lambda>kernel. kernel \<noteq> source) TERMINAL_KERNEL_ORDER)"

definition unsupported :: "string \<Rightarrow> string" where
  "unsupported source = ''unsupported measurement source: '' @ source"

definition sourceHeadline :: "string \<Rightarrow> string option" where
  "sourceHeadline source = map_of SOURCE_HEADLINE (lower source)"

definition sourceHeadlineMetric :: "string \<Rightarrow> string + string" where
  "sourceHeadlineMetric source =
     (case sourceHeadline source of
        None \<Rightarrow> Inl (unsupported source) | Some metric \<Rightarrow> Inr (''metrics.'' @ metric))"

definition sourceMetrics :: "string \<Rightarrow> string + string list" where
  "sourceMetrics source =
     (case map_of SOURCE_METRICS (lower source) of
        None \<Rightarrow> Inl (unsupported source) | Some metrics \<Rightarrow> Inr metrics)"

definition middle_dot :: string where "middle_dot = [CHR 0xC2, CHR 0xB7]"

definition metricLabel :: "string \<Rightarrow> string" where
  "metricLabel metric =
     (let parts = split_on CHR '':'' metric;
          words = replace_char CHR ''_'' CHR '' '' (hd parts)
      in case nth_opt parts 1 of
           Some side \<Rightarrow> if side \<noteq> [] then words @ '' '' @ middle_dot @ '' '' @ side else words
         | None \<Rightarrow> words)"

definition READINESS_GATE :: "(string \<times> string) list" where
  "READINESS_GATE = [(''depthflow'', ''depth_flow''), (''pumpdump'', ''pump_dump'')]"

definition readinessGate :: "string \<Rightarrow> string" where
  "readinessGate source =
     (case map_of READINESS_GATE (lower source) of Some gate \<Rightarrow> gate | None \<Rightarrow> lower source)"

definition compare_kernels :: "(string \<Rightarrow> string \<Rightarrow> int) \<Rightarrow> string \<Rightarrow> string \<Rightarrow> int" where
  "compare_kernels lc left right =
     (let byOrder = int (kernelOrderIndex left) - int (kernelOrderIndex right)
      in if byOrder = 0 then lc left right else byOrder)"

definition orderedKernelSources :: "(string \<Rightarrow> string \<Rightarrow> int) \<Rightarrow> string list \<Rightarrow> string list" where
  "orderedKernelSources lc sources = sort_by (\<lambda>left right. compare_kernels lc left right \<le> 0) sources"

definition kernelCopy :: "string \<Rightarrow> string + KernelCopy" where
  "kernelCopy source =
     (case map_of KERNEL_COPY source of None \<Rightarrow> Inl (unsupported source) | Some copy \<Rightarrow> Inr copy)"

subsection \<open>Health\<close>

datatype SignalHealthStatus =
    KWaiting | KStandby | KUnfocused | KCalibrating | KFault | KAmbiguous | KMeasured | KUnknown

datatype Variant = VBrand | VInfo | VSuccess | VWarning | VError | VDisabled

record KernelStatusMeta =
  ks_label :: string
  ks_fg :: string
  ks_bg :: string
  ks_bd :: string

definition tinted :: "string \<Rightarrow> string \<Rightarrow> KernelStatusMeta" where
  "tinted lab color =
     \<lparr>ks_label = lab, ks_fg = color,
      ks_bg = ''color-mix(in srgb, '' @ color @ '' 12%, transparent)'',
      ks_bd = ''color-mix(in srgb, '' @ color @ '' 38%, transparent)''\<rparr>"

definition standby_meta :: KernelStatusMeta where
  "standby_meta =
     \<lparr>ks_label = ''Standby'', ks_fg = ''var(--f3)'', ks_bg = ''var(--line)'', ks_bd = ''var(--line2)''\<rparr>"

fun kernelStatusMeta :: "SignalHealthStatus \<Rightarrow> KernelStatusMeta" where
  "kernelStatusMeta KMeasured = tinted ''Healthy'' ''var(--up)''"
| "kernelStatusMeta KAmbiguous = tinted ''Ambig'' ''var(--down)''"
| "kernelStatusMeta KFault = tinted ''Fault'' ''var(--down)''"
| "kernelStatusMeta KWaiting = standby_meta"
| "kernelStatusMeta KStandby = standby_meta"
| "kernelStatusMeta KUnfocused = tinted ''Off focus'' ''var(--warn)''"
| "kernelStatusMeta KCalibrating = tinted ''Calib'' ''var(--info)''"
| "kernelStatusMeta KUnknown = tinted ''No status'' ''var(--warn)''"

fun kernelStatusVariant :: "SignalHealthStatus \<Rightarrow> Variant" where
  "kernelStatusVariant KMeasured = VSuccess"
| "kernelStatusVariant KFault = VError"
| "kernelStatusVariant KAmbiguous = VError"
| "kernelStatusVariant KUnknown = VWarning"
| "kernelStatusVariant KUnfocused = VWarning"
| "kernelStatusVariant KWaiting = VDisabled"
| "kernelStatusVariant KStandby = VDisabled"
| "kernelStatusVariant KCalibrating = VInfo"

subsection \<open>The sparkline\<close>

record KernelSpark =
  sp_spark :: string
  sp_area :: string
  sp_line :: string
  sp_fill :: string
  sp_active :: bool

definition spark_scale :: "jsnum \<Rightarrow> jsnum" where
  "spark_scale value =
     (if \<not> is_finite value then Fin (1 / 2)
      else if num_lt value (Fin 0) then num_max (Fin 0) (num_div (num_add value (Fin 1)) (Fin 2))
      else num_min (Fin 1) value)"

definition spark_x :: "nat \<Rightarrow> nat \<Rightarrow> string" where
  "spark_x points index =
     (if points = 1 then (if index = 0 then ''0.0'' else ''150.0'')
      else to_fixed 1 (num_mul (num_div (num_of_nat index) (num_of_nat (max (points - 1) 1))) (Fin 150)))"

definition spark_height :: "jsnum \<Rightarrow> jsnum" where
  "spark_height value =
     (let clamped = num_max (Fin 0) (num_min (Fin 1) value)
      in num_sub (Fin 29) (num_mul clamped (Fin 26)))"

definition spark_points :: "jsnum list \<Rightarrow> string list" where
  "spark_points scaled =
     map (\<lambda>(index, value). spark_x (length scaled) index @ '','' @ to_fixed 1 (spark_height value))
       (enumerate 0 scaled)"

definition kernelSparkPaths :: "jsnum list \<Rightarrow> SignalHealthStatus \<Rightarrow> KernelSpark" where
  "kernelSparkPaths values status =
     (let history = (if values \<noteq> [] then values else [Fin 0]);
          scaled = map spark_scale history;
          active = (status = KMeasured \<or> status = KAmbiguous);
          points = spark_points scaled;
          spark = (if length scaled = 1
                   then hd points @ '' 150,'' @ split_on CHR '','' (hd points) ! 1
                   else join_with '' '' points)
      in \<lparr>sp_spark = spark, sp_area = spark @ '' 150,30 0,30'',
          sp_line = (if active then ''var(--acc)'' else ''var(--f4)''),
          sp_fill = (if active then ''color-mix(in srgb, var(--acc) 16%, transparent)''
                     else ''color-mix(in srgb, var(--f4) 10%, transparent)''),
          sp_active = active\<rparr>)"

subsection \<open>Uptime\<close>

fun num_floor :: "jsnum \<Rightarrow> jsnum" where
  "num_floor (Fin q) = Fin (of_int \<lfloor>q\<rfloor>)"
| "num_floor x = x"

text \<open>The remainder of a number that is not negative by 60.\<close>

fun mod_sixty :: "jsnum \<Rightarrow> jsnum" where
  "mod_sixty (Fin q) = fl (q - 60 * of_int \<lfloor>q / 60\<rfloor>)"
| "mod_sixty x = NaN"

definition formatUptime :: "jsnum \<Rightarrow> jsnum option \<Rightarrow> string" where
  "formatUptime now startedAtMs =
     (case startedAtMs of
        None \<Rightarrow> em_dash
      | Some started \<Rightarrow>
          if \<not> is_finite started then em_dash
          else
            let totalSeconds = num_max (Fin 0) (num_floor (num_div (num_sub now started) (Fin 1000)));
                minutes = num_floor (num_div totalSeconds (Fin 60));
                seconds = mod_sixty totalSeconds
            in num_text minutes @ ''m '' @ num_text seconds @ ''s'')"

subsection \<open>Readings in the frame\<close>

lemma spark_scale_unit: "num_in 0 1 (spark_scale value)"
proof (cases "value")
  case (Fin q)
  show ?thesis
  proof (cases "q < 0")
    case True
    have "num_le (fl (q + 1)) (fl 1)" using True by (intro fl_mono) simp
    then have total_le: "fl (q + 1) = NInf \<or> (\<exists>s. fl (q + 1) = Fin s \<and> s \<le> 1)"
      by (cases "fl (q + 1)") auto
    have half: "num_in 0 1 (num_max (Fin 0) (fl (s / 2)))" if "s \<le> 1" for s
    proof (cases "0 \<le> s")
      case True
      with that have "num_in 0 1 (fl (s / 2))" by (intro fl_unit) simp_all
      then show ?thesis by (auto simp: num_in_iff num_max_def)
    next
      case False
      then have "num_le (fl (s / 2)) (fl 0)" by (intro fl_mono) simp
      then show ?thesis by (cases "fl (s / 2)") (auto simp: num_max_def)
    qed
    from total_le show ?thesis
    proof (elim disjE exE conjE)
      assume "fl (q + 1) = NInf"
      with Fin True show ?thesis by (simp add: spark_scale_def num_max_def inf_signed_def)
    next
      fix s assume "fl (q + 1) = Fin s" "s \<le> 1"
      with Fin True half [of s] show ?thesis by (simp add: spark_scale_def)
    qed
  qed (use Fin in \<open>auto simp: spark_scale_def num_min_def\<close>)
qed (auto simp: spark_scale_def)

lemma spark_height_in: "num_in 0 1 v \<Longrightarrow> num_in 3 29 (spark_height v)"
proof -
  assume "num_in 0 1 v"
  then obtain q where q: "v = Fin q" "0 \<le> q" "q \<le> 1" by (auto simp: num_in_iff)
  have "num_in 0 26 (fl (q * 26))" using fl_in [of 0 "q * 26" 26] q by simp
  then obtain p where p: "fl (q * 26) = Fin p" "0 \<le> p" "p \<le> 26" by (auto simp: num_in_iff)
  have "num_in 3 29 (fl (29 - p))" using fl_in [of 3 "29 - p" 29] p by simp
  then show ?thesis
    using q p by (simp add: spark_height_def num_clamp_id num_sub_def)
qed

subsection \<open>The order of kernels\<close>

lemma compare_kernels_comparator:
  assumes "collation lc"
  shows "comparator (\<lambda>a b. compare_kernels lc a b \<le> 0)"
proof
  have le: "compare_kernels lc a b \<le> 0 \<longleftrightarrow>
      kernelOrderIndex a < kernelOrderIndex b \<or>
      kernelOrderIndex a = kernelOrderIndex b \<and> lc a b \<le> 0" for a b
    by (auto simp: compare_kernels_def Let_def)
  fix x y z
  show "compare_kernels lc x y \<le> 0 \<or> compare_kernels lc y x \<le> 0"
    unfolding le using collation_sign(3) [OF assms, of x y] by linarith
  assume "compare_kernels lc x y \<le> 0" "compare_kernels lc y z \<le> 0"
  then show "compare_kernels lc x z \<le> 0"
    unfolding le using collation_trans(1) [OF assms, of x y z] by auto
qed

lemma known_kernel: "kernelOrderIndex s < length TERMINAL_KERNEL_ORDER \<longleftrightarrow> s \<in> set TERMINAL_KERNEL_ORDER"
proof -
  have "length (takeWhile (\<lambda>k. k \<noteq> s) xs) < length xs \<longleftrightarrow> s \<in> set xs" for xs
    by (induction xs) auto
  then show ?thesis by (simp add: kernelOrderIndex_def)
qed

subsection \<open>Properties\<close>

text \<open>
  The list of kernels holds the given sources, sorted by the terminal's order and, among those
  outside it, by name; sorting it again changes nothing, and a kernel the terminal names never comes after
  one it does not.
\<close>

theorem kernels_in_order:
  fixes lc :: "string \<Rightarrow> string \<Rightarrow> int" and sources :: "string list"
  assumes "collation lc"
  defines "shown_sources \<equiv> orderedKernelSources lc sources"
  shows "mset shown_sources = mset sources \<and>
    sorted_wrt (\<lambda>a b. compare_kernels lc a b \<le> 0) shown_sources \<and>
    orderedKernelSources lc shown_sources = shown_sources \<and>
    sorted_wrt (\<lambda>a b. a \<notin> set TERMINAL_KERNEL_ORDER \<longrightarrow> b \<notin> set TERMINAL_KERNEL_ORDER) shown_sources"
proof -
  note cmp = compare_kernels_comparator [OF assms(1)]
  have sorted: "sorted_wrt (\<lambda>a b. compare_kernels lc a b \<le> 0) shown_sources"
    unfolding shown_sources_def orderedKernelSources_def by (rule comparator.sorted_sort_by [OF cmp])
  have "kernelOrderIndex b \<le> length TERMINAL_KERNEL_ORDER" for b
    unfolding kernelOrderIndex_def by (rule length_takeWhile_le)
  then have "sorted_wrt (\<lambda>a b. a \<notin> set TERMINAL_KERNEL_ORDER \<longrightarrow> b \<notin> set TERMINAL_KERNEL_ORDER) shown_sources"
    by (intro sorted_wrt_mono_rel [OF _ sorted])
      (auto simp: compare_kernels_def Let_def known_kernel [symmetric] split: if_splits dest: le_antisym)
  with sorted show ?thesis
    by (simp add: shown_sources_def orderedKernelSources_def comparator.sort_by_idem [OF cmp])
qed

lemma kernels_in_order_witness:
  "mset (orderedKernelSources code_unit_compare [''zeta'', ''hawkes'', ''cvd'', ''prediction'']) =
   mset [''zeta'', ''hawkes'', ''cvd'', ''prediction'']"
proof -
  have "collation code_unit_compare" by (auto simp: collation_def code_unit_compare_def)
  from kernels_in_order [OF this] show ?thesis by blast
qed

text \<open>
  A source has a headline exactly when it has metrics: the two lookups fail together and with the same
  message, and the headline is one of the metrics, so a row never leads with a field its detail panel
  does not list.
\<close>

theorem headline_among_metrics:
  "case sourceHeadlineMetric source of
     Inl e \<Rightarrow> sourceMetrics source = Inl e
   | Inr path \<Rightarrow> \<exists>metrics metric. sourceMetrics source = Inr metrics \<and>
       metric \<in> set metrics \<and> path = ''metrics.'' @ metric"
proof -
  have "list_all (\<lambda>(s, m). \<exists>ms. map_of SOURCE_METRICS s = Some ms \<and> m \<in> set ms) SOURCE_HEADLINE"
    by (simp add: SOURCE_HEADLINE_def SOURCE_METRICS_def)
  then have some: "\<exists>ms. map_of SOURCE_METRICS s = Some ms \<and> m \<in> set ms"
    if "map_of SOURCE_HEADLINE s = Some m" for s m
    using map_of_SomeD [OF that] by (auto simp: list_all_iff)
  have "map fst SOURCE_METRICS = map fst SOURCE_HEADLINE"
    by (simp add: SOURCE_HEADLINE_def SOURCE_METRICS_def)
  then have none: "map_of SOURCE_METRICS s = None" if "map_of SOURCE_HEADLINE s = None" for s
    using that by (metis list.set_map map_of_eq_None_iff)
  show ?thesis
  proof (cases "map_of SOURCE_HEADLINE (lower source)")
    case None
    with none show ?thesis by (simp add: sourceHeadlineMetric_def sourceMetrics_def sourceHeadline_def)
  next
    case (Some m)
    with some obtain ms where "map_of SOURCE_METRICS (lower source) = Some ms" "m \<in> set ms" by blast
    with Some show ?thesis by (simp add: sourceHeadlineMetric_def sourceMetrics_def sourceHeadline_def)
  qed
qed

text \<open>
  Whatever the readings are, not numbers and infinities included, every point of the sparkline lies
  in the frame: the scaled reading in the unit interval, its height between 3 and 29.
\<close>

theorem spark_in_frame:
  "num_in 0 1 (spark_scale value) \<and> num_in 3 29 (spark_height (spark_scale value))"
  by (simp add: spark_scale_unit spark_height_in)

lemma status_variant_color:
  "ks_fg (kernelStatusMeta status) =
     (case kernelStatusVariant status of
        VSuccess \<Rightarrow> ''var(--up)'' | VError \<Rightarrow> ''var(--down)'' | VWarning \<Rightarrow> ''var(--warn)''
      | VInfo \<Rightarrow> ''var(--info)'' | _ \<Rightarrow> ''var(--f3)'')"
  by (cases status) (simp_all add: tinted_def standby_meta_def)

end
