(* ===== verification/Gauges.thy ===== *)
theory Gauges
  imports Cognition KernelMeta
begin

text \<open>
  What the panels write into their elements: formatted values, meters and badges
  (\<^verbatim>\<open>components/ui/dom.ts\<close> with \<^verbatim>\<open>setMeter\<close> and \<^verbatim>\<open>setBadge\<close>), the heat palette
  (\<^verbatim>\<open>lib/colormap.ts\<close>), badge tones (\<^verbatim>\<open>components/terminal/badge-tone.ts\<close>) and the health score of a
  position (\<^verbatim>\<open>components/learning/position-health.tsx\<close>). \<^verbatim>\<open>toLocaleString\<close> is the parameter \<open>loc\<close>; a
  \<^verbatim>\<open>RangeError\<close> is \<^term>\<open>None\<close>.
\<close>

subsection \<open>Formats\<close>

definition meterPercent :: "jsnum option \<Rightarrow> jsnum" where
  "meterPercent v =
     (case v of
        None \<Rightarrow> Fin 0
      | Some n \<Rightarrow> if \<not> is_finite n then Fin 0 else num_min (Fin 100) (num_mul (num_abs n) (Fin 100)))"

definition euro :: string where "euro = [CHR 0xE2, CHR 0x82, CHR 0xAC]"

text \<open>\<^verbatim>\<open>Number.parseInt(text, 10)\<close>: the digits after an optional sign, the rest ignored.\<close>

definition parse_int10 :: "string \<Rightarrow> int option" where
  "parse_int10 text =
     (case split_sign (dropWhile is_space text) of (neg, t) \<Rightarrow>
        let ds = takeWhile is_digit t
        in if ds = [] then None else Some (if neg then - int_of_digits ds else int_of_digits ds))"

text \<open>\<^verbatim>\<open>new Date(ms).toISOString()\<close>: a time value is clipped to whole milliseconds within 100 million
  days of the epoch.\<close>

fun date_iso :: "jsnum \<Rightarrow> string option" where
  "date_iso (Fin t) =
     (if \<bar>t\<bar> \<le> 8640000000000000 then Some (iso_text (if 0 \<le> t then \<lfloor>t\<rfloor> else \<lceil>t\<rceil>)) else None)"
| "date_iso _ = None"

definition clock_text :: "string \<Rightarrow> string" where
  "clock_text stamp = take 8 (drop 11 stamp)"

definition fixed_text :: "jsnum \<Rightarrow> int \<Rightarrow> string option" where
  "fixed_text v precision =
     (if 0 \<le> precision \<and> precision \<le> 100 then Some (to_fixed (nat precision) v) else None)"

definition formatValue :: "(jsnum \<Rightarrow> string) \<Rightarrow> jsnum \<Rightarrow> string option \<Rightarrow> string option" where
  "formatValue loc v format =
     (case format of
        None \<Rightarrow> Some (to_fixed 4 v)
      | Some f \<Rightarrow>
          if f = [] then Some (to_fixed 4 v)
          else if f = ''pct'' then Some (to_fixed 1 (num_mul v (Fin 100)) @ ''%'')
          else if f = ''bp'' then Some (to_fixed 1 (num_mul v (Fin 10000)) @ '' bp'')
          else if f = ''int'' then Some (loc (num_floor v))
          else if f = ''currency'' \<or> f = ''eur'' then Some (euro @ to_fixed 2 v)
          else if f = ''pnl''
          then Some ((if num_le (Fin 0) v then ''+'' else ''-'') @ euro @ to_fixed 4 (num_abs v))
          else if f = ''bits'' then Some (to_fixed 2 v @ '' bits'')
          else if f = ''nat'' then Some (to_fixed 2 v @ '' nat'')
          else if f = ''spread'' then Some (''Spread '' @ to_fixed 3 v)
          else if f = ''bool'' then Some (if num_lt (Fin (1 / 2)) v then ''true'' else ''false'')
          else if f = ''time''
          then map_option clock_text
                 (date_iso (if num_lt (Fin 1000000000000) v then num_div v (Fin 1000000)
                            else num_mul v (Fin 1000)))
          else if starts_with f ''fixed:''
          then (case parse_int10 (drop 6 f) of
                  Some precision \<Rightarrow> fixed_text v precision | None \<Rightarrow> Some (to_fixed 4 v))
          else Some (to_fixed 4 v))"

subsection \<open>Elements\<close>

record element =
  el_component :: "string option"
  el_k :: "string option"
  el_meter_attr :: bool
  el_mbar_attr :: bool
  el_badge_attr :: bool
  el_fallback :: "string option"
  el_format :: "string option"
  el_metric :: "string option"
  el_text :: string
  el_width :: string
  el_valuenow :: string
  el_tone :: string
  el_variant :: "Variant option"
  el_seen :: bool

definition componentType :: "element \<Rightarrow> string" where
  "componentType e =
     (case el_component e of
        Some c \<Rightarrow> c
      | None \<Rightarrow>
          if el_meter_attr e \<or> el_k e = Some ''bar'' \<or> el_mbar_attr e then ''meter''
          else if el_badge_attr e \<or> el_k e = Some ''badge'' then ''badge'' else ''text'')"

text \<open>\<^verbatim>\<open>setText\<close> writes only a text that differs, which is the same state as writing it.\<close>

definition setText :: "string \<Rightarrow> element \<Rightarrow> element" where
  "setText text e = (if el_text e \<noteq> text then e\<lparr>el_text := text\<rparr> else e)"

definition clampPercent :: "jsnum \<Rightarrow> jsnum" where
  "clampPercent percent = num_max (Fin 0) (num_min (Fin 100) percent)"

definition variant_name :: "Variant \<Rightarrow> string" where
  "variant_name v =
     (case v of VBrand \<Rightarrow> ''brand'' | VInfo \<Rightarrow> ''info'' | VSuccess \<Rightarrow> ''success''
      | VWarning \<Rightarrow> ''warning'' | VError \<Rightarrow> ''error'' | VDisabled \<Rightarrow> ''disabled'')"

definition setMeter :: "jsnum \<Rightarrow> Variant \<Rightarrow> element \<Rightarrow> element" where
  "setMeter percent variant e =
     (let clamped = clampPercent percent
      in e\<lparr>el_width := to_fixed 1 clamped @ ''%'',
           el_tone := ''var(--'' @ variant_name variant @ '')'', el_valuenow := num_text clamped\<rparr>)"

definition setBadge :: "Variant \<Rightarrow> string \<Rightarrow> element \<Rightarrow> element" where
  "setBadge variant lab e = e\<lparr>el_text := lab, el_variant := Some variant\<rparr>"

definition extract_object :: "jsobj \<Rightarrow> bool \<Rightarrow> jsval option" where
  "extract_object ob meter =
     (case (if meter then finite_num (field ob ''snm'') else None) of
        Some n \<Rightarrow> Some (JNum n)
      | None \<Rightarrow>
          (case as_num (field ob ''raw'') of
             Some n \<Rightarrow> Some (JNum n)
           | None \<Rightarrow>
               (case finite_num (field ob ''snm'') of
                  Some n \<Rightarrow> Some (JNum n)
                | None \<Rightarrow> if field ob ''value'' \<noteq> JUndef then Some (field ob ''value'') else None)))"

definition extractValue :: "jsval \<Rightarrow> string \<Rightarrow> jsval" where
  "extractValue v component =
     (case v of
        JObj ob \<Rightarrow>
          (case extract_object ob (component = ''meter'') of Some w \<Rightarrow> w | None \<Rightarrow> v)
      | _ \<Rightarrow> v)"

text \<open>The text a text element shows for a value, with the element's format: the outer
  \<^term>\<open>None\<close> is the \<^verbatim>\<open>RangeError\<close>, the inner one a reading that is left out.\<close>

definition big_millis :: "int \<Rightarrow> int" where
  "big_millis i = (if 0 \<le> i then i div 1000000 else - ((- i) div 1000000))"

definition value_text ::
    "(jsnum \<Rightarrow> string) \<Rightarrow> string option \<Rightarrow> string option \<Rightarrow> jsval \<Rightarrow> string option option" where
  "value_text loc fmt metric_name v =
     (case v of
        JNum n \<Rightarrow> if \<not> is_finite n then Some None else map_option Some (formatValue loc n fmt)
      | JStr s \<Rightarrow>
          if (case fmt of None \<Rightarrow> False | Some f \<Rightarrow> f \<noteq> []) \<and> is_finite (number_of_text s) \<and> trim s \<noteq> []
          then map_option Some (formatValue loc (number_of_text s) fmt) else Some (Some s)
      | JBool b \<Rightarrow> Some (Some (if b then ''TRUE'' else ''FALSE''))
      | JBig i \<Rightarrow>
          if fmt = Some ''time'' \<or> (fmt = None \<and> metric_name = Some ''at'')
          then map_option (Some \<circ> clock_text) (date_iso (num_of_int (big_millis i)))
          else Some (Some (loc (num_of_int i)))
      | _ \<Rightarrow> Some (Some (js_text v)))"

definition meter_number :: "jsval \<Rightarrow> jsnum" where
  "meter_number v = (case v of JNum n \<Rightarrow> n | _ \<Rightarrow> to_number v)"

definition render_text ::
    "(jsnum \<Rightarrow> string) \<Rightarrow> element \<Rightarrow> jsval \<Rightarrow> string option \<Rightarrow> element option" where
  "render_text loc e v format =
     (if nullish v
      then Some (if el_seen e then e
                 else setText (case el_fallback e of Some f \<Rightarrow> f | None \<Rightarrow> ''--'') e)
      else case value_text loc (coalesce format (el_format e)) (el_metric e) v of
        None \<Rightarrow> None
      | Some None \<Rightarrow> Some e
      | Some (Some out) \<Rightarrow> Some (setText out (e\<lparr>el_seen := True\<rparr>)))"

definition renderValue ::
    "(jsnum \<Rightarrow> string) \<Rightarrow> element \<Rightarrow> jsval \<Rightarrow> string option \<Rightarrow> element option" where
  "renderValue loc e rawValue format =
     (let component = componentType e; v = extractValue rawValue component
      in if component = ''meter''
         then Some (if is_finite (meter_number v)
                    then setMeter (meterPercent (Some (meter_number v))) VWarning e else e)
         else if component = ''badge''
         then Some (setBadge VSuccess (case v of JStr s \<Rightarrow> s | _ \<Rightarrow> ''HEALTHY'') e)
         else render_text loc e v format)"

definition resetValue :: "string \<Rightarrow> element \<Rightarrow> element" where
  "resetValue fallback e =
     (if componentType e = ''meter'' then setMeter (Fin 0) VDisabled e
      else if componentType e = ''badge'' then setBadge VDisabled ''STANDBY'' e
      else setText (case el_fallback e of Some f \<Rightarrow> f | None \<Rightarrow> fallback) e)"

subsection \<open>Badge tones\<close>

definition verdictToVariant :: "string \<Rightarrow> Variant" where
  "verdictToVariant verdict =
     (if verdict = ''allow'' then VSuccess
      else if verdict = ''blocked'' then VError
      else if verdict = ''hold'' then VWarning
      else if verdict = ''waiting'' \<or> verdict = ''below'' then VInfo else VDisabled)"

definition verdictBadgeClassName :: "string \<Rightarrow> string option" where
  "verdictBadgeClassName verdict =
     (if verdict = ''allow'' \<or> verdict = ''blocked'' \<or> verdict = ''hold'' then None
      else Some ''border-(--line) bg-(--line) [--badge-tone:var(--f3)]'')"

definition paletteGroupVariant :: "string \<Rightarrow> Variant" where
  "paletteGroupVariant grp =
     (if grp = ''Surface'' then VInfo else if grp = ''Symbol'' then VSuccess else VWarning)"

subsection \<open>The heat palette\<close>

type_synonym rgb = "jsnum \<times> jsnum \<times> jsnum"

definition DEFAULT_ACCENT_HEX :: string where "DEFAULT_ACCENT_HEX = ''#e8a33d''"

definition clamp01 :: "jsnum \<Rightarrow> jsnum" where
  "clamp01 v = num_max (Fin 0) (num_min (Fin 1) v)"

definition lerp :: "jsnum \<Rightarrow> jsnum \<Rightarrow> jsnum \<Rightarrow> jsnum" where
  "lerp l r t = num_add l (num_mul (num_sub r l) t)"

fun lerpRgb :: "rgb \<Rightarrow> rgb \<Rightarrow> jsnum \<Rightarrow> rgb" where
  "lerpRgb (a, b, c) (a', b', c') t = (lerp a a' t, lerp b b' t, lerp c c' t)"

text \<open>\<^verbatim>\<open>Number.parseInt(text, 16)\<close>: an optional sign and \<^verbatim>\<open>0x\<close>, then leading hex digits.\<close>

definition parse_hex :: "string \<Rightarrow> jsnum" where
  "parse_hex text =
     (case split_sign (dropWhile is_space text) of (neg, t) \<Rightarrow>
        let body = (if starts_with (lower t) ''0x'' then drop 2 t else t);
            ds = takeWhile (\<lambda>c. radix_digit c < 16) body;
            n = foldl (\<lambda>n c. 16 * n + radix_digit c) 0 ds
        in if ds = [] then NaN else num_of_int (if neg then - n else n))"

definition hexToRgb :: "string \<Rightarrow> rgb" where
  "hexToRgb hex =
     (parse_hex (take 2 (drop 1 hex)), parse_hex (take 2 (drop 3 hex)), parse_hex (take 2 (drop 5 hex)))"

definition heat_stops :: "rgb \<Rightarrow> (jsnum \<times> rgb) list" where
  "heat_stops accent =
     [(Fin 0, (Fin 14, Fin 12, Fin 10)), (fl (4 / 10), (Fin 26, Fin 34, Fin 50)),
      (fl (6 / 10), (Fin 42, Fin 106, Fin 129)), (fl (8 / 10), accent),
      (Fin 1, lerpRgb accent (Fin 255, Fin 248, Fin 224) (fl (6 / 10)))]"

fun blend :: "jsnum \<Rightarrow> (jsnum \<times> rgb) list \<Rightarrow> rgb" where
  "blend t ((leftStop, leftColor) # (rightStop, rightColor) # rest) =
     (if num_le t rightStop
      then lerpRgb leftColor rightColor (num_div (num_sub t leftStop) (num_sub rightStop leftStop))
      else blend t ((rightStop, rightColor) # rest))"
| "blend t [(_, color)] = color"
| "blend t [] = (NaN, NaN, NaN)"

definition colormap :: "jsnum \<Rightarrow> string \<Rightarrow> rgb" where
  "colormap t accentHex = blend (clamp01 t) (heat_stops (hexToRgb accentHex))"

text \<open>\<^verbatim>\<open>channel | 0\<close> of a channel below \<open>2^31\<close>; what is not a number counts as 0.\<close>

fun channel_int :: "jsnum \<Rightarrow> int" where
  "channel_int (Fin q) = (if 0 \<le> q then \<lfloor>q\<rfloor> else \<lceil>q\<rceil>)"
| "channel_int _ = 0"

definition colormapCss :: "jsnum \<Rightarrow> string \<Rightarrow> string" where
  "colormapCss t accentHex =
     (case colormap t accentHex of (red, green, blue) \<Rightarrow>
        ''rgb('' @ int_text (channel_int red) @ '','' @ int_text (channel_int green) @ '','' @
        int_text (channel_int blue) @ '')'')"

definition heatmapForeground :: "jsnum \<Rightarrow> string" where
  "heatmapForeground t = (if num_lt (fl (62 / 100)) t then ''#14110f'' else ''var(--f3)'')"

subsection \<open>The health of a position\<close>

definition return_text :: "jsnum \<Rightarrow> string" where
  "return_text marked =
     (if num_lt (Fin 0) marked then ''+'' else []) @ to_fixed 2 (num_mul marked (Fin 100)) @ ''%''"

definition trial_mark :: "Lifecycle \<Rightarrow> jsnum option" where
  "trial_mark life =
     (case lf_mark life of
        None \<Rightarrow> None
      | Some m \<Rightarrow> if is_finite (mk_unrealized_return m) then Some (mk_unrealized_return m) else None)"

definition trialReturnText :: "Lifecycle option \<Rightarrow> string option" where
  "trialReturnText life =
     (case life of
        None \<Rightarrow> None
      | Some l \<Rightarrow>
          if lf_book l \<noteq> Some ''virtual'' then None
          else Some (case trial_mark l of None \<Rightarrow> em_dash | Some marked \<Rightarrow> return_text marked))"

definition virtualTrialStatus :: "Lifecycle option \<Rightarrow> (string \<times> string) option" where
  "virtualTrialStatus life =
     (case life of
        None \<Rightarrow> None
      | Some l \<Rightarrow>
          if lf_book l \<noteq> Some ''virtual'' then None
          else Some (''OPEN TRIAL'',
            case trial_mark l of
              None \<Rightarrow> ''Waiting for this symbol'' @ [CHR 0x27] @ ''s next regime boundary.''
            | Some marked \<Rightarrow>
                ''Marked '' @ return_text marked @ '' until this symbol'' @ [CHR 0x27] @
                ''s next regime boundary.''))"

record health_gauge =
  hg_score :: jsnum
  hg_status :: string
  hg_variant :: Variant
  hg_verdict :: string

definition fill_field :: "LifeEvent option \<Rightarrow> string \<Rightarrow> jsnum" where
  "fill_field ev k =
     (let n = to_number (case ev of
                None \<Rightarrow> JUndef
              | Some e \<Rightarrow> (case as_record (ev_fields e) of None \<Rightarrow> JUndef | Some ob \<Rightarrow> field ob k))
      in if n = NaN \<or> n = Fin 0 then Fin 0 else n)"

definition fill_event :: "Lifecycle option \<Rightarrow> LifeEvent option" where
  "fill_event life =
     find (\<lambda>e. ev_kind e = ''fill'' \<or> ev_kind e = ''entry_order'' \<or> ev_kind e = ''ENTRY_ORDER'')
       (case life of None \<Rightarrow> [] | Some l \<Rightarrow> (case lf_events l of None \<Rightarrow> [] | Some es \<Rightarrow> es))"

definition fee_buffer :: jsnum where "fee_buffer = fl (85 / 100)"

definition scored :: "jsnum \<Rightarrow> health_gauge" where
  "scored pnlPct =
     (if num_le (Fin 1) pnlPct
      then \<lparr>hg_score = num_min (Fin 100) (num_round (num_add (Fin 80) (num_mul pnlPct (Fin 5)))),
            hg_status = ''IN PROFIT'', hg_variant = VSuccess,
            hg_verdict = ''Gains exceed fee hurdle. Running towards learned target.''\<rparr>
      else if num_le (num_neg fee_buffer) pnlPct
      then \<lparr>hg_score = num_round (num_add (Fin 65) (num_mul (num_add pnlPct fee_buffer) (Fin 15))),
            hg_status = ''STABLE HOLD'', hg_variant = VBrand,
            hg_verdict = ''Within fee buffer. No adverse sell cascades detected.''\<rparr>
      else if num_le (Fin (- 5 / 2)) pnlPct
      then \<lparr>hg_score = num_round (num_add (Fin 40) (num_mul (num_add pnlPct (Fin (5 / 2))) (Fin 15))),
            hg_status = ''GUARDED'', hg_variant = VWarning,
            hg_verdict = ''Approaching defensive boundary. S3 exit engine watchful.''\<rparr>
      else \<lparr>hg_score = num_max (Fin 10)
              (num_round (num_add (Fin 20) (num_mul (num_add pnlPct (Fin 5)) (Fin 8)))),
            hg_status = ''DEFENSE STOP'', hg_variant = VError,
            hg_verdict = ''Under drawdown pressure. Risk layer exit primed.''\<rparr>)"

definition gauge_pct :: "Lifecycle option \<Rightarrow> jsnum option \<Rightarrow> jsnum" where
  "gauge_pct life unrealizedVal =
     (let currentUnrealized = (case unrealizedVal of
            Some n \<Rightarrow> if is_finite n then n else Fin 0 | None \<Rightarrow> Fin 0);
          cost = fill_field (fill_event life) ''cost''
      in if num_lt (Fin 0) cost then num_mul (num_div currentUnrealized cost) (Fin 100) else Fin 0)"

definition PositionHealthGauge :: "Lifecycle option \<Rightarrow> jsnum option \<Rightarrow> health_gauge" where
  "PositionHealthGauge life unrealizedVal =
     (case virtualTrialStatus life of
        Some (status, verdict) \<Rightarrow>
          \<lparr>hg_score = Fin 50, hg_status = status, hg_variant = VBrand, hg_verdict = verdict\<rparr>
      | None \<Rightarrow>
          if num_le (fill_field (fill_event life) ''cost'') (Fin 0)
          then \<lparr>hg_score = Fin 50, hg_status = ''PENDING FILL'', hg_variant = VBrand,
                hg_verdict = ''Order submitted to venue. Awaiting fill confirmation.''\<rparr>
          else scored (gauge_pct life unrealizedVal))"

subsection \<open>Scores within their bounds\<close>

lemma round_in: "num_in (of_int m) (of_int n) x \<Longrightarrow> num_in (of_int m) (of_int n) (num_round x)"
proof -
  assume "num_in (of_int m) (of_int n) x"
  then obtain q where q: "x = Fin q" "of_int m \<le> q" "q \<le> of_int n" by (auto simp: num_in_iff)
  have "m \<le> \<lfloor>q + 1 / 2\<rfloor>" using q(2) by (simp add: le_floor_iff)
  moreover have "\<lfloor>q + 1 / 2\<rfloor> < n + 1" unfolding floor_less_iff using q(3) by simp
  ultimately show ?thesis using q(1) by simp
qed

text \<open>The affine step of every branch: a distance from a boundary, scaled and lifted.\<close>

lemma affine_in:
  assumes "num_in 0 (of_int n) d" "0 \<le> k" "0 \<le> base" "base + n * k \<le> 1000" "0 \<le> n"
  shows "num_in (of_int base) (of_int (base + n * k))
    (num_round (num_add (Fin (of_int base)) (num_mul d (Fin (of_int k)))))"
proof -
  obtain q where q: "d = Fin q" "0 \<le> q" "q \<le> of_int n" using assms(1) by (auto simp: num_in_iff)
  have nk: "0 \<le> n * k" using assms(2,5) by simp
  have "q * of_int k \<le> of_int (n * k)" using q(3) assms(2) by (simp add: mult_right_mono)
  moreover have "0 \<le> q * of_int k" using q(2) assms(2) by simp
  ultimately have "num_in (of_int 0) (of_int (n * k)) (fl (q * of_int k))"
    using nk assms(3,4) by (intro fl_in) simp_all
  then obtain p where p: "fl (q * of_int k) = Fin p" "0 \<le> p" "p \<le> of_int (n * k)"
    by (auto simp: num_in_iff)
  have "num_in (of_int base) (of_int (base + n * k)) (fl (of_int base + p))"
    using p(2,3) nk assms(3,4) by (intro fl_in) simp_all
  with round_in [of base "base + n * k"] show ?thesis by (simp only: q(1) num_mul.simps p(1) num_add.simps)
qed

lemma fee_buffer_unit: "num_in 0 1 fee_buffer"
  unfolding fee_buffer_def by (rule fl_unit) simp_all

lemma num_in_mono: "num_in a b x \<Longrightarrow> c \<le> a \<Longrightarrow> b \<le> d \<Longrightarrow> num_in c d x"
  by (auto simp: num_in_iff)

lemma profit_score:
  assumes "num_le (Fin 1) p"
  shows "num_in 80 100 (num_min (Fin 100) (num_round (num_add (Fin 80) (num_mul p (Fin 5)))))"
proof (cases p)
  case (Fin q)
  with assms have q: "1 \<le> q" by simp
  have le: "num_le (Fin 0) (fl (q * 5))" using q by (intro b64.rnd_nonneg) simp
  show ?thesis
  proof (cases "fl (q * 5)")
    case PInf
    with Fin show ?thesis by (simp add: num_min_def)
  next
    case (Fin r)
    with le have "num_le (fl 80) (fl (80 + r))" by (intro fl_mono) simp
    then have "num_le (Fin 80) (fl (80 + r))" by (simp add: fl_numeral)
    then have "fl (80 + r) = PInf \<or> (\<exists>s. fl (80 + r) = Fin s \<and> 80 \<le> s)"
      by (cases "fl (80 + r)") auto
    then show ?thesis
    proof (elim disjE exE conjE)
      fix s assume s: "fl (80 + r) = Fin s" "80 \<le> s"
      then have "80 \<le> \<lfloor>s + 1 / 2\<rfloor>" by (simp add: le_floor_iff)
      with s Fin \<open>p = Fin q\<close> show ?thesis by (auto simp: num_min_def)
    qed (use Fin \<open>p = Fin q\<close> in \<open>simp add: num_min_def\<close>)
  qed (use le in auto)
qed (use assms in \<open>auto simp: num_min_def inf_signed_def\<close>)

text \<open>A number that is not above a whole bound.\<close>

definition upper :: "int \<Rightarrow> jsnum \<Rightarrow> bool" where
  "upper n x \<longleftrightarrow> x = NInf \<or> (\<exists>r. x = Fin r \<and> r \<le> of_int n)"

lemma fl_upper: "a \<le> of_int n \<Longrightarrow> \<bar>n\<bar> \<le> 2 ^ 53 \<Longrightarrow> upper n (fl a)"
  using fl_mono [of a "of_int n"] fl_int [of n] by (cases "fl a") (auto simp: upper_def)

lemma upper_add: "upper n x \<Longrightarrow> \<bar>n + m\<bar> \<le> 2 ^ 53 \<Longrightarrow> upper (n + m) (num_add (Fin (of_int m)) x)"
proof -
  assume x: "upper n x" and small: "\<bar>n + m\<bar> \<le> 2 ^ 53"
  show ?thesis
  proof (cases "x = NInf")
    case False
    then obtain r where r: "x = Fin r" "r \<le> of_int n" using x by (auto simp: upper_def)
    then have "of_int m + r \<le> of_int (n + m)" by simp
    from fl_upper [OF this small] r(1) show ?thesis by simp
  qed (simp add: upper_def)
qed

lemma upper_scale: "upper n x \<Longrightarrow> 0 < k \<Longrightarrow> \<bar>n * k\<bar> \<le> 2 ^ 53 \<Longrightarrow> upper (n * k) (num_mul x (Fin (of_int k)))"
proof -
  assume x: "upper n x" and k: "0 < k" "\<bar>n * k\<bar> \<le> 2 ^ 53"
  show ?thesis
  proof (cases "x = NInf")
    case False
    then obtain r where r: "x = Fin r" "r \<le> of_int n" using x by (auto simp: upper_def)
    then have "r * of_int k \<le> of_int (n * k)" using k(1) by (simp add: mult_right_mono)
    with fl_upper k(2) r(1) show ?thesis by simp
  qed (use k(1) in \<open>simp add: upper_def inf_signed_def\<close>)
qed

lemma upper_round: "upper n x \<Longrightarrow> upper n (num_round x)"
proof -
  assume x: "upper n x"
  have "\<lfloor>r + 1 / 2\<rfloor> \<le> n" if "r \<le> of_int n" for r :: rat
  proof -
    have "\<lfloor>r + 1 / 2\<rfloor> < n + 1" unfolding floor_less_iff using that by simp
    then show ?thesis by simp
  qed
  with x show ?thesis by (auto simp: upper_def)
qed

lemma defense_score:
  assumes "num_lt p (Fin (- 5 / 2))"
  shows "num_in 10 44 (num_max (Fin 10) (num_round (num_add (Fin 20) (num_mul (num_add p (Fin 5)) (Fin 8)))))"
proof -
  have "upper 3 (num_add p (Fin 5))"
    using assms fl_upper [of _ 3] by (cases p) (auto simp: upper_def)
  from upper_round [OF upper_add [OF upper_scale [OF this, of 8], of 20]]
  have "upper 44 (num_round (num_add (Fin 20) (num_mul (num_add p (Fin 5)) (Fin 8))))" by simp
  then show ?thesis unfolding upper_def by (elim disjE exE conjE) (auto simp: num_max_def)
qed

lemma scored_bounds: "p \<noteq> NaN \<Longrightarrow> num_in 10 100 (hg_score (scored p))"
proof -
  assume nan: "p \<noteq> NaN"
  obtain c where c: "fee_buffer = Fin c" "0 \<le> c" "c \<le> 1" using fee_buffer_unit by (auto simp: num_in_iff)
  consider (profit) "num_le (Fin 1) p"
    | (stable) q where "p = Fin q" "q < 1" "- c \<le> q"
    | (guarded) q where "p = Fin q" "q < - c" "- 5 / 2 \<le> q"
    | (defense) "num_lt p (Fin (- 5 / 2))" "\<not> num_le (Fin 1) p" "\<not> num_le (Fin (- c)) p"
        "\<not> num_le (Fin (- 5 / 2)) p"
  proof (cases p)
    case (Fin q)
    then show thesis
      using that c by (cases "1 \<le> q"; cases "- c \<le> q"; cases "- 5 / 2 \<le> q") auto
  qed (use nan that in auto)
  then show ?thesis
  proof cases
    case profit
    from num_in_mono [OF profit_score [OF profit]] profit show ?thesis by (simp add: scored_def)
  next
    case stable
    have "num_in (of_int 0) (of_int 2) (fl (q + c))" using stable c by (intro fl_in) simp_all
    with affine_in [of 2 "fl (q + c)" 15 65] show ?thesis
      using stable by (auto simp: scored_def c(1) intro: num_in_mono)
  next
    case guarded
    have "num_in (of_int 0) (of_int 3) (fl (q + 5 / 2))" using guarded c by (intro fl_in) simp_all
    with affine_in [of 3 "fl (q + 5 / 2)" 15 40] show ?thesis
      using guarded c(2,3) by (auto simp: scored_def c(1) intro: num_in_mono)
  next
    case defense
    then show ?thesis using defense_score [of p] by (auto simp: scored_def c(1) intro: num_in_mono)
  qed
qed

lemma fill_field_number: "fill_field ev k \<noteq> NaN"
  by (simp add: fill_field_def Let_def)

lemma gauge_pct_number: "gauge_pct life u \<noteq> NaN"
proof -
  have "num_mul (num_div (Fin a) c) (Fin 100) \<noteq> NaN" if "num_lt (Fin 0) c" for a c
  proof (cases c)
    case (Fin q)
    with that have "num_div (Fin a) c \<noteq> NaN" by (simp add: b64.rnd_not_NaN)
    then show ?thesis by (cases "num_div (Fin a) c") (simp_all add: b64.rnd_not_NaN inf_signed_def)
  qed (use that in \<open>simp_all add: b64.rnd_not_NaN\<close>)
  moreover have "\<exists>a. (case u of Some n \<Rightarrow> if is_finite n then n else Fin 0 | None \<Rightarrow> Fin 0) = Fin a"
    by (auto simp: is_finite_iff split: option.split)
  ultimately show ?thesis by (auto simp: gauge_pct_def Let_def)
qed

subsection \<open>Channels within their bounds\<close>

lemma lerp_in:
  assumes "0 \<le> l" "l \<le> 255" "num_in 0 255 r" "num_in 0 1 t"
  shows "num_in 0 255 (lerp (Fin (of_int l)) r t)"
proof -
  obtain b s where bs: "r = Fin b" "0 \<le> b" "b \<le> 255" "t = Fin s" "0 \<le> s" "s \<le> 1"
    using assms(3,4) by (auto simp: num_in_iff)
  have "num_in (of_int (- l)) (of_int (255 - l)) (fl (b - of_int l))"
    using bs assms(1,2) by (intro fl_in) simp_all
  then obtain d where d: "fl (b - of_int l) = Fin d" "- of_int l \<le> d" "d \<le> 255 - of_int l"
    by (auto simp: num_in_iff)
  have l: "(0 :: rat) \<le> of_int l" "(of_int l :: rat) \<le> 255" using assms(1,2) by simp_all
  have "d * s \<le> 255 - of_int l"
  proof (cases "0 \<le> d")
    case True
    then have "d * s \<le> d" using bs(6) by (simp add: mult_left_le)
    with d(3) show ?thesis by simp
  next
    case False
    then have "d * s \<le> 0" using bs(5) by (simp add: mult_nonpos_nonneg)
    with l show ?thesis by simp
  qed
  moreover have "- of_int l \<le> d * s"
  proof (cases "0 \<le> d")
    case True
    then have "0 \<le> d * s" using bs(5) by simp
    with l show ?thesis by simp
  next
    case False
    then have "d * 1 \<le> d * s" using bs(6) by (intro mult_left_mono_neg) simp_all
    with d(2) show ?thesis by simp
  qed
  ultimately have "num_in (of_int (- l)) (of_int (255 - l)) (fl (d * s))"
    using assms(1,2) by (intro fl_in) simp_all
  then obtain p where p: "fl (d * s) = Fin p" "- of_int l \<le> p" "p \<le> 255 - of_int l"
    by (auto simp: num_in_iff)
  have "num_in (of_int 0) (of_int 255) (fl (of_int l + p))"
    using p(2,3) by (intro fl_in) simp_all
  then show ?thesis
    using bs(1,4) d(1) p(1) by (simp add: lerp_def num_sub_def)
qed

lemma stop_values:
  "fl (2 / 5) = Fin (3602879701896397 / 9007199254740992)"
  "fl (3 / 5) = Fin (5404319552844595 / 9007199254740992)"
  "fl (4 / 5) = Fin (3602879701896397 / 4503599627370496)"
  "fl (1 / 8) = Fin (1 / 8)"
  using fl_binade [of "- 2" "2 / 5" 7205759403792794] fl_binade [of "- 1" "3 / 5" 5404319552844595]
    fl_binade [of "- 1" "4 / 5" 7205759403792794] fl_binade [of "- 3" "1 / 8" 4503599627370496]
  by (simp_all add: rounds_to_def)

lemma local_in:
  assumes "a \<le> q" "q \<le> b" "1 / 8 \<le> b - a" "b - a \<le> 1"
  shows "num_in 0 1 (num_div (num_sub (Fin q) (Fin a)) (num_sub (Fin b) (Fin a)))"
proof -
  have "num_in 0 1 (fl (b - a))" "num_in 0 1 (fl (q - a))" using assms by (auto intro!: fl_unit)
  then obtain d n where dn: "fl (b - a) = Fin d" "fl (q - a) = Fin n" "0 \<le> n" by (auto simp: num_in_iff)
  have "num_le (fl (1 / 8)) (fl (b - a))" "num_le (fl (q - a)) (fl (b - a))"
    using assms by (auto intro!: fl_mono)
  then have "0 < d" "n \<le> d" using dn by (simp_all add: stop_values)
  then have "num_in 0 1 (fl (n / d))" using dn(3) by (intro fl_unit) simp_all
  with dn \<open>0 < d\<close> show ?thesis by (simp add: num_sub_def)
qed

fun in_gamut :: "rgb \<Rightarrow> bool" where
  "in_gamut (a, b, c) \<longleftrightarrow> num_in 0 255 a \<and> num_in 0 255 b \<and> num_in 0 255 c"

lemma lerpRgb_gamut:
  assumes "0 \<le> a" "a \<le> 255" "0 \<le> b" "b \<le> 255" "0 \<le> c" "c \<le> 255" "in_gamut r" "num_in 0 1 t"
  shows "in_gamut (lerpRgb (Fin (of_int a), Fin (of_int b), Fin (of_int c)) r t)"
  using assms by (cases r) (simp add: lerp_in)

lemma default_accent: "hexToRgb DEFAULT_ACCENT_HEX = (Fin 232, Fin 163, Fin 61)"
  by (simp add: hexToRgb_def DEFAULT_ACCENT_HEX_def parse_hex_def split_sign_def is_space_def
      starts_with_def lower_def lower_char_def radix_digit_def is_digit_def digit_val_def
      num_of_int_def fl_numeral Let_def)

lemma heat_gamut:
  assumes "num_in 0 1 t"
  shows "in_gamut (blend t (heat_stops (Fin 232, Fin 163, Fin 61)))"
proof -
  obtain q where q: "t = Fin q" "0 \<le> q" "q \<le> 1" using assms by (auto simp: num_in_iff)
  have last_stop: "in_gamut (lerpRgb (Fin 232, Fin 163, Fin 61) (Fin 255, Fin 248, Fin 224) (fl (6 / 10)))"
    using lerpRgb_gamut [of 232 163 61 "(Fin 255, Fin 248, Fin 224)" "fl (6 / 10)"]
    by (simp add: stop_values)
  consider "q \<le> 3602879701896397 / 9007199254740992"
    | "3602879701896397 / 9007199254740992 < q" "q \<le> 5404319552844595 / 9007199254740992"
    | "5404319552844595 / 9007199254740992 < q" "q \<le> 3602879701896397 / 4503599627370496"
    | "3602879701896397 / 4503599627370496 < q" by linarith
  then show ?thesis
  proof cases
    case 1
    then have "num_in 0 1 (num_div (num_sub t (Fin 0)) (num_sub (fl (4 / 10)) (Fin 0)))"
      using q local_in [of 0 q "3602879701896397 / 9007199254740992"] by (simp add: stop_values)
    with 1 q lerpRgb_gamut [of 14 12 10 "(Fin 26, Fin 34, Fin 50)"] show ?thesis
      by (simp add: heat_stops_def stop_values)
  next
    case 2
    then have "num_in 0 1 (num_div (num_sub t (fl (4 / 10))) (num_sub (fl (6 / 10)) (fl (4 / 10))))"
      using q local_in [of "3602879701896397 / 9007199254740992" q "5404319552844595 / 9007199254740992"]
      by (simp add: stop_values)
    with 2 q lerpRgb_gamut [of 26 34 50 "(Fin 42, Fin 106, Fin 129)"] show ?thesis
      by (simp add: heat_stops_def stop_values)
  next
    case 3
    then have "num_in 0 1 (num_div (num_sub t (fl (6 / 10))) (num_sub (fl (8 / 10)) (fl (6 / 10))))"
      using q local_in [of "5404319552844595 / 9007199254740992" q "3602879701896397 / 4503599627370496"]
      by (simp add: stop_values)
    with 3 q lerpRgb_gamut [of 42 106 129 "(Fin 232, Fin 163, Fin 61)"] show ?thesis
      by (simp add: heat_stops_def stop_values)
  next
    case 4
    then have "num_in 0 1 (num_div (num_sub t (fl (8 / 10))) (num_sub (Fin 1) (fl (8 / 10))))"
      using q local_in [of "3602879701896397 / 4503599627370496" q 1] by (simp add: stop_values)
    with 4 q last_stop lerpRgb_gamut [of 232 163 61 "lerpRgb (Fin 232, Fin 163, Fin 61) (Fin 255, Fin 248, Fin 224) (fl (6 / 10))"]
    show ?thesis by (simp add: heat_stops_def stop_values del: lerpRgb.simps)
  qed
qed

subsection \<open>Rendering\<close>

lemma setText_conv: "setText t e = e\<lparr>el_text := t\<rparr>"
  by (simp add: setText_def)

lemma config_frame [simp]:
  "componentType (e\<lparr>el_text := t\<rparr>) = componentType e"
  "componentType (e\<lparr>el_seen := b\<rparr>) = componentType e"
  "componentType (setMeter p v e) = componentType e"
  "componentType (setBadge v l e) = componentType e"
  by (simp_all add: componentType_def setMeter_def setBadge_def Let_def)

lemma setMeter_again [simp]: "setMeter p v (setMeter p' v' e) = setMeter p v e"
  by (simp add: setMeter_def Let_def)

lemma setBadge_again [simp]: "setBadge v l (setBadge v' l' e) = setBadge v l e"
  by (simp add: setBadge_def)

lemma render_text_again:
  assumes "render_text loc e v format = Some e'"
  shows "render_text loc e' v format = Some e'"
proof (cases "nullish v")
  case True
  with assms show ?thesis by (cases "el_seen e") (auto simp: render_text_def setText_conv)
next
  case False
  with assms obtain out where out: "value_text loc (coalesce format (el_format e)) (el_metric e) v = Some out"
    by (auto simp: render_text_def split: option.splits)
  with False assms show ?thesis by (cases out) (auto simp: render_text_def setText_conv)
qed

lemma render_text_component:
  assumes "render_text loc e v format = Some e'"
  shows "componentType e' = componentType e"
proof (cases "nullish v")
  case True
  with assms show ?thesis by (cases "el_seen e") (auto simp: render_text_def setText_conv)
next
  case False
  with assms obtain out where "value_text loc (coalesce format (el_format e)) (el_metric e) v = Some out"
    by (auto simp: render_text_def split: option.splits)
  with False assms show ?thesis by (cases out) (auto simp: render_text_def setText_conv)
qed

subsection \<open>Properties\<close>

text \<open>
  The health score is a number between 10 and 100 for every round trip and every unrealised value.
\<close>

theorem health_score_bounded: "num_in 10 100 (hg_score (PositionHealthGauge life unrealizedVal))"
  using scored_bounds [OF gauge_pct_number, of life unrealizedVal]
  by (simp add: PositionHealthGauge_def split: option.split prod.split)

text \<open>
  The score is not monotone in the return: it falls from 92 to 85 as the return rises from 15/16 of a
  percent to one percent, where the status turns from a stable hold to a profit.
\<close>

theorem gauge_drops_into_profit:
  "hg_score (scored (Fin (15 / 16))) = Fin 92 \<and> hg_status (scored (Fin (15 / 16))) = ''STABLE HOLD'' \<and>
   hg_score (scored (Fin 1)) = Fin 85 \<and> hg_status (scored (Fin 1)) = ''IN PROFIT''"
proof -
  have buffer: "fee_buffer = Fin (7656119366529843 / 9007199254740992)"
    using fl_binade [of "- 1" "17 / 20" 7656119366529843] by (simp add: fee_buffer_def rounds_to_def)
  have dist: "fl (16100368667849523 / 9007199254740992) = Fin (4025092166962381 / 2251799813685248)"
    using fl_binade [of 0 "16100368667849523 / 9007199254740992" 8050184333924762]
    by (simp add: rounds_to_def)
  have scale: "fl (60376382504435715 / 2251799813685248) = Fin (429 / 16)"
    using fl_binade [of 4 "60376382504435715 / 2251799813685248" "429 * 2 ^ 44"] by (simp add: rounds_to_def)
  have lift: "fl (1469 / 16) = Fin (1469 / 16)"
    using fl_binade [of 6 "1469 / 16" "1469 * 2 ^ 42"] by (simp add: rounds_to_def)
  have near: "\<lfloor>1477 / 16 :: rat\<rfloor> = 92" by (simp add: floor_frac)
  show ?thesis
    by (simp add: scored_def buffer dist scale lift near fl_numeral num_min_def floor_frac)
qed

text \<open>
  The palette maps every number, infinities included, to channels between 0 and 255.
\<close>

theorem heat_channels_bounded:
  assumes "t \<noteq> NaN"
  shows "in_gamut (colormap t DEFAULT_ACCENT_HEX)"
  using assms by (simp add: colormap_def default_accent heat_gamut clamp01_def num_in_clamp)

lemma heat_channels_bounded_witness: "in_gamut (colormap PInf DEFAULT_ACCENT_HEX)"
  by (rule heat_channels_bounded) simp

lemma heat_of_no_number:
  "colormap NaN DEFAULT_ACCENT_HEX =
     lerpRgb (Fin 232, Fin 163, Fin 61) (Fin 255, Fin 248, Fin 224) (fl (6 / 10))"
  by (simp add: colormap_def default_accent clamp01_def num_clamp_NaN heat_stops_def del: lerpRgb.simps)

text \<open>
  Rendering a value a second time changes nothing, whatever the element shows values as: what is
  written depends on the value and on the element's attributes, never on what it showed before.
\<close>

theorem render_idempotent:
  assumes "renderValue loc e v format = Some e'"
  shows "renderValue loc e' v format = Some e'"
proof -
  consider (meter) "componentType e = ''meter''" | (badge) "componentType e = ''badge''"
    | (texts) "componentType e \<noteq> ''meter''" "componentType e \<noteq> ''badge''" by blast
  then show ?thesis
  proof cases
    case texts
    then have out: "render_text loc e (extractValue v (componentType e)) format = Some e'"
      using assms by (simp add: renderValue_def Let_def)
    with texts show ?thesis
      by (simp add: renderValue_def render_text_component [OF out] render_text_again [OF out] Let_def)
  qed (use assms in \<open>auto simp: renderValue_def Let_def split: if_splits\<close>)
qed

definition sample_badge :: element where
  "sample_badge =
     \<lparr>el_component = Some ''badge'', el_k = None, el_meter_attr = False, el_mbar_attr = False,
      el_badge_attr = False, el_fallback = None, el_format = None, el_metric = None, el_text = [],
      el_width = [], el_valuenow = [], el_tone = [], el_variant = None, el_seen = False\<rparr>"

lemma render_idempotent_witness:
  "renderValue (\<lambda>_. []) (setBadge VSuccess ''LIVE'' sample_badge) (JStr ''LIVE'') None =
     Some (setBadge VSuccess ''LIVE'' sample_badge)"
  by (rule render_idempotent [of _ sample_badge])
    (simp add: renderValue_def extractValue_def componentType_def sample_badge_def Let_def)

lemma keeps_last_reading:
  assumes "componentType e = ''text''" "el_seen e" "nullish v \<or> v = JNum NaN \<or> v = JNum PInf \<or> v = JNum NInf"
  shows "renderValue loc e v format = Some e"
  using assms by (auto simp: renderValue_def extractValue_def render_text_def value_text_def nullish_def Let_def)

end
