(* ===== verification/RadixTree.thy ===== *)
theory RadixTree
  imports ExplorePath
begin

text \<open>
  The tree of stored policy paths (\<^verbatim>\<open>components/learning/radix-tree-viz.tsx\<close>): how a key becomes a
  token path, the tree built from a list of keys, the thresholds shared with the branches, and what the
  panel derives from the keys and the live symbols before it draws. The nodes the code mutates in place
  are rebuilt; a list of children that is \<^verbatim>\<open>undefined\<close> and an empty one are read alike.
\<close>

subsection \<open>Keys\<close>

definition MAX_TRIE_KEYS :: nat where "MAX_TRIE_KEYS = 1500"

text \<open>\<^verbatim>\<open>replace(/\.bin$/i, "")\<close>.\<close>

definition strip_bin :: "string \<Rightarrow> string" where
  "strip_bin s = (if ends_with (lower s) ''.bin'' then take (length s - 4) s else s)"

fun drop_first_prefix :: "string list \<Rightarrow> string \<Rightarrow> string option" where
  "drop_first_prefix [] key = None"
| "drop_first_prefix (p # ps) key =
     (if starts_with key p then Some (slice_from (length p) key) else drop_first_prefix ps key)"

definition explored_prefix :: string where "explored_prefix = ''policy/explored/''"

definition explored_key :: "string \<Rightarrow> string" where
  "explored_key rest =
     (case index_of ''/'' rest of
        None \<Rightarrow> rest
      | Some slash \<Rightarrow>
          if slash = 0 then rest
          else
            let role = take slash rest; path = strip_bin (drop (slash + 1) rest)
            in if path = [] then rest else path @ ''/'' @ role @ ''.bin'')"

definition grammarKey :: "string \<Rightarrow> string" where
  "grammarKey key =
     (case drop_first_prefix [''model/paths''] key of
        Some rest \<Rightarrow> rest
      | None \<Rightarrow>
          (case drop_first_prefix [''policy/current/'', ''model/current/''] key of
             Some rest \<Rightarrow> rest
           | None \<Rightarrow>
               if starts_with key explored_prefix
               then explored_key (slice_from (length explored_prefix) key) else key))"

text \<open>The tokens and the action of a key; an empty action is no action.\<close>

definition key_parts :: "string \<Rightarrow> string list" where
  "key_parts raw = segments (grammarKey raw)"

definition is_action_part :: "string list \<Rightarrow> bool" where
  "is_action_part parts \<longleftrightarrow> parts \<noteq> [] \<and> ends_with (last parts) ''.bin''"

definition region_tokens :: "string list \<Rightarrow> string list" where
  "region_tokens parts = (if is_action_part parts then butlast parts else parts)"

definition action_of :: "string list \<Rightarrow> string option" where
  "action_of parts =
     (if is_action_part parts
      then (let a = upper_case (strip_bin (last parts)) in if a = [] then None else Some a) else None)"

subsection \<open>The tree\<close>

datatype TrieNode =
  TrieNode (tn_id: string) (tn_prefix: string) (tn_token: string) (tn_action: "string option")
    (tn_threshold: "jsnum option") (tn_children: "TrieNode list") (tn_hidden: "TrieNode list")

definition with_children :: "TrieNode \<Rightarrow> TrieNode list \<Rightarrow> TrieNode" where
  "with_children n cs =
     TrieNode (tn_id n) (tn_prefix n) (tn_token n) (tn_action n) (tn_threshold n) cs (tn_hidden n)"

definition with_threshold :: "TrieNode \<Rightarrow> jsnum option \<Rightarrow> TrieNode" where
  "with_threshold n t =
     TrieNode (tn_id n) (tn_prefix n) (tn_token n) (tn_action n) t (tn_children n) (tn_hidden n)"

definition trie_root :: TrieNode where
  "trie_root = TrieNode ''root'' ''root'' [] None None [] []"

definition node_id :: "nat \<Rightarrow> string" where
  "node_id n = int_text (int n)"

text \<open>\<^verbatim>\<open>find\<close> on the children, as the place of what it finds or the length of the list.\<close>

definition place :: "('a \<Rightarrow> bool) \<Rightarrow> 'a list \<Rightarrow> nat" where
  "place P xs = length (takeWhile (\<lambda>x. \<not> P x) xs)"

definition exploreLeafThreshold :: "jsnum option \<Rightarrow> jsnum option" where
  "exploreLeafThreshold threshold =
     (case threshold of None \<Rightarrow> None | Some t \<Rightarrow> if is_finite t then Some t else None)"

definition add_leaf ::
    "string \<Rightarrow> string option \<Rightarrow> jsnum option \<Rightarrow> nat \<Rightarrow> TrieNode \<Rightarrow> TrieNode \<times> nat" where
  "add_leaf pre action resolved nextId current =
     (case action of
        None \<Rightarrow> (current, nextId)
      | Some a \<Rightarrow>
          let cs = tn_children current; i = place (\<lambda>c. tn_action c = Some a) cs
          in if i < length cs
             then (if resolved \<noteq> None
                   then with_children current (cs[i := with_threshold (cs ! i) resolved])
                   else current, nextId)
             else (with_children current
                     (cs @ [TrieNode (node_id nextId) (pre @ ''/'' @ lower a @ ''.bin'') []
                              (Some a) resolved [] []]), nextId + 1))"

definition longer :: "string \<Rightarrow> string \<Rightarrow> string" where
  "longer pre token = (if pre \<noteq> [] then pre @ ''/'' @ token else token)"

fun add_path ::
    "string \<Rightarrow> string list \<Rightarrow> string option \<Rightarrow> jsnum option \<Rightarrow> nat \<Rightarrow> TrieNode \<Rightarrow> TrieNode \<times> nat" where
  "add_path pre [] action resolved nextId current = add_leaf pre action resolved nextId current"
| "add_path pre (token # rest) action resolved nextId current =
     (let cs = tn_children current; deeper = longer pre token;
          i = place (\<lambda>c. tn_token c = token \<and> tn_action c = None) cs
      in if i < length cs
         then (case add_path deeper rest action resolved nextId (cs ! i) of
                 (child, n) \<Rightarrow> (with_children current (cs[i := child]), n))
         else (case add_path deeper rest action resolved (nextId + 1)
                      (TrieNode (node_id nextId) deeper token None None [] []) of
                 (child, n) \<Rightarrow> (with_children current (cs @ [child]), n)))"

definition add_key :: "thresholds \<Rightarrow> TrieNode \<times> nat \<Rightarrow> string \<Rightarrow> TrieNode \<times> nat" where
  "add_key ths st raw =
     (let parts = key_parts raw
      in if parts = [] \<or> region_tokens parts = [] then st
         else add_path [] (region_tokens parts) (action_of parts)
                (exploreLeafThreshold (map_of ths raw)) (snd st) (fst st))"

text \<open>\<^verbatim>\<open>shadeThresholds\<close> with the node it leaves behind: a branch takes the mean of its children.\<close>

definition mean_of :: "jsnum list \<Rightarrow> jsnum" where
  "mean_of ts = num_div (foldl num_add (Fin 0) ts) (num_of_nat (length ts))"

primrec shade :: "TrieNode \<Rightarrow> TrieNode \<times> jsnum option" where
  "shade (TrieNode i p tok act t cs hid) =
     (let shaded = map shade cs; fromChildren = List.map_filter snd shaded;
          kept = map fst shaded
      in case act of
           Some _ \<Rightarrow> (TrieNode i p tok act t kept hid, t)
         | None \<Rightarrow>
             if fromChildren = [] then (TrieNode i p tok act t kept hid, None)
             else (TrieNode i p tok act (Some (mean_of fromChildren)) kept hid,
                   Some (mean_of fromChildren)))"

definition grow :: "string list \<Rightarrow> thresholds \<Rightarrow> TrieNode \<times> nat" where
  "grow keys ths = foldl (add_key ths) (trie_root, 1) keys"

definition buildTreeFromPrefixes :: "string list \<Rightarrow> thresholds \<Rightarrow> TrieNode option" where
  "buildTreeFromPrefixes keys ths =
     (if keys = [] then None else Some (fst (shade (fst (grow keys ths)))))"

primrec walk_paths :: "TrieNode \<Rightarrow> string list \<Rightarrow> string list" where
  "walk_paths (TrieNode i p tok act t cs hid) = (\<lambda>currentPath.
     let nextPath = (if tok \<noteq> [] then currentPath @ [tok] else currentPath)
     in (case act of
           Some a \<Rightarrow> if nextPath \<noteq> [] then [join_with ''/'' nextPath @ ''/'' @ lower a @ ''.bin''] else []
         | None \<Rightarrow> []) @
        concat (map (\<lambda>w. w nextPath) (map walk_paths cs @ map walk_paths hid)))"

definition extractPrefixes :: "TrieNode option \<Rightarrow> string list" where
  "extractPrefixes data = (case data of None \<Rightarrow> [] | Some node \<Rightarrow> walk_paths node [])"

subsection \<open>Reading a tree\<close>

text \<open>The branches of a subtree: the tokens from its node down, with the action they end in.\<close>

definition prep :: "string \<Rightarrow> string list \<times> string \<Rightarrow> string list \<times> string" where
  "prep tok b = (if tok = [] then b else (tok # fst b, snd b))"

primrec branches :: "TrieNode \<Rightarrow> (string list \<times> string) set" where
  "branches (TrieNode i p tok act t cs hid) =
     prep tok ` ((case act of Some a \<Rightarrow> {([], a)} | None \<Rightarrow> {}) \<union> \<Union> (set (map branches cs @ map branches hid)))"

primrec ids_of :: "TrieNode \<Rightarrow> string list" where
  "ids_of (TrieNode i p tok act t cs hid) = i # concat (map ids_of cs @ map ids_of hid)"

primrec all_nodes :: "(TrieNode \<Rightarrow> bool) \<Rightarrow> TrieNode \<Rightarrow> bool" where
  "all_nodes P (TrieNode i p tok act t cs hid) =
     (P (TrieNode i p tok act t cs hid) \<and> (\<forall>b \<in> set (map (all_nodes P) cs @ map (all_nodes P) hid). b))"

definition own :: "TrieNode \<Rightarrow> (string list \<times> string) set" where
  "own n = (case tn_action n of Some a \<Rightarrow> {([], a)} | None \<Rightarrow> {})"

lemma branches_conv:
  "branches n = prep (tn_token n) ` (own n \<union> \<Union> (branches ` (set (tn_children n) \<union> set (tn_hidden n))))"
  by (cases n) (simp add: own_def Un_assoc)

lemma ids_conv: "ids_of n = tn_id n # concat (map ids_of (tn_children n @ tn_hidden n))"
  by (cases n) simp

lemma all_nodes_conv:
  "all_nodes P n \<longleftrightarrow> P n \<and> (\<forall>c \<in> set (tn_children n) \<union> set (tn_hidden n). all_nodes P c)"
  by (cases n) auto

lemma with_children_sel [simp]:
  "tn_id (with_children n cs) = tn_id n" "tn_prefix (with_children n cs) = tn_prefix n"
  "tn_token (with_children n cs) = tn_token n" "tn_action (with_children n cs) = tn_action n"
  "tn_threshold (with_children n cs) = tn_threshold n" "tn_children (with_children n cs) = cs"
  "tn_hidden (with_children n cs) = tn_hidden n" "own (with_children n cs) = own n"
  by (simp_all add: with_children_def own_def)

lemma with_threshold_sel [simp]:
  "tn_id (with_threshold n t) = tn_id n" "tn_prefix (with_threshold n t) = tn_prefix n"
  "tn_token (with_threshold n t) = tn_token n" "tn_action (with_threshold n t) = tn_action n"
  "tn_threshold (with_threshold n t) = t" "tn_children (with_threshold n t) = tn_children n"
  "tn_hidden (with_threshold n t) = tn_hidden n" "own (with_threshold n t) = own n"
  by (simp_all add: with_threshold_def own_def)

lemma with_threshold_same [simp]:
  "branches (with_threshold n t) = branches n" "ids_of (with_threshold n t) = ids_of n"
  by (simp_all add: branches_conv [of "with_threshold n t"] branches_conv [of n]
      ids_conv [of "with_threshold n t"] ids_conv [of n])

lemma with_children_branches:
  "branches (with_children n cs) =
     prep (tn_token n) ` (own n \<union> \<Union> (branches ` (set cs \<union> set (tn_hidden n))))"
  by (simp add: branches_conv [of "with_children n cs"])

lemma place_found:
  "place P xs < length xs \<Longrightarrow> P (xs ! place P xs)"
  unfolding place_def by (induction xs) auto

lemma place_missing: "\<not> place P xs < length xs \<longleftrightarrow> (\<forall>x \<in> set xs. \<not> P x)"
proof -
  have "length (takeWhile (\<lambda>x. \<not> P x) xs) = length xs \<longleftrightarrow> (\<forall>x \<in> set xs. \<not> P x)"
    by (induction xs) auto
  moreover have "length (takeWhile (\<lambda>x. \<not> P x) xs) \<le> length xs" by (rule length_takeWhile_le)
  ultimately show ?thesis unfolding place_def by linarith
qed

lemma Union_update:
  assumes "i < length xs" and "f y = f (xs ! i) \<union> Z"
  shows "\<Union> (f ` set (xs[i := y])) = \<Union> (f ` set xs) \<union> Z"
proof -
  have xs: "xs = take i xs @ xs ! i # drop (Suc i) xs" using assms(1) by (rule id_take_nth_drop)
  have "xs[i := y] = take i xs @ y # drop (Suc i) xs" using assms(1) by (rule upd_conv_take_nth_drop)
  then have "\<Union> (f ` set (xs[i := y])) = \<Union> (f ` set (take i xs)) \<union> f y \<union> \<Union> (f ` set (drop (Suc i) xs))"
    by auto
  also have "\<dots> = \<Union> (f ` set (take i xs @ xs ! i # drop (Suc i) xs)) \<union> Z"
    unfolding assms(2) by auto
  finally show ?thesis using xs by simp
qed

lemma mset_concat_update:
  assumes "i < length xs" and "mset (f y) = mset (f (xs ! i)) + Z"
  shows "mset (concat (map f (xs[i := y]))) = mset (concat (map f xs)) + Z"
proof -
  have xs: "xs = take i xs @ xs ! i # drop (Suc i) xs" using assms(1) by (rule id_take_nth_drop)
  have "xs[i := y] = take i xs @ y # drop (Suc i) xs" using assms(1) by (rule upd_conv_take_nth_drop)
  then have "mset (concat (map f (xs[i := y]))) =
      mset (concat (map f (take i xs @ xs ! i # drop (Suc i) xs))) + Z"
    using assms(2) by (simp add: ac_simps)
  then show ?thesis using xs by simp
qed

subsection \<open>What a key adds\<close>

lemma add_path_frame:
  "tn_id (fst (add_path pre ts act res k n)) = tn_id n \<and>
   tn_prefix (fst (add_path pre ts act res k n)) = tn_prefix n \<and>
   tn_token (fst (add_path pre ts act res k n)) = tn_token n \<and>
   tn_action (fst (add_path pre ts act res k n)) = tn_action n \<and>
   tn_threshold (fst (add_path pre ts act res k n)) = tn_threshold n \<and>
   tn_hidden (fst (add_path pre ts act res k n)) = tn_hidden n"
  by (cases ts) (auto simp: add_leaf_def Let_def split: option.split prod.split)

lemma all_nodes_set:
  assumes "all_nodes P n" "all_nodes P y" "P (with_children n ((tn_children n)[i := y]))"
  shows "all_nodes P (with_children n ((tn_children n)[i := y]))"
proof -
  have "set ((tn_children n)[i := y]) \<subseteq> insert y (set (tn_children n))" by (rule set_update_subset_insert)
  with assms show ?thesis
    by (auto simp: all_nodes_conv [of P "with_children n _"] all_nodes_conv [of P n])
qed

lemma all_nodes_snoc:
  assumes "all_nodes P n" "all_nodes P y" "P (with_children n (tn_children n @ [y]))"
  shows "all_nodes P (with_children n (tn_children n @ [y]))"
  using assms by (auto simp: all_nodes_conv [of P "with_children n _"] all_nodes_conv [of P n])

lemma all_nodes_here: "all_nodes P n \<Longrightarrow> P n"
  by (cases n) simp

lemma all_nodes_child: "all_nodes P n \<Longrightarrow> i < length (tn_children n) \<Longrightarrow> all_nodes P (tn_children n ! i)"
  by (simp add: all_nodes_conv [of P n])

lemma map_update_same: "i < length xs \<Longrightarrow> f y = f (xs ! i) \<Longrightarrow> map f (xs[i := y]) = map f xs"
  by (metis list_update_id map_update)

text \<open>Below the root a node is a token without an action or an action without a token; no two children
  of a node are the same token or the same action.\<close>

definition key_of :: "TrieNode \<Rightarrow> string \<times> string option" where
  "key_of c = (tn_token c, tn_action c)"

definition kinds_ok :: "TrieNode \<Rightarrow> bool" where
  "kinds_ok n \<longleftrightarrow>
     tn_hidden n = [] \<and> list_all (\<lambda>(t, a). (t = []) = (a \<noteq> None)) (map key_of (tn_children n)) \<and>
     distinct (map key_of (tn_children n))"

lemma kinds_ok_cong:
  "tn_hidden n = tn_hidden m \<Longrightarrow> map key_of (tn_children n) = map key_of (tn_children m) \<Longrightarrow> kinds_ok n = kinds_ok m"
  by (simp add: kinds_ok_def)

lemma kinds_ok_snoc:
  "kinds_ok n \<Longrightarrow> key_of y \<notin> key_of ` set (tn_children n) \<Longrightarrow> (tn_token y = []) = (tn_action y \<noteq> None) \<Longrightarrow>
   kinds_ok (with_children n (tn_children n @ [y]))"
  by (simp add: kinds_ok_def key_of_def)

lemma kinds_ok_set:
  assumes "kinds_ok n" "i < length (tn_children n)" "key_of y = key_of (tn_children n ! i)"
  shows "kinds_ok (with_children n ((tn_children n)[i := y]))"
proof -
  have "map key_of ((tn_children n)[i := y]) = map key_of (tn_children n)"
    by (rule map_update_same [OF assms(2,3)])
  with kinds_ok_cong [of "with_children n ((tn_children n)[i := y])" n] assms(1) show ?thesis
    by (simp del: map_update)
qed

lemma kinds_ok_leaf: "kinds_ok (TrieNode i p t a th [] [])"
  by (simp add: kinds_ok_def)

lemma add_path_found:
  assumes "place (\<lambda>c. tn_token c = t \<and> tn_action c = None) (tn_children n) < length (tn_children n)"
  defines "i \<equiv> place (\<lambda>c. tn_token c = t \<and> tn_action c = None) (tn_children n)"
  shows "fst (add_path pre (t # ts) act res k n) =
      with_children n ((tn_children n)[i := fst (add_path (longer pre t) ts act res k (tn_children n ! i))])"
    and "snd (add_path pre (t # ts) act res k n) = snd (add_path (longer pre t) ts act res k (tn_children n ! i))"
  using assms by (simp_all add: Let_def split: prod.split)

definition fresh_node :: "string \<Rightarrow> string \<Rightarrow> nat \<Rightarrow> TrieNode" where
  "fresh_node pre t k = TrieNode (node_id k) (longer pre t) t None None [] []"

lemma add_path_fresh:
  assumes "\<not> place (\<lambda>c. tn_token c = t \<and> tn_action c = None) (tn_children n) < length (tn_children n)"
  shows "fst (add_path pre (t # ts) act res k n) =
      with_children n (tn_children n @ [fst (add_path (longer pre t) ts act res (k + 1) (fresh_node pre t k))])"
    and "snd (add_path pre (t # ts) act res k n) = snd (add_path (longer pre t) ts act res (k + 1) (fresh_node pre t k))"
  using assms by (simp_all add: Let_def fresh_node_def split: prod.split)

definition leaf_node :: "string \<Rightarrow> string \<Rightarrow> jsnum option \<Rightarrow> nat \<Rightarrow> TrieNode" where
  "leaf_node pre a res k = TrieNode (node_id k) (pre @ ''/'' @ lower a @ ''.bin'') [] (Some a) res [] []"

lemma add_leaf_cases:
  obtains (none) "act = None" "add_leaf pre act res k n = (n, k)"
  | (known) a i where "act = Some a" "i < length (tn_children n)" "tn_action (tn_children n ! i) = Some a"
      "add_leaf pre act res k n =
        (if res = None then n
         else with_children n ((tn_children n)[i := with_threshold (tn_children n ! i) res]), k)"
  | (fresh) a where "act = Some a" "\<forall>c \<in> set (tn_children n). tn_action c \<noteq> Some a"
      "add_leaf pre act res k n = (with_children n (tn_children n @ [leaf_node pre a res k]), k + 1)"
proof (cases act)
  case None
  then show thesis using none by (simp add: add_leaf_def)
next
  case (Some a)
  let ?i = "place (\<lambda>c. tn_action c = Some a) (tn_children n)"
  show thesis
  proof (cases "?i < length (tn_children n)")
    case True
    with known [OF Some True place_found [OF True]] Some show thesis
      by (simp add: add_leaf_def Let_def)
  next
    case False
    with fresh [OF Some] Some show thesis
      by (simp add: place_missing add_leaf_def leaf_node_def Let_def)
  qed
qed

lemma all_nodes_mono: "all_nodes P n \<Longrightarrow> (\<And>m. P m \<Longrightarrow> Q m) \<Longrightarrow> all_nodes Q n"
proof (induction n)
  case (TrieNode i p tok act t cs hid)
  then have "P (TrieNode i p tok act t cs hid)"
    "\<And>c. c \<in> set cs \<union> set hid \<Longrightarrow> all_nodes P c" by auto
  then show ?case using TrieNode(1,2,4) by auto
qed

lemma all_nodes_rethreshold:
  assumes "all_nodes P c" "P (with_threshold c t)"
  shows "all_nodes P (with_threshold c t)"
proof -
  have "\<forall>d \<in> set (tn_children c) \<union> set (tn_hidden c). all_nodes P d"
    using all_nodes_conv [THEN iffD1, OF assms(1)] by (rule conjunct2)
  with assms(2) show ?thesis by (simp only: all_nodes_conv [of P "with_threshold c t"] with_threshold_sel)
qed

text \<open>One induction for all that holds of every node: \<open>P\<close> before the key, \<open>Q\<close> after it.\<close>

lemma add_path_all:
  assumes weak: "\<And>m. P m \<Longrightarrow> Q m"
    and thr: "\<And>m. Q m \<Longrightarrow> Q (with_threshold m res)"
    and set_child: "\<And>m i y. P m \<Longrightarrow> i < length (tn_children m) \<Longrightarrow> key_of y = key_of (tn_children m ! i) \<Longrightarrow>
      Q (with_children m ((tn_children m)[i := y]))"
    and snoc: "\<And>m y. P m \<Longrightarrow> key_of y \<notin> key_of ` set (tn_children m) \<Longrightarrow>
      (tn_token y = []) = (tn_action y \<noteq> None) \<Longrightarrow> Q (with_children m (tn_children m @ [y]))"
    and leaf: "\<And>pre a k. Q (leaf_node pre a res k)"
    and start: "\<And>pre t k. P (fresh_node pre t k)"
  shows "all_nodes P n \<Longrightarrow> list_all (\<lambda>t. t \<noteq> []) ts \<Longrightarrow> all_nodes Q (fst (add_path pre ts act res k n))"
proof (induction ts arbitrary: pre k n)
  case Nil
  have n: "P n" by (rule all_nodes_here [OF Nil(1)])
  have n': "all_nodes Q n" by (rule all_nodes_mono [OF Nil(1)]) (rule weak)
  show ?case
  proof (cases rule: add_leaf_cases [of act pre res k n])
    case none
    with n' show ?thesis by simp
  next
    case (known a i)
    let ?c = "with_threshold (tn_children n ! i) res"
    have "all_nodes Q ?c"
      using all_nodes_child [OF n' known(2)] by (rule all_nodes_rethreshold) (rule thr, rule all_nodes_here,
        rule all_nodes_child [OF n' known(2)])
    moreover have "Q (with_children n ((tn_children n)[i := ?c]))"
      by (rule set_child [OF n known(2)]) (simp add: key_of_def)
    ultimately show ?thesis using n' known(4) all_nodes_set by simp
  next
    case (fresh a)
    have "Q (with_children n (tn_children n @ [leaf_node pre a res k]))"
      by (rule snoc [OF n]) (use fresh(2) in \<open>auto simp: key_of_def leaf_node_def\<close>)
    moreover have "all_nodes Q (leaf_node pre a res k)"
      using leaf by (simp add: leaf_node_def)
    ultimately show ?thesis using n' fresh(3) all_nodes_snoc by simp
  qed
next
  case (Cons t ts)
  let ?i = "place (\<lambda>c. tn_token c = t \<and> tn_action c = None) (tn_children n)"
  have n: "P n" by (rule all_nodes_here [OF Cons.prems(1)])
  have n': "all_nodes Q n" by (rule all_nodes_mono [OF Cons.prems(1)]) (rule weak)
  have t: "t \<noteq> []" "list_all (\<lambda>t. t \<noteq> []) ts" using Cons.prems(2) by simp_all
  show ?case
  proof (cases "?i < length (tn_children n)")
    case True
    have "all_nodes Q (fst (add_path (longer pre t) ts act res k (tn_children n ! ?i)))"
      by (rule Cons.IH [OF all_nodes_child [OF Cons.prems(1) True] t(2)])
    moreover have "Q (with_children n ((tn_children n)
        [?i := fst (add_path (longer pre t) ts act res k (tn_children n ! ?i))]))"
      by (rule set_child [OF n True]) (simp add: key_of_def add_path_frame)
    ultimately show ?thesis
      unfolding add_path_found(1) [OF True] by (intro all_nodes_set [OF n'])
  next
    case False
    have "all_nodes P (fresh_node pre t k)" using start by (simp add: fresh_node_def)
    then have "all_nodes Q (fst (add_path (longer pre t) ts act res (k + 1) (fresh_node pre t k)))"
      by (rule Cons.IH) (rule t(2))
    moreover have "Q (with_children n (tn_children n @
        [fst (add_path (longer pre t) ts act res (k + 1) (fresh_node pre t k))]))"
      by (rule snoc [OF n])
        (use False t(1) in \<open>auto simp: key_of_def add_path_frame fresh_node_def place_missing\<close>)
    ultimately show ?thesis
      unfolding add_path_fresh(1) [OF False] by (intro all_nodes_snoc [OF n'])
  qed
qed

lemma add_path_kinds:
  "all_nodes kinds_ok n \<Longrightarrow> list_all (\<lambda>t. t \<noteq> []) ts \<Longrightarrow>
   all_nodes kinds_ok (fst (add_path pre ts act res k n))"
proof (rule add_path_all [where P = kinds_ok])
  show "kinds_ok (with_threshold m res)" if "kinds_ok m" for m using that by (simp add: kinds_ok_def)
  show "kinds_ok (leaf_node pre a res k)" for pre a k by (simp add: leaf_node_def kinds_ok_leaf)
  show "kinds_ok (fresh_node pre t k)" for pre t k by (simp add: fresh_node_def kinds_ok_leaf)
qed (auto intro: kinds_ok_set kinds_ok_snoc)

lemma add_path_branches:
  "all_nodes kinds_ok n \<Longrightarrow> list_all (\<lambda>t. t \<noteq> []) ts \<Longrightarrow>
   branches (fst (add_path pre ts act res k n)) =
     branches n \<union> (case act of Some a \<Rightarrow> {prep (tn_token n) (ts, a)} | None \<Rightarrow> {})"
proof (induction ts arbitrary: pre k n)
  case Nil
  show ?case
  proof (cases rule: add_leaf_cases [of act pre res k n])
    case (known a i)
    have "tn_token (tn_children n ! i) = []"
      using Nil(1) known(2,3) by (simp add: all_nodes_conv [of _ n] kinds_ok_def list_all_length key_of_def)
    then have "([], a) \<in> branches (tn_children n ! i)"
      using known(3) by (simp add: branches_conv [of "tn_children n ! i"] own_def prep_def)
    then have old: "prep (tn_token n) ([], a) \<in> branches n"
      using known(2) by (subst branches_conv) (auto intro!: imageI)
    have "\<Union> (branches ` set ((tn_children n)[i := with_threshold (tn_children n ! i) res])) =
        \<Union> (branches ` set (tn_children n)) \<union> {}"
      using known(2) by (intro Union_update) simp_all
    then have "branches (with_children n ((tn_children n)[i := with_threshold (tn_children n ! i) res])) = branches n"
      by (simp add: with_children_branches branches_conv [of n])
    with known(1,4) old show ?thesis by (cases res) (simp_all add: insert_absorb)
  next
    case (fresh a)
    then show ?thesis
      by (simp add: leaf_node_def with_children_branches branches_conv [of n] prep_def image_Un Un_ac)
  qed simp
next
  case (Cons t ts)
  let ?i = "place (\<lambda>c. tn_token c = t \<and> tn_action c = None) (tn_children n)"
  let ?new = "case act of Some a \<Rightarrow> {prep t (ts, a)} | None \<Rightarrow> {}"
  have t: "t \<noteq> []" "list_all (\<lambda>t. t \<noteq> []) ts" using Cons.prems by simp_all
  have news: "prep (tn_token n) ` ?new =
      (case act of Some a \<Rightarrow> {prep (tn_token n) (t # ts, a)} | None \<Rightarrow> {})"
    using t(1) by (simp add: prep_def split: option.split)
  have "branches (fst (add_path pre (t # ts) act res k n)) = branches n \<union> prep (tn_token n) ` ?new"
  proof (cases "?i < length (tn_children n)")
    case True
    let ?r = "fst (add_path (longer pre t) ts act res k (tn_children n ! ?i))"
    have "tn_token (tn_children n ! ?i) = t" using place_found [OF True] by simp
    then have "branches ?r = branches (tn_children n ! ?i) \<union> ?new"
      using Cons.IH [OF all_nodes_child [OF Cons.prems(1) True] t(2)] by (cases act) simp_all
    then have "\<Union> (branches ` set ((tn_children n)[?i := ?r])) = \<Union> (branches ` set (tn_children n)) \<union> ?new"
      by (rule Union_update [OF True])
    then show ?thesis
      unfolding add_path_found(1) [OF True] with_children_branches branches_conv [of n]
      by (simp add: image_Un Un_ac)
  next
    case False
    let ?r = "fst (add_path (longer pre t) ts act res (k + 1) (fresh_node pre t k))"
    have "all_nodes kinds_ok (fresh_node pre t k)" by (simp add: fresh_node_def kinds_ok_leaf)
    from Cons.IH [OF this t(2)] have "branches ?r = ?new" by (cases act) (simp_all add: fresh_node_def)
    then show ?thesis
      unfolding add_path_fresh(1) [OF False] with_children_branches branches_conv [of n]
      by (simp add: image_Un Un_ac)
  qed
  then show ?case by (simp only: news)
qed

lemma add_path_ids:
  "k \<le> snd (add_path pre ts act res k n) \<and>
   mset (ids_of (fst (add_path pre ts act res k n))) =
     mset (ids_of n) + mset (map node_id [k..<snd (add_path pre ts act res k n)])"
proof (induction ts arbitrary: pre k n)
  case Nil
  show ?case
  proof (cases rule: add_leaf_cases [of act pre res k n])
    case (known a i)
    have "mset (concat (map ids_of ((tn_children n)[i := with_threshold (tn_children n ! i) res]))) =
        mset (concat (map ids_of (tn_children n))) + {#}"
      by (rule mset_concat_update [OF known(2)]) simp
    then have "mset (ids_of (with_children n ((tn_children n)[i := with_threshold (tn_children n ! i) res]))) =
        mset (ids_of n)"
      by (simp add: ids_conv [of "with_children n _"] ids_conv [of n])
    with known(4) show ?thesis by (cases res) simp_all
  next
    case (fresh a)
    then show ?thesis
      by (simp add: leaf_node_def ids_conv [of "with_children n _"] ids_conv [of n])
  qed simp
next
  case (Cons t ts)
  let ?i = "place (\<lambda>c. tn_token c = t \<and> tn_action c = None) (tn_children n)"
  show ?case
  proof (cases "?i < length (tn_children n)")
    case True
    let ?r = "add_path (longer pre t) ts act res k (tn_children n ! ?i)"
    have ih: "k \<le> snd ?r" "mset (ids_of (fst ?r)) = mset (ids_of (tn_children n ! ?i)) + mset (map node_id [k..<snd ?r])"
      using Cons.IH by blast+
    have "mset (concat (map ids_of ((tn_children n)[?i := fst ?r]))) =
        mset (concat (map ids_of (tn_children n))) + mset (map node_id [k..<snd ?r])"
      by (rule mset_concat_update [OF True ih(2)])
    then show ?thesis
      unfolding add_path_found [OF True] using ih(1)
      by (simp add: ids_conv [of "with_children n _"] ids_conv [of n])
  next
    case False
    let ?r = "add_path (longer pre t) ts act res (k + 1) (fresh_node pre t k)"
    have ih: "k + 1 \<le> snd ?r" "mset (ids_of (fst ?r)) = mset (ids_of (fresh_node pre t k)) + mset (map node_id [k + 1..<snd ?r])"
      using Cons.IH by blast+
    then have "mset (ids_of (fst ?r)) = mset (map node_id [k..<snd ?r])"
      by (simp add: fresh_node_def upt_conv_Cons)
    then show ?thesis
      unfolding add_path_fresh [OF False] using ih(1)
      by (simp add: ids_conv [of "with_children n _"] ids_conv [of n])
  qed
qed

text \<open>Every threshold of the tree is one the panel was given.\<close>

definition threshold_in :: "(jsnum \<Rightarrow> bool) \<Rightarrow> TrieNode \<Rightarrow> bool" where
  "threshold_in P n \<longleftrightarrow> (case tn_threshold n of None \<Rightarrow> True | Some t \<Rightarrow> P t)"

lemma threshold_in_children [simp]: "threshold_in P (with_children n cs) = threshold_in P n"
  by (simp add: threshold_in_def)

lemma add_path_thresholds:
  assumes "all_nodes (threshold_in P) n" "list_all (\<lambda>t. t \<noteq> []) ts" "\<And>t. res = Some t \<Longrightarrow> P t"
  shows "all_nodes (threshold_in P) (fst (add_path pre ts act res k n))"
proof (rule add_path_all [where P = "threshold_in P", OF _ _ _ _ _ _ assms(1,2)])
  show "threshold_in P (with_threshold m res)" for m
    using assms(3) by (simp add: threshold_in_def split: option.split)
  show "threshold_in P (leaf_node pre a res k)" for pre a k
    using assms(3) by (simp add: leaf_node_def threshold_in_def split: option.split)
qed (simp_all add: fresh_node_def threshold_in_def)

text \<open>A key gives a node at most one more child.\<close>

definition fan_of :: "nat \<Rightarrow> TrieNode \<Rightarrow> bool" where
  "fan_of m n \<longleftrightarrow> length (tn_children n) \<le> m"

lemma add_path_fan:
  assumes "all_nodes (fan_of m) n" "list_all (\<lambda>t. t \<noteq> []) ts"
  shows "all_nodes (fan_of (Suc m)) (fst (add_path pre ts act res k n))"
  by (rule add_path_all [where P = "fan_of m", OF _ _ _ _ _ _ assms])
    (simp_all add: fan_of_def fresh_node_def leaf_node_def)

subsection \<open>Shading\<close>

lemma shade_frame [simp]:
  "tn_id (fst (shade n)) = tn_id n" "tn_prefix (fst (shade n)) = tn_prefix n"
  "tn_token (fst (shade n)) = tn_token n" "tn_action (fst (shade n)) = tn_action n"
  "tn_children (fst (shade n)) = map (\<lambda>c. fst (shade c)) (tn_children n)"
  "tn_hidden (fst (shade n)) = tn_hidden n" "own (fst (shade n)) = own n"
  by (cases n; simp add: Let_def own_def split: option.split)+

lemma shade_ids: "ids_of (fst (shade n)) = ids_of n"
proof (induction n)
  case (TrieNode i p tok act t cs hid)
  have eq: "map (ids_of \<circ> (\<lambda>c. fst (shade c))) cs = map ids_of cs" using TrieNode(1) by simp
  show ?case
    by (simp add: eq ids_conv [of "fst (shade (TrieNode i p tok act t cs hid))"] del: shade.simps)
qed

lemma shade_walk: "walk_paths (fst (shade n)) = walk_paths n"
proof (induction n)
  case (TrieNode i p tok act t cs hid)
  have eq: "map walk_paths (map (\<lambda>c. fst (shade c)) cs) = map walk_paths cs" using TrieNode(1) by simp
  have "fst (shade (TrieNode i p tok act t cs hid)) =
      TrieNode i p tok act (tn_threshold (fst (shade (TrieNode i p tok act t cs hid))))
        (map (\<lambda>c. fst (shade c)) cs) hid"
    by (rule TrieNode.expand) (simp del: shade.simps)
  then show ?case by (metis eq walk_paths.simps)
qed

lemma shade_all:
  assumes "all_nodes P n" "\<And>m. P m \<Longrightarrow> P (fst (shade m))"
  shows "all_nodes P (fst (shade n))"
  using assms(1)
proof (induction n)
  case (TrieNode i p tok act t cs hid)
  let ?n = "TrieNode i p tok act t cs hid"
  have "P (fst (shade ?n))" by (rule assms(2) [OF all_nodes_here [OF TrieNode.prems]])
  moreover have "\<forall>c \<in> set cs. all_nodes P (fst (shade c))" "\<forall>c \<in> set hid. all_nodes P c"
    using TrieNode(1,3) by auto
  ultimately show ?case
    by (subst all_nodes_conv) (auto simp del: shade.simps)
qed

lemma shade_kinds: "all_nodes kinds_ok n \<Longrightarrow> all_nodes kinds_ok (fst (shade n))"
proof (rule shade_all)
  fix m
  assume "kinds_ok m"
  moreover have "map key_of (map (\<lambda>c. fst (shade c)) (tn_children m)) = map key_of (tn_children m)"
    by (simp add: key_of_def)
  ultimately show "kinds_ok (fst (shade m))"
    using kinds_ok_cong [of "fst (shade m)" m] by (simp del: map_map)
qed

text \<open>The mean of numbers between 0 and 1 is between 0 and 1, rounding included.\<close>

lemma sum_unit:
  assumes "list_all (num_in 0 1) ts" "m + length ts \<le> 2 ^ 53" "num_in 0 (of_nat m) a"
  shows "num_in 0 (of_nat (m + length ts)) (foldl num_add a ts)"
  using assms
proof (induction ts arbitrary: m a)
  case (Cons t ts)
  obtain x y where xy: "a = Fin x" "t = Fin y" "0 \<le> x" "x \<le> of_nat m" "0 \<le> y" "y \<le> 1"
    using Cons.prems by (auto simp: num_in_iff)
  have "num_in (of_int 0) (of_int (int (Suc m))) (fl (x + y))"
    by (rule fl_in) (use xy Cons.prems(2) in auto)
  then have "num_in 0 (of_nat (Suc m)) (num_add a t)" using xy by simp
  then have "num_in 0 (of_nat (Suc m + length ts)) (foldl num_add (num_add a t) ts)"
    using Cons.prems by (intro Cons.IH) auto
  then show ?case by simp
qed simp

lemma mean_unit:
  assumes "list_all (num_in 0 1) ts" "ts \<noteq> []" "length ts \<le> 2 ^ 53"
  shows "num_in 0 1 (mean_of ts)"
proof -
  have "num_in 0 (of_nat (0 + length ts)) (foldl num_add (Fin 0) ts)"
    by (rule sum_unit [OF assms(1)]) (use assms(3) in auto)
  then obtain x where x: "foldl num_add (Fin 0) ts = Fin x" "0 \<le> x" "x \<le> of_nat (length ts)"
    by (auto simp: num_in_iff)
  have "num_in 0 1 (fl (x / of_nat (length ts)))"
    by (rule fl_unit) (use x assms(2) in \<open>auto simp: field_simps\<close>)
  then show ?thesis using x(1) assms(2) by (simp add: mean_of_def num_of_nat_def fl_of_nat [OF assms(3)])
qed

text \<open>The thresholds a shaded tree is left with, and the ones it hands up.\<close>

lemma shade_thresholds:
  assumes "all_nodes (threshold_in (num_in 0 1)) n" "all_nodes (fan_of m) n" "m \<le> 2 ^ 53"
    and "all_nodes kinds_ok n"
  shows "all_nodes (threshold_in (num_in 0 1)) (fst (shade n)) \<and>
    (\<forall>t. snd (shade n) = Some t \<longrightarrow> num_in 0 1 t)"
  using assms(1,2,4)
proof (induction n)
  case (TrieNode i p tok act t cs hid)
  let ?n = "TrieNode i p tok act t cs hid" and ?ts = "List.map_filter snd (map shade cs)"
  have hid: "hid = []" using all_nodes_here [OF TrieNode.prems(3)] by (simp add: kinds_ok_def)
  have own: "threshold_in (num_in 0 1) ?n" by (rule all_nodes_here [OF TrieNode.prems(1)])
  have fan: "length cs \<le> m" using all_nodes_here [OF TrieNode.prems(2)] by (simp add: fan_of_def)
  have ih: "all_nodes (threshold_in (num_in 0 1)) (fst (shade c)) \<and>
      (\<forall>t. snd (shade c) = Some t \<longrightarrow> num_in 0 1 t)" if "c \<in> set cs" for c
    by (rule TrieNode.IH(1) [OF that]) (use TrieNode.prems that in auto)
  have "list_all (num_in 0 1) ?ts"
    using ih by (auto simp: list_all_iff List.map_filter_def) (metis snd_conv)
  moreover have "length ?ts \<le> 2 ^ 53"
    using fan assms(3) le_trans [OF length_filter_le]
    by (simp add: List.map_filter_def le_trans [OF length_filter_le])
  ultimately have mean: "?ts \<noteq> [] \<Longrightarrow> num_in 0 1 (mean_of ?ts)" by (simp add: mean_unit)
  have kept: "\<forall>c \<in> set cs. all_nodes (threshold_in (num_in 0 1)) (fst (shade c))" using ih by simp
  have "threshold_in (num_in 0 1) (fst (shade ?n))"
    using own mean by (auto simp: threshold_in_def Let_def split: option.split)
  then have "all_nodes (threshold_in (num_in 0 1)) (fst (shade ?n))"
    using kept hid by (subst all_nodes_conv) (simp del: shade.simps)
  moreover have "num_in 0 1 u" if "snd (shade ?n) = Some u" for u
    using own mean that by (auto simp: threshold_in_def Let_def split: option.split_asm if_splits)
  ultimately show ?case by blast
qed

subsection \<open>Walking\<close>

definition render :: "string list \<times> string \<Rightarrow> string" where
  "render b = join_with ''/'' (fst b) @ ''/'' @ lower (snd b) @ ''.bin''"

lemma Collect_image: "{b \<in> f ` X. P b} = f ` {x \<in> X. P (f x)}"
  by auto

lemma walk_paths_set:
  "set (walk_paths n path) =
     (\<lambda>b. render (path @ fst b, snd b)) ` {b \<in> branches n. path @ fst b \<noteq> []}"
proof (induction n arbitrary: path)
  case (TrieNode i p tok act t cs hid)
  let ?next = "if tok \<noteq> [] then path @ [tok] else path"
  let ?B = "\<Union> (branches ` (set cs \<union> set hid))" and ?o = "case act of Some a \<Rightarrow> {([], a)} | None \<Rightarrow> {}"
  have step: "path @ fst (prep tok b) = ?next @ fst b" "snd (prep tok b) = snd b" for b
    by (simp_all add: prep_def)
  have "set (walk_paths (TrieNode i p tok act t cs hid) path) =
      (case act of Some a \<Rightarrow> if ?next \<noteq> [] then {render (?next, a)} else {} | None \<Rightarrow> {}) \<union>
      (\<Union>c \<in> set cs \<union> set hid. set (walk_paths c ?next))"
    by (auto simp: Let_def render_def split: option.split)
  also have "(\<Union>c \<in> set cs \<union> set hid. set (walk_paths c ?next)) =
      (\<Union>c \<in> set cs \<union> set hid. (\<lambda>b. render (?next @ fst b, snd b)) ` {b \<in> branches c. ?next @ fst b \<noteq> []})"
    by (rule SUP_cong [OF refl], elim UnE) (simp_all only: TrieNode.IH)
  also have "\<dots> = (\<lambda>b. render (?next @ fst b, snd b)) ` {b \<in> ?B. ?next @ fst b \<noteq> []}"
    by blast
  also have "(case act of Some a \<Rightarrow> if ?next \<noteq> [] then {render (?next, a)} else {} | None \<Rightarrow> {}) =
      (\<lambda>b. render (?next @ fst b, snd b)) ` {b \<in> ?o. ?next @ fst b \<noteq> []}"
    by (auto split: option.split)
  also have "\<dots> \<union> (\<lambda>b. render (?next @ fst b, snd b)) ` {b \<in> ?B. ?next @ fst b \<noteq> []} =
      (\<lambda>b. render (?next @ fst b, snd b)) ` {b \<in> ?o \<union> ?B. ?next @ fst b \<noteq> []}"
    by blast
  also have "\<dots> = (\<lambda>b. render (path @ fst b, snd b)) ` {b \<in> prep tok ` (?o \<union> ?B). path @ fst b \<noteq> []}"
  proof -
    have "{b \<in> prep tok ` (?o \<union> ?B). path @ fst b \<noteq> []} = prep tok ` {b \<in> ?o \<union> ?B. ?next @ fst b \<noteq> []}"
      by (simp only: Collect_image step)
    then show ?thesis by (simp only: image_image step)
  qed
  finally show ?case by (simp add: Un_assoc)
qed

subsection \<open>The tree of a list of keys\<close>

text \<open>The branch a key stands for, when it has tokens and ends in an action.\<close>

definition branch_of :: "string \<Rightarrow> (string list \<times> string) option" where
  "branch_of raw =
     (let parts = key_parts raw
      in if region_tokens parts = [] then None
         else map_option (\<lambda>a. (region_tokens parts, a)) (action_of parts))"

lemma key_parts_tokens: "list_all (\<lambda>t. t \<noteq> []) (region_tokens (key_parts raw))"
  by (auto simp: list_all_iff region_tokens_def key_parts_def segments_def dest: in_set_butlastD)

lemma add_key_cases:
  obtains (skip) "add_key ths st raw = st" "branch_of raw = None"
  | (path) "region_tokens (key_parts raw) \<noteq> []"
      "add_key ths st raw = add_path [] (region_tokens (key_parts raw)) (action_of (key_parts raw))
        (exploreLeafThreshold (map_of ths raw)) (snd st) (fst st)"
proof (cases "region_tokens (key_parts raw) = []")
  case True
  with skip show thesis by (auto simp: add_key_def branch_of_def Let_def)
next
  case False
  then have "key_parts raw \<noteq> []" by (auto simp: region_tokens_def is_action_part_def)
  with False path show thesis by (simp add: add_key_def Let_def)
qed

lemma add_key_tree:
  assumes "all_nodes kinds_ok (fst st)" "tn_token (fst st) = []"
  shows "all_nodes kinds_ok (fst (add_key ths st raw)) \<and> tn_token (fst (add_key ths st raw)) = [] \<and>
    branches (fst (add_key ths st raw)) = branches (fst st) \<union> set_option (branch_of raw)"
proof (cases rule: add_key_cases [of ths st raw])
  case skip
  with assms show ?thesis by simp
next
  case path
  have "set_option (branch_of raw) =
      (case action_of (key_parts raw) of
         Some a \<Rightarrow> {prep (tn_token (fst st)) (region_tokens (key_parts raw), a)} | None \<Rightarrow> {})"
    using path(1) assms(2) by (simp add: branch_of_def Let_def prep_def split: option.split)
  with add_path_branches [OF assms(1) key_parts_tokens] show ?thesis
    by (simp add: path(2) add_path_kinds [OF assms(1) key_parts_tokens] add_path_frame assms(2))
qed

lemma add_key_ids:
  "mset (ids_of (fst st)) = {#''root''#} + mset (map node_id [1..<snd st]) \<Longrightarrow> 1 \<le> snd st \<Longrightarrow>
   mset (ids_of (fst (add_key ths st raw))) =
     {#''root''#} + mset (map node_id [1..<snd (add_key ths st raw)]) \<and> 1 \<le> snd (add_key ths st raw)"
proof (cases rule: add_key_cases [of ths st raw])
  case path
  assume st: "mset (ids_of (fst st)) = {#''root''#} + mset (map node_id [1..<snd st])" "1 \<le> snd st"
  let ?r = "add_key ths st raw"
  have r: "snd st \<le> snd ?r" "mset (ids_of (fst ?r)) = mset (ids_of (fst st)) + mset (map node_id [snd st..<snd ?r])"
    using add_path_ids unfolding path(2) by blast+
  have "[1..<snd ?r] = [1..<snd st] @ [snd st..<snd ?r]"
    using upt_add_eq_append [of 1 "snd st" "snd ?r - snd st"] st(2) r(1) by simp
  with st r show ?thesis by simp
qed simp

lemma add_key_fan:
  "all_nodes (fan_of m) (fst st) \<Longrightarrow> all_nodes (fan_of (Suc m)) (fst (add_key ths st raw))"
proof (cases rule: add_key_cases [of ths st raw])
  case skip
  assume "all_nodes (fan_of m) (fst st)"
  then have "all_nodes (fan_of (Suc m)) (fst st)" by (rule all_nodes_mono) (simp add: fan_of_def)
  with skip show ?thesis by simp
next
  case path
  assume "all_nodes (fan_of m) (fst st)"
  from add_path_fan [OF this key_parts_tokens] show ?thesis unfolding path(2) .
qed

lemma add_key_thresholds:
  "all_nodes (threshold_in P) (fst st) \<Longrightarrow> (\<And>t. map_of ths raw = Some t \<Longrightarrow> is_finite t \<Longrightarrow> P t) \<Longrightarrow>
   all_nodes (threshold_in P) (fst (add_key ths st raw))"
proof (cases rule: add_key_cases [of ths st raw])
  case path
  assume "all_nodes (threshold_in P) (fst st)" "\<And>t. map_of ths raw = Some t \<Longrightarrow> is_finite t \<Longrightarrow> P t"
  then show ?thesis
    unfolding path(2)
    by (intro add_path_thresholds key_parts_tokens)
      (auto simp: exploreLeafThreshold_def split: option.splits if_splits)
qed simp

lemma grow_snoc: "grow (ks @ [k]) ths = add_key ths (grow ks ths) k"
  by (simp add: grow_def)

lemma grow_tree:
  "all_nodes kinds_ok (fst (grow ks ths)) \<and> tn_token (fst (grow ks ths)) = [] \<and>
   branches (fst (grow ks ths)) = (\<Union>k \<in> set ks. set_option (branch_of k))"
proof (induction ks rule: rev_induct)
  case Nil
  show ?case by (simp add: grow_def trie_root_def kinds_ok_leaf)
next
  case (snoc k ks)
  then show ?case
    using add_key_tree [of "grow ks ths" ths k] by (simp add: grow_snoc Un_commute)
qed

lemma grow_ids:
  "mset (ids_of (fst (grow ks ths))) = {#''root''#} + mset (map node_id [1..<snd (grow ks ths)]) \<and>
   1 \<le> snd (grow ks ths)"
proof (induction ks rule: rev_induct)
  case Nil
  show ?case by (simp add: grow_def trie_root_def)
next
  case (snoc k ks)
  then show ?case using add_key_ids [of "grow ks ths" ths k] by (simp add: grow_snoc)
qed

lemma grow_fan: "all_nodes (fan_of (length ks)) (fst (grow ks ths))"
proof (induction ks rule: rev_induct)
  case Nil
  show ?case by (simp add: grow_def trie_root_def fan_of_def)
next
  case (snoc k ks)
  then show ?case using add_key_fan by (simp add: grow_snoc)
qed

lemma grow_thresholds:
  "(\<And>k t. k \<in> set ks \<Longrightarrow> map_of ths k = Some t \<Longrightarrow> is_finite t \<Longrightarrow> P t) \<Longrightarrow>
   all_nodes (threshold_in P) (fst (grow ks ths))"
proof (induction ks rule: rev_induct)
  case Nil
  show ?case by (simp add: grow_def trie_root_def threshold_in_def)
next
  case (snoc k ks)
  have "all_nodes (threshold_in P) (fst (grow ks ths))"
    by (rule snoc.IH, rule snoc.prems) simp_all
  then show ?case unfolding grow_snoc by (rule add_key_thresholds) (rule snoc.prems, auto)
qed

text \<open>
  C30. What the panel reads back from the tree it built is what the keys say: one path for every key that
  has tokens and an action, its action in lower case, and nothing else.
\<close>

theorem tree_reads_back:
  "set (extractPrefixes (buildTreeFromPrefixes ks ths)) =
     {join_with ''/'' tokens @ ''/'' @ lower a @ ''.bin'' | tokens a.
        \<exists>k. k \<in> set ks \<and> tokens = region_tokens (key_parts k) \<and> tokens \<noteq> [] \<and> action_of (key_parts k) = Some a}"
proof (cases "ks = []")
  case True
  then show ?thesis by (simp add: buildTreeFromPrefixes_def extractPrefixes_def)
next
  case False
  have "set (walk_paths (fst (grow ks ths)) []) = render ` {b \<in> \<Union> (set_option ` branch_of ` set ks). fst b \<noteq> []}"
    using grow_tree [of ks ths] by (simp add: walk_paths_set image_image)
  also have "\<dots> = {render (tokens, a) | tokens a. \<exists>k \<in> set ks. branch_of k = Some (tokens, a) \<and> tokens \<noteq> []}"
    by (force simp: elem_set)
  also have "\<dots> = {join_with ''/'' tokens @ ''/'' @ lower a @ ''.bin'' | tokens a.
      \<exists>k. k \<in> set ks \<and> tokens = region_tokens (key_parts k) \<and> tokens \<noteq> [] \<and> action_of (key_parts k) = Some a}"
    by (auto simp: render_def branch_of_def Let_def split: if_splits)
  finally show ?thesis
    using False by (simp add: buildTreeFromPrefixes_def extractPrefixes_def shade_walk)
qed

lemma node_id_inj: "inj node_id"
  by (auto simp: inj_def node_id_def int_text_def dest!: digits_of_inj [rotated 2])

lemma node_id_not_root: "node_id n \<noteq> ''root''"
proof -
  have "list_all is_digit (digits_of (int n))" using digits_roundtrip [of "int n"] by simp
  then show ?thesis by (auto simp: node_id_def int_text_def is_digit_def)
qed

lemma build_apart:
  assumes "buildTreeFromPrefixes ks ths = Some t"
  shows "distinct (ids_of t) \<and> all_nodes kinds_ok t"
proof -
  let ?g = "grow ks ths"
  have t: "t = fst (shade (fst ?g))" using assms by (simp add: buildTreeFromPrefixes_def split: if_splits)
  have "mset (ids_of t) = mset (''root'' # map node_id [1..<snd ?g])"
    using grow_ids [of ks ths] by (simp add: t shade_ids)
  moreover have "distinct (''root'' # map node_id [1..<snd ?g])"
    using node_id_not_root by (auto simp: distinct_map inj_on_subset [OF node_id_inj] dest: sym)
  ultimately have "distinct (ids_of t)" by (metis mset_eq_imp_distinct_iff)
  then show ?thesis using grow_tree [of ks ths] by (simp add: t shade_kinds)
qed

lemma build_thresholds:
  assumes "buildTreeFromPrefixes ks ths = Some t" "list_all (num_in 0 1) (map snd ths)" "length ks \<le> 2 ^ 53"
  shows "all_nodes (threshold_in (num_in 0 1)) t"
proof -
  have t: "t = fst (shade (fst (grow ks ths)))"
    using assms(1) by (simp add: buildTreeFromPrefixes_def split: if_splits)
  have "all_nodes (threshold_in (num_in 0 1)) (fst (grow ks ths))"
    by (rule grow_thresholds) (use assms(2) in \<open>auto simp: list_all_iff dest!: map_of_SomeD\<close>)
  then show ?thesis
    using shade_thresholds [OF _ grow_fan assms(3)] grow_tree [of ks ths] by (simp add: t)
qed

text \<open>
  C31. No two nodes of a tree share an id, and no two children of a node share a token or an action; a
  node below the root carries either a token or an action.
\<close>

theorem tree_nodes_apart:
  assumes "buildTreeFromPrefixes ks ths = Some t"
  shows "distinct (ids_of t) \<and> all_nodes kinds_ok t"
  by (rule build_apart [OF assms])

lemma tree_nodes_apart_witness:
  "\<exists>t. buildTreeFromPrefixes [''a/enter.bin''] [] = Some t \<and> distinct (ids_of t) \<and> all_nodes kinds_ok t"
  using tree_nodes_apart [of "[''a/enter.bin'']" "[]"] by (auto simp: buildTreeFromPrefixes_def)

end
