(* ===== verification/RadixView.thy ===== *)
theory RadixView
  imports RadixTree
begin

text \<open>
  What the tree panel shows (\<^verbatim>\<open>components/learning/radix-tree-viz.tsx\<close>) and how a link and a node are
  painted (\<^verbatim>\<open>components/learning/radix-tree-paint.ts\<close>): the keys that are listed, the symbols that are
  traced through them, the collapsed nodes, and the attributes of what is drawn. The layout of the
  nodes and the curve of a link are d3's; \<^verbatim>\<open>Math.cos\<close> and \<^verbatim>\<open>Math.sin\<close> are parameters. A JavaScript
  \<^verbatim>\<open>Set\<close> that is only asked for its members is a set.
\<close>

subsection \<open>Symbols and keys\<close>

record SymbolProgress =
  sp_symbol :: string
  sp_path :: string
  sp_depth :: jsnum
  sp_tokens :: "string list"
  sp_matched :: "string list"
  sp_rejected :: "string list"

datatype BranchFilter = Matching | EnterBranches | HoldBranches | ExitBranches | AllBranches

definition activeSymbolList :: "(string \<times> SymbolProgress option) list \<Rightarrow> SymbolProgress list" where
  "activeSymbolList symbols =
     filter (\<lambda>s. sp_path s \<noteq> [] \<and> num_lt (Fin 0) (sp_depth s)) (List.map_filter snd symbols)"

definition targetSymbols :: "string \<Rightarrow> SymbolProgress list \<Rightarrow> SymbolProgress list" where
  "targetSymbols selected live =
     (if selected \<noteq> [] then filter (\<lambda>s. sp_symbol s = selected) live else live)"

record key_view =
  kv_allKeys :: "string list"
  kv_keysTruncated :: bool
  kv_totalKeyCount :: nat

definition resolved_keys :: "string list \<Rightarrow> TrieNode option \<Rightarrow> string list" where
  "resolved_keys keys data = (if keys \<noteq> [] then keys else extractPrefixes data)"

definition viewKeys :: "string list \<Rightarrow> TrieNode option \<Rightarrow> thresholds \<Rightarrow> key_view" where
  "viewKeys keys data ths =
     (let kept = filter (\<lambda>key. explorePathKept key ths) (resolved_keys keys data); total = length kept
      in if MAX_TRIE_KEYS < total
         then \<lparr>kv_allKeys = take MAX_TRIE_KEYS kept, kv_keysTruncated = True, kv_totalKeyCount = total\<rparr>
         else \<lparr>kv_allKeys = kept, kv_keysTruncated = False, kv_totalKeyCount = total\<rparr>)"

record action_counts =
  ac_enter :: nat
  ac_hold :: nat
  ac_exit :: nat
  ac_total :: nat

definition count_action :: "string \<Rightarrow> action_counts \<Rightarrow> action_counts" where
  "count_action key c =
     (let grammar = grammarKey key
      in if ends_with grammar ''/enter.bin'' then c\<lparr>ac_enter := ac_enter c + 1\<rparr>
         else if ends_with grammar ''/hold.bin'' then c\<lparr>ac_hold := ac_hold c + 1\<rparr>
         else if ends_with grammar ''/exit.bin'' then c\<lparr>ac_exit := ac_exit c + 1\<rparr> else c)"

definition actionCounts :: "string list \<Rightarrow> action_counts" where
  "actionCounts allKeys =
     fold count_action allKeys \<lparr>ac_enter = 0, ac_hold = 0, ac_exit = 0, ac_total = length allKeys\<rparr>"

definition keyMatchesPrefix :: "string \<Rightarrow> string list \<Rightarrow> bool" where
  "keyMatchesPrefix key tokens =
     (tokens \<noteq> [] \<and>
      (let keyTokens = region_tokens (key_parts key)
       in length tokens \<le> length keyTokens \<and>
          list_all (\<lambda>i. keyTokens ! i = tokens ! i) [0..<length tokens]))"

definition clean_key :: "string \<Rightarrow> string" where
  "clean_key key = strip_bin (grammarKey key)"

definition keyMatchesSymbol :: "string \<Rightarrow> SymbolProgress \<Rightarrow> bool" where
  "keyMatchesSymbol key s =
     (sp_tokens s \<noteq> [] \<and>
      (list_ex (\<lambda>m. clean_key key = clean_key m \<or> starts_with (clean_key key) (clean_key m @ ''/'') \<or>
                    starts_with (clean_key m) (clean_key key @ ''/'')) (sp_matched s) \<or>
       keyMatchesPrefix key (sp_tokens s)))"

definition matchingKeys :: "string list \<Rightarrow> SymbolProgress list \<Rightarrow> string list" where
  "matchingKeys allKeys targets = filter (\<lambda>key. list_ex (keyMatchesSymbol key) targets) allKeys"

definition filteredKeys ::
    "string list \<Rightarrow> BranchFilter \<Rightarrow> bool \<Rightarrow> SymbolProgress list \<Rightarrow> string list" where
  "filteredKeys allKeys branchFilter showAll targets =
     (if showAll then allKeys
      else case branchFilter of
        AllBranches \<Rightarrow> allKeys
      | EnterBranches \<Rightarrow> filter (\<lambda>k. ends_with (grammarKey k) ''/enter.bin'') allKeys
      | HoldBranches \<Rightarrow> filter (\<lambda>k. ends_with (grammarKey k) ''/hold.bin'') allKeys
      | ExitBranches \<Rightarrow> filter (\<lambda>k. ends_with (grammarKey k) ''/exit.bin'') allKeys
      | Matching \<Rightarrow> if matchingKeys allKeys targets \<noteq> [] then matchingKeys allKeys targets else allKeys)"

subsection \<open>Prefixes\<close>

text \<open>The prefixes a run of tokens passes through, shortest first.\<close>

fun prefix_walk :: "string \<Rightarrow> string list \<Rightarrow> string list" where
  "prefix_walk pre [] = []"
| "prefix_walk pre (tok # toks) = longer pre tok # prefix_walk (longer pre tok) toks"

definition rejectedPrefixes :: "SymbolProgress list \<Rightarrow> string set" where
  "rejectedPrefixes targets =
     set (concat (map (\<lambda>item. map (longer (join_with ''/'' (filter (\<lambda>t. t \<noteq> []) (sp_tokens item))))
       (sp_rejected item)) targets))"

definition traversedPrefixes :: "SymbolProgress list \<Rightarrow> string set" where
  "traversedPrefixes targets = set (concat (map (\<lambda>item. prefix_walk [] (sp_tokens item)) targets))"

text \<open>Here the key is split as it is stored, without \<^verbatim>\<open>grammarKey\<close>.\<close>

definition treePrefixes :: "string list \<Rightarrow> string set" where
  "treePrefixes keys = set (concat (map (\<lambda>key. prefix_walk [] (region_tokens (segments key))) keys))"

definition best_prefix :: "string set \<Rightarrow> string list \<Rightarrow> string" where
  "best_prefix known tokens =
     fold (\<lambda>current best. if current \<in> known then current else best) (prefix_walk [] tokens) []"

definition target_prefix :: "string set \<Rightarrow> SymbolProgress \<Rightarrow> string" where
  "target_prefix known item =
     (if best_prefix known (sp_tokens item) \<noteq> [] then best_prefix known (sp_tokens item) else sp_path item)"

text \<open>A \<^verbatim>\<open>Map\<close> from prefixes to the symbols there; an empty list is as good as a missing one.\<close>

definition place_symbol ::
    "string set \<Rightarrow> SymbolProgress \<Rightarrow> (string \<times> SymbolProgress list) list \<Rightarrow>
     (string \<times> SymbolProgress list) list" where
  "place_symbol known item m =
     (let target = target_prefix known item; existing = (case map_of m target of Some xs \<Rightarrow> xs | None \<Rightarrow> [])
      in AList.update target (existing @ [item]) m)"

definition symbolPositions ::
    "string set \<Rightarrow> SymbolProgress list \<Rightarrow> (string \<times> SymbolProgress list) list" where
  "symbolPositions known targets = fold (place_symbol known) targets []"

subsection \<open>The displayed tree\<close>

definition treeData ::
    "string list \<Rightarrow> string list \<Rightarrow> bool \<Rightarrow> thresholds \<Rightarrow> TrieNode option" where
  "treeData shown allKeys showAll ths =
     (if shown \<noteq> [] then buildTreeFromPrefixes shown ths
      else if showAll \<and> allKeys \<noteq> [] then buildTreeFromPrefixes allKeys ths else None)"

fun prepareHierarchy :: "string set \<Rightarrow> TrieNode \<Rightarrow> TrieNode" where
  "prepareHierarchy collapsed (TrieNode i p tok act t cs hid) =
     (if cs = [] then TrieNode i p tok act t cs hid
      else if i \<in> collapsed then TrieNode i p tok act t [] cs
      else TrieNode i p tok act t (map (\<lambda>c. prepareHierarchy collapsed c) cs) hid)"

text \<open>The ids that are drawn: d3 follows \<^verbatim>\<open>children\<close> only.\<close>

primrec drawn_ids :: "TrieNode \<Rightarrow> string list" where
  "drawn_ids (TrieNode i p tok act t cs hid) = i # concat (map drawn_ids cs)"

text \<open>The ids from a hovered node up to the root; ids do not repeat, so the first found is the one.\<close>

fun path_to :: "string \<Rightarrow> TrieNode \<Rightarrow> string list option" where
  "path_to hovered (TrieNode i p tok act t cs hid) =
     (if i = hovered then Some [i]
      else map_option (\<lambda>path. path @ [i])
             (fold (\<lambda>found acc. case acc of None \<Rightarrow> found | Some _ \<Rightarrow> acc) (map (\<lambda>c. path_to hovered c) cs) None))"

definition activePathIds :: "string \<Rightarrow> TrieNode option \<Rightarrow> string set option" where
  "activePathIds hovered display =
     (if hovered = [] then None
      else Some (case display of
        None \<Rightarrow> {}
      | Some node \<Rightarrow> (case path_to hovered node of None \<Rightarrow> {} | Some path \<Rightarrow> set path)))"

definition handleNodeClick :: "string \<Rightarrow> string set \<Rightarrow> string set" where
  "handleNodeClick i previous = (if i \<in> previous then previous - {i} else insert i previous)"

definition select_symbol :: "string \<Rightarrow> string \<Rightarrow> string" where
  "select_symbol symbol previous = (if previous = symbol then [] else symbol)"

subsection \<open>Painting\<close>

datatype projection = Horizontal | Vertical | Radial

datatype attr = ANum jsnum | AStr string | ANull

text \<open>An element with its attributes, its styles and its text.\<close>

datatype shape =
  Shape (sh_tag: string) (sh_attrs: "(string \<times> attr) list") (sh_styles: "(string \<times> string) list") (sh_text: string)

record tree_point =
  tp_data :: TrieNode
  tp_x :: jsnum
  tp_y :: jsnum

definition formatExploreThreshold :: "jsnum \<Rightarrow> string" where
  "formatExploreThreshold threshold = (if is_finite threshold then to_fixed 2 threshold else [])"

definition plus_minus :: string where "plus_minus = [CHR 0xC2, CHR 0xB1]"

text \<open>\<^verbatim>\<open>\d+(?:\.\d+)?\<close> on the whole text.\<close>

definition plain_digits :: "string \<Rightarrow> bool" where
  "plain_digits s =
     (let ip = takeWhile is_digit s; r = dropWhile is_digit s
      in ip \<noteq> [] \<and> (r = [] \<or> hd r = CHR ''.'' \<and> tl r \<noteq> [] \<and> list_all is_digit (tl r)))"

definition drop_sign :: "char list \<Rightarrow> string \<Rightarrow> string" where
  "drop_sign signs s = (if s \<noteq> [] \<and> hd s \<in> set signs then tl s else s)"

definition formatTrieLinkToken :: "string \<Rightarrow> string" where
  "formatTrieLinkToken token =
     (let signed = drop (length plus_minus) token
      in if starts_with token plus_minus \<and> plain_digits (drop_sign ''-'' signed)
         then (let n = number_of_text signed
               in if is_finite n then plus_minus @ to_fixed 2 (num_abs n) else token)
         else if plain_digits (drop_sign ''-+'' token)
         then (let n = number_of_text token
               in if \<not> is_finite n then token
                  else (if num_lt n (Fin 0) then ''-'' else if starts_with token ''+'' then ''+'' else []) @
                       to_fixed 2 (num_abs n))
         else token)"

definition paintOpacity :: "jsnum \<Rightarrow> jsnum" where
  "paintOpacity threshold = num_sub (Fin 1) threshold"

definition toward_prune :: "jsnum \<Rightarrow> jsnum" where
  "toward_prune threshold =
     num_div (num_sub (num_min (fl (95/100)) (num_max (fl (5/100)) threshold)) (fl (5/100)))
       (num_sub (fl (95/100)) (fl (5/100)))"

definition thresholdOpacity :: "jsnum \<Rightarrow> jsnum" where
  "thresholdOpacity threshold = num_sub (Fin 1) (num_mul (toward_prune threshold) (fl (72/100)))"

definition thresholdSaturation :: "jsnum \<Rightarrow> jsnum" where
  "thresholdSaturation threshold = num_sub (Fin 1) (num_mul (toward_prune threshold) (fl (85/100)))"

definition saturate_text :: "jsnum \<Rightarrow> string" where
  "saturate_text threshold = ''saturate('' @ to_fixed 3 (thresholdSaturation threshold) @ '')''"

definition branchFilter_css :: "bool \<Rightarrow> bool \<Rightarrow> jsnum option \<Rightarrow> string" where
  "branchFilter_css isRejected isSymbolLink threshold =
     (let shadow = (if isRejected then ''drop-shadow(0 0 3px rgba(230, 160, 60, 0.55))''
                    else if isSymbolLink then ''drop-shadow(0 0 3px rgba(56, 189, 248, 0.5))'' else []);
          sat = (case threshold of Some t \<Rightarrow> saturate_text t | None \<Rightarrow> []);
          parts = filter (\<lambda>p. p \<noteq> []) [shadow, sat]
      in if parts \<noteq> [] then join_with '' '' parts else ''none'')"

definition grammarPrefix :: "TrieNode \<Rightarrow> string" where
  "grammarPrefix node =
     (if tn_action node \<noteq> None
      then (case last_index_of ''/'' (tn_prefix node) of
              Some i \<Rightarrow> take i (tn_prefix node) | None \<Rightarrow> butlast (tn_prefix node))
      else tn_prefix node)"

definition isNodeRoot :: "TrieNode \<Rightarrow> bool" where
  "isNodeRoot node = (tn_id node = ''root'')"

definition isNodeTerminal :: "TrieNode \<Rightarrow> bool" where
  "isNodeTerminal node = (tn_children node = [] \<and> tn_hidden node = [])"

text \<open>The ports of a node: where the link from its parent ends and the links to its children start.\<close>

definition half_extent :: "TrieNode \<Rightarrow> projection \<Rightarrow> rat" where
  "half_extent node proj =
     (if proj = Vertical
      then (if isNodeRoot node then 12 else if isNodeTerminal node then 13 else 6)
      else (if isNodeRoot node then 22 else if isNodeTerminal node then 32 else 6))"

definition getPorts :: "TrieNode \<Rightarrow> projection \<Rightarrow> (jsnum \<times> jsnum) option \<times> (jsnum \<times> jsnum) option" where
  "getPorts node proj =
     (let h = half_extent node proj; port = (\<lambda>d. if proj = Vertical then (Fin 0, Fin d) else (Fin d, Fin 0))
      in (if isNodeRoot node then None else Some (port (- h)),
          if isNodeTerminal node then None else Some (port h)))"

definition pi_half :: jsnum where "pi_half = Fin (884279719003555 / 562949953421312)"

definition getNodePos ::
    "(jsnum \<Rightarrow> jsnum) \<Rightarrow> (jsnum \<Rightarrow> jsnum) \<Rightarrow> tree_point \<Rightarrow> projection \<Rightarrow> jsnum \<times> jsnum" where
  "getNodePos cs sn node proj =
     (case proj of
        Radial \<Rightarrow> let angle = num_sub (tp_x node) pi_half
                   in (num_mul (tp_y node) (cs angle), num_mul (tp_y node) (sn angle))
      | Vertical \<Rightarrow> (tp_x node, tp_y node)
      | Horizontal \<Rightarrow> (tp_y node, tp_x node))"

definition shift_by :: "jsnum \<times> jsnum \<Rightarrow> jsnum \<times> jsnum \<Rightarrow> jsnum \<times> jsnum" where
  "shift_by p d = (num_add (fst p) (fst d), num_add (snd p) (snd d))"

definition getLinkPorts ::
    "(jsnum \<Rightarrow> jsnum) \<Rightarrow> (jsnum \<Rightarrow> jsnum) \<Rightarrow> tree_point \<Rightarrow> tree_point \<Rightarrow> projection \<Rightarrow>
     (jsnum \<times> jsnum) \<times> (jsnum \<times> jsnum)" where
  "getLinkPorts cs sn source target proj =
     (let out = (case snd (getPorts (tp_data source) proj) of
                   Some p \<Rightarrow> p | None \<Rightarrow> if proj = Vertical then (Fin 0, Fin 6) else (Fin 6, Fin 0));
          inn = (case fst (getPorts (tp_data target) proj) of
                   Some p \<Rightarrow> p | None \<Rightarrow> if proj = Vertical then (Fin 0, Fin (- 6)) else (Fin (- 6), Fin 0))
      in (shift_by (getNodePos cs sn source proj) out, shift_by (getNodePos cs sn target proj) inn))"

definition branchFadeFor :: "jsnum option \<Rightarrow> jsnum" where
  "branchFadeFor threshold = (case threshold of Some t \<Rightarrow> paintOpacity t | None \<Rightarrow> Fin 1)"

definition dim_unless :: "bool \<Rightarrow> jsnum" where
  "dim_unless lit = (if lit then Fin 1 else fl (15/100))"

text \<open>What a repaint is given besides the nodes.\<close>

record scene_input =
  si_rejected :: "string set"
  si_traversed :: "string set"
  si_positions :: "(string \<times> SymbolProgress list) list"
  si_active :: "string set option"
  si_selected :: string

definition linkActivityOpacity :: "scene_input \<Rightarrow> TrieNode \<Rightarrow> jsnum" where
  "linkActivityOpacity si target =
     (let linkPrefix = grammarPrefix target;
          isRejected = (linkPrefix \<in> si_rejected si \<and> linkPrefix \<notin> si_traversed si);
          isSymbolLink = (linkPrefix \<in> si_traversed si);
          isLinkActive = (case si_active si of
              Some ids \<Rightarrow> tn_id target \<in> ids
            | None \<Rightarrow> if si_selected si \<noteq> [] then isSymbolLink \<or> isRejected else True)
      in num_mul (dim_unless isLinkActive) (branchFadeFor (tn_threshold target)))"

definition nodeActivityOpacity :: "scene_input \<Rightarrow> TrieNode \<Rightarrow> jsnum" where
  "nodeActivityOpacity si node =
     (let isNodeActive = (case si_active si of
              Some ids \<Rightarrow> tn_id node \<in> ids
            | None \<Rightarrow> if si_selected si \<noteq> [] then grammarPrefix node \<in> si_traversed si else True)
      in num_mul (dim_unless isNodeActive) (branchFadeFor (tn_threshold node)))"

definition linkStroke :: "bool \<Rightarrow> bool \<Rightarrow> jsnum option \<Rightarrow> string" where
  "linkStroke isRejected isSymbolLink branchThreshold =
     (if isRejected then ''var(--warn)''
      else if isSymbolLink then ''#38bdf8''
      else case branchThreshold of
        None \<Rightarrow> ''var(--line2)''
      | Some t \<Rightarrow> if num_lt t (fl (35/100)) then ''var(--up)''
                  else if num_lt (fl (65/100)) t then ''var(--down)'' else ''var(--line2)'')"

definition num_pair_text :: "jsnum \<Rightarrow> jsnum \<Rightarrow> string" where
  "num_pair_text x y = ''translate('' @ num_text x @ '', '' @ num_text y @ '')''"

text \<open>A link: its path and, when its target has a token, the label on it.\<close>

definition paint_link ::
    "(jsnum \<Rightarrow> jsnum) \<Rightarrow> (jsnum \<Rightarrow> jsnum) \<Rightarrow> string option \<Rightarrow> scene_input \<Rightarrow> projection \<Rightarrow>
     tree_point \<Rightarrow> tree_point \<Rightarrow> shape list" where
  "paint_link cs sn pathD si proj source target =
     (let linkPrefix = grammarPrefix (tp_data target);
          isRejected = (linkPrefix \<in> si_rejected si \<and> linkPrefix \<notin> si_traversed si);
          isSymbolLink = (linkPrefix \<in> si_traversed si);
          bold = (isRejected \<or> isSymbolLink);
          th = tn_threshold (tp_data target); token = tn_token (tp_data target);
          path = Shape ''path''
            [(''d'', AStr (case pathD of Some d \<Rightarrow> d | None \<Rightarrow> [])), (''fill'', AStr ''none''),
             (''stroke'', AStr (linkStroke isRejected isSymbolLink th)),
             (''stroke-width'', ANum (if bold then fl (5/2) else fl (12/10))),
             (''stroke-opacity'', ANum (if bold then Fin 1 else fl (6/10))),
             (''stroke-dasharray'', if bold then ANull else AStr ''4 2'')]
            [(''filter'', branchFilter_css isRejected isSymbolLink th)] []
      in if token = [] then [path, Shape ''g'' [] [(''display'', ''none'')] []]
         else
           (case getLinkPorts cs sn source target proj of (s, t) \<Rightarrow>
              let midX = num_div (num_add (fst s) (fst t)) (Fin 2);
                  midY = num_div (num_add (snd s) (snd t)) (Fin 2);
                  labelY = num_sub midY (if proj = Vertical then Fin 6 else Fin 8)
              in [path,
                  Shape ''g'' [(''transform'', AStr (num_pair_text midX labelY))] [] [],
                  Shape ''rect''
                    [(''x'', ANum (Fin (- 18))), (''y'', ANum (Fin (- 7))), (''width'', ANum (Fin 36)),
                     (''height'', ANum (Fin 14)), (''rx'', ANum (Fin 2)), (''fill'', AStr ''var(--surface)''),
                     (''stroke'', AStr (if isRejected then ''var(--warn)''
                                        else if isSymbolLink then ''#38bdf8'' else ''var(--line2)'')),
                     (''stroke-width'', ANum (if bold then fl (3/2) else Fin 1)),
                     (''opacity'', ANum (fl (95/100)))] [] [],
                  Shape ''text''
                    [(''x'', ANum (Fin 0)), (''y'', ANum (fl (7/2))),
                     (''fill'', AStr (if isRejected then ''var(--warn)''
                                      else if isSymbolLink then ''#38bdf8'' else ''var(--acc)'')),
                     (''font-size'', AStr ''9px''), (''text-anchor'', AStr ''middle''),
                     (''font-weight'', ANum (Fin 600))] [] (formatTrieLinkToken token)]))"

definition terminalFill :: "string option \<Rightarrow> string" where
  "terminalFill action =
     (if action = Some ''ENTER'' then ''rgba(115, 190, 104, 0.15)''
      else if action = Some ''HOLD'' then ''rgba(56, 189, 248, 0.15)''
      else if action = Some ''EXIT'' then ''rgba(240, 84, 79, 0.15)''
      else if action = Some ''NOOP'' then ''rgba(232, 163, 61, 0.2)''
      else ''rgba(148, 163, 184, 0.12)'')"

definition terminalStroke :: "string option \<Rightarrow> string" where
  "terminalStroke action =
     (if action = Some ''ENTER'' then ''var(--up)'' else if action = Some ''HOLD'' then ''var(--info)''
      else if action = Some ''EXIT'' then ''var(--down)'' else if action = Some ''NOOP'' then ''var(--warn)''
      else ''var(--f4)'')"

definition terminalTextFill :: "string option \<Rightarrow> string" where
  "terminalTextFill action =
     (if action = Some ''ENTER'' then ''var(--up)'' else if action = Some ''HOLD'' then ''var(--info)''
      else if action = Some ''EXIT'' then ''var(--down)'' else if action = Some ''NOOP'' then ''var(--warn)''
      else ''var(--f3)'')"

definition has_symbol :: "scene_input \<Rightarrow> TrieNode \<Rightarrow> bool" where
  "has_symbol si node =
     (case map_of (si_positions si) (tn_prefix node) of Some xs \<Rightarrow> xs \<noteq> [] | None \<Rightarrow> False)"

definition label_text :: "rat \<Rightarrow> string \<Rightarrow> string \<Rightarrow> nat \<Rightarrow> string \<Rightarrow> shape" where
  "label_text y fill px weight text =
     Shape ''text''
       [(''x'', ANum (Fin 0)), (''y'', ANum (Fin y)), (''dy'', AStr ''0.32em''), (''text-anchor'', AStr ''middle''),
        (''fill'', AStr fill), (''font-size'', AStr px),
        (''font-weight'', ANum (Fin (of_nat weight)))] [] text"

definition box :: "rat \<Rightarrow> rat \<Rightarrow> rat \<Rightarrow> string \<Rightarrow> string \<Rightarrow> jsnum \<Rightarrow> (string \<times> attr) list" where
  "box w h rx fill stroke width =
     [(''x'', ANum (Fin (- w / 2))), (''y'', ANum (Fin (- h / 2))), (''width'', ANum (Fin w)),
      (''height'', ANum (Fin h)), (''rx'', ANum (Fin rx)), (''fill'', AStr fill), (''stroke'', AStr stroke),
      (''stroke-width'', ANum width)]"

definition threshold_title :: "jsnum option \<Rightarrow> shape list" where
  "threshold_title th =
     (case th of Some t \<Rightarrow> [Shape ''title'' [] [] (''threshold '' @ formatExploreThreshold t)] | None \<Rightarrow> [])"

definition paint_root :: "shape list" where
  "paint_root =
     [Shape ''rect'' (box 44 24 3 ''var(--surface)'' ''var(--acc)'' (fl (3/2))) [] [],
      label_text 0 ''var(--acc)'' ''9px'' 700 ''ROOT'']"

definition paint_terminal :: "scene_input \<Rightarrow> TrieNode \<Rightarrow> shape list" where
  "paint_terminal si node =
     (let th = tn_threshold node; action = tn_action node; hasSymbol = has_symbol si node
      in threshold_title th @
         [Shape ''rect''
            (box 64 26 4 (terminalFill action) (terminalStroke action)
               (if hasSymbol then fl (5/2) else fl (12/10)) @
             [(''stroke-dasharray'', AStr (if hasSymbol then ''none'' else ''3 2'')),
              (''opacity'', ANum (if hasSymbol then Fin 1 else fl (3/4)))])
            (case th of Some t \<Rightarrow> [(''filter'', saturate_text t)] | None \<Rightarrow> []) [],
          label_text 0 (terminalTextFill action) ''11px'' 700 (case action of Some a \<Rightarrow> a | None \<Rightarrow> [])] @
         (case th of
            None \<Rightarrow> []
          | Some t \<Rightarrow>
              [Shape ''text''
                 [(''x'', ANum (Fin 0)), (''y'', ANum (Fin 22)), (''text-anchor'', AStr ''middle''),
                  (''fill'', AStr ''var(--f2)''), (''font-size'', AStr ''8px'')] [] (formatExploreThreshold t)]))"

definition paint_between :: "scene_input \<Rightarrow> TrieNode \<Rightarrow> shape list" where
  "paint_between si node =
     (let isSymbolOnPath = (grammarPrefix node \<in> si_traversed si); isCollapsed = (tn_hidden node \<noteq> [])
      in threshold_title (tn_threshold node) @
         [Shape ''rect''
            (box 12 12 3 ''var(--surface)''
               (if isSymbolOnPath then ''#38bdf8'' else if isCollapsed then ''var(--acc)'' else ''var(--line2)'')
               (Fin (if isSymbolOnPath \<or> isCollapsed then 2 else 1))) [] []])"

definition port_circle :: "jsnum \<times> jsnum \<Rightarrow> rat \<Rightarrow> string \<Rightarrow> string \<Rightarrow> shape" where
  "port_circle p r fill stroke =
     Shape ''circle''
       [(''cx'', ANum (fst p)), (''cy'', ANum (snd p)), (''r'', ANum (Fin r)), (''fill'', AStr fill),
        (''stroke'', AStr stroke), (''stroke-width'', ANum (fl (3/2)))] [] []"

text \<open>The shapes of a node. Every node that is drawn has an array of children or of hidden ones, so the
  cursor is always the pointer.\<close>

definition paintNodeContents :: "scene_input \<Rightarrow> projection \<Rightarrow> TrieNode \<Rightarrow> shape list" where
  "paintNodeContents si proj node =
     (let isCollapsed = (tn_hidden node \<noteq> []); ports = getPorts node proj
      in (if isNodeRoot node then paint_root
          else if isNodeTerminal node then paint_terminal si node else paint_between si node) @
         (case fst ports of
            None \<Rightarrow> [] | Some p \<Rightarrow> [port_circle p 3 ''var(--surface)'' ''var(--f4)'']) @
         (case snd ports of
            None \<Rightarrow> []
          | Some p \<Rightarrow> [port_circle p (if isCollapsed then 4 else 3)
                         (if isCollapsed then ''var(--acc)'' else ''var(--surface)'')
                         (if isCollapsed then ''var(--acc)'' else ''var(--f4)'')]))"

definition node_transform :: "(jsnum \<Rightarrow> jsnum) \<Rightarrow> (jsnum \<Rightarrow> jsnum) \<Rightarrow> projection \<Rightarrow> tree_point \<Rightarrow> string" where
  "node_transform cs sn proj node =
     (case getNodePos cs sn node proj of (x, y) \<Rightarrow> num_pair_text x y)"

subsection \<open>What is listed\<close>

lemma viewKeys_all:
  "kv_allKeys (viewKeys keys data ths) =
     take MAX_TRIE_KEYS (filter (\<lambda>key. explorePathKept key ths) (resolved_keys keys data))"
  by (simp add: viewKeys_def Let_def)

lemma filteredKeys_sub: "set (filteredKeys allKeys bf showAll targets) \<subseteq> set allKeys"
  by (auto simp: filteredKeys_def matchingKeys_def split: BranchFilter.splits if_splits)

lemma filteredKeys_length: "length (filteredKeys allKeys bf showAll targets) \<le> length allKeys"
  by (auto simp: filteredKeys_def matchingKeys_def split: BranchFilter.split)

text \<open>
  The panel lays out at most 1500 keys, each of them one it was given and one that is not pruned; it
  says it left some out exactly when it did; and the matching filter shows every key it holds when no key
  matches a symbol.
\<close>

theorem shown_keys:
  fixes keys :: "string list" and data :: "TrieNode option" and ths :: thresholds and bf :: BranchFilter
    and showAll :: bool and targets :: "SymbolProgress list"
  defines "v \<equiv> viewKeys keys data ths"
  shows "length (filteredKeys (kv_allKeys v) bf showAll targets) \<le> 1500 \<and>
    set (filteredKeys (kv_allKeys v) bf showAll targets) \<subseteq>
      {k. k \<in> set (resolved_keys keys data) \<and> explorePathKept k ths} \<and>
    (kv_keysTruncated v = (length (kv_allKeys v) < kv_totalKeyCount v)) \<and>
    (filteredKeys (kv_allKeys v) Matching False targets = [] \<longleftrightarrow> kv_allKeys v = [])"
proof (intro conjI)
  have all: "kv_allKeys v = take 1500 (filter (\<lambda>key. explorePathKept key ths) (resolved_keys keys data))"
    by (simp add: v_def viewKeys_all MAX_TRIE_KEYS_def)
  show "length (filteredKeys (kv_allKeys v) bf showAll targets) \<le> 1500"
    using filteredKeys_length [of "kv_allKeys v" bf showAll targets] by (simp add: all)
  show "set (filteredKeys (kv_allKeys v) bf showAll targets) \<subseteq>
      {k. k \<in> set (resolved_keys keys data) \<and> explorePathKept k ths}"
  proof (rule order_trans [OF filteredKeys_sub])
    show "set (kv_allKeys v) \<subseteq> {k. k \<in> set (resolved_keys keys data) \<and> explorePathKept k ths}"
      unfolding all by (auto dest: in_set_takeD)
  qed
  show "kv_keysTruncated v = (length (kv_allKeys v) < kv_totalKeyCount v)"
    by (auto simp: v_def viewKeys_def MAX_TRIE_KEYS_def Let_def)
  show "filteredKeys (kv_allKeys v) Matching False targets = [] \<longleftrightarrow> kv_allKeys v = []"
    by (auto simp: filteredKeys_def matchingKeys_def)
qed

subsection \<open>Markers\<close>

lemma suffix_past: "c \<notin> set s \<Longrightarrow> suffix s (a @ c # b) \<Longrightarrow> suffix s b"
proof -
  assume c: "c \<notin> set s" and s: "suffix s (a @ c # b)"
  have "suffix (c # b) (a @ c # b)" by (simp add: suffix_def)
  from suffix_same_cases [OF s this] show ?thesis
  proof
    assume "suffix s (c # b)"
    with c show ?thesis by (auto simp: suffix_Cons)
  next
    assume "suffix (c # b) s"
    with c show ?thesis by (auto simp: suffix_def)
  qed
qed

lemma longer_not_bin:
  "\<not> ends_with tok ''.bin'' \<Longrightarrow> \<not> ends_with (longer pre tok) ''.bin''"
  using suffix_past [of "CHR ''/''" "''.bin''" pre tok]
  by (cases "pre = []") (auto simp: ends_with_def longer_def)

lemma prefix_walk_not_bin:
  "list_all (\<lambda>tok. \<not> ends_with tok ''.bin'') toks \<Longrightarrow> p \<in> set (prefix_walk pre toks) \<Longrightarrow>
   \<not> ends_with p ''.bin''"
  by (induction toks arbitrary: pre) (auto simp: longer_not_bin)

lemma prefix_walk_more: "pre \<noteq> [] \<Longrightarrow> p \<in> set (prefix_walk pre ts) \<Longrightarrow> p \<noteq> [] \<and> hd p = hd pre"
proof (induction ts arbitrary: pre)
  case (Cons u us)
  have u: "longer pre u \<noteq> []" "hd (longer pre u) = hd pre" using Cons.prems(1) by (simp_all add: longer_def)
  from Cons.prems(2) consider "p = longer pre u" | "p \<in> set (prefix_walk (longer pre u) us)" by auto
  then show ?case
  proof cases
    case 2
    from Cons.IH [OF u(1) 2] u(2) show ?thesis by simp
  qed (use u in simp)
qed simp

lemma prefix_walk_hd:
  assumes "t \<noteq> []" "p \<in> set (prefix_walk [] (t # ts))"
  shows "p \<noteq> [] \<and> hd p = hd t"
proof -
  have "p = t \<or> p \<in> set (prefix_walk t ts)" using assms(2) by (simp add: longer_def)
  then show ?thesis using prefix_walk_more [OF assms(1)] assms(1) by blast
qed

lemma best_prefix_found: "best_prefix known tokens = [] \<or> best_prefix known tokens \<in> known \<inter> set (prefix_walk [] tokens)"
proof -
  have "fold (\<lambda>current best. if current \<in> known then current else best) xs b = b \<or>
      fold (\<lambda>current best. if current \<in> known then current else best) xs b \<in> known \<inter> set xs" for xs b
  proof (induction xs arbitrary: b)
    case (Cons x xs)
    from Cons.IH [of "if x \<in> known then x else b"] show ?case by (cases "x \<in> known") simp_all
  qed simp
  then show ?thesis unfolding best_prefix_def .
qed

lemma best_prefix_cong:
  "known \<inter> set (prefix_walk [] tokens) = known' \<inter> set (prefix_walk [] tokens) \<Longrightarrow>
   best_prefix known tokens = best_prefix known' tokens"
  unfolding best_prefix_def by (intro fold_cong refl) (auto simp: fun_eq_iff)

lemma symbolPositions_keys:
  "fst ` set (symbolPositions known targets) \<subseteq> target_prefix known ` set targets"
proof -
  have "fst ` set (fold (place_symbol known) ts m) \<subseteq> fst ` set m \<union> target_prefix known ` set ts" for ts m
  proof (induction ts arbitrary: m)
    case (Cons x ts)
    have "fst ` set (place_symbol known x m) = insert (target_prefix known x) (fst ` set m)"
      by (simp add: place_symbol_def Let_def dom_map_of_conv_image_fst [symmetric] update_conv' fun_upd_def)
        (auto simp: dom_def)
    then show ?case using Cons [of "place_symbol known x m"] by auto
  qed simp
  from this [of targets "[]"] show ?thesis by (simp add: symbolPositions_def)
qed

text \<open>
  A live symbol is marked at the deepest of its prefixes the tree holds; but the prefixes are taken
  from the stored keys, so when every key stands under \<^verbatim>\<open>model/paths/\<close>, which the tree itself leaves out,
  the tree might as well be empty: each symbol is placed at its own path, however deep.
\<close>

theorem path_book_markers_fall_back:
  assumes "list_all (\<lambda>key. starts_with key ''model/paths/'') keys"
    and "list_all (\<lambda>s. sp_tokens s \<noteq> [] \<and> hd (sp_tokens s) \<noteq> [] \<and> hd (hd (sp_tokens s)) \<noteq> CHR ''m'') targets"
  shows "symbolPositions (treePrefixes keys) targets = symbolPositions {} targets \<and>
    fst ` set (symbolPositions (treePrefixes keys) targets) \<subseteq> sp_path ` set targets"
proof -
  have known: "p \<noteq> [] \<and> hd p = CHR ''m''" if p: "p \<in> treePrefixes keys" for p
  proof -
    obtain key where key: "key \<in> set keys" "p \<in> set (prefix_walk [] (region_tokens (segments key)))"
      using p by (auto simp: treePrefixes_def)
    then obtain rest where "key = ''model'' @ CHR ''/'' # ''paths/'' @ rest"
      using assms(1) by (auto simp: list_all_iff starts_with_def prefix_def)
    then have seg: "segments key = ''model'' # ''paths'' # segments rest"
      using split_on_append [of "CHR ''/''" "''model''" "''paths/'' @ rest"]
        split_on_append [of "CHR ''/''" "''paths''" rest] by (simp add: segments_def)
    obtain ts where ts: "region_tokens (segments key) = ''model'' # ts"
      unfolding seg by (cases "is_action_part (''model'' # ''paths'' # segments rest)") (simp_all add: region_tokens_def)
    have "p \<noteq> [] \<and> hd p = hd ''model''"
      by (rule prefix_walk_hd [of _ _ ts]) (use key(2) ts in simp_all)
    then show ?thesis by simp
  qed
  have "target_prefix (treePrefixes keys) s = sp_path s \<and> target_prefix {} s = sp_path s"
    if s: "s \<in> set targets" for s
  proof -
    obtain t ts where t: "sp_tokens s = t # ts" "t \<noteq> []" "hd t \<noteq> CHR ''m''"
      using assms(2) s by (cases "sp_tokens s") (auto simp: list_all_iff)
    have "treePrefixes keys \<inter> set (prefix_walk [] (t # ts)) = {}"
    proof (rule equals0I)
      fix p
      assume "p \<in> treePrefixes keys \<inter> set (prefix_walk [] (t # ts))"
      then have "p \<in> treePrefixes keys" "p \<in> set (prefix_walk [] (t # ts))" by simp_all
      then have "hd p = CHR ''m''" "hd p = hd t" using known prefix_walk_hd [OF t(2)] by blast+
      with t(3) show False by simp
    qed
    then show ?thesis
      using best_prefix_found [of "treePrefixes keys" "t # ts"] best_prefix_found [of "{}" "t # ts"] t(1)
      by (auto simp: target_prefix_def)
  qed
  then have eq: "\<And>s. s \<in> set targets \<Longrightarrow> target_prefix (treePrefixes keys) s = sp_path s"
    "\<And>s. s \<in> set targets \<Longrightarrow> place_symbol (treePrefixes keys) s = place_symbol {} s"
    by (simp_all add: place_symbol_def fun_eq_iff)
  then have "symbolPositions (treePrefixes keys) targets = symbolPositions {} targets"
    unfolding symbolPositions_def by (intro fold_cong refl) auto
  moreover have "fst ` set (symbolPositions (treePrefixes keys) targets) \<subseteq> sp_path ` set targets"
  proof (rule order_trans [OF symbolPositions_keys], rule image_subsetI)
    fix s
    assume "s \<in> set targets"
    with eq(1) show "target_prefix (treePrefixes keys) s \<in> sp_path ` set targets" by simp
  qed
  ultimately show ?thesis by blast
qed

definition sample_symbol :: SymbolProgress where
  "sample_symbol = \<lparr>sp_symbol = ''BTC/USD'', sp_path = ''R01/R02/R03'', sp_depth = Fin 3,
     sp_tokens = [''R01'', ''R02'', ''R03''], sp_matched = [], sp_rejected = []\<rparr>"

lemma path_book_markers_fall_back_witness:
  "symbolPositions (treePrefixes [''model/paths/R01/R02/enter.bin'']) [sample_symbol] = [(''R01/R02/R03'', [sample_symbol])] \<and>
    symbolPositions (treePrefixes [''policy/R01/R02/enter.bin'', ''R01/R02/enter.bin'']) [sample_symbol] = [(''R01/R02'', [sample_symbol])]"
proof -
  have "symbolPositions (treePrefixes [''model/paths/R01/R02/enter.bin'']) [sample_symbol] = symbolPositions {} [sample_symbol]"
    using path_book_markers_fall_back [of "[''model/paths/R01/R02/enter.bin'']" "[sample_symbol]"]
    by (simp add: sample_symbol_def starts_with_def)
  moreover have "symbolPositions {} [sample_symbol] = [(''R01/R02/R03'', [sample_symbol])]"
    by (simp add: symbolPositions_def place_symbol_def target_prefix_def best_prefix_def sample_symbol_def)
  moreover have "concat (map (\<lambda>key. prefix_walk [] (region_tokens (segments key)))
      [''policy/R01/R02/enter.bin'', ''R01/R02/enter.bin'']) =
      [''policy'', ''policy/R01'', ''policy/R01/R02'', ''R01'', ''R01/R02'']"
    by code_simp
  then have "treePrefixes [''policy/R01/R02/enter.bin'', ''R01/R02/enter.bin''] =
      {''policy'', ''policy/R01'', ''policy/R01/R02'', ''R01'', ''R01/R02''}"
    unfolding treePrefixes_def by simp
  then have "symbolPositions (treePrefixes [''policy/R01/R02/enter.bin'', ''R01/R02/enter.bin'']) [sample_symbol] = [(''R01/R02'', [sample_symbol])]"
    by (simp add: symbolPositions_def place_symbol_def target_prefix_def best_prefix_def longer_def sample_symbol_def)
  ultimately show ?thesis by simp
qed

text \<open>No node of the tree has an action and a prefix that does not end in \<^verbatim>\<open>.bin\<close>.\<close>

definition bin_prefix :: "TrieNode \<Rightarrow> bool" where
  "bin_prefix n \<longleftrightarrow> (tn_action n = None \<or> ends_with (tn_prefix n) ''.bin'')"

lemma bin_prefix_frame [simp]:
  "bin_prefix (with_children n cs) = bin_prefix n" "bin_prefix (with_threshold n t) = bin_prefix n"
  "bin_prefix (fst (shade n)) = bin_prefix n"
  by (simp_all add: bin_prefix_def)

lemma add_key_bin: "all_nodes bin_prefix (fst st) \<Longrightarrow> all_nodes bin_prefix (fst (add_key ths st raw))"
proof (cases rule: add_key_cases [of ths st raw])
  case path
  assume st: "all_nodes bin_prefix (fst st)"
  have leaf: "bin_prefix (leaf_node pre a res k)" for pre a res k
    unfolding leaf_node_def bin_prefix_def ends_with_def suffix_def by simp
  show ?thesis
    unfolding path(2)
    by (rule add_path_all [where P = bin_prefix and Q = bin_prefix, OF _ _ _ _ leaf _ st key_parts_tokens])
      (simp_all add: fresh_node_def bin_prefix_def)
qed simp

lemma grow_bin: "all_nodes bin_prefix (fst (grow ks ths))"
proof (induction ks rule: rev_induct)
  case Nil
  show ?case by (simp add: grow_def trie_root_def bin_prefix_def)
next
  case (snoc k ks)
  then show ?case unfolding grow_snoc by (rule add_key_bin)
qed

lemma build_bin: "buildTreeFromPrefixes ks ths = Some t \<Longrightarrow> all_nodes bin_prefix t"
  using shade_all [OF grow_bin] by (auto simp: buildTreeFromPrefixes_def split: if_splits)

text \<open>
  The outline that marks the symbols at a node is only drawn on a terminal, and no terminal with an
  action ever gets it: positions are the prefixes of regions, the prefix of an action ends in \<^verbatim>\<open>.bin\<close>.
\<close>

theorem action_leaf_never_marked:
  assumes "buildTreeFromPrefixes keys ths = Some t" "si_positions si = symbolPositions known targets"
    and "list_all (\<lambda>s. \<not> ends_with (sp_path s) ''.bin'' \<and>
      list_all (\<lambda>tok. \<not> ends_with tok ''.bin'') (sp_tokens s)) targets"
  shows "all_nodes (\<lambda>n. tn_action n = None \<or> \<not> has_symbol si n) t"
proof (rule all_nodes_mono [OF build_bin [OF assms(1)]])
  fix n
  assume n: "bin_prefix n"
  have keys: "\<not> ends_with (target_prefix known s) ''.bin''" if "s \<in> set targets" for s
  proof -
    have s: "\<not> ends_with (sp_path s) ''.bin''" "list_all (\<lambda>tok. \<not> ends_with tok ''.bin'') (sp_tokens s)"
      using assms(3) that by (auto simp: list_all_iff)
    show ?thesis
    proof (cases "best_prefix known (sp_tokens s) = []")
      case True
      with s(1) show ?thesis by (simp add: target_prefix_def)
    next
      case False
      then have "best_prefix known (sp_tokens s) \<in> set (prefix_walk [] (sp_tokens s))"
        using best_prefix_found [of known "sp_tokens s"] by simp
      from prefix_walk_not_bin [OF s(2) this] False show ?thesis by (simp add: target_prefix_def)
    qed
  qed
  have "has_symbol si n \<Longrightarrow> tn_prefix n \<in> fst ` set (symbolPositions known targets)"
    unfolding has_symbol_def assms(2) by (auto split: option.splits dest!: map_of_SomeD intro: rev_image_eqI)
  then have "has_symbol si n \<Longrightarrow> tn_prefix n \<in> target_prefix known ` set targets"
    by (rule subsetD [OF symbolPositions_keys])
  with n keys show "tn_action n = None \<or> \<not> has_symbol si n"
    unfolding bin_prefix_def by (elim disjE) auto
qed

definition sample_scene :: scene_input where
  "sample_scene = \<lparr>si_rejected = {}, si_traversed = {''R01''},
     si_positions = symbolPositions (treePrefixes [''R01/enter.bin'']) [sample_symbol], si_active = None,
     si_selected = []\<rparr>"

lemma action_leaf_never_marked_witness:
  "\<exists>t. buildTreeFromPrefixes [''R01/enter.bin''] [] = Some t \<and>
    all_nodes (\<lambda>n. tn_action n = None \<or> \<not> has_symbol sample_scene n) t"
proof -
  obtain t where "buildTreeFromPrefixes [''R01/enter.bin''] [] = Some t" by (simp add: buildTreeFromPrefixes_def)
  moreover from this have "all_nodes (\<lambda>n. tn_action n = None \<or> \<not> has_symbol sample_scene n) t"
    by (rule action_leaf_never_marked [where targets = "[sample_symbol]"]) (simp_all add: sample_scene_def sample_symbol_def ends_with_def suffix_def)
  ultimately show ?thesis by blast
qed

subsection \<open>Fading\<close>

lemma fade_unit:
  assumes "threshold_in (num_in 0 1) n"
  shows "num_in 0 1 (num_mul (dim_unless lit) (branchFadeFor (tn_threshold n)))"
proof -
  have "num_in 0 1 (branchFadeFor (tn_threshold n))"
    using assms by (auto simp: branchFadeFor_def threshold_in_def paintOpacity_def num_sub_def num_in_iff
        split: option.splits intro!: fl_unit [unfolded num_in_iff])
  then obtain x where x: "branchFadeFor (tn_threshold n) = Fin x" "0 \<le> x" "x \<le> 1" by (auto simp: num_in_iff)
  have "num_in 0 1 (dim_unless lit)" using fl_unit [of "15/100"] by (simp add: dim_unless_def)
  then obtain y where y: "dim_unless lit = Fin y" "0 \<le> y" "y \<le> 1" by (auto simp: num_in_iff)
  have "num_in 0 1 (fl (y * x))" by (rule fl_unit) (use x y in \<open>auto simp: mult_le_one\<close>)
  then show ?thesis using x y by simp
qed

text \<open>
  Whatever is hovered or selected, and given thresholds between 0 and 1, no node and no link of the
  tree is painted with an opacity outside 0 to 1: the mean shared with a branch and the fading are both
  rounded, and neither leaves the range.
\<close>

theorem opacities_in_unit:
  assumes "buildTreeFromPrefixes keys ths = Some t" "list_all (num_in 0 1) (map snd ths)" "length keys \<le> 2 ^ 53"
  shows "all_nodes (\<lambda>n. num_in 0 1 (nodeActivityOpacity si n) \<and> num_in 0 1 (linkActivityOpacity si n)) t"
  by (rule all_nodes_mono [OF build_thresholds [OF assms]])
    (simp add: nodeActivityOpacity_def linkActivityOpacity_def Let_def fade_unit)

lemma opacities_in_unit_witness:
  "\<exists>t. buildTreeFromPrefixes [''a/enter.bin''] [(''a/enter.bin'', Fin (1/2))] = Some t \<and>
     all_nodes (\<lambda>n. num_in 0 1 (nodeActivityOpacity sample_scene n) \<and> num_in 0 1 (linkActivityOpacity sample_scene n)) t"
  using opacities_in_unit [of "[''a/enter.bin'']" "[(''a/enter.bin'', Fin (1/2))]"]
  by (auto simp: buildTreeFromPrefixes_def)

subsection \<open>Collapsing\<close>

lemma prepare_frame:
  "tn_id (prepareHierarchy c n) = tn_id n" "tn_token (prepareHierarchy c n) = tn_token n"
  "own (prepareHierarchy c n) = own n"
  by (cases n; simp add: own_def)+

lemma prepare_branches: "all_nodes kinds_ok n \<Longrightarrow> branches (prepareHierarchy c n) = branches n"
proof (induction n)
  case (TrieNode i p tok act t cs hid)
  have hid: "hid = []" using all_nodes_here [OF TrieNode.prems] by (simp add: kinds_ok_def)
  have "\<forall>d \<in> set cs. branches (prepareHierarchy c d) = branches d" using TrieNode by auto
  then show ?case by (simp add: hid image_image)
qed

lemma distinct_submset: "distinct ys \<Longrightarrow> mset xs \<subseteq># mset ys \<Longrightarrow> distinct xs"
  by (metis distinct_append ex_mset mset_append mset_eq_imp_distinct_iff subset_mset.le_iff_add)

lemma prepare_drawn: "mset (drawn_ids (prepareHierarchy c n)) \<subseteq># mset (ids_of n)"
proof (induction n)
  case (TrieNode i p tok act t cs hid)
  have kids: "mset (concat (map drawn_ids (map (prepareHierarchy c) ds))) \<subseteq># mset (concat (map ids_of ds))"
    if "set ds \<subseteq> set cs" for ds
    using that by (induction ds) (auto intro!: subset_mset.add_mono TrieNode(1))
  have "mset (concat (map drawn_ids (map (prepareHierarchy c) cs))) \<subseteq># mset (concat (map ids_of cs))"
    by (rule kids) simp
  moreover have "mset (concat (map ids_of cs)) \<subseteq># mset (concat (map ids_of cs)) + mset (concat (map ids_of hid))"
    by simp
  ultimately have "mset (concat (map drawn_ids (map (prepareHierarchy c) cs)))
      \<subseteq># mset (concat (map ids_of cs)) + mset (concat (map ids_of hid))" by (rule subset_mset.order_trans)
  then show ?case by simp
qed

lemma handleNodeClick_twice: "handleNodeClick i (handleNodeClick i c) = c"
  by (auto simp: handleNodeClick_def)

text \<open>
  Collapsing nodes draws some of the nodes of the tree, each once, and loses no path of it: the tree
  that is shown reads back as the same paths; and a second click on a node undoes the first.
\<close>

theorem collapse_loses_nothing:
  assumes "buildTreeFromPrefixes keys ths = Some t"
  shows "set (extractPrefixes (Some (prepareHierarchy c t))) = set (extractPrefixes (Some t)) \<and>
    distinct (drawn_ids (prepareHierarchy c t)) \<and> set (drawn_ids (prepareHierarchy c t)) \<subseteq> set (ids_of t) \<and>
    prepareHierarchy (handleNodeClick i (handleNodeClick i c)) t = prepareHierarchy c t"
proof (intro conjI)
  have t: "distinct (ids_of t)" "all_nodes kinds_ok t" using build_apart [OF assms] by blast+
  show "set (extractPrefixes (Some (prepareHierarchy c t))) = set (extractPrefixes (Some t))"
    by (simp add: extractPrefixes_def walk_paths_set prepare_branches [OF t(2)])
  show "distinct (drawn_ids (prepareHierarchy c t))"
    using t(1) prepare_drawn [of c t] by (metis distinct_submset)
  show "set (drawn_ids (prepareHierarchy c t)) \<subseteq> set (ids_of t)"
    using set_mset_mono [OF prepare_drawn [of c t]] by simp
  show "prepareHierarchy (handleNodeClick i (handleNodeClick i c)) t = prepareHierarchy c t"
    by (simp add: handleNodeClick_twice)
qed

lemma collapse_loses_nothing_witness:
  "\<exists>t. buildTreeFromPrefixes [''a/enter.bin''] [] = Some t \<and>
     set (extractPrefixes (Some (prepareHierarchy {''1''} t))) = set (extractPrefixes (Some t))"
  using collapse_loses_nothing [of "[''a/enter.bin'']" "[]" _ "{''1''}" "''1''"]
  by (auto simp: buildTreeFromPrefixes_def)

end
