(* ===== verification/LongtailView.thy ===== *)
theory LongtailView
  imports LongtailStats DeskControls Pixels
begin

text \<open>
  The long-tail page: \<^verbatim>\<open>components/longtail/metric-chart.tsx\<close> (the domain of a chart, its runs of
  finite samples, the pixel each sample is drawn at, its ticks and paths) and
  \<^verbatim>\<open>components/longtail/dashboard.tsx\<close> (the tiles with their change and spark line, the six charts
  and their headlines, the rail of readings). A drawing is the record of what the page puts into
  the document; \<^verbatim>\<open>toLocaleTimeString\<close> is the parameter \<open>tm\<close>. Components without state: the page is
  a function of the samples, the selected ledger and the measured size.
\<close>

subsection \<open>Axes\<close>

record ChartSeries =
  cs_values :: "jsnum option list"
  cs_stroke :: string
  cs_fill :: "string option"
  cs_label :: "string option"

definition MARGIN_top :: jsnum where "MARGIN_top = Fin 8"

definition MARGIN_right :: jsnum where "MARGIN_right = Fin 10"

definition MARGIN_bottom :: jsnum where "MARGIN_bottom = Fin 20"

definition MARGIN_left :: jsnum where "MARGIN_left = Fin 42"

definition niceTicks :: "jsnum \<Rightarrow> jsnum \<Rightarrow> nat \<Rightarrow> jsnum list" where
  "niceTicks lo hi n =
     (if \<not> is_finite lo \<or> \<not> is_finite hi then []
      else if num_eq lo hi then [lo]
      else let step = num_div (num_sub hi lo) (num_max (num_sub (num_of_nat n) (Fin 1)) (Fin 1))
           in map (\<lambda>i. num_add lo (num_mul step (num_of_nat i))) [0..<n])"

text \<open>The runs of finite samples; \<open>toPoint\<close> places one of them.\<close>

definition seg_step ::
    "(nat \<Rightarrow> jsnum \<Rightarrow> 'p) \<Rightarrow> 'p list list \<times> 'p list \<Rightarrow> nat \<times> jsnum option \<Rightarrow> 'p list list \<times> 'p list" where
  "seg_step toPoint acc entry =
     (case (acc, entry) of
        ((segs, current), (index, v)) \<Rightarrow>
          (case shown v of
             None \<Rightarrow> if current \<noteq> [] then (segs @ [current], []) else (segs, current)
           | Some x \<Rightarrow> (segs, current @ [toPoint index x])))"

definition buildSegments :: "jsnum option list \<Rightarrow> (nat \<Rightarrow> jsnum \<Rightarrow> 'p) \<Rightarrow> 'p list list" where
  "buildSegments vs toPoint =
     (case foldl (seg_step toPoint) ([], []) (enumerate 0 vs) of
        (segs, current) \<Rightarrow> if current \<noteq> [] then segs @ [current] else segs)"

definition finite_samples :: "ChartSeries list \<Rightarrow> jsnum list" where
  "finite_samples series = List.map_filter shown (concat (map cs_values series))"

definition chart_domain ::
    "ChartSeries list \<Rightarrow> (jsnum \<times> jsnum) option \<Rightarrow> jsnum option \<Rightarrow> (jsnum \<times> jsnum) option" where
  "chart_domain series yDomain baseline =
     (let finite = finite_samples series
      in if length finite < 2 then None
         else let lo = (case yDomain of Some d \<Rightarrow> fst d | None \<Rightarrow> foldl num_min PInf finite);
                  hi = (case yDomain of Some d \<Rightarrow> snd d | None \<Rightarrow> foldl num_max NInf finite);
                  lo = (case (baseline, yDomain) of (Some b, None) \<Rightarrow> num_min lo b | _ \<Rightarrow> lo);
                  hi = (case (baseline, yDomain) of (Some b, None) \<Rightarrow> num_max hi b | _ \<Rightarrow> hi)
              in if num_eq lo hi then Some (num_sub lo (fl (1 / 2)), num_add hi (fl (1 / 2)))
                 else Some (lo, hi))"

text \<open>The plot: the domain, the size the cell was measured at and the number of times.\<close>

record plot =
  pl_lo :: jsnum
  pl_hi :: jsnum
  pl_width :: jsnum
  pl_height :: jsnum
  pl_times :: nat

definition plotW :: "plot \<Rightarrow> jsnum" where
  "plotW p = num_max (Fin 10) (num_sub (num_sub (pl_width p) MARGIN_left) MARGIN_right)"

definition plotH :: "plot \<Rightarrow> jsnum" where
  "plotH p = num_max (Fin 10) (num_sub (num_sub (pl_height p) MARGIN_top) MARGIN_bottom)"

definition value_span :: "plot \<Rightarrow> jsnum" where
  "value_span p = (let d = num_sub (pl_hi p) (pl_lo p) in if d = Fin 0 \<or> d = NaN then Fin 1 else d)"

definition spanCount :: "plot \<Rightarrow> jsnum" where
  "spanCount p = num_max (num_sub (num_of_nat (pl_times p)) (Fin 1)) (Fin 1)"

definition plot_x :: "plot \<Rightarrow> jsnum \<Rightarrow> jsnum" where
  "plot_x p index = num_add MARGIN_left (num_mul (num_div index (spanCount p)) (plotW p))"

definition plot_y :: "plot \<Rightarrow> jsnum \<Rightarrow> jsnum" where
  "plot_y p v =
     num_sub (num_add MARGIN_top (plotH p))
       (num_mul (num_div (num_sub v (pl_lo p)) (value_span p)) (plotH p))"

definition toPoint :: "plot \<Rightarrow> nat \<Rightarrow> jsnum \<Rightarrow> jsnum \<times> jsnum" where
  "toPoint p index v = (plot_x p (num_of_nat index), plot_y p v)"

definition floorY :: "plot \<Rightarrow> jsnum" where
  "floorY p = num_add MARGIN_top (plotH p)"

definition baselineY :: "plot \<Rightarrow> jsnum option \<Rightarrow> jsnum" where
  "baselineY p baseline =
     (case baseline of
        None \<Rightarrow> floorY p
      | Some b \<Rightarrow> if num_lt b (pl_lo p) \<or> num_lt (pl_hi p) b then floorY p else plot_y p b)"

definition xTickCount :: "plot \<Rightarrow> nat" where
  "xTickCount p = min 3 (max (pl_times p) 1)"

definition tick_index :: "plot \<Rightarrow> nat \<Rightarrow> jsnum" where
  "tick_index p i =
     num_round (num_mul (num_div (num_of_nat i) (num_max (num_sub (num_of_nat (xTickCount p)) (Fin 1)) (Fin 1)))
       (num_max (num_sub (num_of_nat (pl_times p)) (Fin 1)) (Fin 0)))"

text \<open>\<^verbatim>\<open>times[index]\<close> for a whole index within bounds.\<close>

definition time_at :: "jsnum list \<Rightarrow> jsnum \<Rightarrow> jsnum option" where
  "time_at stamps index =
     (case index of
        Fin q \<Rightarrow> if 0 \<le> q \<and> of_int \<lfloor>q\<rfloor> = q \<and> \<lfloor>q\<rfloor> < int (length stamps) then Some (stamps ! nat \<lfloor>q\<rfloor>) else None
      | _ \<Rightarrow> None)"

definition xTick :: "(jsnum \<Rightarrow> string) \<Rightarrow> jsnum list \<Rightarrow> plot \<Rightarrow> nat \<Rightarrow> jsnum \<times> string" where
  "xTick tm stamps p i =
     (let index = tick_index p i
      in (plot_x p index,
          case time_at stamps index of
            Some t \<Rightarrow> tm t
          | None \<Rightarrow> ''#'' @ num_text (num_add index (Fin 1))))"

definition xTicks :: "(jsnum \<Rightarrow> string) \<Rightarrow> jsnum list \<Rightarrow> plot \<Rightarrow> (jsnum \<times> string) list" where
  "xTicks tm stamps p = map (xTick tm stamps p) [0..<xTickCount p]"

subsection \<open>The drawing\<close>

definition pixel :: "string \<Rightarrow> jsnum \<times> jsnum \<Rightarrow> string" where
  "pixel letter pt = letter @ to_fixed 2 (fst pt) @ '','' @ to_fixed 2 (snd pt)"

definition seg_line :: "(jsnum \<times> jsnum) list \<Rightarrow> string" where
  "seg_line seg =
     join_with '' '' (map (\<lambda>(j, pt). pixel (if j = 0 then ''M'' else ''L'') pt) (enumerate 0 seg))"

definition seg_area :: "jsnum \<Rightarrow> (jsnum \<times> jsnum) list \<Rightarrow> string" where
  "seg_area base seg =
     seg_line seg @ '' '' @ pixel ''L'' (fst (last seg), base) @ '' '' @
     pixel ''L'' (fst (hd seg), base) @ '' Z''"

record seg_drawing =
  sd_area :: "(string \<times> string) option"
  sd_line :: string
  sd_stroke :: string

record series_drawing =
  sr_runs :: "seg_drawing list"
  sr_dot :: "(jsnum \<times> jsnum) option"

definition seg_drawing :: "plot \<Rightarrow> jsnum option \<Rightarrow> ChartSeries \<Rightarrow> (jsnum \<times> jsnum) list \<Rightarrow> seg_drawing" where
  "seg_drawing p baseline s seg =
     \<lparr>sd_area = (case cs_fill s of
        Some colour \<Rightarrow> if colour \<noteq> [] then Some (seg_area (baselineY p baseline) seg, colour) else None
      | None \<Rightarrow> None),
      sd_line = seg_line seg, sd_stroke = cs_stroke s\<rparr>"

definition series_drawing :: "plot \<Rightarrow> jsnum option \<Rightarrow> ChartSeries \<Rightarrow> series_drawing" where
  "series_drawing p baseline s =
     (let segs = buildSegments (cs_values s) (toPoint p)
      in \<lparr>sr_runs = map (seg_drawing p baseline s) (filter (\<lambda>seg. 1 < length seg) segs),
          sr_dot = (case last_opt segs of Some seg \<Rightarrow> last_opt seg | None \<Rightarrow> None)\<rparr>)"

record chart_drawing =
  cd_title :: string
  cd_frame :: "jsnum \<times> jsnum"
  cd_yTicks :: "(jsnum \<times> string) list"
  cd_baseline :: "jsnum option"
  cd_xTicks :: "(jsnum \<times> string) list"
  cd_legend :: "(jsnum \<times> string) list"
  cd_series :: "series_drawing list"

datatype metric_chart = WaitingForSamples | Drawn chart_drawing

definition chart_title :: "ChartSeries list \<Rightarrow> string" where
  "chart_title series =
     (let text = join_with ('' '' @ mid_dot @ '' '')
                   (filter (\<lambda>l. l \<noteq> []) (List.map_filter cs_label series))
      in if text = [] then ''training metric'' else text)"

definition legend :: "ChartSeries list \<Rightarrow> (jsnum \<times> string) list" where
  "legend series =
     map (\<lambda>(i, l). (num_add (num_add MARGIN_left (Fin 6)) (num_mul (num_of_nat i) (Fin 74)), l))
       (enumerate 0 (List.map_filter cs_label series))"

definition chart_drawing ::
    "(jsnum \<Rightarrow> string) \<Rightarrow> jsnum list \<Rightarrow> ChartSeries list \<Rightarrow> (jsnum \<Rightarrow> string) \<Rightarrow> jsnum option \<Rightarrow> plot \<Rightarrow>
     chart_drawing" where
  "chart_drawing tm stamps series formatY baseline p =
     \<lparr>cd_title = chart_title series,
      cd_frame = (plotW p, plotH p),
      cd_yTicks = map (\<lambda>tick. (plot_y p tick, formatY tick)) (niceTicks (pl_lo p) (pl_hi p) 4),
      cd_baseline = (case baseline of
         Some b \<Rightarrow> if num_le (pl_lo p) b \<and> num_le b (pl_hi p) then Some (plot_y p b) else None
       | None \<Rightarrow> None),
      cd_xTicks = xTicks tm stamps p,
      cd_legend = legend series,
      cd_series = map (series_drawing p baseline) series\<rparr>"

definition MetricChart ::
    "(jsnum \<Rightarrow> string) \<Rightarrow> jsnum list \<Rightarrow> ChartSeries list \<Rightarrow> (jsnum \<Rightarrow> string) \<Rightarrow> (jsnum \<times> jsnum) option \<Rightarrow>
     jsnum option \<Rightarrow> jsnum \<times> jsnum \<Rightarrow> metric_chart" where
  "MetricChart tm stamps series formatY yDomain baseline extent =
     (case chart_domain series yDomain baseline of
        Some (lo, hi) \<Rightarrow>
          if num_lt (Fin 40) (fst extent) \<and> num_lt (Fin 24) (snd extent)
          then Drawn (chart_drawing tm stamps series formatY baseline
                 \<lparr>pl_lo = lo, pl_hi = hi, pl_width = fst extent, pl_height = snd extent,
                  pl_times = length stamps\<rparr>)
          else WaitingForSamples
      | None \<Rightarrow> WaitingForSamples)"

subsection \<open>Tiles\<close>

definition rate :: "jsnum \<Rightarrow> string" where
  "rate v = num_text (num_round (num_mul v (Fin 100))) @ ''%''"

definition countLabel :: "jsnum \<Rightarrow> string" where
  "countLabel v = num_text (num_round v)"

definition resistLabel :: "jsnum \<Rightarrow> string" where
  "resistLabel v = to_fixed 2 v"

text \<open>The spark line's points in its \<open>100 x 16\<close> view box, two units of padding.\<close>

definition tile_spark_point :: "jsnum list \<Rightarrow> jsnum \<Rightarrow> jsnum \<Rightarrow> nat \<Rightarrow> jsnum \<times> jsnum" where
  "tile_spark_point points lo hi i =
     (let extent = num_sub hi lo;
          norm = (if num_lt (Fin 0) extent then num_div (num_sub (points ! i) lo) extent else fl (1 / 2))
      in (num_mul (num_div (num_of_nat i) (num_sub (num_of_nat (length points)) (Fin 1))) (Fin 100),
          num_sub (num_sub (Fin 16) (Fin 2)) (num_mul norm (num_sub (Fin 16) (num_mul (Fin 2) (Fin 2))))))"

definition tile_spark :: "jsnum list \<Rightarrow> (jsnum \<times> jsnum) list" where
  "tile_spark points =
     (if length points < 2 then []
      else map (tile_spark_point points (running_min points) (running_max points)) [0..<length points])"

definition sparkPath :: "jsnum list \<Rightarrow> string" where
  "sparkPath points =
     concat (map (\<lambda>(i, x, y). (if i = 0 then ''M'' else ''L'') @ to_fixed 1 x @ '','' @ to_fixed 1 y @ '' '')
       (enumerate 0 (tile_spark points)))"

record Kpi =
  kp_id :: string
  kp_label :: string
  kp_value :: "LongtailSample \<Rightarrow> Book \<Rightarrow> jsnum option"
  kp_format :: "jsnum \<Rightarrow> string"
  kp_formatDelta :: "jsnum \<Rightarrow> string"
  kp_tone :: "jsnum option \<Rightarrow> LongtailSample option \<Rightarrow> Tone"
  kp_higherIsBetter :: bool
  kp_colorDelta :: bool
  kp_epsilon :: jsnum

definition signed_text :: "(jsnum \<Rightarrow> string) \<Rightarrow> jsnum \<Rightarrow> string" where
  "signed_text f delta = (if num_le (Fin 0) delta then ''+'' else []) @ f delta"

definition points_delta :: "nat \<Rightarrow> jsnum \<Rightarrow> string" where
  "points_delta d = signed_text (\<lambda>delta. to_fixed d (num_mul (Fin 100) delta) @ ''pp'')"

definition count_delta :: "jsnum \<Rightarrow> string" where
  "count_delta = signed_text (\<lambda>delta. num_text (num_round delta))"

definition paper_floor_tone :: "jsnum option \<Rightarrow> Tone" where
  "paper_floor_tone v =
     (case v of None \<Rightarrow> Neutral | Some x \<Rightarrow> if num_lt (Fin 0) x then Good else Info)"

definition eligible_of :: "LongtailSample option \<Rightarrow> jsnum" where
  "eligible_of sample =
     (case sample of Some s \<Rightarrow> ls_eligibleResistance s | None \<Rightarrow> fl (2 / 10))"

definition win_kpi :: Kpi where
  "win_kpi = \<lparr>kp_id = ''win'', kp_label = ''win rate'',
     kp_value = (\<lambda>s book. ti_winRate (tierStats s book)), kp_format = rate, kp_formatDelta = points_delta 1,
     kp_tone = (\<lambda>v _. winRateTone v), kp_higherIsBetter = True, kp_colorDelta = True,
     kp_epsilon = fl (2 / 100)\<rparr>"

definition edge_kpi :: Kpi where
  "edge_kpi = \<lparr>kp_id = ''edge'', kp_label = ''edge'',
     kp_value = (\<lambda>s book. ti_edge (tierStats s book)), kp_format = pct, kp_formatDelta = points_delta 2,
     kp_tone = (\<lambda>v _. returnTone v), kp_higherIsBetter = True, kp_colorDelta = True,
     kp_epsilon = fl (2 / 1000)\<rparr>"

definition closed_kpi :: Kpi where
  "closed_kpi = \<lparr>kp_id = ''closed'', kp_label = ''settled'',
     kp_value = (\<lambda>s book. Some (bs_closed (ti_stats (tierStats s book)))), kp_format = countLabel,
     kp_formatDelta = count_delta, kp_tone = (\<lambda>_ _. Info), kp_higherIsBetter = True,
     kp_colorDelta = False, kp_epsilon = fl (5 / 10)\<rparr>"

definition promoted_kpi :: Kpi where
  "promoted_kpi = \<lparr>kp_id = ''promoted'', kp_label = ''paper floor'',
     kp_value = (\<lambda>s _. ps_promoted (ls_paths s)), kp_format = countLabel,
     kp_formatDelta = count_delta, kp_tone = (\<lambda>v _. paper_floor_tone v), kp_higherIsBetter = True,
     kp_colorDelta = True, kp_epsilon = fl (5 / 10)\<rparr>"

definition resistance_kpi :: Kpi where
  "resistance_kpi = \<lparr>kp_id = ''resistance'', kp_label = ''mean resist'',
     kp_value = (\<lambda>s _. ps_meanResistance (ls_paths s)), kp_format = resistLabel,
     kp_formatDelta = signed_text (to_fixed 2), kp_tone = (\<lambda>v sample. resistanceTone v (eligible_of sample)),
     kp_higherIsBetter = False, kp_colorDelta = True, kp_epsilon = fl (2 / 100)\<rparr>"

definition policy_kpi :: Kpi where
  "policy_kpi = \<lparr>kp_id = ''policy'', kp_label = ''policy hit'',
     kp_value = (\<lambda>s _. pl_hitRate (ls_policy s)), kp_format = rate, kp_formatDelta = points_delta 1,
     kp_tone = (\<lambda>v _. matchTone v), kp_higherIsBetter = True, kp_colorDelta = True,
     kp_epsilon = fl (2 / 100)\<rparr>"

definition kpis :: "Kpi list" where
  "kpis = [win_kpi, edge_kpi, closed_kpi, promoted_kpi, resistance_kpi, policy_kpi]"

record kpi_tile =
  kt_caption :: string
  kt_delta :: string
  kt_deltaTone :: Tone
  kt_value :: string
  kt_tone :: Tone
  kt_spark :: string

definition kpi_latest :: "Kpi \<Rightarrow> LongtailSample list \<Rightarrow> Book \<Rightarrow> jsnum option" where
  "kpi_latest kpi samples book =
     (case last_opt samples of Some s \<Rightarrow> kp_value kpi s book | None \<Rightarrow> None)"

definition kpi_prior :: "Kpi \<Rightarrow> LongtailSample list \<Rightarrow> Book \<Rightarrow> jsnum option" where
  "kpi_prior kpi samples book =
     (if samples = [] then None else kp_value kpi (sixteen_back samples) book)"

definition kpi_delta :: "Kpi \<Rightarrow> LongtailSample list \<Rightarrow> Book \<Rightarrow> jsnum option" where
  "kpi_delta kpi samples book =
     (case (kpi_latest kpi samples book, kpi_prior kpi samples book) of
        (Some l, Some p) \<Rightarrow> if is_finite p then Some (num_sub l p) else None
      | _ \<Rightarrow> None)"

definition delta_tone :: "Kpi \<Rightarrow> jsnum option \<Rightarrow> Tone" where
  "delta_tone kpi delta =
     (case delta of
        None \<Rightarrow> Neutral
      | Some d \<Rightarrow>
          if \<not> kp_colorDelta kpi \<or> num_lt (num_abs d) (kp_epsilon kpi) then Neutral
          else if num_lt (Fin 0) d = kp_higherIsBetter kpi then Good else Bad)"

definition KpiTile :: "Kpi \<Rightarrow> LongtailSample list \<Rightarrow> Book \<Rightarrow> kpi_tile" where
  "KpiTile kpi samples book =
     (let series = map (\<lambda>s. kp_value kpi s book) samples;
          latest = kpi_latest kpi samples book;
          delta = kpi_delta kpi samples book
      in \<lparr>kt_caption = book_name book @ '' '' @ kp_label kpi,
          kt_delta = (case delta of None \<Rightarrow> em_dash | Some d \<Rightarrow> kp_formatDelta kpi d),
          kt_deltaTone = delta_tone kpi delta,
          kt_value = (case latest of None \<Rightarrow> em_dash | Some v \<Rightarrow> kp_format kpi v),
          kt_tone = kp_tone kpi latest (last_opt samples),
          kt_spark = sparkPath (List.map_filter shown (take_last 60 series))\<rparr>)"

subsection \<open>Charts\<close>

record ChartDef =
  df_id :: string
  df_label :: string
  df_caption :: string
  df_series :: "LongtailSample list \<Rightarrow> Book \<Rightarrow> ChartSeries list"
  df_formatY :: "jsnum \<Rightarrow> string"
  df_yDomain :: "(jsnum \<times> jsnum) option"
  df_baseline :: "jsnum option"
  df_tone :: "LongtailSample option \<Rightarrow> Book \<Rightarrow> Tone"

definition line_of ::
    "string \<Rightarrow> string \<Rightarrow> (LongtailSample \<Rightarrow> jsnum option) \<Rightarrow> LongtailSample list \<Rightarrow> ChartSeries" where
  "line_of label stroke pick_of samples =
     \<lparr>cs_values = map pick_of samples, cs_stroke = stroke, cs_fill = None, cs_label = Some label\<rparr>"

definition edge_chart :: ChartDef where
  "edge_chart = \<lparr>df_id = ''edge'', df_label = ''Edge trajectory'',
     df_caption = ''selected-tier mean return and win rate over the sample window'',
     df_series = (\<lambda>samples book.
       [line_of ''edge'' ''var(--acc)'' (\<lambda>s. ti_edge (tierStats s book)) samples,
        line_of ''win'' ''var(--up)'' (\<lambda>s. ti_winRate (tierStats s book)) samples]),
     df_formatY = (\<lambda>v. if num_le (num_abs v) (fl (15 / 10)) then pct v else countLabel v),
     df_yDomain = None, df_baseline = Some (Fin 0),
     df_tone = (\<lambda>sample book. case sample of
       Some s \<Rightarrow> returnTone (ti_edge (tierStats s book)) | None \<Rightarrow> Neutral)\<rparr>"

definition paths_chart :: ChartDef where
  "paths_chart = \<lparr>df_id = ''paths'', df_label = ''Path book'',
     df_caption = ''developed leaves, paper-floor promotions, and mean resistance'',
     df_series = (\<lambda>samples _.
       [line_of ''developed'' ''var(--info)'' (\<lambda>s. ps_developed (ls_paths s)) samples,
        line_of ''promoted'' ''var(--up)'' (\<lambda>s. ps_promoted (ls_paths s)) samples,
        line_of ''resistance'' ''var(--warn)'' (\<lambda>s. ps_meanResistance (ls_paths s)) samples]),
     df_formatY = (\<lambda>v. if num_le v (fl (15 / 10)) then resistLabel v else countLabel v),
     df_yDomain = None, df_baseline = None,
     df_tone = (\<lambda>sample _. case sample of
       Some s \<Rightarrow> resistanceTone (ps_meanResistance (ls_paths s)) (ls_eligibleResistance s)
     | None \<Rightarrow> Neutral)\<rparr>"

definition churn_chart :: ChartDef where
  "churn_chart = \<lparr>df_id = ''churn'', df_label = ''Path churn'',
     df_caption = ''keys added vs removed between samples '' @ em_dash @ '' thrash when both spike'',
     df_series = (\<lambda>samples _.
       [line_of ''added'' ''var(--up)'' (\<lambda>s. ps_added (ls_paths s)) samples,
        line_of ''removed'' ''var(--down)'' (\<lambda>s. ps_removed (ls_paths s)) samples]),
     df_formatY = countLabel, df_yDomain = None, df_baseline = None,
     df_tone = (\<lambda>sample _. case sample of
       Some s \<Rightarrow> if ps_added (ls_paths s) = None then Neutral
                 else if num_le (Fin 3) (path_churn (ls_paths s)) then Warn else Info
     | None \<Rightarrow> Neutral)\<rparr>"

definition policy_chart :: ChartDef where
  "policy_chart = \<lparr>df_id = ''policy'', df_label = ''Policy match'',
     df_caption = ''share of live symbol cuts that landed on a stored path'',
     df_series = (\<lambda>samples _.
       [line_of ''hit rate'' ''var(--acc)'' (\<lambda>s. pl_hitRate (ls_policy s)) samples]),
     df_formatY = rate, df_yDomain = Some (Fin 0, Fin 1), df_baseline = None,
     df_tone = (\<lambda>sample _. matchTone (case sample of Some s \<Rightarrow> pl_hitRate (ls_policy s) | None \<Rightarrow> None))\<rparr>"

definition exits_chart :: ChartDef where
  "exits_chart = \<lparr>df_id = ''exits'', df_label = ''Exit mix'',
     df_caption = ''profit vs stop vs policy exits on the selected tier'',
     df_series = (\<lambda>samples book.
       [line_of ''profit'' ''var(--up)'' (\<lambda>s. Some (xm_profit (ls_exits s book))) samples,
        line_of ''stop'' ''var(--down)'' (\<lambda>s. Some (xm_stop (ls_exits s book))) samples,
        line_of ''policy'' ''var(--info)'' (\<lambda>s. Some (xm_policy (ls_exits s book))) samples]),
     df_formatY = countLabel, df_yDomain = None, df_baseline = None,
     df_tone = (\<lambda>sample book. case sample of
       Some s \<Rightarrow>
         (let mix = ls_exits s book
          in if num_eq (xm_total mix) (Fin 0) then Neutral
             else if num_lt (xm_stop mix) (xm_profit mix) then Good
             else if num_lt (xm_profit mix) (xm_stop mix) then Warn else Info)
     | None \<Rightarrow> Neutral)\<rparr>"

definition stops_chart :: ChartDef where
  "stops_chart = \<lparr>df_id = ''stops'', df_label = ''Stop proximity'',
     df_caption = ''open selected-tier book vs invalidation / trail / damage '' @ em_dash @ '' 1.0 fires'',
     df_series = (\<lambda>samples book.
       [line_of ''stop loss'' ''var(--down)'' (\<lambda>s. ol_invalidation (ls_stops s book)) samples,
        line_of ''trail'' ''var(--up)'' (\<lambda>s. ol_trailing (ls_stops s book)) samples,
        line_of ''damage'' ''var(--warn)'' (\<lambda>s. ol_damage (ls_stops s book)) samples]),
     df_formatY = rate, df_yDomain = Some (Fin 0, fl (125 / 100)), df_baseline = Some (Fin 1),
     df_tone = (\<lambda>sample book.
       case (case sample of Some s \<Rightarrow> ol_maxProximity (ls_stops s book) | None \<Rightarrow> None) of
         None \<Rightarrow> Neutral
       | Some m \<Rightarrow> if num_le (Fin 1) m then Bad
                   else if num_le (fl (7 / 10)) m then Warn else Good)\<rparr>"

definition charts :: "ChartDef list" where
  "charts = [edge_chart, paths_chart, churn_chart, policy_chart, exits_chart, stops_chart]"

definition CHART_ROW_COUNT :: nat where "CHART_ROW_COUNT = (length charts + 1) div 2"

record chart_panel =
  pa_label :: string
  pa_caption :: string
  pa_headline :: string
  pa_color :: string
  pa_chart :: metric_chart

definition latestOf :: "jsnum option list \<Rightarrow> jsnum option" where
  "latestOf vs = (case last_opt vs of Some v \<Rightarrow> shown v | None \<Rightarrow> None)"

definition chart_head :: "ChartDef \<Rightarrow> ChartSeries \<Rightarrow> string" where
  "chart_head chart item =
     (case latestOf (cs_values item) of None \<Rightarrow> em_dash | Some v \<Rightarrow> df_formatY chart v)"

definition headline :: "string list \<Rightarrow> string" where
  "headline heads =
     (if list_all (\<lambda>h. h = em_dash) heads then em_dash else join_with ('' '' @ mid_dot @ '' '') heads)"

definition ChartPanel ::
    "(jsnum \<Rightarrow> string) \<Rightarrow> ChartDef \<Rightarrow> LongtailSample list \<Rightarrow> jsnum list \<Rightarrow> Book \<Rightarrow> jsnum \<times> jsnum \<Rightarrow>
     chart_panel" where
  "ChartPanel tm chart samples stamps book extent =
     (let series = df_series chart samples book
      in \<lparr>pa_label = df_label chart, pa_caption = df_caption chart,
          pa_headline = headline (map (chart_head chart) series),
          pa_color = toneColor (df_tone chart (last_opt samples) book),
          pa_chart = MetricChart tm stamps series (df_formatY chart) (df_yDomain chart) (df_baseline chart)
                       extent\<rparr>)"

subsection \<open>The rail and the page\<close>

record rail_row =
  rr_label :: string
  rr_value :: string
  rr_meter :: "jsnum option"
  rr_tone :: Tone

text \<open>A row's meter is the width in percent, absent without a reading.\<close>

definition RailRow :: "string \<Rightarrow> string \<Rightarrow> jsnum option \<Rightarrow> Tone \<Rightarrow> rail_row" where
  "RailRow label text meter tone =
     \<lparr>rr_label = label, rr_value = text,
      rr_meter = map_option (\<lambda>m. num_max (Fin 0) (num_min (Fin 100) (num_mul m (Fin 100)))) meter,
      rr_tone = tone\<rparr>"

definition text_or_dash :: "(jsnum \<Rightarrow> string) \<Rightarrow> jsnum option \<Rightarrow> string" where
  "text_or_dash f v = (case v of None \<Rightarrow> em_dash | Some x \<Rightarrow> f x)"

definition armed_text :: "jsnum option \<Rightarrow> string" where
  "armed_text a_now =
     text_or_dash (\<lambda>a. if num_le (fl (5 / 10)) a then ''yes'' else ''halted'') a_now"

definition armed_tone :: "jsnum option \<Rightarrow> Tone" where
  "armed_tone a_now =
     (case a_now of None \<Rightarrow> Neutral | Some a \<Rightarrow> if num_le (fl (5 / 10)) a then Good else Warn)"

definition positive_tone :: "Tone \<Rightarrow> jsnum option \<Rightarrow> Tone" where
  "positive_tone tone v = (if num_lt (Fin 0) (num_or_zero v) then tone else Neutral)"

definition tier_rail :: "LongtailSample option \<Rightarrow> Book \<Rightarrow> rail_row list" where
  "tier_rail latest book =
     (let ti = map_option (\<lambda>s. tierStats s book) latest;
          winRate = Option.bind ti ti_winRate; edge = Option.bind ti ti_edge;
          a_now = Option.bind ti ti_armed
      in [RailRow ''win rate'' (text_or_dash pct winRate) winRate (winRateTone winRate),
          RailRow ''edge'' (text_or_dash pct edge) None (returnTone edge),
          RailRow ''settled'' (text_or_dash num_text (map_option (\<lambda>t. bs_closed (ti_stats t)) ti)) None Info,
          RailRow ''open'' (text_or_dash num_text (map_option (\<lambda>t. bs_open (ti_stats t)) ti)) None Info] @
         (if book = Real then [RailRow ''armed'' (armed_text a_now) None (armed_tone a_now)] else []))"

definition paths_rail :: "LongtailSample option \<Rightarrow> rail_row list" where
  "paths_rail latest =
     (let paths = (case latest of Some s \<Rightarrow> ls_paths s | None \<Rightarrow> emptyPaths)
      in [RailRow ''developed'' (text_or_dash num_text (ps_developed paths)) None Info,
          RailRow ''paper floor'' (text_or_dash num_text (ps_promoted paths)) None
            (positive_tone Good (ps_promoted paths)),
          RailRow ''mean resistance'' (text_or_dash (to_fixed 2) (ps_meanResistance paths)) None
            (resistanceTone (ps_meanResistance paths) (eligible_of latest)),
          RailRow ''churn''
            (text_or_dash (\<lambda>a. ''+'' @ num_text a @ ''/'' @ minus_sign @
               num_text (num_or_zero (ps_removed paths))) (ps_added paths)) None
            (if num_le (Fin 3) (path_churn paths) then Warn else Info)])"

definition policy_rail :: "LongtailSample option \<Rightarrow> rail_row list" where
  "policy_rail latest =
     (let policy = map_option ls_policy latest; hitRate = Option.bind policy pl_hitRate
      in [RailRow ''hit rate'' (text_or_dash pct hitRate) hitRate (matchTone hitRate),
          RailRow ''checks'' (text_or_dash num_text (map_option pl_checks policy)) None Info,
          RailRow ''hits'' (text_or_dash num_text (map_option pl_hits policy)) None Info])"

definition exits_rail ::
    "LongtailSample option \<Rightarrow> Book \<Rightarrow> (string \<times> nat) list \<Rightarrow> rail_row list" where
  "exits_rail latest book exitTriggers =
     (let exits = map_option (\<lambda>s. ls_exits s book) latest
      in [RailRow ''profit'' (text_or_dash num_text (map_option xm_profit exits)) None
            (positive_tone Good (map_option xm_profit exits)),
          RailRow ''stop'' (text_or_dash num_text (map_option xm_stop exits)) None
            (positive_tone Warn (map_option xm_stop exits)),
          RailRow ''policy'' (text_or_dash num_text (map_option xm_policy exits)) None Info,
          RailRow ''other'' (text_or_dash num_text (map_option xm_other exits)) None Neutral] @
         map (\<lambda>(trigger, n). RailRow (formatExitTrigger trigger) (num_text (num_of_nat n)) None
                (triggerTone trigger)) exitTriggers)"

definition ge_sign :: string where "ge_sign = [CHR 0xE2, CHR 0x89, CHR 0xA5]"

definition stops_rail :: "LongtailSample option \<Rightarrow> Book \<Rightarrow> rail_row list" where
  "stops_rail latest book =
     (let stops = (case latest of Some s \<Rightarrow> ls_stops s book | None \<Rightarrow> emptyStops);
          invalidation = num_or_zero (ol_invalidation stops); trailing = num_or_zero (ol_trailing stops);
          damage = num_or_zero (ol_damage stops); nearest = num_or_zero (ol_maxProximity stops)
      in [RailRow ''stop loss'' (text_or_dash pct (ol_invalidation stops)) (ol_invalidation stops)
            (if num_le (Fin 1) invalidation then Bad
             else if num_le (fl (7 / 10)) invalidation then Warn
             else if num_lt (Fin 0) invalidation then Info else Neutral),
          RailRow ''trail'' (text_or_dash pct (ol_trailing stops)) (ol_trailing stops)
            (if num_le (Fin 1) trailing then Warn
             else if num_lt (Fin 0) trailing then Info else Neutral),
          RailRow ''damage'' (text_or_dash pct (ol_damage stops)) (ol_damage stops)
            (if num_le (fl (8 / 10)) damage then Warn
             else if num_lt (Fin 0) damage then Info else Neutral),
          RailRow ''lots armed''
            (text_or_dash (\<lambda>a. num_text a @ ''/'' @
               (case ol_open stops of Some n \<Rightarrow> num_text n | None \<Rightarrow> ''?'') @ '' at '' @ ge_sign @ ''70%'')
               (ol_armed stops)) None
            (positive_tone Warn (ol_armed stops)),
          RailRow ''nearest exit'' (text_or_dash pct (ol_maxProximity stops)) None
            (if num_le (Fin 1) nearest then Bad
             else if num_le (fl (7 / 10)) nearest then Warn else Neutral)])"

primrec toneVariant :: "Tone \<Rightarrow> string" where
  "toneVariant Good = ''success''"
| "toneVariant Warn = ''warning''"
| "toneVariant Bad = ''error''"
| "toneVariant Info = ''info''"
| "toneVariant Neutral = ''disabled''"

record longtail_page =
  lp_badge :: "string \<times> string \<times> bool"
  lp_chips :: "(string \<times> string) list"
  lp_tiles :: "kpi_tile list"
  lp_panels :: "chart_panel list"
  lp_rail :: "(string \<times> rail_row list) list"
  lp_insights :: "Insight list"

definition windowMinutes :: "LongtailSample list \<Rightarrow> jsnum" where
  "windowMinutes samples =
     num_max (Fin 1)
       (if samples = [] then Fin 0
        else num_round (num_div (num_sub (ls_at (last samples)) (ls_at (hd samples))) (Fin 60000)))"

definition page_chips :: "LongtailSample list \<Rightarrow> Book \<Rightarrow> (string \<times> string) list" where
  "page_chips samples book =
     (let ti = map_option (\<lambda>s. tierStats s book) (last_opt samples)
      in [(book_name book,
           case ti of
             Some t \<Rightarrow> num_text (bs_open (ti_stats t)) @ '' open '' @ mid_dot @ '' '' @
                       num_text (bs_closed (ti_stats t)) @ '' settled''
           | None \<Rightarrow> ''no data'')] @
         (if book = Real then [(''armed'', armed_text (Option.bind ti ti_armed))] else []) @
         [(''window'', num_text (windowMinutes samples) @ ''m''),
          (''samples'', num_text (num_of_nat (length samples)))])"

definition page_rail ::
    "LongtailSample option \<Rightarrow> Book \<Rightarrow> (string \<times> nat) list \<Rightarrow> (string \<times> rail_row list) list" where
  "page_rail latest book exitTriggers =
     [(book_name book @ '' book'', tier_rail latest book), (''Paths'', paths_rail latest),
      (''Policy'', policy_rail latest), (''Exits'', exits_rail latest book exitTriggers),
      (''Stops'', stops_rail latest book)]"

text \<open>\<open>deskRows\<close> is what \<^verbatim>\<open>deskRowsForStats()\<close> holds when the page renders.\<close>

definition LongtailDashboard ::
    "(string \<Rightarrow> int option) \<Rightarrow> (jsnum \<Rightarrow> string) \<Rightarrow> jsobj list \<Rightarrow> LongtailSample list \<Rightarrow> Book \<Rightarrow>
     jsnum \<times> jsnum \<Rightarrow> longtail_page" where
  "LongtailDashboard dp tm deskRows samples book extent =
     (let (label, tone) = verdict samples book;
          stamps = map ls_at samples
      in \<lparr>lp_badge = (label, toneVariant tone, tone = Bad),
          lp_chips = page_chips samples book,
          lp_tiles = map (\<lambda>kpi. KpiTile kpi samples book) kpis,
          lp_panels = map (\<lambda>chart. ChartPanel tm chart samples stamps book extent) charts,
          lp_rail = page_rail (last_opt samples) book (topExitTriggers dp deskRows book),
          lp_insights = buildInsights samples book\<rparr>)"

subsection \<open>The runs of a series\<close>

text \<open>What the loop holds after \<open>n\<close> samples: complete runs, and one that may go on.\<close>

definition indexed_samples :: "jsnum option list \<Rightarrow> (nat \<times> jsnum) list" where
  "indexed_samples vs = List.map_filter (\<lambda>(i, v). map_option (Pair i) (shown v)) (enumerate 0 vs)"

definition run_of :: "(nat \<times> jsnum) list \<Rightarrow> bool" where
  "run_of seg \<longleftrightarrow> seg \<noteq> [] \<and> map fst seg = [fst (hd seg)..<fst (hd seg) + length seg]"

definition runs_apart :: "(nat \<times> jsnum) list list \<Rightarrow> bool" where
  "runs_apart segs \<longleftrightarrow> list_all run_of segs \<and> successively (\<lambda>a b. Suc (fst (last a)) < fst (hd b)) segs"

definition closed_runs :: "'p list list \<times> 'p list \<Rightarrow> 'p list list" where
  "closed_runs st = (case st of (segs, current) \<Rightarrow> if current \<noteq> [] then segs @ [current] else segs)"

definition runs_upto :: "nat \<Rightarrow> (nat \<times> jsnum) list list \<times> (nat \<times> jsnum) list \<Rightarrow> bool" where
  "runs_upto n st \<longleftrightarrow> runs_apart (closed_runs st) \<and> (snd st \<noteq> [] \<longrightarrow> Suc (fst (last (snd st))) = n) \<and>
     (snd st = [] \<longrightarrow> fst st \<noteq> [] \<longrightarrow> Suc (fst (last (last (fst st)))) < n)"

lemma run_of_snoc: "run_of seg \<Longrightarrow> Suc (fst (last seg)) = n \<Longrightarrow> run_of (seg @ [(n, x)])"
proof -
  assume r: "run_of seg" and n: "Suc (fst (last seg)) = n"
  then have ne: "seg \<noteq> []" and idx: "map fst seg = [fst (hd seg)..<fst (hd seg) + length seg]"
    by (simp_all add: run_of_def)
  have "fst (last seg) = last (map fst seg)" using ne by (simp add: last_map)
  also have "\<dots> = fst (hd seg) + length seg - 1" using ne by (subst idx) (cases seg; simp)
  finally have "n = fst (hd seg) + length seg" using n ne by (cases seg) auto
  with ne idx show "run_of (seg @ [(n, x)])" by (simp add: run_of_def)
qed

lemma runs_upto_step:
  assumes "runs_upto n st"
  shows "runs_upto (Suc n) (seg_step Pair st (n, v))"
proof (cases "shown v")
  case None
  with assms show ?thesis
    by (cases st) (auto simp: runs_upto_def seg_step_def closed_runs_def split: if_splits)
next
  case (Some x)
  show ?thesis
  proof (cases st)
    case (Pair segs current)
    show ?thesis
    proof (cases "current = []")
      case True
      with assms Pair Some show ?thesis
        by (auto simp: runs_upto_def seg_step_def closed_runs_def runs_apart_def run_of_def
            successively_append_iff)
    next
      case False
      with assms Pair have "run_of current" "Suc (fst (last current)) = n"
        by (auto simp: runs_upto_def closed_runs_def runs_apart_def)
      then have "run_of (current @ [(n, x)])" by (rule run_of_snoc)
      with False assms Pair Some show ?thesis
        by (auto simp: runs_upto_def seg_step_def closed_runs_def runs_apart_def
            successively_append_iff)
    qed
  qed
qed

lemma enumerate_snoc: "enumerate n (xs @ [x]) = enumerate n xs @ [(n + length xs, x)]"
  by (simp add: enumerate_append_eq)

lemma runs_upto_all: "runs_upto (length vs) (foldl (seg_step Pair) ([], []) (enumerate 0 vs))"
  by (induction vs rule: rev_induct)
    (simp_all add: enumerate_snoc runs_upto_step, simp add: runs_upto_def runs_apart_def closed_runs_def)

lemma concat_seg_step:
  "concat (closed_runs (seg_step f st (n, v))) =
     concat (closed_runs st) @ (case shown v of Some x \<Rightarrow> [f n x] | None \<Rightarrow> [])"
  by (cases st) (auto simp: seg_step_def closed_runs_def split: option.splits)

lemma map_filter_snoc:
  "List.map_filter f (xs @ [x]) = List.map_filter f xs @ (case f x of Some y \<Rightarrow> [y] | None \<Rightarrow> [])"
  by (induction xs) (simp_all add: List.map_filter_def split: option.splits)

lemma concat_runs:
  "concat (closed_runs (foldl (seg_step Pair) ([], []) (enumerate 0 vs))) = indexed_samples vs"
  by (induction vs rule: rev_induct)
    (simp_all add: enumerate_snoc concat_seg_step indexed_samples_def map_filter_snoc
      split: option.splits, simp_all add: closed_runs_def List.map_filter_def)

lemma seg_step_tagged:
  "seg_step f (map (map (\<lambda>(i, x). f i x)) segs, map (\<lambda>(i, x). f i x) current) e =
     (let (s, c) = seg_step Pair (segs, current) e
      in (map (map (\<lambda>(i, x). f i x)) s, map (\<lambda>(i, x). f i x) c))"
  by (cases e) (simp add: seg_step_def split: option.splits)

lemma seg_fold_tagged:
  "foldl (seg_step f) ([], []) es =
     (let (s, c) = foldl (seg_step Pair) ([], []) es
      in (map (map (\<lambda>(i, x). f i x)) s, map (\<lambda>(i, x). f i x) c))"
proof (induction es rule: rev_induct)
  case (snoc e es)
  show ?case
    by (cases "foldl (seg_step Pair) ([], []) es") (simp add: snoc seg_step_tagged)
qed simp

lemma buildSegments_conv: "buildSegments vs f = closed_runs (foldl (seg_step f) ([], []) (enumerate 0 vs))"
  by (simp add: buildSegments_def closed_runs_def)

lemma segments_tagged: "buildSegments vs f = map (map (\<lambda>(i, x). f i x)) (buildSegments vs Pair)"
proof (cases "foldl (seg_step Pair) ([], []) (enumerate 0 vs)")
  case (Pair s c)
  then show ?thesis
    using seg_fold_tagged [of f "enumerate 0 vs"] by (simp add: buildSegments_conv closed_runs_def)
qed

text \<open>
  C21. The runs of a chart line are the maximal runs of finite samples: together they hold every
  finite sample once and in order, the samples of one run stand at consecutive indices, and
  between two runs at least one index is missing, so a gap is never bridged and a run is never
  split; each sample is drawn at its own index.
\<close>

theorem segments_are_maximal_runs:
  "let segs = buildSegments vs Pair
   in concat segs = indexed_samples vs \<and> runs_apart segs \<and>
      buildSegments vs toPt = map (map (\<lambda>(i, x). toPt i x)) segs"
proof -
  have "runs_apart (buildSegments vs Pair)"
    using runs_upto_all [of vs] by (simp add: runs_upto_def buildSegments_conv)
  then show ?thesis
    using concat_runs [of vs] segments_tagged [of vs toPt] by (simp add: Let_def buildSegments_conv)
qed

subsection \<open>Inside the frame\<close>

lemma fraction_unit:
  assumes "a \<le> q" "q \<le> b" "\<bar>a\<bar> \<le> of_int (2 ^ 51)" "\<bar>b\<bar> \<le> of_int (2 ^ 51)" "pl_lo p = Fin a" "pl_hi p = Fin b"
  shows "num_in 0 1 (num_div (num_sub (Fin q) (pl_lo p)) (value_span p))"
proof -
  obtain d s where "fl (q - a) = Fin d" "fl (b - a) = Fin s" "0 \<le> d" "d \<le> s"
    "s \<noteq> 0 \<Longrightarrow> num_in 0 1 (fl (d / s))"
    using ratio_in_unit [OF assms(1-4)] by blast
  with assms(5,6) show ?thesis by (cases "s = 0") (simp_all add: value_span_def num_sub_fl Let_def)
qed

text \<open>A measured cell of whole pixels.\<close>

definition cell :: "plot \<Rightarrow> int \<Rightarrow> int \<Rightarrow> bool" where
  "cell p w h \<longleftrightarrow> pl_width p = Fin (of_int w) \<and> pl_height p = Fin (of_int h) \<and>
     0 \<le> w \<and> w \<le> 2 ^ 40 \<and> 0 \<le> h \<and> h \<le> 2 ^ 40 \<and> pl_times p \<le> 2 ^ 40"

lemma plotW_cell:
  assumes "cell p w h"
  shows "plotW p = Fin (of_int (max 10 (w - 52)))"
proof -
  have "\<bar>w - 42\<bar> \<le> 2 ^ 53" "\<bar>w - 42 - 10\<bar> \<le> 2 ^ 53" using assms by (auto simp: cell_def)
  then show ?thesis
    using num_sub_int [of w 42] num_sub_int [of "w - 42" 10] num_max_int [of 10 "w - 52"] assms
    by (simp add: cell_def plotW_def MARGIN_left_def MARGIN_right_def)
qed

lemma plotH_cell:
  assumes "cell p w h"
  shows "plotH p = Fin (of_int (max 10 (h - 28)))"
proof -
  have "\<bar>h - 8\<bar> \<le> 2 ^ 53" "\<bar>h - 8 - 20\<bar> \<le> 2 ^ 53" using assms by (auto simp: cell_def)
  then show ?thesis
    using num_sub_int [of h 8] num_sub_int [of "h - 8" 20] num_max_int [of 10 "h - 28"] assms
    by (simp add: cell_def plotH_def MARGIN_top_def MARGIN_bottom_def)
qed

lemma spanCount_cell: "cell p w h \<Longrightarrow> spanCount p = Fin (of_int (max (int (pl_times p) - 1) 1))"
proof -
  assume c: "cell p w h"
  then have "num_of_nat (pl_times p) = Fin (of_int (int (pl_times p)))"
    using fl_of_nat [of "pl_times p"] by (simp add: cell_def num_of_nat_def)
  moreover have "\<bar>int (pl_times p) - 1\<bar> \<le> 2 ^ 53" using c by (auto simp: cell_def)
  ultimately show ?thesis
    using num_sub_int [of "int (pl_times p)" 1] num_max_int [of "int (pl_times p) - 1" 1]
    by (simp add: spanCount_def)
qed

lemma plot_y_frame:
  assumes "cell p w h" "num_in 0 1 (num_div (num_sub v (pl_lo p)) (value_span p))"
  shows "num_in 8 (of_int (8 + max 10 (h - 28))) (plot_y p v)"
proof -
  let ?H = "max 10 (h - 28)"
  have H: "0 \<le> ?H" "?H \<le> 2 ^ 40" using assms(1) by (auto simp: cell_def)
  have m: "num_in 0 (of_int ?H) (num_mul (num_div (num_sub v (pl_lo p)) (value_span p)) (Fin (of_int ?H)))"
    using H by (intro scaled_within [OF assms(2)]) simp_all
  have "num_add MARGIN_top (Fin (of_int ?H)) = Fin (of_int (8 + ?H))"
    using b64.rnd_int [of "8 + ?H"] H by (simp add: MARGIN_top_def)
  then show ?thesis
    using add_within(2) [OF m, of "8 + ?H"] H by (simp add: plot_y_def plotH_cell [OF assms(1)])
qed

lemma plot_x_frame:
  assumes "cell p w h" "i < pl_times p"
  shows "num_in 42 (of_int (42 + max 10 (w - 52))) (plot_x p (num_of_nat i))"
proof -
  let ?W = "max 10 (w - 52)" and ?c = "max (int (pl_times p) - 1) 1"
  have W: "0 \<le> ?W" "?W \<le> 2 ^ 40" and n: "i \<le> 2 ^ 53" using assms by (auto simp: cell_def)
  have le: "int i \<le> ?c" "0 < ?c" using assms(2) by auto
  have "num_of_nat i = Fin (of_int (int i))" using fl_of_nat [OF n] by (simp add: num_of_nat_def)
  moreover have "num_in 0 1 (fl (of_int (int i) / of_int ?c))"
    using le by (intro fl_unit) (simp_all only: divide_le_eq_1 of_int_le_iff of_int_0_less_iff, simp_all)
  ultimately have "num_in 0 1 (num_div (num_of_nat i) (spanCount p))"
    using le by (simp add: spanCount_cell [OF assms(1)])
  then have "num_in 0 (of_int ?W) (num_mul (num_div (num_of_nat i) (spanCount p)) (plotW p))"
    using scaled_within [of _ ?W] W by (simp add: plotW_cell [OF assms(1)])
  then show ?thesis
    using add_within(1) [of ?W _ 42] W by (simp add: plot_x_def MARGIN_left_def)
qed

text \<open>The domain contains what it is computed from.\<close>

definition inside_range :: "(jsnum \<times> jsnum) option \<Rightarrow> jsnum \<Rightarrow> bool" where
  "inside_range rg v \<longleftrightarrow> (case rg of Some (a, b) \<Rightarrow> num_le a v \<and> num_le v b | None \<Rightarrow> True)"

lemma half_way:
  assumes "drawable v"
  shows "plain_range (num_sub v (fl (1 / 2)), num_add v (fl (1 / 2)))"
    "num_le (num_sub v (fl (1 / 2))) v" "num_le v (num_add v (fl (1 / 2)))"
proof -
  obtain q where q: "v = Fin q" "fl q = Fin q" "\<bar>q\<bar> \<le> of_int (2 ^ 50)" using drawableD [OF assms] by blast
  obtain e where e: "fl (1 / 2) = Fin e" "0 \<le> e" "e \<le> 1"
    using fl_unit [of "1 / 2"] by (auto simp: num_in_iff)
  have b: "- (2 ^ 51) \<le> q - e" "q + e \<le> 2 ^ 51" "q - e \<le> 2 ^ 51" "- (2 ^ 51) \<le> q + e"
    using q(3) e by (simp_all add: abs_le_iff)
  have "num_in (of_int (- (2 ^ 51))) (of_int (2 ^ 51)) (fl (q - e))" using b by (intro fl_in) simp_all
  moreover have "num_in (of_int (- (2 ^ 51))) (of_int (2 ^ 51)) (fl (q + e))" using b by (intro fl_in) simp_all
  ultimately show "plain_range (num_sub v (fl (1 / 2)), num_add v (fl (1 / 2)))"
    by (auto simp: plain_range_def num_in_iff q e num_sub_fl abs_le_iff)
  show "num_le (num_sub v (fl (1 / 2))) v" "num_le v (num_add v (fl (1 / 2)))"
    using fl_mono [of "q - e" q] fl_mono [of q "q + e"] e q by (simp_all add: num_sub_fl)
qed

text \<open>The ends before a flat domain is widened.\<close>

definition raw_lo :: "jsnum list \<Rightarrow> jsnum option \<Rightarrow> jsnum" where
  "raw_lo vs baseline = (case baseline of Some b \<Rightarrow> num_min (foldl num_min PInf vs) b | None \<Rightarrow> foldl num_min PInf vs)"

definition raw_hi :: "jsnum list \<Rightarrow> jsnum option \<Rightarrow> jsnum" where
  "raw_hi vs baseline = (case baseline of Some b \<Rightarrow> num_max (foldl num_max NInf vs) b | None \<Rightarrow> foldl num_max NInf vs)"

lemma extremes:
  assumes "vs \<noteq> []" "list_all drawable vs" "pred_option drawable baseline"
  shows "drawable (raw_lo vs baseline)" "drawable (raw_hi vs baseline)"
    "v \<in> set vs \<Longrightarrow> num_le (raw_lo vs baseline) v \<and> num_le v (raw_hi vs baseline)"
proof -
  let ?l = "foldl num_min PInf vs" and ?h = "foldl num_max NInf vs"
  note le = fold_extremes(3,4) [OF assms(1,2)] and d = fold_extremes(1,2) [OF assms(1,2)]
  from d show "drawable (raw_lo vs baseline)" "drawable (raw_hi vs baseline)"
    using assms(3) by (auto simp: raw_lo_def raw_hi_def num_min_def num_max_def drawable_def split: option.splits)
  assume v: "v \<in> set vs"
  show "num_le (raw_lo vs baseline) v \<and> num_le v (raw_hi vs baseline)"
  proof (cases baseline)
    case None
    with le v show ?thesis by (simp add: raw_lo_def raw_hi_def)
  next
    case (Some b)
    then have nb: "b \<noteq> NaN" using assms(3) by (auto simp: drawable_def)
    have "?l \<noteq> NaN" "?h \<noteq> NaN" using d by (auto simp: drawable_def)
    then have "num_le (num_min ?l b) ?l" "num_le ?h (num_max ?h b)"
      using nb num_min_le [of ?l b] num_max_ge [of ?h b] by simp_all
    with le v Some show ?thesis
      using num_le_trans [of "num_min ?l b" ?l v] num_le_trans [of v ?h "num_max ?h b"]
      by (simp add: raw_lo_def raw_hi_def)
  qed
qed

lemma domain_holds_samples:
  assumes dom: "chart_domain series yDomain baseline = Some (lo, hi)"
    and vals: "list_all drawable (finite_samples series)" "list_all (inside_range yDomain) (finite_samples series)"
    and base: "pred_option drawable baseline"
    and range: "pred_option (\<lambda>(a, b). drawable a \<and> drawable b \<and> a \<noteq> b) yDomain"
    and v: "v \<in> set (finite_samples series)"
  shows "plain_range (lo, hi) \<and> num_le lo v \<and> num_le v hi"
proof (cases yDomain)
  case (Some d)
  with dom vals range v show ?thesis
    by (cases d) (auto simp: chart_domain_def Let_def inside_range_def list_all_iff num_eq_def drawable_plain
        split: if_splits option.splits)
next
  case None
  let ?vs = "finite_samples series"
  have ne: "?vs \<noteq> []" using v by auto
  note ext = extremes [OF ne vals(1) base]
  have conv: "chart_domain series None baseline =
      (if length ?vs < 2 then None
       else if num_eq (raw_lo ?vs baseline) (raw_hi ?vs baseline)
       then Some (num_sub (raw_lo ?vs baseline) (fl (1 / 2)), num_add (raw_hi ?vs baseline) (fl (1 / 2)))
       else Some (raw_lo ?vs baseline, raw_hi ?vs baseline))"
    by (cases baseline) (simp_all add: chart_domain_def raw_lo_def raw_hi_def Let_def)
  show ?thesis
  proof (cases "num_eq (raw_lo ?vs baseline) (raw_hi ?vs baseline)")
    case True
    then have "v = raw_lo ?vs baseline"
      using ext(3) [OF v] num_le_antisym by (simp add: num_eq_def)
    then show ?thesis
      using True dom half_way [OF ext(1)] conv None by (auto simp: num_eq_def split: if_splits)
  next
    case False
    then show ?thesis using dom ext conv None v drawable_plain by (auto split: if_splits)
  qed
qed

definition drawn_points :: "plot \<Rightarrow> ChartSeries list \<Rightarrow> (jsnum \<times> jsnum) list" where
  "drawn_points p series = concat (concat (map (\<lambda>s. buildSegments (cs_values s) (toPoint p)) series))"

lemma concat_segments: "concat (buildSegments vs f) = map (\<lambda>(i, x). f i x) (indexed_samples vs)"
proof -
  have "concat (buildSegments vs f) = map (\<lambda>(i, x). f i x) (concat (buildSegments vs Pair))"
    by (subst segments_tagged) (simp add: map_concat)
  then show ?thesis using concat_runs [of vs] by (simp add: buildSegments_conv)
qed

lemma indexed_sample: "(i, x) \<in> set (indexed_samples vs) \<Longrightarrow> i < length vs \<and> shown (vs ! i) = Some x"
  by (auto simp: indexed_samples_def set_map_filter_iff in_set_enumerate_eq)

lemma sample_drawn_inside:
  assumes "cell p w h" "(x, y) \<in> set (drawn_points p series)"
    and "\<forall>s \<in> set series. length (cs_values s) = pl_times p"
    and "list_all drawable (finite_samples series)"
    and "\<forall>v \<in> set (finite_samples series). plain_range (pl_lo p, pl_hi p) \<and> num_le (pl_lo p) v \<and> num_le v (pl_hi p)"
  shows "num_in 42 (of_int (42 + max 10 (w - 52))) x \<and> num_in 8 (of_int (8 + max 10 (h - 28))) y"
proof -
  obtain s where s: "s \<in> set series" "(x, y) \<in> set (concat (buildSegments (cs_values s) (toPoint p)))"
    using assms(2) by (auto simp: drawn_points_def)
  then obtain i v where v: "(i, v) \<in> set (indexed_samples (cs_values s))" "(x, y) = toPoint p i v"
    by (auto simp: concat_segments)
  note iv = indexed_sample [OF v(1)]
  then have "i < pl_times p" using assms(3) s(1) by simp
  moreover have m: "v \<in> set (finite_samples series)"
    using s(1) iv by (auto simp: finite_samples_def set_map_filter_iff intro!: bexI [of _ s] bexI [of _ "cs_values s ! i"])
  then obtain q where q: "v = Fin q" using assms(4) drawableD by (auto simp: list_all_iff)
  obtain a b where ab: "pl_lo p = Fin a" "pl_hi p = Fin b" "\<bar>a\<bar> \<le> of_int (2 ^ 51)" "\<bar>b\<bar> \<le> of_int (2 ^ 51)"
    "a \<le> q" "q \<le> b"
    using assms(5) m q by (auto simp: plain_range_def)
  have "num_in 0 1 (num_div (num_sub v (pl_lo p)) (value_span p))"
    unfolding q by (rule fraction_unit [OF ab(5,6,3,4,1,2)])
  ultimately show ?thesis
    using plot_x_frame [OF assms(1)] plot_y_frame [OF assms(1)] v(2) by (simp add: toPoint_def)
qed

lemma five_quarters: "fl (5 / 4) = Fin (5 / 4)" "drawable (Fin (5 / 4))"
proof -
  show "fl (5 / 4) = Fin (5 / 4)"
    using fl_binade [of 0 "5 / 4" "5 * 2 ^ 50"] by (simp add: rounds_to_def power_int_minus field_simps)
  then show "drawable (Fin (5 / 4))" by (simp add: drawable_def)
qed

lemma chart_cases:
  assumes "chart \<in> set charts"
  shows "\<forall>s \<in> set (df_series chart samples book). length (cs_values s) = length samples"
    "pred_option (\<lambda>(a, b). drawable a \<and> drawable b \<and> a \<noteq> b) (df_yDomain chart)"
    "pred_option drawable (df_baseline chart)"
  using assms drawable_small [of 0] drawable_small [of 1]
  by (auto simp: charts_def edge_chart_def paths_chart_def churn_chart_def policy_chart_def exits_chart_def
      stops_chart_def line_of_def five_quarters)

text \<open>
  C22. On the long-tail page every sample of every chart is drawn inside the chart's frame,
  axes included, for a cell of whole pixels: without a declared domain whatever moderate finite
  readings the samples hold, with one whenever the readings lie in it.
\<close>

theorem chart_points_in_frame:
  assumes "chart \<in> set charts"
    and "chart_domain (df_series chart samples book) (df_yDomain chart) (df_baseline chart) = Some (lo, hi)"
    and "list_all (\<lambda>v. drawable v \<and> inside_range (df_yDomain chart) v)
           (finite_samples (df_series chart samples book))"
    and "0 \<le> w" "w \<le> 2 ^ 40" "0 \<le> h" "h \<le> 2 ^ 40" "length samples \<le> 2 ^ 40"
  shows "let p = \<lparr>pl_lo = lo, pl_hi = hi, pl_width = Fin (of_int w), pl_height = Fin (of_int h),
                  pl_times = length samples\<rparr>
    in list_all (\<lambda>(x, y). num_in 42 (of_int (42 + max 10 (w - 52))) x \<and>
                          num_in 8 (of_int (8 + max 10 (h - 28))) y)
         (drawn_points p (df_series chart samples book))"
proof -
  let ?p = "\<lparr>pl_lo = lo, pl_hi = hi, pl_width = Fin (of_int w), pl_height = Fin (of_int h),
             pl_times = length samples\<rparr>"
  have "cell ?p w h" using assms(4-) by (simp add: cell_def)
  moreover have vals: "list_all drawable (finite_samples (df_series chart samples book))"
    "list_all (inside_range (df_yDomain chart)) (finite_samples (df_series chart samples book))"
    using assms(3) by (simp_all add: list_all_iff)
  moreover note cc = chart_cases [OF assms(1)]
  ultimately show ?thesis
    using sample_drawn_inside [of ?p w h _ _ "df_series chart samples book"]
      domain_holds_samples [OF assms(2) vals cc(3) cc(2)]
    by (fastforce simp: list_all_iff Let_def)
qed

definition hit_sample :: "jsnum \<Rightarrow> LongtailSample" where
  "hit_sample r = demo_sample (Fin 0) \<lparr>ls_policy := \<lparr>pl_checks = Fin 1, pl_hits = r, pl_hitRate = Some r\<rparr>\<rparr>"

lemma chart_points_in_frame_witness:
  "list_all (\<lambda>(x, y). num_in 42 (of_int (42 + max 10 (400 - 52))) x \<and> num_in 8 (of_int (8 + max 10 (200 - 28))) y)
     (drawn_points \<lparr>pl_lo = Fin 0, pl_hi = Fin 1, pl_width = Fin (of_int 400), pl_height = Fin (of_int 200),
        pl_times = length [hit_sample (Fin 0), hit_sample (Fin 1)]\<rparr>
       (df_series policy_chart [hit_sample (Fin 0), hit_sample (Fin 1)] Paper))"
proof -
  let ?ss = "[hit_sample (Fin 0), hit_sample (Fin 1)]"
  have fin: "finite_samples (df_series policy_chart ?ss Paper) = [Fin 0, Fin 1]"
    by (simp add: finite_samples_def policy_chart_def line_of_def hit_sample_def map_filter_Cons shown_def
        List.map_filter_def)
  have dom: "chart_domain (df_series policy_chart ?ss Paper) (df_yDomain policy_chart) (df_baseline policy_chart) =
      Some (Fin 0, Fin 1)"
    unfolding chart_domain_def fin by (simp add: policy_chart_def num_eq_def)
  have vals: "list_all (\<lambda>v. drawable v \<and> inside_range (df_yDomain policy_chart) v)
      (finite_samples (df_series policy_chart ?ss Paper))"
    unfolding fin using drawable_small [of 0] drawable_small [of 1]
    by (simp add: policy_chart_def inside_range_def)
  have "policy_chart \<in> set charts" by (simp add: charts_def)
  from chart_points_in_frame [OF this dom vals, of 400 200] show ?thesis by (simp add: Let_def)
qed

end
