(* ===== verification/LatentCanvas.thy ===== *)
theory LatentCanvas
  imports Xray Gauges Pixels
begin

text \<open>
  The canvases of the x-ray page: the drawing routines of \<^verbatim>\<open>components/terminal/canvas.ts\<close> and
  \<^verbatim>\<open>xray-draw.ts\<close>, and the latent scatter of \<^verbatim>\<open>xray-latent.tsx\<close> with the state its module keeps (the
  points, the fingerprint and the geometry last drawn). A canvas is its client size, its backing
  store, its scale and the commands issued since the store was last allocated: assigning
  \<^verbatim>\<open>width\<close> or \<^verbatim>\<open>height\<close> erases it. \<^verbatim>\<open>localeCompare\<close> is the parameter \<open>lc\<close>, \<^verbatim>\<open>Math.hypot\<close> is \<open>hyp\<close>,
  \<^verbatim>\<open>JSON.parse\<close> is \<open>parse\<close>; device pixel ratios are finite.
\<close>

subsection \<open>Canvases\<close>

datatype terminal_color =
  ColBackground | ColSurface | ColLine | ColLineStrong | ColForeground | ColMuted | ColAmber | ColCyan
| ColGreen | ColRed

primrec TERMINAL_COLORS :: "terminal_color \<Rightarrow> string" where
  "TERMINAL_COLORS ColBackground = ''#0e0c0a''"
| "TERMINAL_COLORS ColSurface = ''#17140f''"
| "TERMINAL_COLORS ColLine = ''#2b251e''"
| "TERMINAL_COLORS ColLineStrong = ''#3a342b''"
| "TERMINAL_COLORS ColForeground = ''#f4efe5''"
| "TERMINAL_COLORS ColMuted = ''#938a7e''"
| "TERMINAL_COLORS ColAmber = ''#e8a33d''"
| "TERMINAL_COLORS ColCyan = ''#7fbacb''"
| "TERMINAL_COLORS ColGreen = ''#9cc06e''"
| "TERMINAL_COLORS ColRed = ''#d5786a''"

datatype canvas_op =
  ClearRect jsnum jsnum jsnum jsnum
| FillRect jsnum jsnum jsnum jsnum
| FillStyle string
| StrokeStyle string
| LineWidth jsnum
| LineDash "jsnum list"
| BeginPath
| ClosePath
| MoveTo jsnum jsnum
| LineTo jsnum jsnum
| Arc jsnum jsnum jsnum jsnum jsnum
| StrokePath
| FillPath
| Font string
| FillText string jsnum jsnum
| GlobalAlpha jsnum
| ShadowBlur jsnum
| ShadowColor string

record canvas =
  cv_client :: "nat \<times> nat"
  cv_size :: "int \<times> int"
  cv_scale :: jsnum
  cv_has2d :: bool
  cv_ops :: "canvas_op list"

text \<open>\<^verbatim>\<open>Math.floor(length * ratio)\<close> backing pixels.\<close>

definition device_pixels :: "nat \<Rightarrow> jsnum \<Rightarrow> int" where
  "device_pixels n ratio = (case num_mul (num_of_nat n) ratio of Fin q \<Rightarrow> \<lfloor>q\<rfloor> | _ \<Rightarrow> 0)"

definition allocate :: "int \<times> int \<Rightarrow> canvas \<Rightarrow> canvas" where
  "allocate s c = c\<lparr>cv_size := s, cv_scale := Fin 1, cv_ops := []\<rparr>"

definition pixel_ratio :: "jsnum \<Rightarrow> jsnum" where
  "pixel_ratio ratio = (if ratio = Fin 0 \<or> ratio = NaN then Fin 1 else ratio)"

definition backing :: "jsnum \<Rightarrow> nat \<times> nat \<Rightarrow> int \<times> int" where
  "backing ratio client =
     (device_pixels (max 1 (fst client)) (pixel_ratio ratio),
      device_pixels (max 1 (snd client)) (pixel_ratio ratio))"

text \<open>Both resizers return the canvas and whether there is a context to draw with.\<close>

definition resizeCanvas :: "jsnum \<Rightarrow> canvas \<Rightarrow> canvas \<times> bool" where
  "resizeCanvas ratio c =
     (let s = backing ratio (cv_client c);
          c = (if cv_size c \<noteq> s then allocate s c else c)
      in if cv_has2d c then (c\<lparr>cv_scale := pixel_ratio ratio\<rparr>, True) else (c, False))"

definition resizeMockupCanvas :: "canvas \<Rightarrow> canvas \<times> bool" where
  "resizeMockupCanvas c =
     (let (w, h) = cv_client c
      in if w = 0 \<or> h = 0 then (c, False)
         else let c = (if fst (cv_size c) \<noteq> int w then allocate (int w, snd (cv_size c)) c else c);
                  c = (if snd (cv_size c) \<noteq> int h then allocate (fst (cv_size c), int h) c else c)
              in if cv_has2d c then (c\<lparr>cv_scale := Fin 1\<rparr>, True) else (c, False))"

definition draw :: "canvas_op list \<Rightarrow> canvas \<Rightarrow> canvas" where
  "draw ops c = c\<lparr>cv_ops := cv_ops c @ ops\<rparr>"

definition clearCanvas :: "jsnum \<Rightarrow> jsnum \<Rightarrow> canvas_op list" where
  "clearCanvas w h =
     [ClearRect (Fin 0) (Fin 0) w h, FillStyle (TERMINAL_COLORS ColBackground),
      FillRect (Fin 0) (Fin 0) w h]"

subsection \<open>Colours\<close>

definition canvas_clamp01 :: "jsnum \<Rightarrow> jsnum" where
  "canvas_clamp01 v = num_min (Fin 1) (num_max (Fin 0) v)"

definition mix :: "string \<Rightarrow> string \<Rightarrow> jsnum \<Rightarrow> string" where
  "mix left right amount =
     (let (a0, a1, a2) = hexToRgb left; (b0, b1, b2) = hexToRgb right;
          channel = (\<lambda>a b. num_text (num_round (lerp a b amount)))
      in ''rgb('' @ channel a0 b0 @ '','' @ channel a1 b1 @ '','' @ channel a2 b2 @ '')'')"

definition HEAT_LOW :: string where "HEAT_LOW = ''#1b2232''"

definition heatColor :: "jsnum \<Rightarrow> string" where
  "heatColor v =
     (let n = canvas_clamp01 v
      in if num_lt n (fl (45 / 100))
         then mix (TERMINAL_COLORS ColBackground) HEAT_LOW (num_div n (fl (45 / 100)))
         else if num_lt n (fl (7 / 10))
         then mix HEAT_LOW (TERMINAL_COLORS ColCyan) (num_div (num_sub n (fl (45 / 100))) (fl (25 / 100)))
         else if num_lt n (fl (88 / 100))
         then mix (TERMINAL_COLORS ColCyan) (TERMINAL_COLORS ColAmber)
                (num_div (num_sub n (fl (7 / 10))) (fl (18 / 100)))
         else mix (TERMINAL_COLORS ColAmber) (TERMINAL_COLORS ColForeground)
                (num_div (num_sub n (fl (88 / 100))) (fl (12 / 100))))"

subsection \<open>Drawing routines\<close>

definition segment_ops :: "jsnum \<times> jsnum \<Rightarrow> jsnum \<times> jsnum \<Rightarrow> canvas_op list" where
  "segment_ops a b = [BeginPath, MoveTo (fst a) (snd a), LineTo (fst b) (snd b), StrokePath]"

text \<open>\<^verbatim>\<open>padding + index * ((length - padding * 2) / 4)\<close>\<close>

definition quarter :: "jsnum \<Rightarrow> jsnum \<Rightarrow> nat \<Rightarrow> jsnum" where
  "quarter padding extent index =
     num_add padding (num_mul (num_of_nat index)
       (num_div (num_sub extent (num_mul padding (Fin 2))) (Fin 4)))"

definition drawGrid :: "jsnum \<Rightarrow> jsnum \<Rightarrow> jsnum \<Rightarrow> canvas_op list" where
  "drawGrid w h padding =
     [StrokeStyle (TERMINAL_COLORS ColLine), LineWidth (Fin 1)] @
     concat (map (\<lambda>index. let y = quarter padding h index
                          in segment_ops (padding, y) (num_sub w padding, y)) [0..<5])"

definition drawPolyline :: "(jsnum \<times> jsnum) list \<Rightarrow> string \<Rightarrow> bool \<Rightarrow> canvas_op list" where
  "drawPolyline points colour dashed =
     (case points of
        p0 # p1 # rest \<Rightarrow>
          [StrokeStyle colour, LineWidth (fl (18 / 10)), LineDash (if dashed then [Fin 4, Fin 3] else []),
           BeginPath, MoveTo (fst p0) (snd p0)] @
          map (\<lambda>p. LineTo (fst p) (snd p)) (p1 # rest) @ [StrokePath, LineDash []]
      | _ \<Rightarrow> [])"

definition matrixExtent :: "jsnum list list \<Rightarrow> jsnum \<times> jsnum" where
  "matrixExtent matrix =
     (let vs = filter is_finite (concat matrix);
          lo = foldl num_min PInf vs; hi = foldl num_max NInf vs
      in if \<not> is_finite lo \<or> \<not> is_finite hi \<or> num_le hi lo then (Fin 0, Fin 1) else (lo, hi))"

definition matrix_cell ::
    "jsnum list list \<Rightarrow> jsnum \<times> jsnum \<Rightarrow> bool \<Rightarrow> jsnum \<times> jsnum \<Rightarrow> nat \<Rightarrow> nat \<Rightarrow> canvas_op list" where
  "matrix_cell matrix extent contour cell_size r c =
     (let (lo, hi) = extent;
          v = (case nth_opt matrix r of
                 Some row \<Rightarrow> (case nth_opt row c of Some x \<Rightarrow> x | None \<Rightarrow> lo)
               | None \<Rightarrow> lo);
          n = num_div (num_sub v lo) (num_sub hi lo);
          n = (if contour then num_mul (num_floor (num_div n (fl (12 / 100)))) (fl (12 / 100)) else n)
      in [FillStyle (heatColor n),
          FillRect (num_mul (num_of_nat c) (fst cell_size)) (num_mul (num_of_nat r) (snd cell_size))
            (num_add (fst cell_size) (Fin 1)) (num_add (snd cell_size) (Fin 1))])"

definition drawMatrix :: "jsnum \<Rightarrow> jsnum \<Rightarrow> jsnum list list \<Rightarrow> bool \<Rightarrow> canvas_op list" where
  "drawMatrix w h matrix contour =
     clearCanvas w h @
     (case matrix of
        [] \<Rightarrow> drawGrid w h (Fin 14)
      | first # _ \<Rightarrow>
          if first = [] then drawGrid w h (Fin 14)
          else let rows = length matrix; columns = length first;
                   cell_size = (num_div w (num_of_nat columns), num_div h (num_of_nat rows))
               in concat (map (\<lambda>r. concat (map (\<lambda>c.
                    matrix_cell matrix (matrixExtent matrix) contour cell_size r c) [0..<columns]))
                    [0..<rows]))"

subsection \<open>The latent scatter's drawing\<close>

definition drawXrayWaiting :: "jsnum \<Rightarrow> jsnum \<Rightarrow> string \<Rightarrow> canvas_op list" where
  "drawXrayWaiting w h message =
     clearCanvas w h @ drawGrid w h (Fin 14) @
     [FillStyle (TERMINAL_COLORS ColMuted), Font ''11px JetBrains Mono, monospace'',
      FillText message (Fin 18) (num_max (Fin 52) (num_mul h (fl (34 / 100))))]"

definition category_hash :: "32 word \<Rightarrow> char \<Rightarrow> 32 word" where
  "category_hash hash c = hash * 31 + of_char c"

definition category_palette :: "string list" where
  "category_palette =
     [TERMINAL_COLORS ColCyan, TERMINAL_COLORS ColGreen, TERMINAL_COLORS ColRed, TERMINAL_COLORS ColAmber,
      ''#9d7cd8'', ''#7aa2f7'']"

definition categoryColor :: "string \<Rightarrow> bool \<Rightarrow> nat \<Rightarrow> string" where
  "categoryColor category focus index =
     (let normalized = lower category; has = list_ex (includes_str normalized)
      in if focus then TERMINAL_COLORS ColAmber
         else if has [''stress'', ''turbulent'', ''flush'', ''dump''] then TERMINAL_COLORS ColRed
         else if has [''flow'', ''laminar'', ''trend'', ''lift''] then TERMINAL_COLORS ColGreen
         else if has [''coupling'', ''equilibrium'', ''coil'', ''drive''] then TERMINAL_COLORS ColCyan
         else if has [''pump'', ''vol'', ''scarcity''] then TERMINAL_COLORS ColAmber
         else category_palette !
                (unat (foldl category_hash (of_nat index) normalized) mod length category_palette))"

definition latentAxis ::
    "LatentPoint list \<Rightarrow> (LatentPoint \<Rightarrow> jsnum) \<Rightarrow> string \<Rightarrow> DomainError + (jsnum \<Rightarrow> jsnum)" where
  "latentAxis points coord key =
     (case requirePositiveLength (num_of_nat (length points)) (''latentAxis.'' @ key) of
        Inl e \<Rightarrow> Inl e
      | Inr _ \<Rightarrow>
          (let vs = map coord points; lo = foldl num_min PInf vs; extent = num_sub (foldl num_max NInf vs) lo
           in Inr (if \<not> is_finite lo \<or> \<not> is_finite extent \<or> num_le extent (Fin 0) then (\<lambda>_. fl (1 / 2))
                   else (\<lambda>v. num_div (num_sub v lo) extent))))"

definition PAD :: jsnum where "PAD = Fin 28"

text \<open>The place of one carrier, given the projections of both axes.\<close>

definition screen_of ::
    "(jsnum \<Rightarrow> jsnum) \<Rightarrow> (jsnum \<Rightarrow> jsnum) \<Rightarrow> jsnum \<Rightarrow> jsnum \<Rightarrow> LatentPoint \<Rightarrow> jsnum \<times> jsnum" where
  "screen_of px py w h p =
     (num_add PAD (num_mul (px (lp_x p)) (num_sub w (num_mul PAD (Fin 2)))),
      num_sub (num_sub h PAD) (num_mul (py (lp_y p)) (num_sub h (num_mul PAD (Fin 2)))))"

definition latentPointScreen ::
    "LatentPoint \<Rightarrow> LatentPoint list \<Rightarrow> jsnum \<Rightarrow> jsnum \<Rightarrow> DomainError + (jsnum \<times> jsnum)" where
  "latentPointScreen p points w h =
     (case latentAxis points lp_x ''x'' of
        Inl e \<Rightarrow> Inl e
      | Inr px \<Rightarrow>
          (case latentAxis points lp_y ''y'' of
             Inl e \<Rightarrow> Inl e
           | Inr py \<Rightarrow> Inr (screen_of px py w h p)))"

definition full_turn :: jsnum where "full_turn = Fin (884279719003555 / 140737488355328)"

definition point_ops :: "string \<Rightarrow> nat \<Rightarrow> LatentPoint \<Rightarrow> jsnum \<times> jsnum \<Rightarrow> canvas_op list" where
  "point_ops focus_symbol index p xy =
     (let focus = (lp_symbol p = focus_symbol); (x, y) = xy;
          colour = categoryColor (lp_category p) focus index
      in [FillStyle colour, GlobalAlpha (if focus then Fin 1 else fl (65 / 100)),
          ShadowBlur (if focus then Fin 14 else Fin 0), ShadowColor colour, BeginPath,
          Arc x y (if focus then Fin 6 else fl (35 / 10)) (Fin 0) full_turn, FillPath,
          ShadowBlur (Fin 0), GlobalAlpha (Fin 1)] @
         (if focus
          then [StrokeStyle (TERMINAL_COLORS ColAmber), LineWidth (fl (14 / 10)), BeginPath,
                Arc x y (Fin 11) (Fin 0) full_turn, StrokePath,
                FillStyle (TERMINAL_COLORS ColForeground), Font ''10px JetBrains Mono, monospace'',
                FillText (hd (split_on CHR ''/'' (lp_symbol p))) (num_add x (Fin 15))
                  (num_add y (fl (35 / 10)))]
          else []))"

definition latent_grid :: "jsnum \<Rightarrow> jsnum \<Rightarrow> canvas_op list" where
  "latent_grid w h =
     [StrokeStyle (TERMINAL_COLORS ColLine), LineWidth (Fin 1)] @
     concat (map (\<lambda>index.
        segment_ops (quarter PAD w index, PAD) (quarter PAD w index, num_sub h PAD) @
        segment_ops (PAD, quarter PAD h index) (num_sub w PAD, quarter PAD h index)) [0..<5])"

definition latent_drawing ::
    "LatentPoint list \<Rightarrow> string \<Rightarrow> jsnum \<Rightarrow> jsnum \<Rightarrow> DomainError + canvas_op list" where
  "latent_drawing points focus_symbol w h =
     (case latentAxis points lp_x ''x'' of
        Inl e \<Rightarrow> Inl e
      | Inr px \<Rightarrow>
          (case latentAxis points lp_y ''y'' of
             Inl e \<Rightarrow> Inl e
           | Inr py \<Rightarrow>
               Inr (clearCanvas w h @ latent_grid w h @
                    concat (map (\<lambda>(index, p). point_ops focus_symbol index p (screen_of px py w h p))
                      (enumerate 0 points)))))"

subsection \<open>The panel\<close>

record latent_panel =
  pn_canvas :: "canvas option"
  pn_points :: "LatentPoint list"
  pn_fingerprint :: string
  pn_geometry :: string

definition retainedLatentPoints :: "(string \<Rightarrow> string \<Rightarrow> int) \<Rightarrow> latent_panel \<Rightarrow> LatentPoint list" where
  "retainedLatentPoints lc pn = sort_by (\<lambda>a b. lc (lp_symbol a) (lp_symbol b) \<le> 0) (pn_points pn)"

definition latentKey :: "LatentPoint \<Rightarrow> string" where
  "latentKey p =
     lp_symbol p @ ''|'' @ to_fixed 6 (lp_x p) @ ''|'' @ to_fixed 6 (lp_y p) @ ''|'' @ lp_category p"

definition latentSignature :: "LatentPoint list \<Rightarrow> string \<Rightarrow> string" where
  "latentSignature points focus_symbol = focus_symbol @ ''::'' @ join_with '';'' (map latentKey points)"

definition geometry_text :: "nat \<times> nat \<Rightarrow> string" where
  "geometry_text client = digits_of (int (fst client)) @ ''x'' @ digits_of (int (snd client))"

text \<open>The frames a value stands for: an array, one frame, or none.\<close>

datatype paint_value = Nothing | OneFrame carrier | Frames "carrier list"

primrec frames_of :: "paint_value \<Rightarrow> carrier list" where
  "frames_of Nothing = []"
| "frames_of (OneFrame f) = [f]"
| "frames_of (Frames fs) = fs"

definition take_points :: "LatentPoint list \<Rightarrow> latent_panel \<Rightarrow> latent_panel" where
  "take_points newPoints pn =
     (if newPoints = [] then pn
      else pn\<lparr>pn_points :=
             filter (\<lambda>p. lp_symbol p \<notin> set (map lp_symbol newPoints)) (pn_points pn) @ newPoints\<rparr>)"

text \<open>Drawing on the panel, once the canvas has been resized and the points taken.\<close>

definition latent_paint ::
    "(string \<Rightarrow> string \<Rightarrow> int) \<Rightarrow> string \<Rightarrow> canvas \<Rightarrow> latent_panel \<Rightarrow> DomainError + latent_panel" where
  "latent_paint lc focus_symbol c pn =
     (let points = retainedLatentPoints lc pn;
          w = num_of_nat (fst (cv_client c)); h = num_of_nat (snd (cv_client c));
          geometry = geometry_text (cv_client c);
          fingerprint = latentSignature points focus_symbol
      in if points = []
         then Inr (pn\<lparr>pn_fingerprint := [], pn_geometry := geometry,
                      pn_canvas := Some (draw (drawXrayWaiting w h ''waiting for latent carriers'') c)\<rparr>)
         else if fingerprint = pn_fingerprint pn \<and> geometry = pn_geometry pn
         then Inr (pn\<lparr>pn_canvas := Some c\<rparr>)
         else map_sum (\<lambda>e. e)
                (\<lambda>ops. pn\<lparr>pn_fingerprint := fingerprint, pn_geometry := geometry,
                          pn_canvas := Some (draw ops c)\<rparr>)
                (latent_drawing points focus_symbol w h))"

definition paintXrayLatent ::
    "(string \<Rightarrow> string \<Rightarrow> int) \<Rightarrow> (bytes \<Rightarrow> jsval option) \<Rightarrow> jsnum \<Rightarrow> paint_value \<Rightarrow> string \<Rightarrow> latent_panel \<Rightarrow>
     DomainError + latent_panel" where
  "paintXrayLatent lc parse ratio val focus_symbol pn =
     (case pn_canvas pn of
        None \<Rightarrow> Inr pn
      | Some c \<Rightarrow>
          (case resizeCanvas ratio c of
             (c, ok) \<Rightarrow>
               if \<not> ok then Inr (pn\<lparr>pn_canvas := Some c\<rparr>)
               else latent_paint lc focus_symbol c
                      (take_points (latentPointsFromFrames parse (frames_of val)) pn)))"

text \<open>A click focuses the nearest carrier within 14 pixels; the position is relative to the canvas.\<close>

definition click_step ::
    "(jsnum \<Rightarrow> jsnum \<Rightarrow> jsnum) \<Rightarrow> (LatentPoint \<Rightarrow> jsnum \<times> jsnum) \<Rightarrow> jsnum \<times> jsnum \<Rightarrow>
     LatentPoint option \<times> jsnum \<Rightarrow> LatentPoint \<Rightarrow> LatentPoint option \<times> jsnum" where
  "click_step hyp place click best p =
     (let (x, y) = place p; d = hyp (num_sub x (fst click)) (num_sub y (snd click))
      in if num_lt d (snd best) \<and> num_le d (Fin 14) then (Some p, d) else best)"

definition latent_click ::
    "(string \<Rightarrow> string \<Rightarrow> int) \<Rightarrow> (jsnum \<Rightarrow> jsnum \<Rightarrow> jsnum) \<Rightarrow> jsnum \<times> jsnum \<Rightarrow> latent_panel \<Rightarrow>
     DomainError + string option" where
  "latent_click lc hyp click pn =
     (let points = retainedLatentPoints lc pn
      in case pn_canvas pn of
           None \<Rightarrow> Inr None
         | Some c \<Rightarrow>
             if points = [] then Inr None
             else case latentAxis points lp_x ''x'' of
               Inl e \<Rightarrow> Inl e
             | Inr px \<Rightarrow>
                 (case latentAxis points lp_y ''y'' of
                    Inl e \<Rightarrow> Inl e
                  | Inr py \<Rightarrow>
                      Inr (map_option lp_symbol (fst (foldl
                        (click_step hyp (screen_of px py (num_of_nat (fst (cv_client c)))
                           (num_of_nat (snd (cv_client c)))) click) (None, PInf) points)))))"

subsection \<open>Runs of the panel\<close>

text \<open>
  The panel between two mounts: the page resizes the element and paints it. A mount puts a fresh
  element under the module's reference; the module's variables survive it.
\<close>

definition fresh_canvas :: "nat \<times> nat \<Rightarrow> canvas" where
  "fresh_canvas client = \<lparr>cv_client = client, cv_size = (300, 150), cv_scale = Fin 1, cv_has2d = True, cv_ops = []\<rparr>"

definition module_start :: latent_panel where
  "module_start = \<lparr>pn_canvas = None, pn_points = [], pn_fingerprint = [], pn_geometry = []\<rparr>"

definition mount_panel :: "nat \<times> nat \<Rightarrow> latent_panel \<Rightarrow> latent_panel" where
  "mount_panel client pn = pn\<lparr>pn_canvas := Some (fresh_canvas client)\<rparr>"

datatype latent_event = Paint paint_value string | ClientResize "nat \<times> nat"

definition latent_step ::
    "(string \<Rightarrow> string \<Rightarrow> int) \<Rightarrow> (bytes \<Rightarrow> jsval option) \<Rightarrow> jsnum \<Rightarrow> latent_panel \<Rightarrow> latent_event \<Rightarrow> latent_panel" where
  "latent_step lc parse ratio pn e =
     (case e of
        Paint v focus_symbol \<Rightarrow>
          (case paintXrayLatent lc parse ratio v focus_symbol pn of Inr pn' \<Rightarrow> pn' | Inl _ \<Rightarrow> pn)
      | ClientResize client \<Rightarrow>
          pn\<lparr>pn_canvas := map_option (\<lambda>c. c\<lparr>cv_client := client\<rparr>) (pn_canvas pn)\<rparr>)"

text \<open>What a canvas shows: the commands since it was last cleared.\<close>

definition clears :: "canvas_op \<Rightarrow> bool" where
  "clears op = (case op of ClearRect _ _ _ _ \<Rightarrow> True | _ \<Rightarrow> False)"

fun shown_ops :: "canvas_op list \<Rightarrow> canvas_op list" where
  "shown_ops [] = []"
| "shown_ops (op # ops) = (if list_ex clears ops then shown_ops ops else op # ops)"

subsection \<open>What the canvas shows\<close>

lemma shown_cleared: "clears op \<Longrightarrow> \<not> list_ex clears ys \<Longrightarrow> shown_ops (xs @ op # ys) = op # ys"
  by (induction xs) simp_all

lemma waiting_shown:
  "shown_ops (ops @ drawXrayWaiting w h message) = drawXrayWaiting w h message"
  by (simp add: drawXrayWaiting_def clearCanvas_def shown_cleared clears_def drawGrid_def segment_ops_def
      Let_def list_ex_iff)

lemma axis_total: "points \<noteq> [] \<Longrightarrow> \<exists>f. latentAxis points coord key = Inr f"
  using one_or_more [of points] by (simp add: latentAxis_def requirePositiveLength_def Let_def)

lemma drawing_total: "points \<noteq> [] \<Longrightarrow> \<exists>ops. latent_drawing points focus_symbol w h = Inr ops"
  using axis_total [of points lp_x "''x''"] axis_total [of points lp_y "''y''"]
  by (auto simp: latent_drawing_def)

lemma point_ops_clear: "\<not> list_ex clears (point_ops focus_symbol index p xy)"
  by (cases xy) (simp add: point_ops_def clears_def Let_def)

lemma drawing_shown:
  assumes "latent_drawing points focus_symbol w h = Inr ops"
  shows "shown_ops (before @ ops) = ops"
proof -
  obtain px py where ops: "ops = clearCanvas w h @ latent_grid w h @
      concat (map (\<lambda>(index, p). point_ops focus_symbol index p (screen_of px py w h p)) (enumerate 0 points))"
    using assms by (auto simp: latent_drawing_def split: sum.splits)
  have "\<not> clears op" if op: "op \<in> set (concat (map (\<lambda>(index, p).
      point_ops focus_symbol index p (screen_of px py w h p)) (enumerate 0 points)))" for op
  proof -
    obtain index p where "op \<in> set (point_ops focus_symbol index p (screen_of px py w h p))" using op by auto
    with point_ops_clear [of focus_symbol index p "screen_of px py w h p"] show ?thesis by (auto simp: list_ex_iff)
  qed
  then have "\<not> list_ex clears (concat (map (\<lambda>(index, p).
      point_ops focus_symbol index p (screen_of px py w h p)) (enumerate 0 points)))"
    unfolding list_ex_iff by blast
  moreover have "\<not> list_ex clears (latent_grid w h)"
    by (simp add: latent_grid_def segment_ops_def clears_def list_ex_iff)
  ultimately show ?thesis
    unfolding ops clearCanvas_def by (simp add: shown_cleared clears_def)
qed

lemma geometry_inj: "geometry_text a = geometry_text b \<Longrightarrow> a = b"
proof -
  assume eq: "geometry_text a = geometry_text b"
  have dig: "list_all is_digit (digits_of (int n))" for n
    using digits_roundtrip [of "int n"] by simp
  have tw: "takeWhile is_digit (digits_of (int n) @ CHR ''x'' # r) = digits_of (int n)"
    "dropWhile is_digit (digits_of (int n) @ CHR ''x'' # r) = CHR ''x'' # r" for n r
    using dig [of n] by (simp_all add: takeWhile_append2 dropWhile_append2 list_all_iff is_digit_def)
  have "digits_of (int (fst a)) = digits_of (int (fst b))"
    using arg_cong [OF eq, of "takeWhile is_digit"] by (simp add: geometry_text_def tw)
  moreover have "digits_of (int (snd a)) = digits_of (int (snd b))"
    using arg_cong [OF eq, of "dropWhile is_digit"] by (simp add: geometry_text_def tw)
  ultimately show "a = b" by (metis digits_of_inj of_nat_0_le_iff of_nat_eq_iff prod_eqI)
qed

text \<open>The canvas was drawn from points and a focus with the fingerprint kept, at the geometry kept.\<close>

definition drawn_for :: "jsnum \<Rightarrow> canvas \<Rightarrow> string \<Rightarrow> nat \<times> nat \<Rightarrow> bool" where
  "drawn_for ratio c fingerprint client \<longleftrightarrow> cv_size c = backing ratio client \<and>
     (\<exists>points focus_symbol. fingerprint = latentSignature points focus_symbol \<and>
        latent_drawing points focus_symbol (num_of_nat (fst client)) (num_of_nat (snd client)) =
          Inr (shown_ops (cv_ops c)))"

definition panel_ok :: "jsnum \<Rightarrow> latent_panel \<Rightarrow> bool" where
  "panel_ok ratio pn \<longleftrightarrow> (\<exists>c. pn_canvas pn = Some c \<and> cv_has2d c \<and>
     (pn_fingerprint pn = [] \<or>
      (\<exists>client. pn_geometry pn = geometry_text client \<and> drawn_for ratio c (pn_fingerprint pn) client)))"

lemma resize_cases:
  assumes "cv_has2d c"
  obtains c' where "resizeCanvas ratio c = (c', True)" "cv_has2d c'" "cv_client c' = cv_client c"
    "cv_size c' = backing ratio (cv_client c)" "cv_size c = cv_size c' \<Longrightarrow> cv_ops c' = cv_ops c"
proof -
  let ?s = "backing ratio (cv_client c)"
  let ?c = "(if cv_size c \<noteq> ?s then allocate ?s c else c)\<lparr>cv_scale := pixel_ratio ratio\<rparr>"
  have "resizeCanvas ratio c = (?c, True)" using assms by (simp add: resizeCanvas_def allocate_def Let_def)
  with assms show thesis by (intro that [of ?c]) (auto simp: allocate_def)
qed

text \<open>One painting call: the waiting caption, a skipped drawing, or a new one.\<close>

lemma paint_result:
  assumes "panel_ok ratio pn"
  shows "\<exists>pn' c'. paintXrayLatent lc parse ratio v focus_symbol pn = Inr pn' \<and> pn_canvas pn' = Some c' \<and>
     panel_ok ratio pn' \<and>
     (let points = retainedLatentPoints lc pn'; w = num_of_nat (fst (cv_client c')); h = num_of_nat (snd (cv_client c'))
      in if points = [] then shown_ops (cv_ops c') = drawXrayWaiting w h ''waiting for latent carriers''
         else drawn_for ratio c' (latentSignature points focus_symbol) (cv_client c'))"
proof -
  obtain c where c: "pn_canvas pn = Some c" "cv_has2d c" using assms by (auto simp: panel_ok_def)
  obtain c' where r: "resizeCanvas ratio c = (c', True)" "cv_has2d c'" "cv_client c' = cv_client c"
    "cv_size c' = backing ratio (cv_client c)" "cv_size c = cv_size c' \<Longrightarrow> cv_ops c' = cv_ops c"
    using resize_cases [OF c(2), of ratio] by blast
  let ?pn = "take_points (latentPointsFromFrames parse (frames_of v)) pn"
  let ?pts = "retainedLatentPoints lc ?pn"
  have fields: "pn_fingerprint ?pn = pn_fingerprint pn" "pn_geometry ?pn = pn_geometry pn"
    by (simp_all add: take_points_def)
  have conv: "paintXrayLatent lc parse ratio v focus_symbol pn = latent_paint lc focus_symbol c' ?pn"
    using c r by (simp add: paintXrayLatent_def)
  have sig: "latentSignature ps fs \<noteq> []" for ps fs by (simp add: latentSignature_def)
  consider "?pts = []"
    | "?pts \<noteq> []" "latentSignature ?pts focus_symbol = pn_fingerprint pn" "geometry_text (cv_client c) = pn_geometry pn"
    | "?pts \<noteq> []" "\<not> (latentSignature ?pts focus_symbol = pn_fingerprint pn \<and> geometry_text (cv_client c) = pn_geometry pn)"
    by blast
  then show ?thesis
  proof cases
    case 1
    then show ?thesis
      using r by (simp add: conv latent_paint_def draw_def panel_ok_def retainedLatentPoints_def waiting_shown Let_def)
  next
    case 2
    then have "pn_fingerprint pn \<noteq> []" using sig by metis
    then obtain client where client: "pn_geometry pn = geometry_text client" "drawn_for ratio c (pn_fingerprint pn) client"
      using assms c(1) by (auto simp: panel_ok_def)
    with 2(3) have "client = cv_client c" using geometry_inj by metis
    with client have "drawn_for ratio c (pn_fingerprint pn) (cv_client c)" by simp
    then have d: "drawn_for ratio c' (pn_fingerprint pn) (cv_client c)"
      using r by (simp add: drawn_for_def)
    from 2 r have "latent_paint lc focus_symbol c' ?pn = Inr (?pn\<lparr>pn_canvas := Some c'\<rparr>)"
      by (simp add: latent_paint_def fields)
    moreover have "panel_ok ratio (?pn\<lparr>pn_canvas := Some c'\<rparr>)"
      unfolding panel_ok_def using 2 d r
      by (intro exI [of _ c'] conjI disjI2 exI [of _ "cv_client c"]) (simp_all add: fields)
    ultimately show ?thesis
      using 2 d r by (simp add: conv retainedLatentPoints_def Let_def)
  next
    case 3
    obtain ops where ops: "latent_drawing ?pts focus_symbol (num_of_nat (fst (cv_client c)))
        (num_of_nat (snd (cv_client c))) = Inr ops" using drawing_total [OF 3(1)] by blast
    let ?new = "?pn\<lparr>pn_fingerprint := latentSignature ?pts focus_symbol,
      pn_geometry := geometry_text (cv_client c), pn_canvas := Some (draw ops c')\<rparr>"
    have "latent_paint lc focus_symbol c' ?pn = Inr ?new"
      using 3 ops r by (auto simp: latent_paint_def fields Let_def)
    moreover have d: "drawn_for ratio (draw ops c') (latentSignature ?pts focus_symbol) (cv_client c)"
      using ops drawing_shown [OF ops] r by (auto simp: drawn_for_def draw_def)
    moreover have "panel_ok ratio ?new"
      unfolding panel_ok_def using d r
      by (intro exI [of _ "draw ops c'"] conjI disjI2 exI [of _ "cv_client c"]) (simp_all add: draw_def)
    ultimately show ?thesis
      using 3(1) r by (simp add: conv retainedLatentPoints_def draw_def Let_def)
  qed
qed

lemma panel_step: "panel_ok ratio pn \<Longrightarrow> panel_ok ratio (latent_step lc parse ratio pn e)"
proof (cases e)
  case (Paint v focus_symbol)
  assume "panel_ok ratio pn"
  from paint_result [OF this, of lc parse v focus_symbol] Paint show ?thesis
    by (auto simp: latent_step_def)
next
  case (ClientResize client)
  assume "panel_ok ratio pn"
  with ClientResize show ?thesis by (auto simp: latent_step_def panel_ok_def drawn_for_def)
qed

lemma panel_run: "panel_ok ratio (foldl (latent_step lc parse ratio) (mount_panel client module_start) events)"
  by (induction events rule: rev_induct)
    (simp_all add: panel_step, simp add: panel_ok_def mount_panel_def module_start_def fresh_canvas_def)

text \<open>
  C19. Skipping a repaint is sound while the element stays: after any run of paints and resizes at
  one device pixel ratio, a painting call leaves the canvas with the waiting caption when no
  carrier is known, and otherwise with the complete drawing, at the element's present size, of
  carriers and a focus that have the fingerprint of the present ones.
\<close>

theorem latent_canvas_current:
  "let pn = latent_step lc parse ratio
              (foldl (latent_step lc parse ratio) (mount_panel client module_start) events) (Paint v focus_symbol);
       points = retainedLatentPoints lc pn
   in \<exists>c. pn_canvas pn = Some c \<and>
        (if points = []
         then shown_ops (cv_ops c) =
           drawXrayWaiting (num_of_nat (fst (cv_client c))) (num_of_nat (snd (cv_client c))) ''waiting for latent carriers''
         else drawn_for ratio c (latentSignature points focus_symbol) (cv_client c))"
proof -
  let ?pn = "foldl (latent_step lc parse ratio) (mount_panel client module_start) events"
  obtain pn' c' where p: "paintXrayLatent lc parse ratio v focus_symbol ?pn = Inr pn'" "pn_canvas pn' = Some c'"
    "let points = retainedLatentPoints lc pn'; w = num_of_nat (fst (cv_client c')); h = num_of_nat (snd (cv_client c'))
      in if points = [] then shown_ops (cv_ops c') = drawXrayWaiting w h ''waiting for latent carriers''
         else drawn_for ratio c' (latentSignature points focus_symbol) (cv_client c')"
    using paint_result [OF panel_run] by blast
  have "latent_step lc parse ratio ?pn (Paint v focus_symbol) = pn'" by (simp add: latent_step_def p(1))
  with p(2,3) show ?thesis by (simp add: Let_def)
qed

lemma fresh_resized:
  "\<exists>c'. resizeCanvas ratio (fresh_canvas client) = (c', True) \<and> cv_ops c' = [] \<and> cv_client c' = client"
  by (cases "backing ratio client = (300, 150)") (auto simp: resizeCanvas_def allocate_def fresh_canvas_def)

lemma latent_paint_keeps:
  assumes "latent_paint lc focus_symbol c pn0 = Inr pn"
  shows "pn_points pn = pn_points pn0"
    "retainedLatentPoints lc pn \<noteq> [] \<Longrightarrow> pn_fingerprint pn = latentSignature (retainedLatentPoints lc pn) focus_symbol \<and>
       pn_geometry pn = geometry_text (cv_client c)"
    "\<exists>c'. pn_canvas pn = Some c' \<and> cv_client c' = cv_client c"
  using assms
  by (cases "latent_drawing (retainedLatentPoints lc pn0) focus_symbol (num_of_nat (fst (cv_client c)))
        (num_of_nat (snd (cv_client c)))";
      auto simp: latent_paint_def draw_def retainedLatentPoints_def Let_def split: if_splits)+


text \<open>The nearest carrier of a click.\<close>

definition click_best :: "(LatentPoint \<Rightarrow> jsnum) \<Rightarrow> LatentPoint list \<Rightarrow> LatentPoint option \<times> jsnum \<Rightarrow> bool" where
  "click_best d points best \<longleftrightarrow>
     (case fst best of
        None \<Rightarrow> snd best = PInf \<and> list_all (\<lambda>p. \<not> num_le (d p) (Fin 14)) points
      | Some p \<Rightarrow> p \<in> set points \<and> snd best = d p \<and> num_le (d p) (Fin 14) \<and>
                  list_all (\<lambda>q. \<not> num_lt (d q) (d p)) points)"

lemma click_fold:
  "click_best d points
     (foldl (\<lambda>best p. if num_lt (d p) (snd best) \<and> num_le (d p) (Fin 14) then (Some p, d p) else best)
        (None, PInf) points)"
proof (induction points rule: rev_induct)
  case Nil
  show ?case by (simp add: click_best_def)
next
  case (snoc p ps)
  obtain b e where be: "foldl (\<lambda>best p. if num_lt (d p) (snd best) \<and> num_le (d p) (Fin 14) then (Some p, d p) else best)
      (None, PInf) ps = (b, e)" by fastforce
  have irrefl: "\<not> num_lt (d p) (d p)" by (cases "d p") auto
  show ?case
  proof (cases b)
    case None
    with snoc be have none: "e = PInf" "list_all (\<lambda>p. \<not> num_le (d p) (Fin 14)) ps" by (simp_all add: click_best_def)
    have far: "num_lt (d p) PInf \<and> \<not> num_lt (d q) (d p)" if "num_le (d p) (Fin 14)" "\<not> num_le (d q) (Fin 14)" for q
      using that by (cases "d p"; cases "d q") auto
    show ?thesis
    proof (cases "num_le (d p) (Fin 14)")
      case True
      then have "num_lt (d p) PInf" by (cases "d p") auto
      moreover have "list_all (\<lambda>q. \<not> num_lt (d q) (d p)) ps" using none(2) far [OF True] by (simp add: list_all_iff)
      ultimately show ?thesis using True be none irrefl by (simp add: click_best_def)
    qed (use none be None in \<open>simp add: click_best_def\<close>)
  next
    case (Some q)
    with snoc be have some: "q \<in> set ps" "e = d q" "num_le (d q) (Fin 14)" "list_all (\<lambda>r. \<not> num_lt (d r) (d q)) ps"
      by (simp_all add: click_best_def)
    show ?thesis
    proof (cases "num_lt (d p) (d q)")
      case True
      then have "num_le (d p) (Fin 14)" using some(3) by (cases "d p"; cases "d q") auto
      moreover have "\<not> num_lt (d r) (d p)" if "\<not> num_lt (d r) (d q)" for r
        using that True by (cases "d p"; cases "d q"; cases "d r") auto
      ultimately show ?thesis using True be some irrefl by (simp add: click_best_def list_all_iff)
    qed (use some be Some in \<open>simp add: click_best_def\<close>)
  qed
qed

definition click_distance ::
    "(jsnum \<Rightarrow> jsnum \<Rightarrow> jsnum) \<Rightarrow> (LatentPoint \<Rightarrow> jsnum \<times> jsnum) \<Rightarrow> jsnum \<times> jsnum \<Rightarrow> LatentPoint \<Rightarrow> jsnum" where
  "click_distance hyp place click p =
     hyp (num_sub (fst (place p)) (fst click)) (num_sub (snd (place p)) (snd click))"

text \<open>
  A click picks the carrier drawn nearest to it among those within 14 pixels, and none exactly
  when no carrier is that near.
\<close>

theorem click_nearest:
  "click_best (click_distance hyp place click) points (foldl (click_step hyp place click) (None, PInf) points)"
proof -
  have "click_step hyp place click =
      (\<lambda>best p. if num_lt (click_distance hyp place click p) (snd best) \<and>
         num_le (click_distance hyp place click p) (Fin 14) then (Some p, click_distance hyp place click p) else best)"
    by (intro ext) (simp add: click_step_def click_distance_def Let_def split: prod.splits)
  then show ?thesis by (simp only: click_fold)
qed

subsection \<open>Where the carriers are drawn\<close>

lemma axis_unit:
  assumes "latentAxis points coord key = Inr f" "p \<in> set points" "list_all (\<lambda>q. drawable (coord q)) points"
  shows "num_in 0 1 (f (coord p))"
proof -
  let ?vs = "map coord points"
  have ne: "?vs \<noteq> []" "list_all drawable ?vs" using assms(2,3) by (auto simp: list_all_iff)
  note ext = fold_extremes [OF ne]
  obtain a where a: "foldl num_min PInf ?vs = Fin a" "\<bar>a\<bar> \<le> of_int (2 ^ 50)" using drawableD [OF ext(1)] by blast
  obtain b where b: "foldl num_max NInf ?vs = Fin b" "\<bar>b\<bar> \<le> of_int (2 ^ 50)" using drawableD [OF ext(2)] by blast
  have "drawable (coord p)" using assms(2,3) by (simp add: list_all_iff)
  then obtain q where q: "coord p = Fin q" using drawableD by blast
  have le: "num_le (foldl num_min PInf ?vs) (coord p)" "num_le (coord p) (foldl num_max NInf ?vs)"
    using ext(3,4) assms(2) by simp_all
  have aq: "a \<le> q" "q \<le> b" using le unfolding a(1) b(1) q by simp_all
  have ab: "\<bar>a\<bar> \<le> of_int (2 ^ 51)" "\<bar>b\<bar> \<le> of_int (2 ^ 51)" using a(2) b(2) by simp_all
  obtain d s where ds: "fl (q - a) = Fin d" "fl (b - a) = Fin s" "0 \<le> d" "d \<le> s"
    "s \<noteq> 0 \<Longrightarrow> num_in 0 1 (fl (d / s))"
    using ratio_in_unit [OF aq ab] by blast
  have half: "num_in 0 1 (fl (1 / 2))" by (rule fl_unit) simp_all
  have req: "requirePositiveLength (num_of_nat (length points)) l = Inr ()" for l
    using one_or_more [of points] ne(1) by (simp add: requirePositiveLength_def)
  have ext: "num_sub (foldl num_max NInf ?vs) (Fin a) = Fin s" by (simp only: b(1) num_sub_fl ds(2))
  have "latentAxis points coord key = Inr (if num_le (Fin s) (Fin 0) then (\<lambda>_. fl (1 / 2))
      else (\<lambda>v. num_div (num_sub v (Fin a)) (Fin s)))"
    unfolding latentAxis_def req Let_def a(1) ext by simp
  with assms(1) have f: "f = (if num_le (Fin s) (Fin 0) then (\<lambda>_. fl (1 / 2))
      else (\<lambda>v. num_div (num_sub v (Fin a)) (Fin s)))" by simp
  show ?thesis
    using ds half by (cases "s = 0") (simp_all add: f q num_sub_fl)
qed

text \<open>
  Every carrier of the scatter is drawn, and hit, inside the canvas's padding, whatever moderate
  coordinates the readings hold: 28 pixels from each edge of a canvas of whole pixels.
\<close>

theorem latent_dots_inside:
  assumes "latentPointScreen p points (Fin (of_int w)) (Fin (of_int h)) = Inr (x, y)"
    and "p \<in> set points" "list_all (\<lambda>q. drawable (lp_x q) \<and> drawable (lp_y q)) points"
    and "56 \<le> w" "w \<le> 2 ^ 40" "56 \<le> h" "h \<le> 2 ^ 40"
  shows "num_in 28 (of_int (w - 28)) x \<and> num_in 28 (of_int (h - 28)) y"
proof -
  obtain px py where ax: "latentAxis points lp_x ''x'' = Inr px" "latentAxis points lp_y ''y'' = Inr py"
    and xy: "(x, y) = screen_of px py (Fin (of_int w)) (Fin (of_int h)) p"
    using assms(1) by (auto simp: latentPointScreen_def split: sum.splits)
  have u: "num_in 0 1 (px (lp_x p))" "num_in 0 1 (py (lp_y p))"
    using axis_unit [OF ax(1) assms(2)] axis_unit [OF ax(2) assms(2)] assms(3) by (simp_all add: list_all_iff)
  have pad2: "num_mul PAD (Fin 2) = Fin 56" using b64.rnd_int [of 56] by (simp add: PAD_def)
  have sub: "num_sub (Fin (of_int n)) (Fin 56) = Fin (of_int n - 56)" if "56 \<le> n" "n \<le> 2 ^ 40" for n
    using that num_sub_int [of n 56] by simp
  have "num_in 0 (of_int (w - 56)) (num_mul (px (lp_x p)) (Fin (of_int (w - 56))))"
    using assms(4,5) by (intro scaled_within [OF u(1)]) simp_all
  then have "num_in 28 (of_int (w - 28)) x"
    using add_within(1) [of "w - 56" _ 28] assms(4,5) xy
    by (simp add: screen_of_def PAD_def fl_numeral sub [OF assms(4,5)])
  moreover have "num_in 0 (of_int (h - 56)) (num_mul (py (lp_y p)) (Fin (of_int (h - 56))))"
    using assms(6,7) by (intro scaled_within [OF u(2)]) simp_all
  moreover have "num_sub (Fin (of_int h)) PAD = Fin (of_int (h - 28))"
    using num_sub_int [of h 28] assms(6,7) by (simp add: PAD_def)
  ultimately show ?thesis
    using add_within(2) [of "h - 56" _ "h - 28"] assms(6,7) xy
    by (simp add: screen_of_def pad2 sub [OF assms(6,7)])
qed

definition sample_carrier :: "int \<Rightarrow> LatentPoint" where
  "sample_carrier n = \<lparr>lp_key = [], lp_symbol = ''A'', lp_x = Fin (of_int n), lp_y = Fin (of_int n), lp_category = []\<rparr>"

lemma latent_dots_inside_witness:
  "\<exists>x y. latentPointScreen (sample_carrier 0) [sample_carrier 0, sample_carrier 1] (Fin (of_int 100)) (Fin (of_int 80)) =
     Inr (x, y) \<and> num_in 28 (of_int (100 - 28)) x \<and> num_in 28 (of_int (80 - 28)) y"
proof -
  let ?ps = "[sample_carrier 0, sample_carrier 1]"
  obtain x y where xy: "latentPointScreen (sample_carrier 0) ?ps (Fin (of_int 100)) (Fin (of_int 80)) = Inr (x, y)"
    using axis_total [of ?ps lp_x "''x''"] axis_total [of ?ps lp_y "''y''"]
    by (auto simp: latentPointScreen_def screen_of_def)
  have "list_all (\<lambda>q. drawable (lp_x q) \<and> drawable (lp_y q)) ?ps"
    using drawable_small [of 0] drawable_small [of 1] by (simp add: sample_carrier_def)
  from latent_dots_inside [OF xy _ this] xy show ?thesis by simp
qed

end
