(* ===== verification/XrayPanels.thy ===== *)
theory XrayPanels
  imports LatentCanvas
begin

text \<open>
  The panels beside the x-ray scatter: the predictive-coding hierarchy that paints rows of cells
  into a host element without a virtual document (\<^verbatim>\<open>components/terminal/xray-hierarchy.tsx\<close>,
  \<^verbatim>\<open>xray-layers.tsx\<close>), the manifold reading (\<^verbatim>\<open>xray-manifold-panel.tsx\<close>) and the facts beside it
  (\<^verbatim>\<open>xray-facts-panel.tsx\<close>). The locale \<open>child_painter\<close> states what a painter of child elements owes:
  a write leaves nothing of the element's past; it is interpreted on cells and on rows.
\<close>

subsection \<open>Cells of a layer\<close>

definition cell_between :: "jsnum list \<Rightarrow> nat \<Rightarrow> nat \<Rightarrow> jsnum" where
  "cell_between vs cellCount index =
     (let final = num_sub (num_of_nat (length vs)) (Fin 1);
          pos = num_mul (num_div (num_of_nat index)
                  (num_max (num_sub (num_of_nat cellCount) (Fin 1)) (Fin 1))) final;
          left = num_floor pos; right = num_min final (num_add left (Fin 1)); ratio = num_sub pos left;
          at_index = (\<lambda>i. case i of
             Fin q \<Rightarrow> if 0 \<le> q then (case nth_opt vs (nat \<lfloor>q\<rfloor>) of Some v \<Rightarrow> v | None \<Rightarrow> Fin 0) else Fin 0
           | _ \<Rightarrow> Fin 0)
      in num_add (num_mul (at_index left) (num_sub (Fin 1) ratio)) (num_mul (at_index right) ratio))"

definition layerCellsFromState :: "jsval \<Rightarrow> nat \<Rightarrow> jsnum list" where
  "layerCellsFromState state cellCount =
     (let vs = (case state of JArr xs \<Rightarrow> List.map_filter as_num xs | _ \<Rightarrow> [])
      in if vs = [] \<or> cellCount = 0 then []
         else if length vs = cellCount then vs
         else if length vs = 1 then replicate cellCount (hd vs)
         else map (cell_between vs cellCount) [0..<cellCount])"

definition layerColor :: "jsval \<Rightarrow> string" where
  "layerColor v =
     (case v of JNum n \<Rightarrow> heatColor (num_div (num_add n (Fin 1)) (Fin 2)) | _ \<Rightarrow> ''var(--line)'')"

datatype error_variant = EInfo | EError | EWarning | ESuccess

definition layerErrorVariant :: "jsval \<Rightarrow> error_variant" where
  "layerErrorVariant error =
     (case error of
        JNum e \<Rightarrow> if num_lt (fl (55 / 100)) e then EError
                  else if num_lt (fl (3 / 10)) e then EWarning else ESuccess
      | _ \<Rightarrow> EInfo)"

primrec layerErrorValueClass :: "error_variant \<Rightarrow> string" where
  "layerErrorValueClass EError = ''text-(--down)''"
| "layerErrorValueClass EWarning = ''text-(--warn)''"
| "layerErrorValueClass ESuccess = ''text-(--up)''"
| "layerErrorValueClass EInfo = ''text-(--f4)''"

record layer_row =
  lr_label :: string
  lr_cells :: "(string \<times> string) list"
  lr_error :: string
  lr_variant :: error_variant
  lr_width :: jsnum

text \<open>The key of a cell: its text and how often that text occurred before.\<close>

definition key_step ::
    "string \<Rightarrow> (string \<times> nat) list \<times> (string \<times> jsnum) list \<Rightarrow> jsnum \<Rightarrow>
     (string \<times> nat) list \<times> (string \<times> jsnum) list" where
  "key_step label acc v =
     (let (occurrences, keyed) = acc; valueKey = to_fixed 6 v;
          n = (case map_of occurrences valueKey of Some n \<Rightarrow> n | None \<Rightarrow> 0)
      in (AList.update valueKey (n + 1) occurrences,
          keyed @ [(label @ ''-'' @ valueKey @ ''-'' @ digits_of (int n), v)]))"

definition keyedCells :: "string \<Rightarrow> jsnum list \<Rightarrow> (string \<times> jsnum) list" where
  "keyedCells label cells = snd (foldl (key_step label) ([], []) cells)"

definition layer_row :: "nat \<Rightarrow> nat \<times> jsobj \<Rightarrow> layer_row" where
  "layer_row layers entry =
     (let (index, layer) = entry;
          error = (case field layer ''error_norm'' of JNum e \<Rightarrow> e | _ \<Rightarrow> Fin 0);
          layerIndex = (case finite_num (field layer ''index'') of Some i \<Rightarrow> i | None \<Rightarrow> num_of_nat index);
          label = js_text (orelse (field layer ''name'') (orelse (field layer ''label'')
            (JStr (''L'' @ num_text layerIndex @ '' '' @ mid_dot @ '' '' @
               semanticLayerName (int index) (int layers)))));
          cells = layerCellsFromState (field layer ''state'') 16
      in \<lparr>lr_label = label,
          lr_cells = map (\<lambda>(k, v). (k, layerColor (JNum v))) (keyedCells label cells),
          lr_error = to_fixed 3 error, lr_variant = layerErrorVariant (field layer ''error_norm''),
          lr_width = num_min (Fin 100) (num_max (Fin 0) (num_mul error (Fin 100)))\<rparr>)"

definition XrayLayerRows :: "jsobj list \<Rightarrow> layer_row list" where
  "XrayLayerRows layers = map (layer_row (length layers)) (enumerate 0 layers)"

subsection \<open>Children of a host\<close>

text \<open>
  Both loops of the painter: children beyond the data are removed, each datum is written into the
  child at its index, and a child that is missing is created first.
\<close>

definition sync_children :: "'e \<Rightarrow> ('d \<Rightarrow> 'e \<Rightarrow> 'e) \<Rightarrow> 'd list \<Rightarrow> 'e list \<Rightarrow> 'e list" where
  "sync_children created paint_on ds host =
     foldl (\<lambda>h (i, d). let h = (if i < length h then h else h @ [created]) in h[i := paint_on d (h ! i)])
       (take (length ds) host) (enumerate 0 ds)"

locale child_painter =
  fixes created :: 'e and paint_on :: "'d \<Rightarrow> 'e \<Rightarrow> 'e"
  assumes forgets: "paint_on d e = paint_on d created"
begin

lemma sync_fold:
  "foldl (\<lambda>h (i, d). let h = (if i < length h then h else h @ [created]) in h[i := paint_on d (h ! i)])
     host (enumerate 0 ds) = map (\<lambda>d. paint_on d created) ds @ drop (length ds) host"
proof (induction ds rule: rev_induct)
  case (snoc d ds)
  show ?case
  proof (cases "length ds < length host")
    case True
    then obtain x rest where "drop (length ds) host = x # rest" "drop (Suc (length ds)) host = rest"
      by (metis Cons_nth_drop_Suc)
    then show ?thesis
      using True forgets [of d x] by (simp add: snoc enumerate_append_eq nth_append list_update_append)
  next
    case False
    then show ?thesis by (simp add: snoc enumerate_append_eq nth_append list_update_append)
  qed
qed simp

lemma sync_all: "sync_children created paint_on ds host = map (\<lambda>d. paint_on d created) ds"
  using sync_fold by (simp add: sync_children_def)

lemma sync_again: "sync_children created paint_on ds (sync_children created paint_on ds' host) = sync_children created paint_on ds []"
  by (simp add: sync_all)

end

subsection \<open>The hierarchy's rows\<close>

record cell_element =
  ce_background :: string
  ce_boxShadow :: string

definition created_cell :: cell_element where
  "created_cell = \<lparr>ce_background = [], ce_boxShadow = []\<rparr>"

definition paint_cell :: "jsnum \<Rightarrow> cell_element \<Rightarrow> cell_element" where
  "paint_cell v e =
     e\<lparr>ce_background := heatColor (num_div (num_add v (Fin 1)) (Fin 2)), ce_boxShadow := []\<rparr>"

interpretation cells: child_painter created_cell paint_cell
  by unfold_locales (simp add: paint_cell_def created_cell_def)

record row_element =
  re_label :: string
  re_cells :: "cell_element list"
  re_error :: string
  re_errorColor :: string
  re_fillWidth :: string
  re_fillColor :: string

definition created_row :: row_element where
  "created_row = \<lparr>re_label = [], re_cells = [], re_error = [], re_errorColor = [],
     re_fillWidth = ''0%'', re_fillColor = []\<rparr>"

definition layerErrorTone :: "jsnum \<Rightarrow> string" where
  "layerErrorTone error =
     (if num_lt (fl (55 / 100)) error then ''var(--down)''
      else if num_lt (fl (3 / 10)) error then ''var(--warn)'' else ''var(--up)'')"

definition paint_row :: "XrayLayer \<Rightarrow> row_element \<Rightarrow> row_element" where
  "paint_row layer row =
     row\<lparr>re_label := xl_label layer,
         re_error := (case xl_error_norm layer of Some e \<Rightarrow> to_fixed 3 e | None \<Rightarrow> em_dash),
         re_errorColor := (case xl_error_norm layer of Some e \<Rightarrow> layerErrorTone e | None \<Rightarrow> ''inherit''),
         re_fillWidth := (case xl_error_norm layer of
            Some e \<Rightarrow> num_text (num_min (Fin 100) (num_max (Fin 0) (num_mul e (Fin 100)))) @ ''%''
          | None \<Rightarrow> ''0%''),
         re_fillColor := (case xl_error_norm layer of Some e \<Rightarrow> layerErrorTone e | None \<Rightarrow> ''transparent''),
         re_cells := sync_children created_cell paint_cell
           (layerCellsFromState (JArr (map JNum (xl_state layer))) 16) (re_cells row)\<rparr>"

interpretation rows: child_painter created_row paint_row
  by unfold_locales (simp add: paint_row_def created_row_def cells.sync_all)

text \<open>The three elements of the panel; \<open>None\<close> while it is not mounted.\<close>

record hierarchy_panel =
  hx_symbol :: string
  hx_waiting :: string
  hx_waitingDisplay :: string
  hx_rowsDisplay :: string
  hx_rows :: "row_element list"

definition paintHierarchyRows :: "XrayLayer list \<Rightarrow> hierarchy_panel \<Rightarrow> hierarchy_panel" where
  "paintHierarchyRows layers hx =
     hx\<lparr>hx_waitingDisplay := (if layers = [] then [] else ''none''),
        hx_rowsDisplay := (if layers = [] then ''none'' else []),
        hx_rows := sync_children created_row paint_row layers (hx_rows hx)\<rparr>"

definition waiting_text :: "carrier list \<Rightarrow> XrayLayer list \<Rightarrow> string \<Rightarrow> string \<Rightarrow> string" where
  "waiting_text frames layers carrierSymbol focus =
     (if frames = [] then ''waiting for resonance layers''
      else if layers = [] then ''resonance carrier for '' @ focus @ '' has no layer rows yet''
      else if carrierSymbol \<noteq> [] \<and> carrierSymbol \<noteq> focus \<and> carrierSymbol \<notin> set (symbolScopeAliases focus)
      then ''layers from '' @ carrierSymbol @ '' '' @ mid_dot @ '' focus '' @ focus
      else [])"

definition paintXrayHierarchy ::
    "(bytes \<Rightarrow> jsval option) \<Rightarrow> paint_value \<Rightarrow> string \<Rightarrow> hierarchy_panel option \<Rightarrow>
     xray_error + hierarchy_panel option" where
  "paintXrayHierarchy parse val focus panel =
     (case resolveXrayCarrier parse (frames_of val) focus of
        Inl e \<Rightarrow> Inl e
      | Inr focused \<Rightarrow>
          (case xrayLayersFromResonance parse focused of
             Inl e \<Rightarrow> Inl e
           | Inr layers \<Rightarrow>
               let carrierSymbol = (case focused of Some f \<Rightarrow> carrierScope f | None \<Rightarrow> [])
               in Inr (map_option (\<lambda>hx. paintHierarchyRows layers
                    (hx\<lparr>hx_symbol := focus,
                        hx_waiting := waiting_text (frames_of val) layers carrierSymbol focus\<rparr>)) panel)))"

subsection \<open>The manifold reading\<close>

definition num_cell :: "jsnum option \<Rightarrow> nat \<Rightarrow> string" where
  "num_cell v digits = (case shown v of Some n \<Rightarrow> to_fixed digits n | None \<Rightarrow> em_dash)"

definition ROWS :: "(string \<times> (ResonanceData \<Rightarrow> string)) list" where
  "ROWS =
     [(''energy'', \<lambda>row. num_cell (rd_energy row) 3),
      (''surprise'', \<lambda>row. num_cell (rd_surprise row) 3),
      (''base alpha'', \<lambda>row. if rd_forwardCurve row \<noteq> [] then num_cell (last (rd_forwardCurve row)) 3 else em_dash),
      (''horizon'', \<lambda>row. case rd_supportedHorizon row of
          Some n \<Rightarrow> num_cell (Some n) 0 @ '' ticks'' | None \<Rightarrow> em_dash),
      (''reach'', \<lambda>row. num_text (num_of_nat (length (rd_forwardCurve row))) @ '' ticks''),
      (''samples'', \<lambda>row. case rd_resolvedSteps row of Some n \<Rightarrow> num_cell (Some n) 0 | None \<Rightarrow> em_dash),
      (''task skill'', \<lambda>row. num_cell (rd_taskSkill row) 3),
      (''task scale'', \<lambda>row. num_cell (rd_taskRelativePrecision row) 8)]"

definition DYNAMICS_FIELDS :: "(string \<times> string \<times> nat) list" where
  "DYNAMICS_FIELDS =
     [(''velocity'', ''velocity'', 4), (''acceleration'', ''acceleration'', 4),
      (''liquid memory'', ''memory'', 4), (''memory scale'', ''memoryScale'', 4),
      (''stored energy'', ''storedEnergy'', 4), (''supplied power'', ''suppliedPower'', 4),
      (''dissipation'', ''dissipation'', 4), (''passivity residue'', ''passivityResidue'', 4),
      (''diffusion variance'', ''continuousVariance'', 6), (''jump amplitude'', ''jumpAmplitude'', 6),
      (''jump variance'', ''jumpVariance'', 6), (''rotor norm'', ''equivarianceNorm'', 4)]"

definition manifold_texts :: "ResonanceData option \<Rightarrow> string list \<times> string list" where
  "manifold_texts targetRow =
     (case targetRow of
        None \<Rightarrow> (map (\<lambda>_. em_dash) ROWS, map (\<lambda>_. em_dash) DYNAMICS_FIELDS)
      | Some row \<Rightarrow>
          (map (\<lambda>(_, read_row). read_row row) ROWS,
           map (\<lambda>(_, key, digits). num_cell (as_num (field (rd_dynamics row) key)) digits) DYNAMICS_FIELDS))"

text \<open>
  \<^verbatim>\<open>updateFromState\<close>: the focused frame of the store is retained under its scope, then the retained
  row of the focus, or else the frame itself, is shown.
\<close>

definition updateFromState ::
    "(bytes \<Rightarrow> jsval option) \<Rightarrow> (string \<times> Value) list \<Rightarrow> string \<Rightarrow> xray \<Rightarrow> xray \<times> (string list \<times> string list)" where
  "updateFromState parse resonance focus s =
     (let latest = map_of resonance (replace_char CHR ''/'' CHR ''-'' focus);
          s = (case latest of Some v \<Rightarrow> retainResonanceRow parse (v_scope v) (Wire v) s | None \<Rightarrow> s);
          target = (case getRetainedResonance (Some focus) s of
             Some row \<Rightarrow> Some (Row row)
           | None \<Rightarrow> map_option Wire latest)
      in (s, manifold_texts (Option.bind target (parseResonanceData parse))))"

subsection \<open>The facts\<close>

text \<open>The frame shown is memoised on the focus alone.\<close>

type_synonym facts_memo = "(string \<times> Value option) option"

definition XrayFactsPanel :: "(jsnum \<Rightarrow> bytes) \<Rightarrow> string \<Rightarrow> xray \<Rightarrow> facts_memo \<Rightarrow> facts_memo" where
  "XrayFactsPanel enc focus s kept =
     (case kept of
        Some (held, frame) \<Rightarrow>
          if held = focus then kept
          else Some (focus, valueFromRetainedRow enc focus (getRetainedResonance (Some focus) s))
      | None \<Rightarrow> Some (focus, valueFromRetainedRow enc focus (getRetainedResonance (Some focus) s)))"

subsection \<open>What the panels show\<close>


text \<open>
  A row has sixteen cells, or none when its state holds no number.
\<close>

theorem row_has_sixteen_cells:
  "length (re_cells (paint_row layer row)) = (if xl_state layer = [] then 0 else 16)"
proof -
  have "List.map_filter as_num (map JNum xs) = xs" for xs
    by (induction xs) (simp_all add: List.map_filter_def)
  then show ?thesis
    by (simp add: paint_row_def cells.sync_all layerCellsFromState_def Let_def)
qed

text \<open>
  The caption that names the carrier the layers were borrowed from is never seen: whenever the
  panel is painted with layers, the element that holds the caption is hidden.
\<close>

theorem borrowed_carrier_unseen:
  "case paintXrayHierarchy parse val focus (Some hx) of
     Inr (Some hx') \<Rightarrow>
       hx_waiting hx' \<in> {''waiting for resonance layers'', [],
                         ''resonance carrier for '' @ focus @ '' has no layer rows yet''} \<or>
       hx_waitingDisplay hx' = ''none''
   | _ \<Rightarrow> True"
  by (auto simp: paintXrayHierarchy_def paintHierarchyRows_def waiting_text_def Let_def split: sum.splits)

text \<open>
  The facts beside the manifold do not follow the carrier: while the focus stays, nothing retained
  later changes the frame they show.
\<close>

theorem facts_ignore_new_rows:
  "XrayFactsPanel enc focus (retainResonanceRow parse scope row s) (XrayFactsPanel enc focus s kept) =
     XrayFactsPanel enc focus s kept"
  by (auto simp: XrayFactsPanel_def split: option.splits)

end
