(* ===== verification/HawkesPanel.thy ===== *)
theory HawkesPanel
  imports LatentCanvas HawkesTrace
begin

text \<open>
  The intensity panel of the x-ray page (\<^verbatim>\<open>components/terminal/xray-hawkes.tsx\<close>): the sample a frame
  of the wire stands for, and the effect of the panel with the variables its closures share (the
  sample, the market time, the pending animation frame, the last readings), the texts it writes and
  the commands it issues to its canvas. \<^verbatim>\<open>Math.exp\<close> is the parameter \<open>ex\<close>.
\<close>

subsection \<open>Samples\<close>

datatype hawkes_error = NoMark | MissingParameters

definition metric_of :: "(string \<times> jsnum) list \<Rightarrow> string \<Rightarrow> jsnum" where
  "metric_of ms key = num_or_zero (map_of ms key)"

definition fitted_sample ::
    "(string \<times> jsnum) list \<Rightarrow> string \<Rightarrow> int \<Rightarrow> jsnum \<Rightarrow> hawkes_error + HawkesTraceSample option" where
  "fitted_sample ms side stamp decay =
     (if num_eq decay (Fin 0) then Inr None
      else if side \<noteq> ''buy'' \<and> side \<noteq> ''sell'' then Inl NoMark
      else case (map_of ms ''conditional_intensity'', map_of ms ''background_rate'',
                 map_of ms (''excitation_amplitude:buy_from_'' @ side),
                 map_of ms (''excitation_amplitude:sell_from_'' @ side)) of
             (Some intensity, Some baseline, Some buyJump, Some sellJump) \<Rightarrow>
               Inr (Some \<lparr>hs_at = stamp, hs_intensity = intensity,
                 hs_postArrival = num_add (num_add intensity buyJump) sellJump,
                 hs_baseline = baseline, hs_decay = decay\<rparr>)
           | _ \<Rightarrow> Inl MissingParameters)"

definition estimated_sample :: "(string \<times> jsnum) list \<Rightarrow> int \<Rightarrow> HawkesTraceSample" where
  "estimated_sample ms stamp =
     (let totalArrival = num_add (metric_of ms ''arrival_rate:buy'') (metric_of ms ''arrival_rate:sell'');
          radius = metric_of ms ''branching_spectral_radius'';
          level = (case map_of ms ''conditional_intensity'' of
             Some c \<Rightarrow> if num_lt (Fin 0) c then c else totalArrival | None \<Rightarrow> totalArrival);
          muRest = (case map_of ms ''background_rate'' of
             Some b \<Rightarrow> b
           | None \<Rightarrow> num_add (metric_of ms ''background_rate:buy'') (metric_of ms ''background_rate:sell''));
          baseline = (if num_lt (Fin 0) muRest \<and> num_lt muRest level then muRest
             else if num_lt (Fin 0) totalArrival \<and> num_lt totalArrival level then totalArrival
             else num_mul level (fl (85 / 100)));
          estimate = (if num_lt (Fin 0) radius then Fin 1 else fl (5 / 10));
          decay = (case map_of ms ''excitation_decay'' of
             Some d \<Rightarrow> if num_lt (Fin 0) d then d else estimate | None \<Rightarrow> estimate)
      in \<lparr>hs_at = stamp, hs_intensity = level, hs_postArrival = level, hs_baseline = baseline,
          hs_decay = decay\<rparr>)"

definition hawkesSample ::
    "(bytes \<Rightarrow> jsval option) \<Rightarrow> Value \<Rightarrow> hawkes_error + HawkesTraceSample option" where
  "hawkesSample parse row =
     (let ms = metrics parse row;
          side = (case map_of (provenance parse row) ''side'' of Some s \<Rightarrow> s | None \<Rightarrow> []);
          legacyEvent = (side \<noteq> [] \<and> map_of ms ''excitation_amplitude:buy_from_buy'' \<noteq> None)
      in case map_of ms ''excitation_decay'' of
           Some decay \<Rightarrow>
             if legacyEvent then fitted_sample ms side (v_timestamp row) decay
             else Inr (Some (estimated_sample ms (v_timestamp row)))
         | None \<Rightarrow> Inr (Some (estimated_sample ms (v_timestamp row))))"

subsection \<open>The effect\<close>

record hawkes_panel =
  hk_sample :: "HawkesTraceSample option"
  hk_marketAt :: int
  hk_frame :: bool
  hk_lastMetrics :: "(string \<times> jsnum) list"
  hk_texts :: "(string \<times> string) list"
  hk_bar :: string
  hk_client :: "nat \<times> nat"
  hk_ops :: "canvas_op list"

definition put_text :: "string \<Rightarrow> string \<Rightarrow> hawkes_panel \<Rightarrow> hawkes_panel" where
  "put_text key text hk = hk\<lparr>hk_texts := AList.update key text (hk_texts hk)\<rparr>"

definition HAWKES_VIEWPORT_SPAN :: int where "HAWKES_VIEWPORT_SPAN = 15000000000"

definition curve_peak :: "HawkesTraceSample \<Rightarrow> HawkesTracePoint list \<Rightarrow> jsnum" where
  "curve_peak sample curve =
     foldl num_max NInf
       ([num_mul (hs_baseline sample) (fl (112 / 100)), hs_intensity sample, hs_postArrival sample] @
        map pt_intensity curve @ [fl (1 / 1000000)])"

definition trace_x :: "hawkes_plot \<Rightarrow> jsnum \<Rightarrow> int \<Rightarrow> jsnum" where
  "trace_x trace width stamp =
     num_add (Fin 14)
       (num_mul (num_div (num_of_int (stamp - hp_from trace)) (num_of_int (hp_through trace - hp_from trace)))
          (num_sub width (num_mul (Fin 2) (Fin 14))))"

definition trace_y :: "jsnum \<Rightarrow> jsnum \<Rightarrow> jsnum \<Rightarrow> jsnum" where
  "trace_y peak base v = num_sub base (num_mul (num_div v peak) (num_sub base (Fin 30)))"

definition curve_ops ::
    "HawkesTraceSample \<Rightarrow> hawkes_plot \<Rightarrow> HawkesTracePoint list \<Rightarrow> jsnum \<Rightarrow> jsnum \<Rightarrow> canvas_op list" where
  "curve_ops sample trace curve width height =
     (let base = num_sub height (Fin 26); peak = curve_peak sample curve;
          toX = trace_x trace width; toY = trace_y peak base;
          line = map (\<lambda>p. LineTo (toX (pt_at p)) (toY (pt_intensity p))) curve
      in [StrokeStyle ''#3A342B'', LineDash [Fin 3, Fin 3], BeginPath,
          MoveTo (Fin 14) (toY (hs_baseline sample)),
          LineTo (num_sub width (Fin 14)) (toY (hs_baseline sample)), StrokePath, LineDash [], BeginPath,
          MoveTo (toX (hp_from trace)) base] @ line @
         [LineTo (toX (hp_through trace)) base, ClosePath, FillStyle ''rgba(235, 140, 50, 0.15)'', FillPath,
          BeginPath, MoveTo (toX (pt_at (hd curve))) (toY (pt_intensity (hd curve)))] @ line @
         [StrokeStyle ''rgba(235, 140, 50, 0.85)'', LineWidth (fl (16 / 10)), StrokePath] @
         (if hp_from trace \<le> hs_at sample
          then [StrokeStyle ''rgba(127, 186, 203, 0.75)'', LineWidth (Fin 1), BeginPath,
                MoveTo (toX (hs_at sample)) base, LineTo (toX (hs_at sample)) (num_add base (Fin 8)), StrokePath]
          else []) @
         [FillStyle ''#8b8578'', Font ''9px monospace'',
          FillText (to_fixed 1 (num_div (num_of_int (hp_through trace - hp_from trace)) giga) @
                    ''s '' @ mid_dot @ '' market time'') (Fin 14) (num_sub height (Fin 3))])"

text \<open>Assigning the canvas's size erases it before anything is drawn.\<close>

definition paint_hawkes :: "(jsnum \<Rightarrow> jsnum) \<Rightarrow> hawkes_panel \<Rightarrow> trace_error + hawkes_panel" where
  "paint_hawkes ex hk =
     (case hk_sample hk of
        None \<Rightarrow> Inr (hk\<lparr>hk_frame := False\<rparr>)
      | Some sample \<Rightarrow>
          let width = num_of_nat (fst (hk_client hk)); height = num_of_nat (snd (hk_client hk));
              cleared = hk\<lparr>hk_frame := False, hk_ops := [ClearRect (Fin 0) (Fin 0) width height]\<rparr>
          in case hawkesTrace ex [sample] width (Some (hk_marketAt hk)) (Some HAWKES_VIEWPORT_SPAN) of
               Inl e \<Rightarrow> Inl e
             | Inr trace \<Rightarrow>
                 let curve = orderTracePoints (hp_points trace)
                 in Inr (if curve = [] then cleared
                    else (put_text ''lambda'' (to_fixed 4 (pt_intensity (last curve)) @ '' /s'') cleared)
                           \<lparr>hk_ops := hk_ops cleared @ curve_ops sample trace curve width height\<rparr>))"

definition schedule :: "hawkes_panel \<Rightarrow> hawkes_panel" where
  "schedule hk = hk\<lparr>hk_frame := True\<rparr>"

definition live_metrics :: "(string \<times> jsval) list \<Rightarrow> string \<Rightarrow> (string \<times> jsnum) list" where
  "live_metrics store focus =
     (let slot = (\<lambda>k. case map_of store k of Some v \<Rightarrow> v | None \<Rightarrow> JUndef);
          hit = orelse (slot focus) (slot (replace_char CHR ''/'' CHR ''-'' focus))
      in case as_record hit of
           Some ob \<Rightarrow> List.map_filter (\<lambda>(k, v). map_option (Pair k) (finite_num v)) ob
         | None \<Rightarrow> [])"

definition per_second :: "nat \<Rightarrow> string \<Rightarrow> jsnum \<Rightarrow> string" where
  "per_second digits unit v = to_fixed digits v @ unit"

text \<open>A count when one is known, else the rate of arrivals, else a dash.\<close>

definition arrivals_text :: "jsnum option \<Rightarrow> jsnum option \<Rightarrow> string" where
  "arrivals_text n arrivals =
     (case n of
        Some c \<Rightarrow> to_fixed 0 c
      | None \<Rightarrow> (case arrivals of Some r \<Rightarrow> per_second 2 ''/s'' r | None \<Rightarrow> em_dash))"

definition rest_text :: "(string \<times> jsnum) list \<Rightarrow> HawkesTraceSample option \<Rightarrow> string" where
  "rest_text ms sample =
     (let muRest = (case map_of ms ''background_rate'' of
             Some b \<Rightarrow> b
           | None \<Rightarrow> num_add (metric_of ms ''background_rate:buy'') (metric_of ms ''background_rate:sell''))
      in if num_lt (Fin 0) muRest then per_second 4 '' /s'' muRest
         else case sample of Some s \<Rightarrow> per_second 4 '' /s'' (hs_baseline s) | None \<Rightarrow> em_dash)"

definition level_text :: "(string \<times> jsnum) list \<Rightarrow> string" where
  "level_text ms =
     (let totalArrival = num_add (metric_of ms ''arrival_rate:buy'') (metric_of ms ''arrival_rate:sell'')
      in case map_of ms ''conditional_intensity'' of
           Some c \<Rightarrow> per_second 2 '' /s'' c
         | None \<Rightarrow> if num_lt (Fin 0) totalArrival then per_second 2 ''/s'' totalArrival else em_dash)"

definition update_hawkes :: "string \<Rightarrow> (string \<times> jsval) list \<Rightarrow> hawkes_panel \<Rightarrow> hawkes_panel" where
  "update_hawkes focus store hk =
     (let live = live_metrics store focus;
          hk = (if live \<noteq> [] then hk\<lparr>hk_lastMetrics := live\<rparr> else hk);
          ms = (if live \<noteq> [] then live else hk_lastMetrics hk);
          radius = map_of ms ''branching_spectral_radius'';
          hk = put_text ''events'' (arrivals_text (map_of ms ''event_count'') (map_of ms ''arrival_rate:buy'')) hk;
          hk = put_text ''sells''
                 (arrivals_text (map_of ms ''event_count:sell'') (map_of ms ''arrival_rate:sell'')) hk;
          hk = put_text ''mu'' (rest_text ms (hk_sample hk)) hk;
          hk = put_text ''lambda'' (level_text ms) hk;
          hk = put_text ''eta'' (case radius of Some r \<Rightarrow> to_fixed 3 r | None \<Rightarrow> em_dash) hk;
          bar = (case radius of
             Some r \<Rightarrow> to_fixed 1 (num_min (Fin 100) (num_max (Fin 0) (num_mul r (Fin 100)))) @ ''%''
           | None \<Rightarrow> ''0%'')
      in schedule (hk\<lparr>hk_bar := bar\<rparr>))"

text \<open>The clock's milliseconds as whole nanoseconds; \<open>None\<close> is the \<^verbatim>\<open>RangeError\<close> of \<^verbatim>\<open>BigInt\<close>.\<close>

definition on_clock :: "jsnum option \<Rightarrow> hawkes_panel \<Rightarrow> hawkes_panel option" where
  "on_clock timestamp hk =
     (case timestamp of
        None \<Rightarrow> Some hk
      | Some ms \<Rightarrow>
          map_option (\<lambda>stamp. if stamp \<le> hk_marketAt hk then hk else schedule (hk\<lparr>hk_marketAt := stamp\<rparr>))
            (big_int (num_trunc (num_mul ms (Fin 1000000)))))"

definition start_hawkes :: "string \<Rightarrow> (string \<times> jsval) list \<Rightarrow> nat \<times> nat \<Rightarrow> hawkes_panel" where
  "start_hawkes focus store client =
     update_hawkes focus store
       \<lparr>hk_sample = None, hk_marketAt = 0, hk_frame = False, hk_lastMetrics = [], hk_texts = [],
        hk_bar = ''0%'', hk_client = client, hk_ops = []\<rparr>"

text \<open>What happens to the panel until the focus changes or it is left; a raised error leaves it as it was.\<close>

datatype hawkes_event =
  HawkesStore "(string \<times> jsval) list"
| HawkesClock "jsnum option"
| HawkesResize "nat \<times> nat"
| HawkesFrame

definition hawkes_step :: "(jsnum \<Rightarrow> jsnum) \<Rightarrow> string \<Rightarrow> hawkes_panel \<Rightarrow> hawkes_event \<Rightarrow> hawkes_panel" where
  "hawkes_step ex focus hk e =
     (case e of
        HawkesStore store \<Rightarrow> update_hawkes focus store hk
      | HawkesClock ms \<Rightarrow> (case on_clock ms hk of Some hk' \<Rightarrow> hk' | None \<Rightarrow> hk)
      | HawkesResize client \<Rightarrow> schedule (hk\<lparr>hk_client := client\<rparr>)
      | HawkesFrame \<Rightarrow>
          if hk_frame hk then (case paint_hawkes ex hk of Inr hk' \<Rightarrow> hk' | Inl _ \<Rightarrow> hk\<lparr>hk_frame := False\<rparr>) else hk)"

subsection \<open>What the panel shows\<close>

definition undrawn :: "hawkes_panel \<Rightarrow> bool" where
  "undrawn hk \<longleftrightarrow> hk_sample hk = None \<and> hk_ops hk = []"

lemma undrawn_frame [simp]:
  "undrawn (put_text key text hk) = undrawn hk" "undrawn (schedule hk) = undrawn hk"
  "undrawn (hk\<lparr>hk_bar := b\<rparr>) = undrawn hk" "undrawn (hk\<lparr>hk_lastMetrics := ms\<rparr>) = undrawn hk"
  "undrawn (hk\<lparr>hk_client := c\<rparr>) = undrawn hk" "undrawn (hk\<lparr>hk_marketAt := t\<rparr>) = undrawn hk"
  "undrawn (hk\<lparr>hk_frame := f\<rparr>) = undrawn hk"
  by (simp_all add: undrawn_def put_text_def schedule_def)

lemma undrawn_update [simp]: "undrawn (update_hawkes focus store hk) = undrawn hk"
  by (simp add: update_hawkes_def Let_def)

lemma undrawn_paint: "undrawn hk \<Longrightarrow> paint_hawkes ex hk = Inr (hk\<lparr>hk_frame := False\<rparr>)"
  by (simp add: undrawn_def paint_hawkes_def)

lemma undrawn_step: "undrawn hk \<Longrightarrow> undrawn (hawkes_step ex focus hk e)"
  by (cases e) (auto simp: hawkes_step_def on_clock_def undrawn_paint split: option.splits)

text \<open>
  The intensity curve is never drawn: nothing assigns the sample the panel draws from, so after
  any run of readings, clock ticks, resizes and animation frames its canvas has not received a
  command, although a frame is requested at every change.
\<close>

theorem intensity_never_drawn:
  "let hk = foldl (hawkes_step ex focus) (start_hawkes focus store client) events
   in hk_ops hk = [] \<and> hk_frame (hawkes_step ex focus hk (HawkesStore later))"
proof -
  have "undrawn (foldl (hawkes_step ex focus) (start_hawkes focus store client) events)"
    by (induction events rule: rev_induct)
      (simp_all add: undrawn_step, simp add: start_hawkes_def, simp add: undrawn_def)
  then show ?thesis
    by (simp add: Let_def undrawn_def hawkes_step_def update_hawkes_def schedule_def)
qed

text \<open>With a sample the same call draws: the curve starts a path of its own.\<close>

lemma sample_is_drawn:
  assumes "paint_hawkes ex (hk\<lparr>hk_sample := Some sample\<rparr>) = Inr hk'"
  shows "hk_ops hk' \<noteq> []"
  using assms
  by (auto simp: paint_hawkes_def put_text_def Let_def split: sum.splits if_splits)

text \<open>A frame with nothing to say about the focus leaves the texts as they were.\<close>

lemma readings_survive_gaps:
  assumes "live_metrics later focus = []"
  shows "hk_lastMetrics (update_hawkes focus later hk) = hk_lastMetrics hk"
  using assms by (simp add: update_hawkes_def put_text_def schedule_def Let_def)

end
