(* ===== verification/DeskPanels.thy ===== *)
theory DeskPanels
  imports Gauges DeskControls
begin

text \<open>
  The desk's panels: the live decisions with their oracle lamps
  (\<^verbatim>\<open>components/dashboard/decisions.tsx\<close>), the gate laboratory's controls and what its buttons send
  (\<^verbatim>\<open>components/dashboard/gate-lab.tsx\<close>), and the cards of open and closed lots
  (\<^verbatim>\<open>components/dashboard/positions.tsx\<close>). \<^verbatim>\<open>localeCompare\<close> is the parameter \<open>lc\<close>,
  \<^verbatim>\<open>toLocaleString\<close> is \<open>loc\<close>, \<^verbatim>\<open>toLocaleTimeString\<close> of a date is \<open>tm\<close>, \<^verbatim>\<open>Date.parse\<close> is \<open>dp\<close>.
\<close>

subsection \<open>Decisions\<close>

record DecisionRow =
  de_id :: string
  de_symbol :: string
  de_action :: string
  de_confidence :: jsval
  de_reason :: string
  de_gate :: jsval
  de_path :: jsval
  de_tier :: Book

definition spaced_dot :: string where "spaced_dot = '' '' @ mid_dot @ '' ''"

definition decisionReason :: "jsobj \<Rightarrow> string" where
  "decisionReason decision =
     (let text = (\<lambda>k f. if truthy (field decision k) then f (js_text (field decision k)) else [])
      in text ''gate'' (\<lambda>g. g @ '': '') @
         formatBlockedReason (text ''reason'' (\<lambda>r. r)) @
         text ''path'' (\<lambda>p. spaced_dot @ p) @ text ''tier'' (\<lambda>t. spaced_dot @ t))"

definition decision_listed :: "Book \<Rightarrow> jsobj \<Rightarrow> bool" where
  "decision_listed book decision \<longleftrightarrow>
     truthy (field decision ''symbol'') \<and> truthy (field decision ''action'') \<and> decisionBook decision = book"

definition decision_row :: "jsobj \<Rightarrow> DecisionRow" where
  "decision_row decision =
     (let tier = decisionBook decision
      in \<lparr>de_id = decisionStoreKey decision, de_symbol = js_text (field decision ''symbol''),
          de_action = js_text (field decision ''action''),
          de_confidence = orelse (field decision ''confidence'') (JNum (Fin 0)),
          de_reason = decisionReason (obj_set ''tier'' (JStr (book_name tier)) decision),
          de_gate = field decision ''gate'', de_path = field decision ''path'', de_tier = tier\<rparr>)"

definition action_rank :: "string \<Rightarrow> int" where
  "action_rank action =
     (if action = ''blocked'' then 0 else if action = ''enter'' \<or> action = ''exit'' then 1 else 2)"

definition compare_decisions :: "(string \<Rightarrow> string \<Rightarrow> int) \<Rightarrow> DecisionRow \<Rightarrow> DecisionRow \<Rightarrow> int" where
  "compare_decisions lc left right =
     (let byAction = action_rank (de_action left) - action_rank (de_action right)
      in if byAction \<noteq> 0 then byAction else lc (de_symbol left) (de_symbol right))"

definition decisionsFromLive ::
    "(string \<Rightarrow> string \<Rightarrow> int) \<Rightarrow> (string \<times> jsobj) list \<Rightarrow> Book \<Rightarrow> DecisionRow list" where
  "decisionsFromLive lc decisions book =
     sort_by (\<lambda>a b. compare_decisions lc a b \<le> 0)
       (map decision_row (filter (decision_listed book) (map_values decisions)))"

subsection \<open>Oracle lamps\<close>

datatype GateSide = SideVeto | SideApprove | SideDark

definition brightnessAt :: "jsobj list option \<Rightarrow> nat \<Rightarrow> jsnum" where
  "brightnessAt rows key =
     (case rows of
        None \<Rightarrow> Fin 0
      | Some rs \<Rightarrow>
          (case find (\<lambda>row. field row ''key'' = JNum (num_of_nat key)) rs of
             Some row \<Rightarrow> (case finite_num (field row ''brightness'') of Some b \<Rightarrow> b | None \<Rightarrow> Fin 0)
           | None \<Rightarrow> Fin 0))"

text \<open>The numbers of the segments of the form \<^verbatim>\<open>R07\<close>.\<close>

definition pathKeys :: "string option \<Rightarrow> nat list" where
  "pathKeys path =
     (case path of
        None \<Rightarrow> []
      | Some p \<Rightarrow>
          List.map_filter (\<lambda>part. case trim part of
              [r, a, b] \<Rightarrow> if r = CHR ''R'' \<and> is_digit a \<and> is_digit b
                           then Some (nat (int_of_digits [a, b])) else None
            | _ \<Rightarrow> None)
            (if p = [] then [] else split_on CHR ''/'' p))"

definition gateSide ::
    "OracleGate \<Rightarrow> jsobj list option \<Rightarrow> nat list \<Rightarrow> OracleOverride option \<Rightarrow> GateSide" where
  "gateSide gate rows lit ov =
     (case ov of
        Some Veto \<Rightarrow> SideVeto
      | Some Approve \<Rightarrow> SideApprove
      | _ \<Rightarrow>
          (let veto = brightnessAt rows (og_veto gate); approve = brightnessAt rows (og_approve gate)
           in if num_lt (Fin 0) veto \<or> num_lt (Fin 0) approve
              then if num_le approve veto then SideVeto else SideApprove
              else if og_veto gate \<in> set lit then SideVeto
              else if og_approve gate \<in> set lit then SideApprove
              else SideDark))"

primrec side_text :: "GateSide \<Rightarrow> string" where
  "side_text SideVeto = ''veto''"
| "side_text SideApprove = ''approve''"
| "side_text SideDark = ''dark''"

record lamp =
  la_gate :: string
  la_side :: GateSide
  la_forced :: bool
  la_title :: string

definition gate_lamp ::
    "jsobj list option \<Rightarrow> nat list \<Rightarrow> (string \<times> OracleOverride) list \<Rightarrow> OracleGate \<Rightarrow> lamp" where
  "gate_lamp rows lit overrides gate =
     (let ov = map_of overrides (og_id gate); side = gateSide gate rows lit ov;
          forced = (ov \<noteq> None \<and> ov \<noteq> Some Auto);
          state = (if side = SideDark then ''dark''
                   else side_text side @ (if forced then spaced_dot @ ''forced'' else []))
      in \<lparr>la_gate = og_id gate, la_side = side, la_forced = forced,
          la_title = og_label gate @ '' ('' @ state @ ''). '' @ og_hint gate\<rparr>)"

definition GateLamps ::
    "string \<Rightarrow> string option \<Rightarrow> (string \<times> jsobj list) list \<Rightarrow> (string \<times> OracleOverride) list \<Rightarrow> lamp list" where
  "GateLamps symbol path regions overrides =
     map (gate_lamp (coalesce (map_of regions symbol) (map_of regions (replace_char CHR ''/'' CHR ''-'' symbol)))
            (pathKeys path) overrides)
       ORACLE_GATES"

record decision_card =
  dc_symbol :: string
  dc_confidence :: "string option"
  dc_action :: string
  dc_lamps :: "lamp list"
  dc_reason :: string

definition decision_card ::
    "(string \<times> jsobj list) list \<Rightarrow> (string \<times> OracleOverride) list \<Rightarrow> DecisionRow \<Rightarrow> decision_card" where
  "decision_card regions overrides de =
     \<lparr>dc_symbol = de_symbol de,
      dc_confidence = (case as_num (de_confidence de) of
         Some c \<Rightarrow> if num_lt (Fin 0) c then Some (to_fixed 4 c) else None | None \<Rightarrow> None),
      dc_action = de_action de,
      dc_lamps = GateLamps (de_symbol de) (as_str (de_path de)) regions overrides,
      dc_reason = de_reason de\<rparr>"

text \<open>The panel's heading and its cards; no card means the waiting line.\<close>

definition Decisions ::
    "(string \<Rightarrow> string \<Rightarrow> int) \<Rightarrow> (string \<times> jsobj) list \<Rightarrow> Book \<Rightarrow> (string \<times> jsobj list) list \<Rightarrow>
     GateLabState \<Rightarrow> string \<times> decision_card list" where
  "Decisions lc decisions book regions lab =
     (let listed = decisionsFromLive lc decisions book
      in (if listed = [] then ''idle'' else num_text (num_of_nat (length listed)) @ '' live'',
          map (decision_card regions (gl_overrides lab)) listed))"

definition inspectDecision :: "string \<Rightarrow> decision_side \<Rightarrow> decision_side" where
  "inspectDecision symbol s = setDecisionsPendingFocus symbol (setDecisionsScopeSymbol (Some symbol) s)"

subsection \<open>The laboratory's controls\<close>

definition en_dash :: string where "en_dash = [CHR 0xE2, CHR 0x80, CHR 0x93]"

definition apostrophe :: string where "apostrophe = [CHR 0xE2, CHR 0x80, CHR 0x99]"

record lab_field =
  lf_key :: string
  lf_label :: string
  lf_step :: string
  lf_hint :: string

definition lab_field :: "string \<times> string \<times> string \<times> string \<Rightarrow> lab_field" where
  "lab_field f = (case f of (k, l, s, h) \<Rightarrow> \<lparr>lf_key = k, lf_label = l, lf_step = s, lf_hint = h\<rparr>)"

definition RISK_FIELDS :: "lab_field list" where
  "RISK_FIELDS = map lab_field
     [(''min_mover_volume_usd'', ''vol$'', ''1000'',
       ''Minimum 24h quote volume (USD). Below this, Volume quote vetoes the name.''),
      (''min_mover_change_pct'', ''day%'', ''0.1'',
       ''Minimum open-to-last move (%). Flat names fail Day move even if volume looks fine.''),
      (''max_entry_spread_pct'', ''spr%'', ''0.1'',
       ''Maximum touch spread (%) allowed at entry. Wider than this '' @ right_arrow @ '' Spread veto.''),
      (''min_touch_bid_cash'', ''cash'', ''10'',
       ''Minimum top-of-book bid notional. Thin touch cash fails Book integrity.''),
      (''min_backing_ratio'', ''back'', ''0.05'',
       ''How much bid/ask support must sit inside the mid band (0'' @ en_dash @
       ''1). Low backing = fake wall.''),
      (''min_tape_trades'', ''tape'', ''1'',
       ''Minimum prints in the tape window. Dead tape fails Book integrity.''),
      (''max_entry_open_drag_pct'', ''drag%'', ''0.1'',
       ''Max close-now drag (%) you'' @ apostrophe @ ''ll accept on entry. High drag '' @ right_arrow @
       '' Capacity / integrity veto.'')]"

definition RESONANCE_FIELDS :: "lab_field list" where
  "RESONANCE_FIELDS = map lab_field
     [(''min_task_relative_precision'', ''prec'', ''0.05'',
       ''Minimum task-relative precision. Below this the model skips with the resonance gate.''),
      (''min_surprise'', ''surp'', ''0.05'',
       ''Minimum surprise. Low surprise = manifold thinks nothing moved '' @ right_arrow @ '' skip.''),
      (''min_supported_horizon'', ''horz'', ''1'',
       ''Minimum supported forward-curve horizon (steps). Short horizon '' @ right_arrow @ '' skip.''),
      (''min_enter_z'', ''enterZ'', ''0.05'',
       ''Minimum forward-story enter/hold net (z). Below this '' @ right_arrow @
       '' story skip. Bypass forces bullish.'')]"

primrec override_text :: "OracleOverride \<Rightarrow> string" where
  "override_text Auto = ''auto''"
| "override_text Veto = ''veto''"
| "override_text Approve = ''approve''"

primrec overrideTone :: "OracleOverride \<Rightarrow> string" where
  "overrideTone Approve = ''border-(--up)/50 text-(--up)''"
| "overrideTone Veto = ''border-(--down)/50 text-(--down)''"
| "overrideTone Auto = ''border-(--line) text-(--f3)''"

primrec state_line :: "OracleOverride \<Rightarrow> string" where
  "state_line Auto = ''Following live emit (brighter of veto/approve).''"
| "state_line Veto = ''Forced veto '' @ em_dash @ '' lamp stays red.''"
| "state_line Approve = ''Forced approve '' @ em_dash @ '' lamp stays green.''"

text \<open>The button of one oracle: its caption, tone and hint.\<close>

definition oracle_button :: "GateLabState \<Rightarrow> OracleGate \<Rightarrow> string \<times> string \<times> string" where
  "oracle_button s gate =
     (let v = override_of (og_id gate) s
      in (og_id gate @ '':'' @ override_text v, overrideTone v,
          og_label gate @ ''. '' @ og_hint gate @ '' Click cycles auto '' @ right_arrow @ '' veto '' @
          right_arrow @ '' approve. '' @ state_line v))"

definition risk_object :: "RiskDraft \<Rightarrow> jsobj" where
  "risk_object r =
     [(''min_mover_volume_usd'', JNum (min_mover_volume_usd r)),
      (''min_mover_change_pct'', JNum (min_mover_change_pct r)),
      (''max_entry_spread_pct'', JNum (max_entry_spread_pct r)),
      (''min_touch_bid_cash'', JNum (min_touch_bid_cash r)),
      (''min_backing_ratio'', JNum (min_backing_ratio r)),
      (''min_tape_trades'', JNum (min_tape_trades r)),
      (''max_entry_open_drag_pct'', JNum (max_entry_open_drag_pct r))]"

definition resonance_object :: "ResonanceDraft \<Rightarrow> jsobj" where
  "resonance_object r =
     [(''bypass'', JBool (bypass r)),
      (''min_task_relative_precision'', JNum (min_task_relative_precision r)),
      (''min_surprise'', JNum (min_surprise r)),
      (''min_supported_horizon'', JNum (min_supported_horizon r)),
      (''min_enter_z'', JNum (min_enter_z r))]"

definition applyRisk :: "GateLabState \<Rightarrow> hub_handle \<Rightarrow> hub_handle" where
  "applyRisk s h = snd (trySendCommand (obj_merge [(''type'', JStr ''risk'')] (risk_object (gl_risk s))) h)"

text \<open>\<^verbatim>\<open>applyResonance\<close> spreads its argument, the draft unless one is given, over the command.\<close>

definition applyResonance :: "jsobj \<Rightarrow> hub_handle \<Rightarrow> hub_handle" where
  "applyResonance draft h = snd (trySendCommand (obj_merge [(''type'', JStr ''resonance'')] draft) h)"

text \<open>
  The buttons: the handler is called with the click's event object. \<open>copied\<close> says whether the event
  can be copied to the worker; where it cannot (it holds document nodes), \<^verbatim>\<open>postMessage\<close> throws and
  \<^verbatim>\<open>trySendCommand\<close> swallows that.
\<close>

definition click_apply_risk :: "jsobj \<Rightarrow> GateLabState \<Rightarrow> hub_handle \<Rightarrow> hub_handle" where
  "click_apply_risk event s h = applyRisk s h"

definition click_apply_resonance :: "bool \<Rightarrow> jsobj \<Rightarrow> GateLabState \<Rightarrow> hub_handle \<Rightarrow> hub_handle" where
  "click_apply_resonance copied event s h = (if copied then applyResonance event h else h)"

text \<open>The bypass button sends the toggled draft; \<open>s\<close> is the state the panel was rendered from.\<close>

definition click_bypass :: "GateLabState \<Rightarrow> hub_handle \<Rightarrow> GateLabState \<times> hub_handle" where
  "click_bypass s h =
     (let toggled = toggleResonanceBypass s
      in (toggled, applyResonance (obj_set ''bypass'' (JBool (\<not> bypass (gl_resonance s)))
                    (resonance_object (gl_resonance toggled))) h))"

subsection \<open>Cards of lots\<close>

definition formatNumber :: "jsval \<Rightarrow> nat \<Rightarrow> string" where
  "formatNumber v digits =
     (case v of
        JNum n \<Rightarrow> if is_finite n then to_fixed digits n else em_dash
      | JStr s \<Rightarrow> if s \<noteq> [] \<and> is_finite (number_of_text s) then to_fixed digits (number_of_text s) else s
      | _ \<Rightarrow> if nullish v then em_dash else js_text v)"

definition number_or_null :: "jsnum option \<Rightarrow> jsval" where
  "number_or_null v = (case v of Some n \<Rightarrow> JNum n | None \<Rightarrow> JNull)"

datatype pnl_tone = PnlUp | PnlDown | PnlFlat

definition pnlTone :: "jsnum \<Rightarrow> pnl_tone" where
  "pnlTone v = (if num_lt (Fin 0) v then PnlUp else if num_lt v (Fin 0) then PnlDown else PnlFlat)"

record SellMarker =
  sm_trigger :: string
  sm_label :: string
  sm_title :: string

definition sell_marker :: "(jsnum \<Rightarrow> string) \<Rightarrow> jsobj \<Rightarrow> SellMarker" where
  "sell_marker tm sell =
     (let get = (\<lambda>k d. orelse (field sell k) d);
          trigger = js_text (get ''trigger'' (JStr []));
          qty = (case nonempty_str (field sell ''qty'') of Some q \<Rightarrow> q | None \<Rightarrow> []);
          stamp = to_number (get ''at'' (JNum (Fin 0)));
          time = (if num_lt (Fin 0) stamp then tm (num_div stamp (Fin 1000000)) else [])
      in \<lparr>sm_trigger = trigger,
          sm_label = formatExitTrigger trigger @
            (if qty \<noteq> [] then '' '' @ formatNumber (JStr qty) 4 @ '' qty'' else []),
          sm_title = join_with spaced_dot (filter (\<lambda>part. part \<noteq> [])
            [trigger, time, if qty \<noteq> [] then ''qty '' @ qty else ''no order'',
             ''capacity '' @ formatNumber (field sell ''capacityQty'') 4 @ '' (ratio '' @
               formatNumber (field sell ''capacityRatio'') 2 @ '')'',
             ''budget '' @ formatNumber (JNum (num_mul (to_number (get ''budget'' (JNum (Fin 0)))) (Fin 100))) 3 @ ''%'',
             js_text (get ''note'' (JStr []))])\<rparr>)"

definition sellMarkers :: "(jsnum \<Rightarrow> string) \<Rightarrow> jsobj list option \<Rightarrow> SellMarker list" where
  "sellMarkers tm sells = (case sells of Some ss \<Rightarrow> map (sell_marker tm) ss | None \<Rightarrow> [])"

record PositionCardData =
  pc_symbol :: string
  pc_status :: string
  pc_pnl :: string
  pc_pnlValue :: jsnum
  pc_entryPrice :: string
  pc_mark :: string
  pc_budget :: string
  pc_sells :: "SellMarker list"

definition percent_text :: "jsnum \<Rightarrow> string" where
  "percent_text v = to_fixed 1 (num_mul v (Fin 100)) @ ''%''"

definition symbol_of :: "jsobj \<Rightarrow> string" where
  "symbol_of row = (case nonempty_str (field row ''symbol'') of Some s \<Rightarrow> s | None \<Rightarrow> [])"

definition open_card_shown :: "(string \<Rightarrow> int option) \<Rightarrow> jsobj \<Rightarrow> bool" where
  "open_card_shown dp row \<longleftrightarrow> symbol_of row \<noteq> [] \<and>
     (case ro_closedAt (positionReadout dp row) of Some t \<Rightarrow> t = [] | None \<Rightarrow> True)"

definition position_card :: "(jsnum \<Rightarrow> string) \<Rightarrow> (string \<Rightarrow> int option) \<Rightarrow> jsobj \<Rightarrow> PositionCardData" where
  "position_card tm dp row =
     (let readout = positionReadout dp row; pnlFrac = num_or_zero (ro_returnPct readout)
      in \<lparr>pc_symbol = symbol_of row,
          pc_status = (case nonempty_str (field row ''book'') of Some b \<Rightarrow> b | None \<Rightarrow> ''open''),
          pc_pnl = percent_text pnlFrac, pc_pnlValue = pnlFrac,
          pc_entryPrice = formatNumber (number_or_null (ro_entryPrice readout)) 6,
          pc_mark = formatNumber (number_or_null (ro_mark readout)) 6,
          pc_budget = (case field row ''entry_path'' of JStr p \<Rightarrow> p | _ \<Rightarrow> em_dash),
          pc_sells = sellMarkers tm None\<rparr>)"

definition selectPositions ::
    "(jsnum \<Rightarrow> string) \<Rightarrow> (string \<Rightarrow> string \<Rightarrow> int) \<Rightarrow> (string \<Rightarrow> int option) \<Rightarrow> jsobj list \<Rightarrow> PositionCardData list" where
  "selectPositions tm lc dp rows =
     sort_by (\<lambda>a b. lc (pc_symbol a) (pc_symbol b) \<le> 0)
       (map (position_card tm dp) (filter (open_card_shown dp) rows))"

record ClosedCardData =
  cc_key :: string
  cc_symbol :: string
  cc_shadowPnl :: string
  cc_shadowValue :: jsnum
  cc_sells :: "SellMarker list"

definition closed_card ::
    "(jsnum \<Rightarrow> string) \<Rightarrow> (string \<Rightarrow> int option) \<Rightarrow> nat \<times> jsobj \<Rightarrow> ClosedCardData" where
  "closed_card tm dp entry =
     (let (index, row) = entry; pnlFrac = num_or_zero (ro_returnPct (positionReadout dp row))
      in \<lparr>cc_key = js_text (orelse (field row ''id'') (orelse (field row ''symbol'') (JNum (num_of_nat index)))),
          cc_symbol = js_text (orelse (field row ''symbol'') (JStr [])),
          cc_shadowPnl = percent_text pnlFrac, cc_shadowValue = pnlFrac,
          cc_sells = sellMarkers tm None\<rparr>)"

definition selectClosed ::
    "(jsnum \<Rightarrow> string) \<Rightarrow> (string \<Rightarrow> int option) \<Rightarrow> jsobj list \<Rightarrow> ClosedCardData list" where
  "selectClosed tm dp rows =
     rev (map (closed_card tm dp)
       (enumerate 0 (filter (\<lambda>row. ro_closedAt (positionReadout dp row) \<noteq> None) rows)))"

text \<open>The panel over the lots of the store: open cards, then the session's closed ones.\<close>

definition Positions ::
    "(jsnum \<Rightarrow> string) \<Rightarrow> (string \<Rightarrow> string \<Rightarrow> int) \<Rightarrow> (string \<Rightarrow> int option) \<Rightarrow> (string \<times> jsobj) list \<Rightarrow>
     PositionCardData list \<times> ClosedCardData list" where
  "Positions tm lc dp state =
     (let rows = positionRows lc state in (selectPositions tm lc dp rows, selectClosed tm dp rows))"

subsection \<open>What the panels show\<close>

lemma compare_decisions_le:
  "compare_decisions lc a b \<le> 0 \<longleftrightarrow>
     action_rank (de_action a) < action_rank (de_action b) \<or>
     action_rank (de_action a) = action_rank (de_action b) \<and> lc (de_symbol a) (de_symbol b) \<le> 0"
  by (auto simp: compare_decisions_def Let_def)

lemma decisions_comparator: "collation lc \<Longrightarrow> comparator (\<lambda>a b. compare_decisions lc a b \<le> 0)"
proof
  fix x y z
  assume lc: "collation lc"
  show "compare_decisions lc x y \<le> 0 \<or> compare_decisions lc y x \<le> 0"
    unfolding compare_decisions_le using collation_sign(3) [OF lc, of "de_symbol x" "de_symbol y"] by linarith
  assume "compare_decisions lc x y \<le> 0" "compare_decisions lc y z \<le> 0"
  then show "compare_decisions lc x z \<le> 0"
    unfolding compare_decisions_le using collation_trans(1) [OF lc] by (smt (verit))
qed

text \<open>
  The live list shows exactly the ledger's decisions that name a symbol and an action, each
  once, blocked ones first, then entries and exits, then the rest, each group by symbol.
\<close>

theorem decisions_listed_in_order:
  assumes "collation lc"
  shows "let rows = decisionsFromLive lc decisions book
    in mset rows = mset (map decision_row (filter (decision_listed book) (map_values decisions))) \<and>
       sorted_wrt (\<lambda>a b. compare_decisions lc a b \<le> 0) rows \<and> list_all (\<lambda>r. de_tier r = book) rows"
proof -
  have "sorted_wrt (\<lambda>a b. compare_decisions lc a b \<le> 0) (decisionsFromLive lc decisions book)"
    unfolding decisionsFromLive_def by (rule comparator.sorted_sort_by [OF decisions_comparator [OF assms]])
  moreover have "list_all (\<lambda>r. de_tier r = book) (decisionsFromLive lc decisions book)"
    by (auto simp: decisionsFromLive_def list_all_iff decision_row_def decision_listed_def Let_def)
  ultimately show ?thesis by (simp add: Let_def decisionsFromLive_def)
qed

lemma decisions_listed_in_order_witness:
  "sorted_wrt (\<lambda>a b. compare_decisions (\<lambda>_ _. 0) a b \<le> 0)
     (decisionsFromLive (\<lambda>_ _. 0) [(''a'', [(''symbol'', JStr ''A''), (''action'', JStr ''hold'')])] Virtual)"
  using decisions_listed_in_order [of "\<lambda>_ _. 0"] by (simp add: collation_def Let_def)

lemma lamp_cong:
  "(\<And>k. override_of k s = override_of k s') \<Longrightarrow>
     gate_lamp rows lit (gl_overrides s) gate = gate_lamp rows lit (gl_overrides s') gate"
  unfolding gate_lamp_def gateSide_def override_of_def
  by (drule meta_spec [of _ "og_id gate"])
    (auto simp: Let_def split: option.splits OracleOverride.splits)

lemma override_of_cycle:
  "override_of k (cycleOracleOverride ident s) = (if k = ident then next_override (override_of ident s) else override_of k s)"
  by (simp add: cycleOracleOverride_def setOracleOverride_def override_of_def map_of_obj_set)

text \<open>
  C24. The lamps follow the laboratory: one click on an oracle turns an automatic lamp into a forced
  veto whatever the desk emits, a forced veto into a forced approval, and a forced approval back
  into what the desk's own emission gives; three clicks restore the lamps of every symbol.
\<close>

theorem cycled_lamps:
  "let once = cycleOracleOverride (og_id gate) lab;
       thrice = cycleOracleOverride (og_id gate) (cycleOracleOverride (og_id gate) once)
   in GateLamps symbol path regions (gl_overrides thrice) = GateLamps symbol path regions (gl_overrides lab) \<and>
      la_side (gate_lamp rows lit (gl_overrides once) gate) =
        (case override_of (og_id gate) lab of
           Auto \<Rightarrow> SideVeto | Veto \<Rightarrow> SideApprove | Approve \<Rightarrow> gateSide gate rows lit None)"
proof -
  let ?once = "cycleOracleOverride (og_id gate) lab"
  let ?thrice = "cycleOracleOverride (og_id gate) (cycleOracleOverride (og_id gate) ?once)"
  have "override_of k ?thrice = override_of k lab" for k
    by (cases "override_of (og_id gate) lab") (simp_all add: override_of_cycle)
  then have "GateLamps symbol path regions (gl_overrides ?thrice) = GateLamps symbol path regions (gl_overrides lab)"
    unfolding GateLamps_def by (intro map_cong refl lamp_cong)
  moreover have "la_side (gate_lamp rows lit (gl_overrides s) gate) =
      (case override_of (og_id gate) s of Veto \<Rightarrow> SideVeto | Approve \<Rightarrow> SideApprove | Auto \<Rightarrow> gateSide gate rows lit None)" for s
    by (auto simp: gate_lamp_def gateSide_def override_of_def Let_def split: option.splits OracleOverride.splits)
  ultimately show ?thesis
    by (cases "override_of (og_id gate) lab") (simp_all add: Let_def override_of_cycle)
qed

text \<open>
  C25. The button that should apply the resonance draft sends none: its handler receives the
  click's event, which either cannot be posted, so that nothing leaves the page, or replaces the
  command's type by its own, whatever the laboratory holds; the bypass button does send the toggled
  draft.
\<close>

theorem apply_resonance_sends_event:
  assumes "distinct (map fst event)" "field event ''type'' = JStr ''click''"
  shows "(if copied
      then \<exists>command. click_apply_resonance copied event s (Some sent) = Some (sent @ [COMMAND (Some command)]) \<and>
             field command ''type'' = JStr ''click''
      else click_apply_resonance copied event s (Some sent) = Some sent) \<and>
    snd (click_bypass s (Some sent)) =
      Some (sent @ [COMMAND (Some ((''type'', JStr ''resonance'') #
        resonance_object ((gl_resonance s)\<lparr>bypass := \<not> bypass (gl_resonance s)\<rparr>)))])"
proof -
  have "map_of event ''type'' = Some (JStr ''click'')"
    using assms(2) by (simp add: field_def split: option.splits)
  then have "field (obj_merge [(''type'', JStr ''resonance'')] event) ''type'' = JStr ''click''"
    by (simp add: field_def map_of_obj_merge map_of_rev_distinct [OF assms(1)])
  then have "\<exists>command. click_apply_resonance True event s (Some sent) = Some (sent @ [COMMAND (Some command)]) \<and>
      field command ''type'' = JStr ''click''"
    by (simp add: click_apply_resonance_def applyResonance_def trySendCommand_def sendCommand_def)
  moreover have "snd (click_bypass s (Some sent)) =
     Some (sent @ [COMMAND (Some ((''type'', JStr ''resonance'') #
        resonance_object ((gl_resonance s)\<lparr>bypass := \<not> bypass (gl_resonance s)\<rparr>)))])"
    by (simp add: applyResonance_def click_bypass_def trySendCommand_def sendCommand_def
        toggleResonanceBypass_def setResonanceField_def resonance_object_def obj_merge_def obj_set_def
        array_index_def is_digit_def Let_def)
  moreover have "click_apply_resonance False event s (Some sent) = Some sent"
    by (simp add: click_apply_resonance_def)
  ultimately show ?thesis by (cases copied) simp_all
qed

lemma apply_resonance_sends_event_witness:
  "\<exists>command. click_apply_resonance True [(''type'', JStr ''click'')] gate_lab_start (Some []) =
     Some ([] @ [COMMAND (Some command)]) \<and> field command ''type'' = JStr ''click''"
  using apply_resonance_sends_event [of "[(''type'', JStr ''click'')]" True gate_lab_start "[]"] by auto

definition carded_row :: "(string \<Rightarrow> int option) \<Rightarrow> jsobj \<Rightarrow> bool" where
  "carded_row dp row \<longleftrightarrow> symbol_of row \<noteq> [] \<and> ro_closedAt (positionReadout dp row) \<noteq> Some []"

lemma map_enumerate_snd: "map (\<lambda>(i, x). g x) (enumerate n xs) = map g xs"
  by (induction xs arbitrary: n) simp_all

lemma closed_card_symbol: "symbol_of row \<noteq> [] \<Longrightarrow> cc_symbol (closed_card tm dp (i, row)) = symbol_of row"
  by (auto simp: closed_card_def symbol_of_def nonempty_str_def Let_def split: jsval.splits if_splits)



end
