(* ===== verification/Precision.thy ===== *)
theory Precision
  imports JsText
begin

text \<open>
  Number texts of a given precision: \<^verbatim>\<open>toExponential\<close> and what \<^verbatim>\<open>Number(x.toPrecision(n))\<close> reads
  back, used by the kernel inspector and the view of settled trips.
\<close>

text \<open>\<open>d + 1\<close> significant digits of a positive number and its exponent; the larger on a tie.\<close>

definition significant :: "nat \<Rightarrow> rat \<Rightarrow> int \<times> int" where
  "significant d a =
     (let e = dec_point a - 1; n = \<lfloor>a / 10 powi (e - int d) + 1 / 2\<rfloor>
      in if n = 10 ^ (d + 1) then (10 ^ d, e + 1) else (n, e))"

definition to_exponential :: "nat \<Rightarrow> jsnum \<Rightarrow> string" where
  "to_exponential d v =
     (case v of
        Fin q \<Rightarrow>
          if q = 0 then ''0.'' @ replicate d CHR ''0'' @ ''e+0''
          else let (n, e) = significant d \<bar>q\<bar>; ds = digits_of n
               in (if q < 0 then ''-'' else []) @ take 1 ds @ ''.'' @ drop 1 ds @
                  (if e < 0 then ''e-'' else ''e+'') @ digits_of \<bar>e\<bar>
      | _ \<Rightarrow> num_text v)"

definition to_precision_num :: "nat \<Rightarrow> jsnum \<Rightarrow> jsnum" where
  "to_precision_num d v =
     (case v of
        Fin q \<Rightarrow>
          if q = 0 then Fin 0
          else let (n, e) = significant (d - 1) \<bar>q\<bar>
               in fl ((if q < 0 then - 1 else 1) * of_int n * 10 powi (e - int (d - 1)))
      | _ \<Rightarrow> v)"

lemma precision_samples:
  "to_exponential 2 (Fin (1 / 20000)) = ''5.00e-5''" "to_precision_num 8 (Fin (123456789 / 10)) = Fin 12345679"
  by (code_simp, code_simp)

end
