(* ===== verification/Inspector.thy ===== *)
theory Inspector
  imports Gauges Pixels DeskControls Precision
begin

text \<open>
  The kernel inspector (\<^verbatim>\<open>components/kernel/inspector.tsx\<close>): the readings it takes from a frame of
  the wire or a plain row, the history it keeps of one kernel while it is open, and what it shows.
  The spark line's scaling is \<^verbatim>\<open>scaleSparklineValues\<close> of \<^verbatim>\<open>components/ui/sparkline.tsx\<close>. An error of
  the kernel tables (an unknown source) is the left of a sum.
\<close>

subsection \<open>Readings\<close>

datatype kernel_frame = WireFrame Value | RowFrame jsobj

definition nested_metrics :: "(string \<times> jsnum) list \<Rightarrow> jsobj \<Rightarrow> (string \<times> jsnum) list" where
  "nested_metrics out ob =
     foldl (\<lambda>out (inner, nested). case finite_num nested of Some n \<Rightarrow> obj_set inner n out | None \<Rightarrow> out) out ob"

definition row_metric :: "(string \<times> jsnum) list \<Rightarrow> string \<times> jsval \<Rightarrow> (string \<times> jsnum) list" where
  "row_metric out entry =
     (case entry of
        (key, raw) \<Rightarrow>
          (case finite_num raw of
             Some n \<Rightarrow> obj_set key n out
           | None \<Rightarrow> (case raw of JObj ob \<Rightarrow> nested_metrics out ob | _ \<Rightarrow> out)))"

definition asMetrics :: "(bytes \<Rightarrow> jsval option) \<Rightarrow> kernel_frame option \<Rightarrow> (string \<times> jsnum) list" where
  "asMetrics parse frame =
     (case frame of
        None \<Rightarrow> []
      | Some (WireFrame v) \<Rightarrow> metrics parse v
      | Some (RowFrame ob) \<Rightarrow> foldl row_metric [] ob)"

text \<open>A store's frame of a symbol, under either spelling.\<close>

definition signalAt ::
    "(string \<times> (string \<times> kernel_frame) list) list \<Rightarrow> string \<Rightarrow> string \<Rightarrow> kernel_frame option" where
  "signalAt stores source symbol =
     (case map_of stores source of
        None \<Rightarrow> None
      | Some store \<Rightarrow> coalesce (map_of store symbol) (map_of store (replace_char CHR ''/'' CHR ''-'' symbol)))"

definition pick_finite :: "(string \<times> jsnum) list \<Rightarrow> string \<Rightarrow> jsnum option" where
  "pick_finite ms key = shown (map_of ms key)"

definition readingsFromValues ::
    "(bytes \<Rightarrow> jsval option) \<Rightarrow> kernel_frame option \<Rightarrow> string option \<Rightarrow> jsnum list" where
  "readingsFromValues parse frame source =
     (case frame of
        None \<Rightarrow> []
      | Some _ \<Rightarrow>
          (let ms = asMetrics parse frame;
               headline = Option.bind source sourceHeadline;
               named = (case headline of
                  Some h \<Rightarrow> if h \<noteq> [] \<and> h \<in> set (map_keys ms) then pick_finite ms h else None
                | None \<Rightarrow> None);
               reading_of = coalesce named (if ms \<noteq> [] then pick_finite ms (hd (map_keys ms)) else None)
           in case reading_of of Some v \<Rightarrow> [v] | None \<Rightarrow> []))"

definition formatMetricValue :: "jsnum option \<Rightarrow> string" where
  "formatMetricValue val =
     (case val of
        None \<Rightarrow> em_dash
      | Some v \<Rightarrow>
          if num_eq v (Fin 0) then ''0.0000''
          else if num_lt (num_abs v) (fl (1 / 10000)) then to_exponential 2 v
          else to_fixed 4 v)"

definition metricValues ::
    "(bytes \<Rightarrow> jsval option) \<Rightarrow> kernel_frame option \<Rightarrow> string list \<Rightarrow> (string \<times> jsnum option) list" where
  "metricValues parse row names =
     (let ms = asMetrics parse row in map (\<lambda>name. (name, pick_finite ms name)) names)"

subsection \<open>The spark line's scale\<close>

definition scaleSparklineValues :: "jsnum list \<Rightarrow> jsnum list" where
  "scaleSparklineValues vs =
     (let lo = running_min vs; extent = num_sub (running_max vs) lo
      in map (\<lambda>v. if num_lt (Fin 0) extent then num_div (num_sub v lo) extent else Fin 1) vs)"

subsection \<open>The panel\<close>

definition isResonance :: "string \<Rightarrow> bool" where
  "isResonance source \<longleftrightarrow> source = ''resonance''"

text \<open>The effect that keeps the history: it runs when the source or the frame read changes.\<close>

definition history_effect ::
    "(bytes \<Rightarrow> jsval option) \<Rightarrow> string option \<Rightarrow> kernel_frame option \<Rightarrow> jsnum list \<Rightarrow> jsnum list" where
  "history_effect parse source signalReading history =
     (case source of
        None \<Rightarrow> []
      | Some s \<Rightarrow>
          if s = [] \<or> isResonance s then []
          else case last_opt (readingsFromValues parse signalReading source) of
                 None \<Rightarrow> history
               | Some v \<Rightarrow> take_last 50 (history @ [v]))"

record inspector_view =
  iv_copy :: KernelCopy
  iv_badge :: KernelStatusMeta
  iv_paths :: KernelSpark
  iv_history :: string
  iv_level :: jsnum
  iv_levelLabel :: "string \<times> string"
  iv_fill :: jsnum
  iv_metrics :: "(string \<times> string \<times> jsnum) list"
  iv_footer :: "string \<times> string"

definition kernelFrame_of ::
    "(string \<times> (string \<times> kernel_frame) list) list \<Rightarrow> string \<Rightarrow> string \<Rightarrow> kernel_frame option" where
  "kernelFrame_of stores source focus = signalAt stores (if isResonance source then ''resonance'' else source) focus"

definition inspector_points ::
    "(bytes \<Rightarrow> jsval option) \<Rightarrow> string \<Rightarrow> kernel_frame option \<Rightarrow> jsnum list \<Rightarrow> jsnum list" where
  "inspector_points parse source frame history =
     (let livePoints = readingsFromValues parse frame (Some source)
      in if isResonance source then livePoints
         else if history \<noteq> [] then history else livePoints)"

definition metric_meter :: "string \<times> jsnum option \<Rightarrow> string \<times> string \<times> jsnum" where
  "metric_meter entry =
     (case entry of
        (name, raw) \<Rightarrow>
          (metricLabel name, formatMetricValue raw, case raw of None \<Rightarrow> Fin 0 | Some v \<Rightarrow> meterPercent (Some v)))"

definition latest_text :: "string \<Rightarrow> jsnum option \<Rightarrow> string" where
  "latest_text source latestPoint =
     (case latestPoint of
        None \<Rightarrow> ''awaiting first reading''
      | Some v \<Rightarrow>
          ''latest '' @
          (if isResonance source then ''confidence''
           else case sourceHeadline source of Some h \<Rightarrow> h | None \<Rightarrow> ''reading'') @ '' '' @
          to_fixed (if isResonance source then 3 else 4) v)"

definition KernelInspector ::
    "(bytes \<Rightarrow> jsval option) \<Rightarrow> (string \<times> (string \<times> kernel_frame) list) list \<Rightarrow> string option \<Rightarrow> string \<Rightarrow>
     jsnum list \<Rightarrow> string + inspector_view option" where
  "KernelInspector parse stores source focus history =
     (case source of
        None \<Rightarrow> Inr None
      | Some s \<Rightarrow>
          if s = [] then Inr None
          else case kernelCopy s of
            Inl e \<Rightarrow> Inl e
          | Inr copy \<Rightarrow>
              (case (if isResonance s then Inr [] else sourceMetrics s) of
                 Inl e \<Rightarrow> Inl e
               | Inr names \<Rightarrow>
                   let frame = kernelFrame_of stores s focus;
                       points = inspector_points parse s frame history;
                       latestPoint = last_opt points;
                       status = (if latestPoint = None then KWaiting else KMeasured);
                       n = num_of_nat (length points);
                       headline = (if isResonance s then ''predictive confidence''
                                   else case sourceHeadline s of Some h \<Rightarrow> h | None \<Rightarrow> [])
                   in Inr (Some
                     \<lparr>iv_copy = copy, iv_badge = kernelStatusMeta status,
                      iv_paths = kernelSparkPaths (if isResonance s then points else scaleSparklineValues points) status,
                      iv_history = (if points = [] then ''no readings yet''
                         else num_text n @ '' '' @ (if length points = 1 then ''reading'' else ''readings'')),
                      iv_level = meterPercent latestPoint,
                      iv_levelLabel =
                        (if isResonance s
                         then (''Confidence'', to_fixed 0 (num_mul (num_or_zero latestPoint) (Fin 100)) @ ''%'')
                         else (''Level'', case latestPoint of None \<Rightarrow> em_dash | Some v \<Rightarrow> to_fixed 2 v)),
                      iv_fill = (if points = [] then Fin 0 else num_mul (num_div n (Fin 50)) (Fin 100)),
                      iv_metrics = map metric_meter (metricValues parse frame names),
                      iv_footer = (focus @ (if headline = [] then [] else '' '' @ mid_dot @ '' '' @ headline),
                                   latest_text s latestPoint)\<rparr>)))"

definition openInSignalInsight :: "string \<Rightarrow> terminal \<Rightarrow> terminal" where
  "openInSignalInsight source s = closeInspect (selectSource source s)"

subsection \<open>What the inspector keeps and shows\<close>

lemma scaled_unit:
  assumes "list_all drawable vs" "v \<in> set (scaleSparklineValues vs)"
  shows "num_in 0 1 v"
proof -
  obtain x where x: "x \<in> set vs" and v: "v = (let lo = running_min vs; extent = num_sub (running_max vs) lo
      in if num_lt (Fin 0) extent then num_div (num_sub x lo) extent else Fin 1)"
    using assms(2) unfolding scaleSparklineValues_def Let_def set_map by blast
  have ne: "vs \<noteq> []" using x by auto
  note rb = running_bounds [OF ne assms(1)]
  obtain a b q where abq: "running_min vs = Fin a" "running_max vs = Fin b" "x = Fin q"
    "\<bar>a\<bar> \<le> of_int (2 ^ 50)" "\<bar>b\<bar> \<le> of_int (2 ^ 50)"
    using drawableD [OF rb(1)] drawableD [OF rb(2)] drawableD [of x] assms(1) x by (auto simp: list_all_iff)
  have aq: "a \<le> q" "q \<le> b" using rb(3) x abq(1,2,3) by (auto simp: list_all_iff)
  have ab: "\<bar>a\<bar> \<le> of_int (2 ^ 51)" "\<bar>b\<bar> \<le> of_int (2 ^ 51)" using abq(4,5) by simp_all
  obtain d s where "fl (q - a) = Fin d" "fl (b - a) = Fin s" "0 \<le> d" "d \<le> s"
    "s \<noteq> 0 \<Longrightarrow> num_in 0 1 (fl (d / s))" using ratio_in_unit [OF aq ab] by blast
  then show ?thesis by (simp add: v abq num_sub_fl Let_def)
qed

definition history_run ::
    "(bytes \<Rightarrow> jsval option) \<Rightarrow> (string option \<times> kernel_frame option) list \<Rightarrow> jsnum list" where
  "history_run parse runs = foldl (\<lambda>h (source, frame). history_effect parse source frame h) [] runs"

lemma readings_finite: "v \<in> set (readingsFromValues parse frame source) \<Longrightarrow> is_finite v"
  by (auto simp: readingsFromValues_def pick_finite_def shown_def coalesce_def Let_def
      split: option.splits if_splits)

text \<open>
  The inspector's history is a window: whatever sources and frames it is shown, it holds at most
  fifty readings, all of them finite, and a new reading of a kernel is its newest.
\<close>

theorem inspector_history_window:
  "let h = history_run parse runs; again = history_effect parse (Some source) frame h
   in length h \<le> 50 \<and> list_all is_finite h \<and>
      (readingsFromValues parse frame (Some source) = [] \<or> source = [] \<or> isResonance source \<or>
       last_opt again = last_opt (readingsFromValues parse frame (Some source)))"
proof -
  have "length (history_run parse runs) \<le> 50 \<and> list_all is_finite (history_run parse runs)"
  proof (induction runs rule: rev_induct)
    case Nil
    show ?case by (simp add: history_run_def)
  next
    case (snoc r runs)
    obtain s f where r: "r = (s, f)" by fastforce
    have step: "history_run parse (runs @ [r]) = history_effect parse s f (history_run parse runs)"
      by (simp add: history_run_def r)
    show ?case
    proof (cases "last_opt (readingsFromValues parse f s)")
      case None
      with snoc show ?thesis by (auto simp: step history_effect_def split: option.splits)
    next
      case (Some v)
      then have "v \<in> set (readingsFromValues parse f s)" by (auto simp: last_opt_def split: if_splits)
      then have "is_finite v" by (rule readings_finite)
      with Some snoc show ?thesis
        using set_take_last [of 50 "history_run parse runs @ [v]"]
        by (auto simp: step history_effect_def list_all_iff split: option.splits)
    qed
  qed
  moreover have "last_opt (take_last 50 (h @ [v])) = Some v" for h :: "jsnum list" and v
    by (simp add: take_last_snoc)
  ultimately show ?thesis
    by (auto simp: history_effect_def Let_def split: option.splits)
qed

text \<open>
  The spark line fills its frame: readings of moderate size are scaled into the unit interval,
  so the clamp of the path never moves one.
\<close>

theorem history_scaled_unit:
  assumes "list_all drawable history"
  shows "list_all (num_in 0 1) (scaleSparklineValues history)"
  using scaled_unit [OF assms] by (simp add: list_all_iff)

lemma history_scaled_unit_witness: "list_all (num_in 0 1) (scaleSparklineValues [Fin (of_int 3), Fin (of_int 5)])"
  using history_scaled_unit [of "[Fin (of_int 3), Fin (of_int 5)]"] drawable_small [of 3] drawable_small [of 5] by simp

end
