(* ===== verification/TripView.thy ===== *)
theory TripView
  imports PageFeed DeskControls KernelMeta Precision
begin

text \<open>
  The view of settled trips: \<^verbatim>\<open>components/learning/lifecycle-view.tsx\<close> (the list of closed lots, the
  result of the one selected, its events and their widgets) and the stop panel it would open below
  (\<^verbatim>\<open>exit-policy-panel.tsx\<close>). The view's own state is the selected id and which event rows are
  expanded; everything else is a function of the report of \<^verbatim>\<open>lib/lifecycle.ts\<close>. \<^verbatim>\<open>Date.parse\<close> is
  \<open>dp\<close>, \<^verbatim>\<open>localeCompare\<close> is \<open>lc\<close> and \<^verbatim>\<open>toLocaleTimeString\<close> of a date text is \<open>tm\<close>. The tables of
  labels are read at the names the desk sends, never at an inherited name such as \<^verbatim>\<open>toString\<close>.
\<close>

subsection \<open>Regions of a path\<close>

datatype RegionTone = RegUp | RegDown | RegAcc | RegInfo | RegNeutral | RegWarn

primrec TONE_STYLES :: "RegionTone \<Rightarrow> string" where
  "TONE_STYLES RegUp = ''bg-(--up)/15 border-(--up)/30 text-(--up)''"
| "TONE_STYLES RegDown = ''bg-(--down)/15 border-(--down)/30 text-(--down)''"
| "TONE_STYLES RegAcc = ''bg-(--acc)/15 border-(--acc)/30 text-(--acc)''"
| "TONE_STYLES RegInfo = ''bg-(--info)/15 border-(--info)/30 text-(--info)''"
| "TONE_STYLES RegNeutral = ''bg-(--surface) border-(--line) text-(--f2)''"
| "TONE_STYLES RegWarn = ''bg-(--warn)/15 border-(--warn)/30 text-(--warn)''"

definition REGION_INFO :: "(string \<times> string \<times> RegionTone) list" where
  "REGION_INFO =
     [(''R00'', ''Enter detector'', RegUp), (''R01'', ''Enter support'', RegUp),
      (''R02'', ''Enter opposition'', RegInfo), (''R03'', ''Exit detector'', RegDown),
      (''R04'', ''Exit support'', RegDown), (''R05'', ''Exit opposition'', RegDown),
      (''R06'', ''Hold detector'', RegNeutral), (''R07'', ''Hold support'', RegAcc),
      (''R08'', ''Hold opposition'', RegWarn), (''R09'', ''Volume quote veto'', RegWarn),
      (''R10'', ''Volume quote approve'', RegUp), (''R11'', ''Day move veto'', RegWarn),
      (''R12'', ''Day move approve'', RegUp), (''R13'', ''Spread veto'', RegWarn),
      (''R14'', ''Spread approve'', RegUp), (''R15'', ''Book integrity veto'', RegWarn),
      (''R16'', ''Book integrity approve'', RegUp), (''R17'', ''Board confidence veto'', RegWarn),
      (''R18'', ''Board confidence approve'', RegUp), (''R19'', ''Contagion veto'', RegWarn),
      (''R20'', ''Contagion approve'', RegUp), (''R21'', ''Capacity veto'', RegWarn),
      (''R22'', ''Capacity approve'', RegUp)]"

record path_tile =
  pt_token :: string
  pt_name :: "string option"
  pt_style :: string

text \<open>A path without a token is shown as it is; every tile but the first has an arrow before it.\<close>

datatype path_chain = PlainPath string | PathTiles "path_tile list"

definition path_tile :: "string \<Rightarrow> path_tile" where
  "path_tile tok =
     (let info = map_of REGION_INFO tok
      in \<lparr>pt_token = tok, pt_name = map_option fst info,
          pt_style = TONE_STYLES (case info of Some (_, t) \<Rightarrow> t | None \<Rightarrow> RegNeutral)\<rparr>)"

definition PathChain :: "string \<Rightarrow> path_chain" where
  "PathChain path =
     (let tokens = segments path
      in if tokens = [] then PlainPath path else PathTiles (map path_tile tokens))"

subsection \<open>Labels and texts\<close>

definition KIND :: "(string \<times> string \<times> Variant) list" where
  "KIND =
     [(''entry_match'', ''ENTRY MATCH'', VBrand), (''sizing'', ''SIZING'', VInfo),
      (''child_order'', ''CHILD'', VDisabled), (''order_submitted'', ''ORDER'', VDisabled),
      (''order_failed'', ''ORDER FAILED'', VError), (''fill'', ''FILL'', VInfo),
      (''risk_sell'', ''RISK'', VWarning), (''exit_match'', ''EXIT MATCH'', VBrand),
      (''exit'', ''EXIT'', VBrand), (''plan_ended'', ''PLAN END'', VDisabled),
      (''closed'', ''CLOSED'', VSuccess), (''abandoned'', ''ABANDONED'', VDisabled)]"

definition STATUS :: "(string \<times> Variant) list" where
  "STATUS =
     [(''entering'', VInfo), (''holding'', VBrand), (''exiting'', VWarning), (''closed'', VSuccess),
      (''abandoned'', VDisabled)]"

datatype TrialWord = Win | Loss | Scratch

primrec trialVariant :: "TrialWord \<Rightarrow> Variant" where
  "trialVariant Win = VSuccess"
| "trialVariant Loss = VError"
| "trialVariant Scratch = VDisabled"

primrec trial_text :: "TrialWord \<Rightarrow> string" where
  "trial_text Win = ''win''"
| "trial_text Loss = ''loss''"
| "trial_text Scratch = ''scratch''"

definition time_text :: "(string \<Rightarrow> string) \<Rightarrow> string option \<Rightarrow> string" where
  "time_text tm v = (case v of Some s \<Rightarrow> if s \<noteq> [] then tm s else [] | None \<Rightarrow> [])"

text \<open>The pattern of a date text, four digits, two, two, and a \<^verbatim>\<open>T\<close>.\<close>

definition dated :: "string \<Rightarrow> bool" where
  "dated s \<longleftrightarrow> 11 \<le> length s \<and> s ! 4 = CHR ''-'' \<and> s ! 7 = CHR ''-'' \<and> s ! 10 = CHR ''T'' \<and>
     list_all (\<lambda>i. is_digit (s ! i)) [0, 1, 2, 3, 5, 6, 8, 9]"

definition number_text :: "jsnum \<Rightarrow> string" where
  "number_text v =
     (if \<not> is_finite v then num_text v
      else let a = num_abs v
           in if \<not> num_eq a (Fin 0) \<and> (num_lt a (fl (1 / 1000)) \<or> num_le (Fin 10000000) a)
              then to_exponential 4 v
              else num_text (to_precision_num 8 v))"

text \<open>The entries of an object, each as its key and its value's text, sorted by key.\<close>

definition entries_text :: "(string \<Rightarrow> string \<Rightarrow> int) \<Rightarrow> (string \<times> string) list \<Rightarrow> string" where
  "entries_text lc entries =
     join_with '' '' (map (\<lambda>(k, t). k @ '':'' @ t) (sort_by (\<lambda>a b. lc (fst a) (fst b) \<le> 0) entries))"

function fieldValue :: "(string \<Rightarrow> string \<Rightarrow> int) \<Rightarrow> (string \<Rightarrow> string) \<Rightarrow> jsval \<Rightarrow> string" where
  "fieldValue lc tm (JNum v) = number_text v"
| "fieldValue lc tm (JStr s) =
     (if dated s then (if starts_with s ''0001-'' then em_dash else time_text tm (Some s)) else s)"
| "fieldValue lc tm (JBool b) = (if b then ''yes'' else ''no'')"
| "fieldValue lc tm (JObj ob) = entries_text lc (map (\<lambda>kv. (fst kv, fieldValue lc tm (snd kv))) ob)"
| "fieldValue lc tm (JArr xs) =
     entries_text lc (zip (map (\<lambda>i. digits_of (int i)) [0..<length xs]) (map (fieldValue lc tm) xs))"
| "fieldValue lc tm (JBig i) = em_dash"
| "fieldValue lc tm JUndef = em_dash"
| "fieldValue lc tm JNull = em_dash"
  by pat_completeness auto

lemma size_entry:
  "(k, v) \<in> set ob \<Longrightarrow> size (v :: jsval) \<le> size_list (size_prod (\<lambda>_. 0) size) ob"
  by (erule size_list_estimation') (simp add: size_prod_simp)

termination fieldValue
  by (relation "measure (\<lambda>(_, _, v). size v)")
    (auto simp: less_Suc_eq_le intro: size_list_estimation' size_entry)

definition tone_class :: "jsnum \<Rightarrow> string" where
  "tone_class v =
     (if num_lt (Fin 0) v then ''text-(--up)'' else if num_lt v (Fin 0) then ''text-(--down)'' else ''text-(--f3)'')"

definition NOT_AVAILABLE :: string where "NOT_AVAILABLE = ''not available''"

definition pctMark :: "jsnum option \<Rightarrow> string" where
  "pctMark v = (case v of None \<Rightarrow> em_dash | Some x \<Rightarrow> to_fixed 2 x @ ''%'')"

definition moneyText :: "jsnum \<Rightarrow> string" where
  "moneyText v = (if num_le (Fin 0) v then ''+$'' else minus_sign @ ''$'') @ to_fixed 2 (num_abs v)"

definition dollars :: "nat \<Rightarrow> jsnum \<Rightarrow> string" where
  "dollars d v = ''$'' @ to_fixed d v"

subsection \<open>The widgets of an event\<close>

definition SIZING_FACTS ::
    "(string \<Rightarrow> string \<Rightarrow> int) \<Rightarrow> (string \<Rightarrow> string) \<Rightarrow> (string \<times> string \<times> (jsnum \<Rightarrow> string)) list" where
  "SIZING_FACTS lc tm =
     [(''quantity'', ''Sized quantity'', \<lambda>v. fieldValue lc tm (JNum v)),
      (''reference'', ''Ask at decision'', dollars 2),
      (''entry_price'', ''Depth-walk entry price'', dollars 2),
      (''total'', ''Entry cost incl. fee'', dollars 2),
      (''entry_fee'', ''Entry fee'', dollars 4),
      (''round_trip_fees'', ''Round-trip fees'', dollars 4),
      (''break_even'', ''Break-even exit'', dollars 2),
      (''spread'', ''Spread'', \<lambda>v. fieldValue lc tm (JNum v)),
      (''impact'', ''Impact'', \<lambda>v. fieldValue lc tm (JNum v))]"

fun replace_first :: "char \<Rightarrow> char \<Rightarrow> string \<Rightarrow> string" where
  "replace_first a b [] = []"
| "replace_first a b (c # cs) = (if c = a then b # cs else c # replace_first a b cs)"

definition cushion :: "jsnum option \<Rightarrow> jsnum \<Rightarrow> jsnum option" where
  "cushion quantity limit =
     (case quantity of Some q \<Rightarrow> if num_lt (Fin 0) q then Some (num_div limit q) else None | None \<Rightarrow> None)"

definition cushion_text :: "jsnum option \<Rightarrow> jsnum \<Rightarrow> string \<Rightarrow> string \<Rightarrow> string" where
  "cushion_text quantity limit spare tight =
     (let c = num_or_zero (cushion quantity limit)
      in if num_lt (Fin 1) c then to_fixed 0 c @ ''x '' @ spare else tight)"

record sizing_widget =
  sz_binding :: "string option"
  sz_cash :: "(string \<times> jsnum \<times> string) option"
  sz_exit :: "(string \<times> string) option"
  sz_flow :: "(string \<times> string) option"
  sz_facts :: "(string \<times> string) list"

definition cash_share :: "jsnum \<Rightarrow> jsnum \<Rightarrow> jsnum" where
  "cash_share spent cash =
     num_min (Fin 100) (num_max (Fin 0)
       (num_mul (num_div spent (num_max cash (fl (1 / 1000000000000)))) (Fin 100)))"

definition SizingVisualWidget ::
    "(string \<Rightarrow> string \<Rightarrow> int) \<Rightarrow> (string \<Rightarrow> string) \<Rightarrow> jsobj \<Rightarrow> sizing_widget" where
  "SizingVisualWidget lc tm fs =
     (let number = (\<lambda>k. as_num (field fs k)); quantity = number ''quantity''
      in \<lparr>sz_binding = map_option (\<lambda>b. ''Bound by '' @ replace_first CHR ''_'' CHR '' '' b)
            (nonempty_str (field fs ''binding'')),
          sz_cash = map_option (\<lambda>cash.
              let spent = (case number ''allocated'' of Some a \<Rightarrow> a | None \<Rightarrow> cash)
              in (to_fixed 2 spent @ '' USD'', cash_share spent cash,
                  ''of '' @ to_fixed 2 cash @ '' USD paper cash'')) (number ''cash''),
          sz_exit = map_option (\<lambda>limit. (to_fixed 2 limit @ '' units'',
              cushion_text quantity limit ''Exit Cushion Available'' ''Tight Exit Cushion''))
            (number ''exit_capacity''),
          sz_flow = map_option (\<lambda>limit. (to_fixed 2 limit @ '' units'',
              cushion_text quantity limit ''Impact Cushion'' ''At Participation Cap''))
            (number ''participation''),
          sz_facts = List.map_filter (\<lambda>(k, label, f). map_option (\<lambda>v. (label, f v)) (number k))
            (SIZING_FACTS lc tm)\<rparr>)"

record fill_widget =
  fw_state :: string
  fw_units :: string
  fw_price :: string
  fw_cost :: string
  fw_fee :: string

definition or_zero :: "jsval \<Rightarrow> jsnum" where
  "or_zero v = (let n = to_number v in if n = NaN then Fin 0 else n)"

definition FillVisualWidget ::
    "(string \<Rightarrow> string \<Rightarrow> int) \<Rightarrow> (string \<Rightarrow> string) \<Rightarrow> jsobj \<Rightarrow> fill_widget" where
  "FillVisualWidget lc tm fs =
     (let price = or_zero (field fs ''price''); cost = or_zero (field fs ''cost'');
          filled = or_zero (field fs ''filled''); ordered = or_zero (field fs ''ordered'')
      in \<lparr>fw_state = (if field fs ''complete'' = JBool True then ''FILLED''
            else if num_lt (Fin 0) ordered
            then to_fixed 0 (num_div (num_mul (Fin 100) filled) ordered) @ ''% FILLED''
            else ''PARTIAL''),
          fw_units = fieldValue lc tm (orelse (field fs ''quantity'') (JNum (Fin 0))) @ '' units'',
          fw_price = (if num_lt (Fin 0) price then dollars 2 price else em_dash),
          fw_cost = (if num_lt (Fin 0) cost then dollars 2 cost else em_dash),
          fw_fee = (case as_num (field fs ''fee'') of Some f \<Rightarrow> dollars 4 f | None \<Rightarrow> em_dash)\<rparr>)"

subsection \<open>Events\<close>

record event_body =
  eb_chain :: "path_chain option"
  eb_sizing :: "sizing_widget option"
  eb_fill :: "fill_widget option"
  eb_fields :: "(string \<times> string) list"

record event_row =
  er_time :: string
  er_icon :: string
  er_badge :: "Variant \<times> string"
  er_detail :: string
  er_params :: nat
  er_body :: "event_body option"

definition event_fields :: "LifeEvent \<Rightarrow> jsobj" where
  "event_fields ev = (case ev_fields ev of JObj ob \<Rightarrow> ob | _ \<Rightarrow> [])"

definition event_icon :: "string \<Rightarrow> string" where
  "event_icon kind =
     (if kind = ''entry_match'' then ''Compass''
      else if kind = ''sizing'' then ''Scale''
      else if kind = ''order_submitted'' \<or> kind = ''child_order'' then ''Activity''
      else if kind = ''fill'' then ''CheckCircle2''
      else if kind = ''risk_sell'' then ''ShieldAlert''
      else if kind = ''exit_match'' \<or> kind = ''exit'' then ''Flag''
      else ''Layers'')"

definition EventRow ::
    "(string \<Rightarrow> string \<Rightarrow> int) \<Rightarrow> (string \<Rightarrow> string) \<Rightarrow> bool \<Rightarrow> LifeEvent \<Rightarrow> event_row" where
  "EventRow lc tm expanded ev =
     (let fs = event_fields ev; kind = ev_kind ev;
          (label, variant) = (case map_of KIND kind of Some k \<Rightarrow> k | None \<Rightarrow> (kind, VDisabled))
      in \<lparr>er_time = time_text tm (Some (ev_at ev)), er_icon = event_icon kind, er_badge = (variant, label),
          er_detail = ev_detail ev, er_params = length fs,
          er_body = (if \<not> expanded then None
            else Some
              \<lparr>eb_chain = (if kind = ''entry_match'' then map_option PathChain (as_str (field fs ''path'')) else None),
               eb_sizing = (if kind = ''sizing'' then Some (SizingVisualWidget lc tm fs) else None),
               eb_fill = (if kind = ''fill'' then Some (FillVisualWidget lc tm fs) else None),
               eb_fields = map (\<lambda>(k, v). (k, fieldValue lc tm v))
                 (sort_by (\<lambda>a b. lc (fst a) (fst b) \<le> 0) fs)\<rparr>)\<rparr>)"

subsection \<open>The result of a trip\<close>

definition shownLife :: "Lifecycle \<Rightarrow> Lifecycle" where
  "shownLife life =
     (if lf_book life = Some ''virtual'' \<and> lf_status life = ''open'' then life\<lparr>lf_status := ''holding''\<rparr> else life)"

definition trialWord :: "Lifecycle \<Rightarrow> TrialWord option" where
  "trialWord life =
     (if lf_book life \<noteq> Some ''virtual'' then None
      else case Option.bind (lf_outcome life) oc_triggers of
             Some (word # _) \<Rightarrow>
               if word = ''win'' then Some Win else if word = ''loss'' then Some Loss
               else if word = ''scratch'' then Some Scratch else None
           | _ \<Rightarrow> None)"

definition closedVerdict :: "Lifecycle \<Rightarrow> TrialWord" where
  "closedVerdict life =
     (case trialWord life of
        Some word \<Rightarrow> word
      | None \<Rightarrow> if num_lt (Fin 0) (num_or_zero (map_option oc_pnl (lf_outcome life))) then Win else Loss)"

record trip_hero =
  th_verdict :: "Variant \<times> string"
  th_settle :: string
  th_result :: "string \<times> string"
  th_return :: "(string \<times> string) option"
  th_hold :: string
  th_peak :: "string option"
  th_triggers :: string
  th_path :: "path_chain option"
  th_stop :: "Variant \<times> string"
  th_exit :: "string \<times> string"
  th_reason :: "string option"

definition nonempty_opt :: "string option \<Rightarrow> string option" where
  "nonempty_opt v = (case v of Some s \<Rightarrow> if s = [] then None else Some s | None \<Rightarrow> None)"

definition tone_variant :: "Tone \<Rightarrow> Variant" where
  "tone_variant t = (case t of Bad \<Rightarrow> VError | Warn \<Rightarrow> VWarning | Good \<Rightarrow> VSuccess | _ \<Rightarrow> VInfo)"

definition exit_reason_text :: "Lifecycle \<Rightarrow> string option" where
  "exit_reason_text life =
     (case nonempty_opt (lf_exit_trigger life) of
        Some t \<Rightarrow> Some (formatExitTrigger t)
      | None \<Rightarrow> map_option formatExitTrigger (nonempty_opt (Option.bind (lf_stop_state life) st_exit_reason)))"

definition triggers_text :: "Lifecycle \<Rightarrow> LifeOutcome \<Rightarrow> string" where
  "triggers_text life outcome =
     (let joined = join_with ('' '' @ mid_dot @ '' '')
            (filter (\<lambda>t. t \<noteq> []) (map formatExitTrigger (list_or_empty (oc_triggers outcome))))
      in if joined \<noteq> [] then joined
         else case nonempty_opt (lf_exit_trigger life) of Some t \<Rightarrow> formatExitTrigger t | None \<Rightarrow> em_dash)"

text \<open>The path the lot was opened on, or else the one its entry match names.\<close>

definition trip_path :: "Lifecycle \<Rightarrow> string option" where
  "trip_path life =
     (case nonempty_opt (lf_path life) of
        Some p \<Rightarrow> Some p
      | None \<Rightarrow>
          nonempty_opt (Option.bind (find (\<lambda>ev. ev_kind ev = ''entry_match'') (list_or_empty (lf_events life)))
            (\<lambda>ev. as_str (field (event_fields ev) ''path''))))"

definition ClosedHero :: "Lifecycle \<Rightarrow> trip_hero option" where
  "ClosedHero life =
     (case lf_outcome life of
        None \<Rightarrow> None
      | Some outcome \<Rightarrow>
          if lf_status life \<noteq> ''closed'' then None
          else let returned = (ratePercent (Some (oc_pnl outcome)), tone_class (oc_pnl outcome))
               in Some
                 \<lparr>th_verdict = (trialVariant (closedVerdict life), trial_text (closedVerdict life)),
                  th_settle = (if lf_book life = Some ''virtual'' then ''virtual'' else ''paper'') @ '' settle'',
                  th_result = (case oc_money outcome of
                     Some m \<Rightarrow> (moneyText m, tone_class m) | None \<Rightarrow> returned),
                  th_return = (if oc_money outcome = None then None else Some returned),
                  th_hold = ''hold '' @ seconds (oc_hold_ns outcome),
                  th_peak = map_option (\<lambda>p. ''peak '' @ to_fixed 2 p @ ''%'') (lf_peak_pct life),
                  th_triggers = triggers_text life outcome,
                  th_path = map_option PathChain (trip_path life),
                  th_stop = (case Option.bind (lf_stop_state life) st_state of
                     Some st \<Rightarrow> (tone_variant (stateTone (Some st)), state_label st)
                   | None \<Rightarrow> (VDisabled, ''no stop'')),
                  th_exit = (pctMark (lf_official_exit_pct life),
                     case lf_official_exit_pct life of Some x \<Rightarrow> tone_class x | None \<Rightarrow> ''text-(--f3)''),
                  th_reason = exit_reason_text life\<rparr>)"

subsection \<open>The stop panel\<close>

definition opt_val :: "jsval option \<Rightarrow> jsval" where
  "opt_val v = (case v of Some x \<Rightarrow> x | None \<Rightarrow> JUndef)"

definition trip_return :: "Lifecycle \<Rightarrow> jsnum option" where
  "trip_return life =
     coalesce (map_option oc_pnl_pct (lf_outcome life))
       (coalesce (map_option (\<lambda>m. num_mul (mk_unrealized_return m) (Fin 100)) (lf_mark life))
         (map_option st_current_pnl (lf_stop_state life)))"

definition lifecycleRow :: "Lifecycle \<Rightarrow> jsobj" where
  "lifecycleRow life =
     [(''id'', JStr (lf_id life)), (''symbol'', opt_val (map_option JStr (lf_symbol life))),
      (''book'', opt_val (map_option JStr (lf_book life))), (''opened_at'', JStr (lf_opened_at life)),
      (''closed_at'', case lf_closed_at life of Some (Some c) \<Rightarrow> JStr c | _ \<Rightarrow> JNull),
      (''entry_path'', opt_val (map_option JStr (lf_path life))),
      (''pnl_pct'', opt_val (map_option JNum (trip_return life))),
      (''exit_trigger'', opt_val (map_option JStr (lf_exit_trigger life))),
      (''outcome_triggers'', opt_val (map_option (\<lambda>ts. JArr (map JStr ts))
         (Option.bind (lf_outcome life) oc_triggers))),
      (''pnl'', opt_val (map_option JNum (Option.bind (lf_outcome life) oc_money))),
      (''stoploss'', opt_val (map_option (\<lambda>st. JObj (stop_obj st)) (lf_stop_state life)))]"

record stop_panel =
  ep_badge :: "Variant \<times> string option"
  ep_verdict :: string
  ep_facts :: "(StopWord \<times> bool) list"
  ep_checks :: "(string \<times> string \<times> jsnum \<times> MeterTone \<times> string) list"

text \<open>A boundary is drawn as known unless it is one of the three placeholders.\<close>

definition BoundaryFact :: "StopWord \<Rightarrow> StopWord \<times> bool" where
  "BoundaryFact w = (w, w_short w \<notin> {em_dash, ''clean'', ''not set''})"

definition percent_or_dash :: "jsnum option \<Rightarrow> string" where
  "percent_or_dash v = (case v of Some x \<Rightarrow> to_fixed 2 x @ ''%'' | None \<Rightarrow> em_dash)"

definition panel_facts :: "DynamicStoploss option \<Rightarrow> jsnum option \<Rightarrow> jsnum option \<Rightarrow> StopWord list" where
  "panel_facts stoploss current floorStop =
     [stopRule ''Friction''
        (case stoploss of Some st \<Rightarrow> to_fixed 2 (st_friction st) @ ''pp'' | None \<Rightarrow> em_dash)
        ''Minimum peak before the dynamic floor can arm.'',
      stopRule ''Peak'' (percent_or_dash (map_option st_peak_pnl stoploss))
        ''Highest fee-net return this lot has marked.'',
      stopRule ''Floor'' (case floorStop of Some x \<Rightarrow> to_fixed 2 x @ ''%'' | None \<Rightarrow> ''not set'')
        (case stoploss of
           Some st \<Rightarrow> if st_has_floor st
             then ''Profit floor '' @ em_dash @ '' '' @ to_fixed 2 (st_room_pct st) @ ''pp room on this mark.''
             else ''Floor has not armed yet.''
         | None \<Rightarrow> ''Floor has not armed yet.''),
      stopRule ''Mark'' (percent_or_dash current) ''Current fee-net return on the live book.'']"

definition panel_stop_args :: "DynamicStoploss option \<Rightarrow> jsnum option \<Rightarrow> stop_args" where
  "panel_stop_args s current =
     \<lparr>sa_state = Option.bind s st_state, sa_proximity = map_option st_proximity s,
      sa_downside_pressure = map_option st_downside_pressure s,
      sa_downside_magnitude_ratio = map_option st_downside_magnitude_ratio s,
      sa_consecutive_down = map_option st_consecutive_down s,
      sa_has_floor = (case s of Some st \<Rightarrow> st_has_floor st | None \<Rightarrow> False),
      sa_room_pct = map_option st_room_pct s, sa_current = current\<rparr>"

definition panel_held_args :: "DynamicStoploss option \<Rightarrow> jsnum option \<Rightarrow> jsnum option \<Rightarrow> held_args" where
  "panel_held_args s current floorStop =
     \<lparr>ha_state = Option.bind s st_state, ha_current = current, ha_peak = map_option st_peak_pnl s,
      ha_floor = floorStop, ha_friction = map_option st_friction s,
      ha_has_floor = (case s of Some st \<Rightarrow> st_has_floor st | None \<Rightarrow> False),
      ha_proximity = map_option st_proximity s, ha_downside_pressure = map_option st_downside_pressure s,
      ha_exit_reason = Option.bind s st_exit_reason, ha_room_pct = map_option st_room_pct s\<rparr>"

definition ExitPolicyPanel :: "jsobj \<Rightarrow> stop_panel" where
  "ExitPolicyPanel row =
     (let stoploss = normalizeStoploss (field row ''stoploss'');
          current = coalesce (map_option st_current_pnl stoploss) (decimal (field row ''pnl_pct''));
          floorStop = Option.bind stoploss (\<lambda>st. if st_has_floor st then Some (st_floor_pnl st) else None)
      in \<lparr>ep_badge = (case stoploss of
            Some st \<Rightarrow> (if st_state st = None then VDisabled else tone_variant (stateTone (st_state st)),
                       map_option state_label (st_state st))
          | None \<Rightarrow> (VDisabled, Some ''no stop'')),
          ep_verdict = fst (heldVerdict (panel_held_args stoploss current floorStop)),
          ep_facts = map BoundaryFact (panel_facts stoploss current floorStop),
          ep_checks = map (\<lambda>c. (ck_name c, w_short (ck_word c), num_or_zero (ck_percent c),
              meterTone (ck_tone c), w_title (ck_word c)))
            (buildStopChecks (panel_stop_args stoploss current))\<rparr>)"

definition PathChart :: "Lifecycle \<Rightarrow> stop_panel option" where
  "PathChart life =
     (if list_or_empty (lf_pnl_trace life) = [] then None else Some (ExitPolicyPanel (lifecycleRow life)))"

subsection \<open>The view\<close>

record trip_view =
  tv_selected :: "string option"
  tv_expanded :: "nat list"

definition view_start :: trip_view where
  "view_start = \<lparr>tv_selected = None, tv_expanded = []\<rparr>"

definition closing_text :: "Lifecycle \<Rightarrow> string" where
  "closing_text life =
     (case lf_closed_at life of Some (Some c) \<Rightarrow> if c \<noteq> [] then c else lf_opened_at life | _ \<Rightarrow> lf_opened_at life)"

text \<open>Latest close first; a date that does not parse compares as equal.\<close>

definition newest_close :: "(string \<Rightarrow> int option) \<Rightarrow> Lifecycle \<Rightarrow> Lifecycle \<Rightarrow> bool" where
  "newest_close dp a b =
     (case (dp (closing_text a), dp (closing_text b)) of (Some l, Some r) \<Rightarrow> r \<le> l | _ \<Rightarrow> True)"

definition settled_trips :: "(string \<Rightarrow> int option) \<Rightarrow> LifecycleReport \<Rightarrow> Book \<Rightarrow> Lifecycle list" where
  "settled_trips dp report book =
     sort_by (newest_close dp)
       (map shownLife (filter (\<lambda>life. lf_status life = ''closed'') (rp_lifecycles (selectBook report book))))"

definition active_trip :: "string option \<Rightarrow> Lifecycle list \<Rightarrow> Lifecycle option" where
  "active_trip selected trips =
     coalesce (find (\<lambda>life. Some (lf_id life) = selected) trips)
       (case trips of [] \<Rightarrow> None | life # _ \<Rightarrow> Some life)"

text \<open>
  A click on a trip selects it. The event rows are keyed by their index, so the rows the two trips
  have in common keep their own state.
\<close>

definition select_trip :: "Lifecycle list \<Rightarrow> string \<Rightarrow> trip_view \<Rightarrow> trip_view" where
  "select_trip trips ident v =
     (let rows = (case active_trip (Some ident) trips of Some life \<Rightarrow> list_or_empty (lf_events life) | None \<Rightarrow> [])
      in \<lparr>tv_selected = Some ident, tv_expanded = filter (\<lambda>i. i < length rows) (tv_expanded v)\<rparr>)"

definition toggle_event :: "nat \<Rightarrow> trip_view \<Rightarrow> trip_view" where
  "toggle_event i v =
     v\<lparr>tv_expanded := (if i \<in> set (tv_expanded v) then removeAll i (tv_expanded v) else i # tv_expanded v)\<rparr>"

record trip_item =
  it_id :: string
  it_current :: bool
  it_symbol :: string
  it_badge :: "Variant \<times> string"
  it_time :: string
  it_result :: "(string \<times> string) option"

definition trip_item :: "(string \<Rightarrow> string) \<Rightarrow> Lifecycle option \<Rightarrow> Lifecycle \<Rightarrow> trip_item" where
  "trip_item tm current life =
     (let word = trialWord life
      in \<lparr>it_id = lf_id life, it_current = (map_option lf_id current = Some (lf_id life)),
          it_symbol = (case lf_symbol life of Some s \<Rightarrow> s | None \<Rightarrow> []),
          it_badge = (case word of
             Some w \<Rightarrow> (if lf_status life = ''closed'' then trialVariant w
                       else case map_of STATUS (lf_status life) of Some v \<Rightarrow> v | None \<Rightarrow> VDisabled, trial_text w)
           | None \<Rightarrow> (case map_of STATUS (lf_status life) of Some v \<Rightarrow> v | None \<Rightarrow> VDisabled, lf_status life)),
          it_time = time_text tm (Some (case lf_closed_at life of Some (Some c) \<Rightarrow> c | _ \<Rightarrow> lf_opened_at life)),
          it_result = (case lf_outcome life of
             None \<Rightarrow> None
           | Some oc \<Rightarrow> Some (case oc_money oc of
               Some m \<Rightarrow> (moneyText m, tone_class m)
             | None \<Rightarrow> (ratePercent (Some (oc_pnl oc)), tone_class (oc_pnl oc))))\<rparr>)"

record trip_detail =
  td_title :: string
  td_meta :: string
  td_hero :: "trip_hero option"
  td_stop :: "stop_panel option"
  td_events :: "event_row list"

definition trip_detail ::
    "(string \<Rightarrow> string \<Rightarrow> int) \<Rightarrow> (string \<Rightarrow> string) \<Rightarrow> nat list \<Rightarrow> Lifecycle \<Rightarrow> trip_detail" where
  "trip_detail lc tm expanded life =
     \<lparr>td_title = (case lf_symbol life of Some s \<Rightarrow> s | None \<Rightarrow> []),
      td_meta = time_text tm (Some (lf_opened_at life)) @ '' '' @ right_arrow @ '' '' @
        (case lf_closed_at life of
           Some (Some c) \<Rightarrow> if c \<noteq> [] then time_text tm (Some c) else em_dash | _ \<Rightarrow> em_dash),
      td_hero = ClosedHero life, td_stop = PathChart life,
      td_events = map (\<lambda>(i, ev). EventRow lc tm (i \<in> set expanded) ev)
        (enumerate 0 (list_or_empty (lf_events life)))\<rparr>"

record trips_page =
  tp_name :: string
  tp_closed :: string
  tp_bar :: jsnum
  tp_line :: string
  tp_total :: "string \<times> string"
  tp_items :: "trip_item list"
  tp_detail :: "trip_detail option"

definition LifecycleView ::
    "(string \<Rightarrow> int option) \<Rightarrow> (string \<Rightarrow> string \<Rightarrow> int) \<Rightarrow> (string \<Rightarrow> string) \<Rightarrow> LifecycleReport \<Rightarrow> Book \<Rightarrow>
     trip_view \<Rightarrow> trips_page" where
  "LifecycleView dp lc tm report book v =
     (let perf = rp_performance (selectBook report book);
          name = (if book = Virtual then ''virtual'' else ''paper'');
          trips = settled_trips dp report book;
          current = active_trip (tv_selected v) trips
      in \<lparr>tp_name = name @ '' outcome'', tp_closed = num_text (num_of_nat (pf_closed perf)) @ '' closed'',
          tp_bar = num_min (Fin 100) (num_max (Fin 0)
            (num_mul (num_or_zero (pf_win_rate perf)) (Fin 100))),
          tp_line = name @ '' win '' @ ratePercent (pf_win_rate perf) @ '' '' @ mid_dot @ '' edge '' @
            ratePercent (pf_mean_return perf),
          tp_total = (ratePercent (Some (pf_pnl perf)), tone_class (pf_pnl perf)),
          tp_items = map (trip_item tm current) trips,
          tp_detail = map_option (trip_detail lc tm (tv_expanded v)) current\<rparr>)"

subsection \<open>What the page does to the store of trips\<close>

text \<open>
  Every property of the round-trip store that the desk feed and the closed history keep, and that
  does not look at the hub or at the request flag, holds of the page's store: the page reaches that
  store in no other way.
\<close>

locale page_lives =
  fixes lc :: "string \<Rightarrow> string \<Rightarrow> int" and inv :: "life_state \<Rightarrow> bool"
  assumes at_start: "inv life_start"
    and hub_free: "inv (s\<lparr>hub := h\<rparr>) = inv s"
    and flag_free: "inv (s\<lparr>closedHistoryRequested := b\<rparr>) = inv s"
    and desk_keeps: "e_lc e = lc \<Longrightarrow> inv s \<Longrightarrow> inv (ingestDeskClosedLots e rows s)"
    and history_keeps: "e_lc e = lc \<Longrightarrow> inv s \<Longrightarrow> inv (ingestHistoryClosedBatch e entries s)"
begin

lemma request_keeps: "inv (requestClosedPositionHistory s) = inv s"
  "inv (resetClosedHistoryRequest s) = inv s"
  by (simp_all add: requestClosedPositionHistory_def resetClosedHistoryRequest_def hub_free flag_free)

lemma sources_keep: "inv (fst (requestLongtailSources s t)) = inv s"
  by (simp add: requestLongtailSources_def Let_def hub_free request_keeps)

lemma record_keeps:
  "e_lc e = lc \<Longrightarrow> inv (fst lt) \<Longrightarrow> inv (fst (recordLongtailSample e f c now lt))"
  by (simp add: recordLongtailSample_def captureSample_def Let_def desk_keeps)

lemma tick_keeps: "e_lc e = lc \<Longrightarrow> inv (fst lt) \<Longrightarrow> inv (fst (recorder_tick e f c now lt))"
  by (simp add: recorder_tick_def maybeRecordLongtailSample_def record_keeps)

lemma ensure_keeps:
  assumes "e_lc e = lc" "inv (fst lt)"
  shows "inv (fst (ensureLongtailRecorder e f c now lt))"
proof (cases "requestLongtailSources (fst lt) (snd lt)")
  case (Pair life t)
  then have "inv life" using sources_keep [of "fst lt" "snd lt"] assms(2) by simp
  then have "inv (fst (recordLongtailSample e f c now (life, snd (seedFromClosedLots e f now life t))))"
    by (intro record_keeps assms(1)) simp
  then show ?thesis using assms by (auto simp: ensureLongtailRecorder_def Pair split: prod.splits)
qed

lemma closed_keeps:
  "e_lc e = lc \<Longrightarrow> inv (fst lt) \<Longrightarrow> inv (fst (snd (applyClosedEnvelope e f now payload lt)))"
  by (auto simp: applyClosedEnvelope_def Let_def history_keeps split: option.split)

lemma entry_keeps: "h_lc h = lc \<Longrightarrow> inv (pg_life p) \<Longrightarrow> inv (pg_life (ingest_entry h mode p kv))"
  using closed_keeps [of "env_of h p" "(pg_life p, pg_longtail p)"]
  by (cases kv)
    (simp add: ingest_entry_def ingest_closed_def case_prod_beta set_signal_def ingest_tick_def
      ingest_positions_def Let_def split: option.split)

lemma envelope_keeps: "h_lc h = lc \<Longrightarrow> inv (pg_life p) \<Longrightarrow> inv (pg_life (ingestEnvelope h payload p))"
  unfolding ingestEnvelope_def by (rule foldl_invariant [where P = "\<lambda>p. inv (pg_life p)"]) (auto intro: entry_keeps)

lemma status_keeps: "inv (pg_life p) \<Longrightarrow> inv (pg_life (on_status status p))"
  by (simp add: on_status_def Let_def case_prod_beta sources_keep request_keeps)

lemma message_keeps: "h_lc h = lc \<Longrightarrow> inv (pg_life p) \<Longrightarrow> inv (pg_life (on_worker_message h m p))"
  by (cases "(h, m, p)" rule: on_worker_message.cases)
    (simp_all add: syncEngineTelemetry_def envelope_keeps status_keeps)

lemma page_keeps:
  assumes "h_lc h = lc" "inv (pg_life p)"
  shows "inv (pg_life (apply_page h x p))"
  using assms tick_keeps [of "env_of h p" "(pg_life p, pg_longtail p)"]
    ensure_keeps [of "env_of h p" "(pg_life p, pg_longtail p)"] desk_keeps [of "env_of h p"]
  by (cases x)
    (simp_all add: mount_feed_def start_recorder_def bind_worker_def post_to_worker_def unmount_feed_def
      set_route_def desk_feed_def ingestDeskSnapshot_def tick_recorder_def case_prod_beta Let_def hub_free
      message_keeps)

theorem on_every_page: "page_reach lc p \<Longrightarrow> inv (pg_life p)"
  by (induction rule: page_reach.induct) (simp_all add: page_start_def at_start page_keeps)

end

lemma life_ok_at_start: "life_ok lc life_start"
  by (simp add: life_ok_def life_start_def Lifecycle.store_ok_def coherent_def empty_ok map_values_def)

interpretation sound: page_lives lc "life_ok lc" for lc
proof unfold_locales
  show "life_ok lc life_start" by (rule life_ok_at_start)
  show "life_ok lc (s\<lparr>hub := h\<rparr>) = life_ok lc s" for s h
    by (simp add: life_ok_def Lifecycle.store_ok_def coherent_def)
  show "life_ok lc (s\<lparr>closedHistoryRequested := b\<rparr>) = life_ok lc s" for s b
    by (simp add: life_ok_def Lifecycle.store_ok_def coherent_def)
  show "life_ok lc (ingestDeskClosedLots e rows s)" if "e_lc e = lc" "life_ok lc s" for e s rows
    using life_ok_desk that by blast
  show "life_ok lc (ingestHistoryClosedBatch e entries s)" if "e_lc e = lc" "life_ok lc s" for e s entries
    using history_ok that unfolding life_ok_def by blast
qed

text \<open>No trip of the store carries a trace, nor does one of the report.\<close>

definition untraced :: "life_state \<Rightarrow> bool" where
  "untraced s \<longleftrightarrow> list_all (\<lambda>(k, life). lf_pnl_trace life = None) (lives s)"

lemma untraced_map_of: "untraced s \<Longrightarrow> map_of (lives s) k = Some life \<Longrightarrow> lf_pnl_trace life = None"
  by (auto simp: untraced_def list_all_iff dest: map_of_SomeD)

lemma untraced_lookup: "untraced s \<Longrightarrow> pred_option (\<lambda>life. lf_pnl_trace life = None) (map_of (lives s) k)"
  by (cases "map_of (lives s) k") (simp_all add: untraced_map_of)

lemma untraced_place:
  "list_all (\<lambda>(k, life). lf_pnl_trace life = None) ls \<Longrightarrow> lf_pnl_trace x = None \<Longrightarrow>
   list_all (\<lambda>(k, life). lf_pnl_trace life = None) (AList.update k x ls)"
  by (induction ls) auto

lemma untraced_del:
  "list_all (\<lambda>(k, life). lf_pnl_trace life = None) ls \<Longrightarrow>
   list_all (\<lambda>(k, life). lf_pnl_trace life = None) (map_del k ls)"
  by (auto simp: map_del_def list_all_iff)

lemma untraced_storeLife:
  "untraced s \<Longrightarrow> lf_pnl_trace life = None \<Longrightarrow> untraced (snd (storeLife life s))"
  using evict_while_invariant [of "list_all (\<lambda>(k, life). lf_pnl_trace life = None)", OF _ untraced_del]
  by (simp add: storeLife_def Let_def untraced_def untraced_place untraced_del)

lemma untraced_frame [simp]:
  "untraced (s\<lparr>hub := h\<rparr>) = untraced s" "untraced (s\<lparr>closedHistoryRequested := b\<rparr>) = untraced s"
  "untraced (s\<lparr>historyStamp := m\<rparr>) = untraced s" "untraced (publish e s) = untraced s"
  by (simp_all add: untraced_def publish_def)

lemma untraced_rows:
  "lifecycleFromDeskClosed e row = Some life \<Longrightarrow> lf_pnl_trace life = None"
  "lifecycleFromDeskOpen e row = Some life \<Longrightarrow> lf_pnl_trace life = None"
  by (auto simp: lifecycleFromDeskClosed_def lifecycleFromDeskOpen_def stopFieldsFromRow_def Let_def
      split: option.splits if_splits)

lemma untraced_fill:
  "lf_pnl_trace life = None \<Longrightarrow> pred_option (\<lambda>x. lf_pnl_trace x = None) existing \<Longrightarrow>
   lf_pnl_trace (fill_from existing life) = None"
  by (cases existing) (simp_all add: fill_from_def coalesce_def)

lemma untraced_desk_step: "untraced (snd acc) \<Longrightarrow> untraced (snd (desk_row_step e acc row))"
proof (cases "coalesce (lifecycleFromDeskClosed e row) (lifecycleFromDeskOpen e row)")
  case (Some life)
  assume u: "untraced (snd acc)"
  have "lf_pnl_trace life = None"
    using Some untraced_rows by (auto simp: coalesce_def split: option.splits)
  then have "lf_pnl_trace (merge_desk (map_of (lives (snd acc)) (lf_id life)) life) = None"
    using untraced_lookup [OF u] by (simp add: merge_desk_def Let_def untraced_fill)
  from untraced_storeLife [OF u this] u Some show ?thesis
    by (cases acc) (auto simp: desk_row_step_def Let_def split: prod.splits option.splits if_splits)
qed (cases acc, simp add: desk_row_step_def)

lemma untraced_desk: "untraced s \<Longrightarrow> untraced (ingestDeskClosedLots e rows s)"
proof -
  assume u: "untraced s"
  let ?swept = "s\<lparr>lives := filter (\<lambda>entry. \<not> gone (open_ids e rows) entry) (lives s)\<rparr>"
  have "untraced (snd (c, ?swept))" for c :: bool
    using u by (auto simp: untraced_def list_all_iff)
  then have "untraced (snd (foldl (desk_row_step e) (c, ?swept) rows))" for c
    by (rule foldl_invariant) (rule untraced_desk_step)
  then show ?thesis
    by (simp add: ingestDeskClosedLots_def Let_def case_prod_beta)
qed

lemma untraced_merge_history:
  assumes "lf_pnl_trace life = None" "pred_option (\<lambda>x. lf_pnl_trace x = None) existing"
  shows "lf_pnl_trace (merge_history existing life) = None"
  using assms by (simp add: merge_history_def Let_def untraced_fill)

lemma untraced_history_entry: "untraced s \<Longrightarrow> untraced (snd (ingestHistoryClosedEntry e entry s))"
proof -
  assume u: "untraced s"
  have placed: "untraced (snd (storeLife (merge_history existing
      (life\<lparr>lf_history := True, lf_desk := True\<rparr>)) (s\<lparr>historyStamp := m\<rparr>)))"
    if "lifecycleFromDeskClosed e row = Some life" "pred_option (\<lambda>x. lf_pnl_trace x = None) existing"
    for existing life row m
    by (rule untraced_storeLife)
      (simp_all add: u that(2) untraced_merge_history untraced_rows(1) [OF that(1)])
  show ?thesis
    unfolding ingestHistoryClosedEntry_def Let_def
    by (auto simp: u split: option.split intro!: placed dest: untraced_map_of [OF u])
qed

lemma untraced_history: "untraced s \<Longrightarrow> untraced (ingestHistoryClosedBatch e entries s)"
proof -
  assume "untraced s"
  then have "untraced (snd (False, s))" by simp
  then have "untraced (snd (foldl (history_step e) (False, s) entries))"
    by (rule foldl_invariant) (auto simp: history_step_def case_prod_beta split: prod.splits
        dest: untraced_history_entry [of _ e])
  then show ?thesis by (simp add: ingestHistoryClosedBatch_def case_prod_beta)
qed

interpretation traceless: page_lives lc untraced for lc
  by unfold_locales (simp_all add: untraced_desk untraced_history, simp add: untraced_def life_start_def)

subsection \<open>What the list shows\<close>

definition on_book :: "Book \<Rightarrow> Lifecycle \<Rightarrow> bool" where
  "on_book book life \<longleftrightarrow> (case lf_book life of Some b \<Rightarrow> b | None \<Rightarrow> ''paper'') = book_name book"

lemma selectBook_lives: "rp_lifecycles (selectBook report book) = filter (on_book book) (rp_lifecycles report)"
  by (simp add: selectBook_def summarize_def Let_def on_book_def [abs_def])

lemma selectBook_wins:
  "pf_wins (rp_performance (selectBook report book)) =
   length (filter (num_lt (Fin 0)) (List.map_filter settled_pnl (filter (on_book book) (rp_lifecycles report))))"
  by (simp add: selectBook_def summarize_def Let_def on_book_def [abs_def])

lemma shown_closed: "lf_status life = ''closed'' \<Longrightarrow> shownLife life = life"
  by (simp add: shownLife_def)

lemma mset_settled_trips:
  "mset (settled_trips dp report book) =
   mset (filter (\<lambda>life. lf_status life = ''closed'' \<and> on_book book life) (rp_lifecycles report))"
proof -
  have "map shownLife (filter (\<lambda>life. on_book book life \<and> lf_status life = ''closed'') ls) =
      filter (\<lambda>life. lf_status life = ''closed'' \<and> on_book book life) ls" for ls
    by (induction ls) (simp_all add: shown_closed)
  then show ?thesis
    by (simp add: settled_trips_def selectBook_lives)
qed

lemma set_settled_trips:
  "set (settled_trips dp report book) =
   {life \<in> set (rp_lifecycles report). lf_status life = ''closed'' \<and> on_book book life}"
  using mset_eq_setD [OF mset_settled_trips] by auto

text \<open>Where every date parses the comparator is a total preorder, and the list is sorted by it.\<close>

definition close_stamp :: "(string \<Rightarrow> int option) \<Rightarrow> Lifecycle \<Rightarrow> int" where
  "close_stamp dp life = (case dp (closing_text life) of Some t \<Rightarrow> t | None \<Rightarrow> 0)"

interpretation by_close: comparator "\<lambda>a b. close_stamp dp b \<le> close_stamp dp a" for dp
  by unfold_locales auto

lemma insert_by_cong:
  "(\<And>y. y \<in> set ys \<Longrightarrow> le x y = le' x y) \<Longrightarrow> insert_by le x ys = insert_by le' x ys"
  by (induction ys) auto

lemma sort_by_cong:
  "(\<And>x y. x \<in> set xs \<Longrightarrow> y \<in> set xs \<Longrightarrow> le x y = le' x y) \<Longrightarrow> sort_by le xs = sort_by le' xs"
proof (induction xs)
  case (Cons x xs)
  then have "sort_by le xs = sort_by le' xs" by simp
  moreover have "insert_by le x (sort_by le' xs) = insert_by le' x (sort_by le' xs)"
    by (rule insert_by_cong) (simp add: Cons.prems)
  ultimately show ?case by (simp add: sort_by_def)
qed (simp add: sort_by_def)

lemma newest_close_stamp:
  "dp (closing_text a) \<noteq> None \<Longrightarrow> dp (closing_text b) \<noteq> None \<Longrightarrow>
   newest_close dp a b = (close_stamp dp b \<le> close_stamp dp a)"
  by (auto simp: newest_close_def close_stamp_def)

lemma settled_trips_sorted:
  assumes "\<And>life. life \<in> set (settled_trips dp report book) \<Longrightarrow> dp (closing_text life) \<noteq> None"
  shows "sorted_wrt (\<lambda>a b. close_stamp dp b \<le> close_stamp dp a) (settled_trips dp report book)"
proof -
  let ?ls = "map shownLife (filter (\<lambda>life. lf_status life = ''closed'')
    (rp_lifecycles (selectBook report book)))"
  have "sort_by (newest_close dp) ?ls = sort_by (\<lambda>a b. close_stamp dp b \<le> close_stamp dp a) ?ls"
    using assms unfolding settled_trips_def set_sort_by
    by (intro sort_by_cong newest_close_stamp) blast+
  then show ?thesis
    unfolding settled_trips_def using by_close.sorted_sort_by by simp
qed

lemma find_only: "distinct (map f xs) \<Longrightarrow> x \<in> set xs \<Longrightarrow> find (\<lambda>y. Some (f y) = Some (f x)) xs = Some x"
  by (induction xs) auto

lemma click_opens: "distinct (map lf_id trips) \<Longrightarrow> life \<in> set trips \<Longrightarrow> active_trip (Some (lf_id life)) trips = Some life"
  unfolding active_trip_def by (simp add: find_only [of lf_id, simplified])

lemma keyed_distinct: "keyed_lives ls \<Longrightarrow> distinct (map lf_id (map_values ls))"
proof -
  assume k: "keyed_lives ls"
  then have "map lf_id (map_values ls) = map fst ls"
    by (auto simp: keyed_lives_def map_values_def list_all_iff)
  with k show ?thesis by (simp add: keyed_lives_def)
qed

lemma report_of_store:
  assumes "life_ok lc s"
  shows "mset (rp_lifecycles (snapshot s)) = mset (map_values (lives s))"
    and "distinct (map lf_id (rp_lifecycles (snapshot s)))"
proof -
  show m: "mset (rp_lifecycles (snapshot s)) = mset (map_values (lives s))"
    using assms by (simp add: life_ok_def coherent_def summarize_def newest_first_def Let_def)
  have "distinct (map lf_id (map_values (lives s)))"
    using assms by (simp add: life_ok_def Lifecycle.store_ok_def keyed_distinct)
  moreover have "mset (map lf_id (rp_lifecycles (snapshot s))) = mset (map lf_id (map_values (lives s)))"
    using m by (simp add: mset_map)
  ultimately show "distinct (map lf_id (rp_lifecycles (snapshot s)))"
    using mset_eq_imp_distinct_iff by blast
qed

lemma settled_ids_distinct:
  assumes "distinct (map lf_id (rp_lifecycles report))"
  shows "distinct (map lf_id (settled_trips dp report book))"
proof -
  have "mset (map lf_id (settled_trips dp report book)) =
      mset (map lf_id (filter (\<lambda>life. lf_status life = ''closed'' \<and> on_book book life) (rp_lifecycles report)))"
    by (simp only: mset_map mset_settled_trips)
  moreover have "distinct (map lf_id (filter (\<lambda>life. lf_status life = ''closed'' \<and> on_book book life)
      (rp_lifecycles report)))"
    by (rule distinct_map_filter) (rule assms)
  ultimately show ?thesis using mset_eq_imp_distinct_iff by blast
qed

lemma settled_of_ledger:
  assumes "life_ok lc s"
  shows "mset (settled_trips dp (snapshot s) book) =
    mset (filter (\<lambda>life. lf_status life = ''closed'' \<and> on_book book life) (map_values (lives s)))"
  using report_of_store(1) [OF assms] by (simp add: mset_settled_trips)

definition dated_host :: host where
  "dated_host = \<lparr>h_dp = (\<lambda>_. Some 0), h_lc = code_unit_compare, h_iso = ''t'', h_now = Fin 0\<rparr>"

definition settled_page :: page where
  "settled_page = apply_page dated_host DeskFeed (apply_page dated_host (FromWorker (ENVELOPE
     (JObj [(''positions'', JArr [JObj [(''id'', JStr ''a''), (''symbol'', JStr ''BTC/USD''),
       (''opened_at'', JStr ''t0''), (''closed_at'', JStr ''t1'')]])]))) page_start)"

lemma settled_page_trips:
  "map (\<lambda>l. (lf_id l, lf_status l)) (settled_trips (\<lambda>_. Some 0) (snapshot (pg_life settled_page)) Paper) = [(''a'', ''closed'')]"
  by code_simp

lemma settled_page_reached: "page_reach code_unit_compare settled_page"
  unfolding settled_page_def by (intro page_step page_init) (simp_all add: dated_host_def)

text \<open>
  C26. The list of settled trips is the selected ledger, whatever the page went through: it shows
  exactly the closed round trips the store holds for that book, each once and under its own id, and
  a click on one opens that one. Where every date parses, the latest close comes first.
\<close>

theorem settled_trips_listed:
  assumes "page_reach lc p"
  shows "let trips = settled_trips dp (snapshot (pg_life p)) book
    in mset trips = mset (filter (\<lambda>life. lf_status life = ''closed'' \<and> on_book book life)
         (map_values (lives (pg_life p)))) \<and>
       distinct (map lf_id trips) \<and>
       (\<forall>life \<in> set trips. active_trip (Some (lf_id life)) trips = Some life) \<and>
       ((\<forall>life \<in> set trips. dp (closing_text life) \<noteq> None) \<longrightarrow>
         sorted_wrt (\<lambda>a b. close_stamp dp b \<le> close_stamp dp a) trips)"
proof -
  have ok: "life_ok lc (pg_life p)" by (rule sound.on_every_page [OF assms])
  from settled_ids_distinct [OF report_of_store(2) [OF ok], of dp book]
  show ?thesis
    unfolding Let_def using settled_of_ledger [OF ok] settled_trips_sorted click_opens by blast
qed

theorem settled_trips_listed_witness:
  "let trips = settled_trips (\<lambda>_. Some 0) (snapshot (pg_life settled_page)) Paper
   in map lf_id trips = [''a''] \<and> map_option lf_id (active_trip (Some ''a'') trips) = Some ''a'' \<and>
      sorted_wrt (\<lambda>a b. close_stamp (\<lambda>_. Some 0) b \<le> close_stamp (\<lambda>_. Some 0) a) trips"
proof -
  let ?trips = "settled_trips (\<lambda>_. Some 0) (snapshot (pg_life settled_page)) Paper"
  have ids: "map lf_id ?trips = [''a'']"
    using arg_cong [OF settled_page_trips, of "map fst"] by (simp add: comp_def)
  then obtain life where life: "?trips = [life]" "lf_id life = ''a''" by auto
  from settled_trips_listed [OF settled_page_reached, of "\<lambda>_. Some 0" Paper]
  have "\<forall>l \<in> set ?trips. active_trip (Some (lf_id l)) ?trips = Some l"
    and "sorted_wrt (\<lambda>a b. close_stamp (\<lambda>_. Some 0) b \<le> close_stamp (\<lambda>_. Some 0) a) ?trips"
    unfolding Let_def by blast+
  with ids life show ?thesis by (simp add: Let_def)
qed

lemma active_listed: "active_trip selected trips = Some life \<Longrightarrow> life \<in> set trips"
  by (auto simp: active_trip_def coalesce_def find_Some_iff split: option.splits list.splits)

lemma untraced_report:
  assumes "life_ok lc s" "untraced s" "life \<in> set (rp_lifecycles (snapshot s))"
  shows "lf_pnl_trace life = None"
  using assms(2,3) mset_eq_setD [OF report_of_store(1) [OF assms(1)]]
  by (auto simp: untraced_def list_all_iff map_values_def)

text \<open>
  C27. The stop panel of a settled trip never opens: it needs a trace of the lot's return, no round
  trip that the desk feed or the closed history builds carries one, and no other way into the store
  is ever taken by the page.
\<close>

theorem stop_panel_never_opens:
  assumes "page_reach lc p"
  shows "pred_option (\<lambda>d. td_stop d = None)
    (tp_detail (LifecycleView dp lc tm (snapshot (pg_life p)) book v))"
proof (cases "active_trip (tv_selected v) (settled_trips dp (snapshot (pg_life p)) book)")
  case (Some life)
  then have "life \<in> set (rp_lifecycles (snapshot (pg_life p)))"
    using active_listed set_settled_trips by blast
  then have "lf_pnl_trace life = None"
    using untraced_report sound.on_every_page traceless.on_every_page assms by blast
  with Some show ?thesis
    by (simp add: LifecycleView_def trip_detail_def PathChart_def list_or_empty_def Let_def)
qed (simp add: LifecycleView_def Let_def)

theorem stop_panel_never_opens_witness:
  "pred_option (\<lambda>d. td_stop d = None) (tp_detail
     (LifecycleView (\<lambda>_. Some 0) code_unit_compare id (snapshot (pg_life settled_page)) Paper view_start))"
  by (rule stop_panel_never_opens [OF settled_page_reached])

lemma win_of_outcome:
  "on_book book life \<Longrightarrow> book \<noteq> Virtual \<Longrightarrow>
   closedVerdict life = Win \<longleftrightarrow>
     (case lf_outcome life of None \<Rightarrow> False | Some oc \<Rightarrow> num_lt (Fin 0) (oc_pnl oc))"
  by (cases book)
    (auto simp: closedVerdict_def trialWord_def on_book_def book_name_def num_or_zero_def split: option.splits)

lemma wins_counted:
  "length (filter (num_lt (Fin 0)) (List.map_filter settled_pnl ls)) =
   length (filter (\<lambda>life. lf_status life = ''closed'' \<and>
     (case lf_outcome life of None \<Rightarrow> False | Some oc \<Rightarrow> num_lt (Fin 0) (oc_pnl oc))) ls)"
  by (induction ls) (auto simp: map_filter_Cons List.map_filter_def settled_pnl_def split: option.split)

lemma length_filter_mset: "mset xs = mset ys \<Longrightarrow> length (filter P xs) = length (filter P ys)"
  by (metis mset_filter size_mset)


end
