(* ===== verification/Spec2Isabelle.thy ===== *)
theory Spec2Isabelle
  imports KeyedStore PageFeed Warehouse HawkesTrace ImpulseMap Xray ChoiceGrid Gauges RadixView
    LongtailView XrayPanels HawkesPanel DeskPanels Inspector TripView
begin

text \<open>
  \<^bold>\<open>The trading desk's browser client.\<close> The program is the TypeScript client under
  \<^verbatim>\<open>frontend/src\<close>. A web worker (\<^verbatim>\<open>providers/ws-worker.ts\<close>) holds the socket to the hub and
  posts the JSON envelopes it receives to the page; the page (\<^verbatim>\<open>providers/websocket.tsx\<close>) hands
  each to the stores: ring buffers keyed by symbol (\<^verbatim>\<open>collections/store.ts\<close>), the confidence
  frame of the three ledgers (\<^verbatim>\<open>collections/confidence.ts\<close>), the round trips of the desk
  (\<^verbatim>\<open>lib/lifecycle.ts\<close>), the path book and region rings (\<^verbatim>\<open>collections/cognition.ts\<close>), value
  frames (\<^verbatim>\<open>types/value.ts\<close>) and the long-run trajectory (\<^verbatim>\<open>collections/longtail.ts\<close>). What the
  panels show is computed from the stores by pure readouts (\<^verbatim>\<open>components/book-readout.ts\<close>,
  \<^verbatim>\<open>lib/stoploss.ts\<close>, \<^verbatim>\<open>lib/stop-telemetry.ts\<close>, \<^verbatim>\<open>hub/s3-prefix-compact.ts\<close>).

  \<^bold>\<open>Theories.\<close>
  \<^item> \<open>Prelude\<close>: lists, stable sorting by a comparator, JavaScript maps and ordered objects as
    interpretations of the locales \<open>keyed\<close> and \<open>keyed_del\<close>.
  \<^item> \<open>JsNumber\<close>, \<open>JsText\<close>, \<open>JsValue\<close>: binary64 numbers (exact rationals rounded by \<open>fl\<close>, with
    the laws of rounding as the locale \<open>rounding\<close>), strings, number texts, dates, JSON values.
  \<^item> \<open>CircularBuffer\<close> (\<^verbatim>\<open>collections/circular.ts\<close>) and \<open>KeyedStore\<close> (\<^verbatim>\<open>collections/store.ts\<close>):
    the ring with its physical slots refines a window of the newest rows (locale
    \<open>retained_window\<close>); the nested store refines a map from key paths to such windows.
  \<^item> \<open>Books\<close>, \<open>ExplorePath\<close>, \<open>BookReadout\<close>, \<open>Stoploss\<close>: ledgers and confidence, path keys and
    S3 listings, the readout of a lot, stop telemetry.
  \<^item> \<open>HubWorker\<close>: the worker as a transition system. A state holds the worker's variables, the
    sockets it ever created with their \<^verbatim>\<open>readyState\<close>, and what it sent and posted; an event is a
    page message, a socket event or the timer.
  \<^item> \<open>DeskRows\<close> and \<open>Lifecycle\<close>: desk rows to round trips, and the round-trip store with its
    eviction, its ingests and its published report.
  \<^item> \<open>ValueFrame\<close> and \<open>Cognition\<close>: layered frames with the decode cache (locale \<open>memo\<close>), and the
    store of symbols, matches, region rings, policy keys and thresholds.
  \<^item> \<open>LongtailStats\<close> and \<open>LongtailRecorder\<close>: summaries, verdict and insights of a ledger, and the
    recorder of samples with its bounded window.
  \<^item> \<open>PageFeed\<close>: the page's side of the hub, composed of the stores above: envelope dispatch, status
    changes, mounting and unmounting of the feed.
  \<^item> \<open>Warehouse\<close> (\<^verbatim>\<open>components/workbench/warehouse-handler.ts\<close>): the workbench's buffered viewports
    as a transition system whose events are calls, settlements of fetches and deletions.
  \<^item> \<open>HawkesTrace\<close> (\<^verbatim>\<open>components/terminal/xray-hawkes-trace.ts\<close>) and \<open>DeskControls\<close> (gate laboratory,
    palette, decision rail, numeric guards, gate badge, exit labels): the curve of the Hawkes panel
    and the small stores and labels of the desk's controls.
  \<^item> \<open>ImpulseMap\<close> (\<^verbatim>\<open>components/learning/grid-pins.ts\<close>, \<^verbatim>\<open>training-regions.ts\<close>,
    \<^verbatim>\<open>use-impulse-data.ts\<close>): the wiring of metrics to regions and the map that paints one symbol after
    another, as a transition system with the queue of animation frames.
  \<^item> \<open>Resonance\<close> (\<^verbatim>\<open>components/charts/prediction.tsx\<close>, \<^verbatim>\<open>prediction/series.ts\<close>) and \<open>Xray\<close>
    (\<^verbatim>\<open>components/terminal/xray-view.ts\<close>): readings parsed, merged and drawn, and the rows, metrics
    and retained values of the x-ray page. Arrays written by index are lists with holes.
  \<^item> \<open>OpenChoice\<close> (\<^verbatim>\<open>components/learning/open-choice-draw.ts\<close>) and \<open>ChoiceGrid\<close>
    (\<^verbatim>\<open>open-choice-grid-layout.ts\<close>): the chart of the open lots, whose surface is the list of series
    and annotations put on it, and the modifier that splits it into panels and back.
  \<^item> \<open>KernelMeta\<close> (\<^verbatim>\<open>components/terminal/kernel-meta.ts\<close>) and \<open>Gauges\<close> (\<^verbatim>\<open>components/ui/dom.ts\<close>,
    meters, badges, \<^verbatim>\<open>lib/colormap.ts\<close>, the gauge of \<^verbatim>\<open>position-health.tsx\<close>): labels, order and
    colours of the measurement sources, and values written into elements.
  \<^item> \<open>RadixTree\<close> and \<open>RadixView\<close> (\<^verbatim>\<open>components/learning/radix-tree-viz.tsx\<close>, \<^verbatim>\<open>radix-tree-paint.ts\<close>):
    the tree of stored paths, read through the set of its branches, and what the panel lists,
    collapses, marks and paints. Facts about all nodes go through one induction, \<open>add_path_all\<close>.
  \<^item> \<open>Pixels\<close>: where a reading of moderate size ends up in a range of whole pixels; shared by
    \<open>LongtailView\<close> (\<^verbatim>\<open>components/longtail/metric-chart.tsx\<close>, \<^verbatim>\<open>dashboard.tsx\<close>: charts, tiles and rail of the
    long-tail page), \<open>LatentCanvas\<close> and \<open>Inspector\<close>.
  \<^item> \<open>LatentCanvas\<close> (\<^verbatim>\<open>components/terminal/canvas.ts\<close>, \<^verbatim>\<open>xray-draw.ts\<close>, \<^verbatim>\<open>xray-latent.tsx\<close>): canvases as
    the commands issued since their store was allocated, and the latent panel with its module's state.
  \<^item> \<open>XrayPanels\<close> (\<^verbatim>\<open>xray-hierarchy.tsx\<close>, \<^verbatim>\<open>xray-layers.tsx\<close>, \<^verbatim>\<open>xray-manifold-panel.tsx\<close>,
    \<^verbatim>\<open>xray-facts-panel.tsx\<close>): children painted by index, with the locale \<open>child_painter\<close> interpreted on
    cells and on rows. \<open>HawkesPanel\<close> (\<^verbatim>\<open>xray-hawkes.tsx\<close>): the effect's variables as a run of events.
  \<^item> \<open>DeskPanels\<close> (\<^verbatim>\<open>components/dashboard/decisions.tsx\<close>, \<^verbatim>\<open>gate-lab.tsx\<close>, \<^verbatim>\<open>positions.tsx\<close>) and
    \<open>Inspector\<close> (\<^verbatim>\<open>components/kernel/inspector.tsx\<close>): what the panels list, show and send.
    \<open>Precision\<close> has the exponential and precision texts they print.
  \<^item> \<open>TripView\<close> (\<^verbatim>\<open>components/learning/lifecycle-view.tsx\<close>, \<^verbatim>\<open>exit-policy-panel.tsx\<close>): the view of
    settled trips. The locale \<open>page_lives\<close> carries an invariant of the round-trip store to every
    reachable page; it is interpreted on the store's soundness and on the absence of traces.

  \<^bold>\<open>Correspondence.\<close> A definition keeps the name of the function it translates; module variables
  become fields of a record passed along (\<open>worker\<close>, \<open>life_state\<close>, \<open>cognition\<close>, \<open>longtail\<close>). A
  thrown exception is a value (\<open>None\<close> or \<open>Inl\<close>). \<^verbatim>\<open>null\<close> and \<^verbatim>\<open>undefined\<close> of typed fields are
  \<open>None\<close>; untyped data is the datatype \<open>jsval\<close>. Objects are association lists in JavaScript's own
  property order (integer keys first), a \<^verbatim>\<open>Map\<close> one in insertion order. Sorting is stable.
  Numbers are rounded to binary64 after every operation; the sign of zero is not kept. Display
  punctuation outside ASCII is written as its UTF-8 bytes. A component that only renders is the
  function from its stores to a record of the texts, positions and tones it puts into the document.

  \<^bold>\<open>Parameters.\<close> \<^verbatim>\<open>Date.parse\<close> (\<open>dp\<close>), \<^verbatim>\<open>localeCompare\<close> (\<open>lc\<close>), \<^verbatim>\<open>JSON.parse\<close> on bytes
  (\<open>parse\<close>) and the clock (\<open>now\<close>) are arguments. Of these only \<open>lc\<close> carries a hypothesis, that it is a
  collation, and the witnesses instantiate it with the order of code units. \<^verbatim>\<open>Math.exp\<close> is the
  argument \<open>ex\<close>, \<^verbatim>\<open>Math.hypot\<close> is \<open>hyp\<close>, \<^verbatim>\<open>Math.cos\<close> and \<^verbatim>\<open>Math.sin\<close> are \<open>cs\<close> and \<open>sn\<close>,
  \<^verbatim>\<open>toLocaleString\<close> is \<open>loc\<close>, \<^verbatim>\<open>toLocaleTimeString\<close> is \<open>tm\<close>, and the encoding of a retained scalar \<open>enc\<close>, assumed to
  be undone by the decoder. The warehouse behind the workbench appears as the settlements of fetches; the
  hypothesis on it is that a fetch that returns rows returns those it asked for, and its witness
  runs one such fetch.

  \<^bold>\<open>What is shown.\<close> Refinement of the stores to windows by key path; safety of the connection
  (one live socket, disconnect is final, no command lost); invariants of every store in every
  reachable state (bounded, filed under its own key, published report in step); idempotence of
  replayed fills, listings and history; bounds of every meter, rate and proximity; agreement of
  the decimal guard with the number it accepts; transparency of the decode cache; exactness and
  progress of the warehouse's buffers under every interleaving; the impulse map comes to rest on the
  last symbol of an update; readings survive being written out and read back; the chart's surface is
  exactly what its lots call for, the grid gives it back, the tree of paths reads back as the keys it
  was built from; a painted canvas or list shows the present data whatever an earlier paint left; and
  every sample of a chart is drawn inside its frame; the list of settled trips is the ledger's. Four
  theorems state what the code does where it does not do what it means to: the intensity curve that
  is never drawn, the stop panel that never opens, the latent canvas left blank on a second visit, the
  button that should send the resonance draft. The loops that
  are not structural (eviction, digits of a number) terminate by measures; no fuel is used.

  \<^bold>\<open>Not modelled.\<close> How React schedules and reconciles what a component returns, classes and fixed
  markup, the remaining views (\<^verbatim>\<open>impulse-map-viz.tsx\<close>, \<^verbatim>\<open>ui/grid.tsx\<close>,
  \<^verbatim>\<open>ui/series-chart.tsx\<close>), what SciChart and d3 do with the series, nodes
  and attributes they are given (layout, joins, animation frames), routing and the generated route
  tree, whose effect is on the DOM; subscriptions and timers as such (a timer's callback is an
  operation); names inherited from \<^verbatim>\<open>Object.prototype\<close>; the readings cache of a value frame; the
  Go engine behind the hub, the desktop shell and the deployment files.
\<close>

end
